(* ===== verification/Prelude.thy ===== *)
theory Prelude
  imports Main
begin

text \<open>
  Shared notions of the development: fallible results (the Go pairs \<open>(value, error)\<close>),
  fallible operations over a state (a Go method on a receiver that may return an error), the
  association lists that stand for Go maps, and the general lemmas on lists, options and
  results that the component proofs use. The collections \<open>op_simps\<close> (unfolding of the
  operation combinators) and \<open>defs\<close> (constant tables of the program) are filled by the
  component theories.
\<close>

named_theorems op_simps \<open>unfolding rules of the operation combinators\<close>
named_theorems tables \<open>definitions of the program's constant tables\<close>

section \<open>Fallible results\<close>

text \<open>A Go result \<open>(v, err)\<close> is \<open>Inl err\<close> when \<open>err != nil\<close> and \<open>Inr v\<close> otherwise.\<close>

type_synonym ('e, 'a) result = "'e + 'a"

definition rbind :: "('e, 'a) result \<Rightarrow> ('a \<Rightarrow> ('e, 'b) result) \<Rightarrow> ('e, 'b) result" where
  "rbind m f = (case m of Inl e \<Rightarrow> Inl e | Inr x \<Rightarrow> f x)"

lemma rbind_simps [simp]:
  "rbind (Inl e) f = Inl e"
  "rbind (Inr x) f = f x"
  by (simp_all add: rbind_def)

lemma rbind_Inr_iff: "rbind m f = Inr y \<longleftrightarrow> (\<exists>x. m = Inr x \<and> f x = Inr y)"
  by (cases m) auto

lemma rbind_Inl_iff: "rbind m f = Inl e \<longleftrightarrow> m = Inl e \<or> (\<exists>x. m = Inr x \<and> f x = Inl e)"
  by (cases m) auto

definition ok :: "('e, 'a) result \<Rightarrow> bool" where
  "ok m \<longleftrightarrow> (\<exists>x. m = Inr x)"

lemma ok_simps [simp]: "ok (Inr x)" "\<not> ok (Inl e)"
  by (simp_all add: ok_def)

section \<open>Fallible operations over a state\<close>

type_synonym ('s, 'e, 'a) sop = "'s \<Rightarrow> ('e, 'a) result \<times> 's"

definition sret :: "'a \<Rightarrow> ('s, 'e, 'a) sop" where
  "sret x s = (Inr x, s)"

definition sfail :: "'e \<Rightarrow> ('s, 'e, 'a) sop" where
  "sfail e s = (Inl e, s)"

definition slift :: "('e, 'a) result \<Rightarrow> ('s, 'e, 'a) sop" where
  "slift m s = (m, s)"

text \<open>\<open>x, err := m(); if err != nil { return err }; f(x)\<close>\<close>

definition sbind :: "('s, 'e, 'a) sop \<Rightarrow> ('a \<Rightarrow> ('s, 'e, 'b) sop) \<Rightarrow> ('s, 'e, 'b) sop" where
  "sbind m f s = (case m s of (Inl e, s') \<Rightarrow> (Inl e, s') | (Inr x, s') \<Rightarrow> f x s')"

lemma sret_apply [simp]: "sret x s = (Inr x, s)"
  by (simp add: sret_def)

lemma sfail_apply [simp]: "sfail e s = (Inl e, s)"
  by (simp add: sfail_def)

lemma slift_apply [simp]: "slift m s = (m, s)"
  by (simp add: slift_def)

lemma sbind_cases:
  assumes "sbind m f s = (r, s')"
  obtains (fail) e where "m s = (Inl e, s')" "r = Inl e"
    | (step) x s1 where "m s = (Inr x, s1)" "f x s1 = (r, s')"
  using assms by (auto simp: sbind_def split: prod.splits sum.splits)

lemma sbind_Inr_iff:
  "sbind m f s = (Inr y, s') \<longleftrightarrow> (\<exists>x s1. m s = (Inr x, s1) \<and> f x s1 = (Inr y, s'))"
  by (auto simp: sbind_def split: prod.splits sum.splits)

lemma sbind_slift [simp]: "sbind (slift m) f s = (case m of Inl e \<Rightarrow> (Inl e, s) | Inr x \<Rightarrow> f x s)"
  by (simp add: sbind_def split: sum.split)

lemma sbind_sret [simp]: "sbind (sret x) f s = f x s"
  by (simp add: sbind_def)

lemma sbind_sfail [simp]: "sbind (sfail e) f s = (Inl e, s)"
  by (simp add: sbind_def)

text \<open>The state after an operation, and the invariants it keeps whatever it returns.\<close>

definition keeps :: "('s \<Rightarrow> bool) \<Rightarrow> ('s, 'e, 'a) sop \<Rightarrow> bool" where
  "keeps P m \<longleftrightarrow> (\<forall>s. P s \<longrightarrow> P (snd (m s)))"

lemma keepsD: "keeps P m \<Longrightarrow> P s \<Longrightarrow> m s = (r, s') \<Longrightarrow> P s'"
  by (auto simp: keeps_def dest!: spec [of _ s])

lemma keepsI: "(\<And>s r s'. P s \<Longrightarrow> m s = (r, s') \<Longrightarrow> P s') \<Longrightarrow> keeps P m"
  unfolding keeps_def by (metis prod.collapse)

lemma keeps_sret [simp, intro]: "keeps P (sret x)"
  by (simp add: keeps_def)

lemma keeps_sfail [simp, intro]: "keeps P (sfail e)"
  by (simp add: keeps_def)

lemma keeps_slift [simp, intro]: "keeps P (slift m)"
  by (simp add: keeps_def)

lemma keeps_sbind [intro]:
  assumes "keeps P m" and "\<And>x. keeps P (f x)"
  shows "keeps P (sbind m f)"
proof (rule keepsI)
  fix s r s'
  assume "P s" and "sbind m f s = (r, s')"
  from this(2) show "P s'"
  proof (cases rule: sbind_cases)
    case (fail e)
    with \<open>P s\<close> assms(1) show ?thesis by (blast dest: keepsD)
  next
    case (step x s1)
    with \<open>P s\<close> assms(1) have "P s1" by (blast dest: keepsD)
    with step assms(2) show ?thesis by (blast dest: keepsD)
  qed
qed

lemma keeps_if [intro]: "(b \<Longrightarrow> keeps P m) \<Longrightarrow> (\<not> b \<Longrightarrow> keeps P n) \<Longrightarrow> keeps P (if b then m else n)"
  by simp

section \<open>Go maps as association lists\<close>

text \<open>
  A Go map whose values the program iterates over is a list of key/value pairs with distinct
  keys. The order of the list stands for the (unspecified) order in which \<open>range\<close>
  visits the map; results that must not depend on it are stated for every order. Reading a
  missing key of a string map gives the zero value.
\<close>

type_synonym ('k, 'v) gomap = "('k \<times> 'v) list"

definition mget :: "('k, string) gomap \<Rightarrow> 'k \<Rightarrow> string" where
  "mget m k = (case map_of m k of None \<Rightarrow> [] | Some v \<Rightarrow> v)"

fun mput :: "('k, 'v) gomap \<Rightarrow> 'k \<Rightarrow> 'v \<Rightarrow> ('k, 'v) gomap" where
  "mput [] k v = [(k, v)]"
| "mput ((k', v') # m) k v = (if k' = k then (k, v) # m else (k', v') # mput m k v)"

definition mdel :: "('k, 'v) gomap \<Rightarrow> 'k \<Rightarrow> ('k, 'v) gomap" where
  "mdel m k = filter (\<lambda>p. fst p \<noteq> k) m"

lemma map_of_mput [simp]: "map_of (mput m k v) = (map_of m)(k \<mapsto> v)"
  by (induction m k v rule: mput.induct) (auto simp: fun_upd_twist)

lemma map_of_mdel [simp]: "map_of (mdel m k) = (map_of m)(k := None)"
  by (induction m) (auto simp: mdel_def fun_eq_iff)

lemma keys_mput [simp]: "fst ` set (mput m k v) = insert k (fst ` set m)"
  by (induction m k v rule: mput.induct) auto

lemma mput_keys: "map fst (mput m k v) = (if k \<in> fst ` set m then map fst m else map fst m @ [k])"
  by (induction m k v rule: mput.induct) auto

lemma length_mput: "length (mput m k v) = (if k \<in> fst ` set m then length m else Suc (length m))"
  using arg_cong [OF mput_keys [of m k v], of length] by (simp split: if_splits)

lemma keys_mput_map [simp]: "set (map fst (mput m k v)) = insert k (set (map fst m))"
  by (induction m k v rule: mput.induct) auto

lemma distinct_mput [simp]: "distinct (map fst m) \<Longrightarrow> distinct (map fst (mput m k v))"
  by (induction m k v rule: mput.induct) (auto simp del: set_map)

lemma distinct_mdel [simp]: "distinct (map fst m) \<Longrightarrow> distinct (map fst (mdel m k))"
  by (induction m) (auto simp: mdel_def)

lemma mget_mput [simp]: "mget (mput m k v) k' = (if k' = k then v else mget m k')"
  by (simp add: mget_def)

section \<open>Lists\<close>

lemma find_SomeD: "find P xs = Some x \<Longrightarrow> x \<in> set xs \<and> P x"
  by (auto simp: find_Some_iff in_set_conv_nth)

lemma find_None_filter: "find P xs = None \<longleftrightarrow> filter P xs = []"
  by (auto simp: find_None_iff filter_empty_conv)

lemma length_filter_Cons [simp]:
  "length (filter P (x # xs)) = (if P x then 1 else 0) + length (filter P xs)"
  by simp

lemma last_snoc_append [simp]: "last (xs @ [x]) = x"
  by simp

text \<open>Trimming a list at both ends, as \<open>strings.TrimFunc\<close> trims runes.\<close>

definition trim_both :: "('a \<Rightarrow> bool) \<Rightarrow> 'a list \<Rightarrow> 'a list" where
  "trim_both p xs = rev (dropWhile p (rev (dropWhile p xs)))"

lemma trim_both_set: "set (trim_both p xs) \<subseteq> set xs"
  unfolding trim_both_def
  by (metis dual_order.trans set_dropWhileD set_rev subsetI)

lemma trim_both_decomp: "\<exists>as bs. xs = as @ trim_both p xs @ bs \<and> (\<forall>x \<in> set as \<union> set bs. p x)"
proof -
  let ?ys = "dropWhile p xs"
  have "xs = takeWhile p xs @ rev (dropWhile p (rev ?ys)) @ rev (takeWhile p (rev ?ys))"
    by (metis rev_append rev_rev_ident takeWhile_dropWhile_id)
  then show ?thesis
    unfolding trim_both_def by (metis UnE set_rev set_takeWhileD)
qed

lemma dropWhile_id: "xs = [] \<or> \<not> p (hd xs) \<Longrightarrow> dropWhile p xs = xs"
  by (cases xs) auto

lemma hd_trim_both: "trim_both p xs \<noteq> [] \<Longrightarrow> \<not> p (hd (trim_both p xs))"
proof -
  let ?ys = "dropWhile p xs" and ?zs = "trim_both p xs"
  assume ne: "?zs \<noteq> []"
  obtain bs where ys: "?ys = ?zs @ bs"
    unfolding trim_both_def
    by (metis append_take_drop_id dropWhile_eq_drop rev_append rev_rev_ident takeWhile_dropWhile_id)
  with ne have "hd ?zs = hd ?ys" by (metis hd_append2)
  moreover from ys ne have "?ys \<noteq> []" by auto
  ultimately show ?thesis by (metis hd_dropWhile)
qed

lemma last_trim_both: "trim_both p xs \<noteq> [] \<Longrightarrow> \<not> p (last (trim_both p xs))"
  unfolding trim_both_def by (metis Nil_is_rev_conv hd_dropWhile last_rev)

lemma trim_both_idem [simp]: "trim_both p (trim_both p xs) = trim_both p xs"
proof (cases "trim_both p xs = []")
  case True
  then show ?thesis by (simp only: True) (simp add: trim_both_def)
next
  case False
  let ?zs = "trim_both p xs"
  have "dropWhile p ?zs = ?zs"
    using hd_trim_both [OF False] by (simp add: dropWhile_id)
  moreover have "dropWhile p (rev ?zs) = rev ?zs"
    using last_trim_both [OF False] False by (simp add: dropWhile_id hd_rev)
  ultimately show ?thesis by (simp add: trim_both_def [of p ?zs])
qed

lemma dropWhile_map_comp: "dropWhile p (map f xs) = map f (dropWhile (\<lambda>x. p (f x)) xs)"
  by (induction xs) auto

lemma trim_both_map: "trim_both p (map f xs) = map f (trim_both (\<lambda>x. p (f x)) xs)"
  by (simp add: trim_both_def dropWhile_map_comp rev_map)

lemma trim_both_id: "\<forall>x \<in> set xs. \<not> p x \<Longrightarrow> trim_both p xs = xs"
  unfolding trim_both_def
  by (metis dropWhile_id hd_in_set rev_rev_ident set_rev)

end
