(* ===== verification/GoText.thy ===== *)
theory GoText
  imports Prelude "HOL-Library.Sublist"
begin

text \<open>
  What the program uses of Go's strings and of the packages \<open>unicode/utf8\<close>, \<open>unicode\<close>,
  \<open>strings\<close>, \<open>strconv\<close> and \<open>fmt\<close>. A Go string is a sequence of bytes, here a
  \<open>char list\<close> (a HOL \<open>char\<close> is a byte), so \<open>length\<close> is Go's \<open>len\<close>. Where the
  program works on runes the bytes are decoded as UTF-8: \<open>segs\<close> cuts a string into its
  runes, each with the bytes it was read from; a byte that starts no valid encoding is one
  segment with the rune U+FFFD, as \<open>utf8.DecodeRuneInString\<close> has it.
\<close>

section \<open>Bytes and runes\<close>

abbreviation ord :: "char \<Rightarrow> nat" where
  "ord c \<equiv> of_char c"

definition RuneError :: nat where
  "RuneError = 65533"

definition is_cont :: "char \<Rightarrow> bool" where
  "is_cont c \<longleftrightarrow> 128 \<le> ord c \<and> ord c \<le> 191"

text \<open>The decoder of one rune: its value and its width, \<open>None\<close> where the bytes are invalid.\<close>

definition second_ok :: "nat \<Rightarrow> char \<Rightarrow> bool" where
  "second_ok b0 c \<longleftrightarrow>
     (if b0 = 224 then 160 \<le> ord c \<and> ord c \<le> 191
      else if b0 = 237 then 128 \<le> ord c \<and> ord c \<le> 159
      else if b0 = 240 then 144 \<le> ord c \<and> ord c \<le> 191
      else if b0 = 244 then 128 \<le> ord c \<and> ord c \<le> 143
      else is_cont c)"

fun dec2 :: "nat \<Rightarrow> string \<Rightarrow> (nat \<times> nat) option" where
  "dec2 b0 (c1 # _) =
     (if second_ok b0 c1 then Some ((b0 - 192) * 64 + (ord c1 - 128), 2) else None)"
| "dec2 b0 _ = None"

fun dec3 :: "nat \<Rightarrow> string \<Rightarrow> (nat \<times> nat) option" where
  "dec3 b0 (c1 # c2 # _) =
     (if second_ok b0 c1 \<and> is_cont c2
      then Some (((b0 - 224) * 64 + (ord c1 - 128)) * 64 + (ord c2 - 128), 3) else None)"
| "dec3 b0 _ = None"

fun dec4 :: "nat \<Rightarrow> string \<Rightarrow> (nat \<times> nat) option" where
  "dec4 b0 (c1 # c2 # c3 # _) =
     (if second_ok b0 c1 \<and> is_cont c2 \<and> is_cont c3
      then Some ((((b0 - 240) * 64 + (ord c1 - 128)) * 64 + (ord c2 - 128)) * 64 + (ord c3 - 128), 4)
      else None)"
| "dec4 b0 _ = None"

fun dec_rune :: "string \<Rightarrow> (nat \<times> nat) option" where
  "dec_rune [] = None"
| "dec_rune (c # s) =
     (let b0 = ord c in
      if b0 < 128 then Some (b0, 1)
      else if 194 \<le> b0 \<and> b0 \<le> 223 then dec2 b0 s
      else if 224 \<le> b0 \<and> b0 \<le> 239 then dec3 b0 s
      else if 240 \<le> b0 \<and> b0 \<le> 244 then dec4 b0 s
      else None)"

definition DecodeRune :: "string \<Rightarrow> nat \<times> nat" where
  "DecodeRune s = (case dec_rune s of None \<Rightarrow> (RuneError, 1) | Some p \<Rightarrow> p)"

lemma dec2_width: "dec2 b s = Some (r, n) \<Longrightarrow> n = 2 \<and> 1 \<le> length s"
  by (induction b s rule: dec2.induct) (auto split: if_splits)

lemma dec3_width: "dec3 b s = Some (r, n) \<Longrightarrow> n = 3 \<and> 2 \<le> length s"
  by (induction b s rule: dec3.induct) (auto split: if_splits)

lemma dec4_width: "dec4 b s = Some (r, n) \<Longrightarrow> n = 4 \<and> 3 \<le> length s"
  by (induction b s rule: dec4.induct) (auto split: if_splits)

lemma dec_rune_width: "dec_rune s = Some (r, n) \<Longrightarrow> 1 \<le> n \<and> n \<le> length s"
  by (cases s) (auto simp: Let_def split: if_splits dest: dec2_width dec3_width dec4_width)

text \<open>The decoder looks at no byte beyond the rune it returns.\<close>

lemma dec2_local: "dec2 b s = Some (r, n) \<Longrightarrow> dec2 b (take 1 s @ t) = Some (r, n)"
  by (induction b s rule: dec2.induct) (auto split: if_splits)

lemma dec3_local: "dec3 b s = Some (r, n) \<Longrightarrow> dec3 b (take 2 s @ t) = Some (r, n)"
  by (induction b s rule: dec3.induct) (auto split: if_splits simp: numeral_2_eq_2)

lemma dec4_local: "dec4 b s = Some (r, n) \<Longrightarrow> dec4 b (take 3 s @ t) = Some (r, n)"
  by (induction b s rule: dec4.induct) (auto split: if_splits simp: numeral_3_eq_3)

lemma dec_rune_local:
  assumes "dec_rune s = Some (r, n)"
  shows "dec_rune (take n s @ t) = Some (r, n)"
proof (cases s)
  case Nil
  with assms show ?thesis by simp
next
  case (Cons c cs)
  consider "ord c < 128"
    | "\<not> ord c < 128" "194 \<le> ord c \<and> ord c \<le> 223" "dec2 (ord c) cs = Some (r, n)"
    | "\<not> ord c < 128" "\<not> (194 \<le> ord c \<and> ord c \<le> 223)" "224 \<le> ord c \<and> ord c \<le> 239"
        "dec3 (ord c) cs = Some (r, n)"
    | "\<not> ord c < 128" "\<not> (194 \<le> ord c \<and> ord c \<le> 223)" "\<not> (224 \<le> ord c \<and> ord c \<le> 239)"
        "240 \<le> ord c \<and> ord c \<le> 244" "dec4 (ord c) cs = Some (r, n)"
    using assms Cons by (auto simp: Let_def split: if_splits)
  then show ?thesis
  proof cases
    case 1
    with assms Cons show ?thesis by auto
  next
    case 2
    with dec2_width [of "ord c" cs r n] dec2_local [of "ord c" cs r n t] Cons
    show ?thesis by (simp add: Let_def numeral_2_eq_2)
  next
    case 3
    with dec3_width [of "ord c" cs r n] dec3_local [of "ord c" cs r n t] Cons
    show ?thesis by (simp add: Let_def numeral_3_eq_3 numeral_2_eq_2)
  next
    case 4
    with dec4_width [of "ord c" cs r n] dec4_local [of "ord c" cs r n t] Cons
    show ?thesis by (simp add: Let_def eval_nat_numeral)
  qed
qed

text \<open>A string as its runes, each with its bytes.\<close>

function segs :: "string \<Rightarrow> (nat \<times> string) list" where
  "segs [] = []"
| "segs (c # cs) =
     (case DecodeRune (c # cs) of (r, n) \<Rightarrow> (r, take n (c # cs)) # segs (drop (n - 1) cs))"
  by pat_completeness auto
termination
  by (relation "measure length") (auto simp: less_Suc_eq_le)

definition runes :: "string \<Rightarrow> nat list" where
  "runes s = map fst (segs s)"

definition RuneCount :: "string \<Rightarrow> nat" where
  "RuneCount s = length (segs s)"

definition unsegs :: "(nat \<times> string) list \<Rightarrow> string" where
  "unsegs ss = concat (map snd ss)"

lemma unsegs_simps [simp]:
  "unsegs [] = []" "unsegs (x # ss) = snd x @ unsegs ss" "unsegs (ss @ ts) = unsegs ss @ unsegs ts"
  by (simp_all add: unsegs_def)

lemma DecodeRune_pos: "DecodeRune s = (r, n) \<Longrightarrow> 1 \<le> n"
  by (auto simp: DecodeRune_def split: option.splits dest: dec_rune_width)

lemma unsegs_segs [simp]: "unsegs (segs s) = s"
proof (induction s rule: segs.induct)
  case (2 c cs)
  obtain r n where d: "DecodeRune (c # cs) = (r, n)" by (cases "DecodeRune (c # cs)")
  from DecodeRune_pos [OF d] obtain k where "n = Suc k" by (cases n) auto
  with d "2.IH" [OF d [symmetric]] show ?case by simp
qed simp

lemma segs_nonempty: "(r, b) \<in> set (segs s) \<Longrightarrow> b \<noteq> []"
proof (induction s rule: segs.induct)
  case (2 c cs)
  obtain r' n where d: "DecodeRune (c # cs) = (r', n)" by (cases "DecodeRune (c # cs)")
  from DecodeRune_pos [OF d] obtain k where "n = Suc k" by (cases n) auto
  with "2.prems" "2.IH" [OF d [symmetric]] d show ?case by auto
qed simp

lemma RuneCount_le_length: "RuneCount s \<le> length s"
proof (induction s rule: segs.induct)
  case (2 c cs)
  obtain r' n where d: "DecodeRune (c # cs) = (r', n)" by (cases "DecodeRune (c # cs)")
  from "2.IH" [OF d [symmetric]] d show ?case by (simp add: RuneCount_def)
qed (simp add: RuneCount_def)

text \<open>Valid segments, and the strings made of them.\<close>

definition valid_seg :: "nat \<times> string \<Rightarrow> bool" where
  "valid_seg x \<longleftrightarrow> dec_rune (snd x) = Some (fst x, length (snd x))"

definition valid_utf8 :: "string \<Rightarrow> bool" where
  "valid_utf8 s \<longleftrightarrow> (\<forall>x \<in> set (segs s). valid_seg x)"

lemma valid_seg_nonempty: "valid_seg x \<Longrightarrow> snd x \<noteq> []"
  by (auto simp: valid_seg_def)

lemma valid_seg_append: "valid_seg x \<Longrightarrow> DecodeRune (snd x @ t) = (fst x, length (snd x))"
  using dec_rune_local [of "snd x" "fst x" "length (snd x)" t]
  by (simp add: valid_seg_def DecodeRune_def)

lemma segs_unsegs: "\<forall>x \<in> set ss. valid_seg x \<Longrightarrow> segs (unsegs ss) = ss"
proof (induction ss)
  case (Cons x ss)
  from Cons.prems have v: "valid_seg x" by simp
  then obtain c cs where x: "snd x = c # cs"
    using valid_seg_nonempty by (cases "snd x") auto
  from valid_seg_append [OF v, of "unsegs ss"] x
  have "DecodeRune (c # cs @ unsegs ss) = (fst x, Suc (length cs))" by simp
  with Cons x show ?case by (cases x) simp
qed simp

lemma valid_utf8_unsegs: "\<forall>x \<in> set ss. valid_seg x \<Longrightarrow> valid_utf8 (unsegs ss)"
  by (simp add: valid_utf8_def segs_unsegs)

text \<open>A segment is valid or an error, and a stretch of segments is cut again as it was.\<close>

lemma segs_cases: "x \<in> set (segs s) \<Longrightarrow> valid_seg x \<or> fst x = RuneError"
proof (induction s rule: segs.induct)
  case (2 c cs)
  obtain r n where d: "DecodeRune (c # cs) = (r, n)" by (cases "DecodeRune (c # cs)")
  show ?case
  proof (cases "x \<in> set (segs (drop (n - 1) cs))")
    case True
    then show ?thesis by (rule "2.IH" [OF d [symmetric]])
  next
    case False
    with "2.prems" d have x: "x = (r, take n (c # cs))" by auto
    show ?thesis
    proof (cases "dec_rune (c # cs)")
      case None
      with d x show ?thesis by (simp add: DecodeRune_def)
    next
      case (Some p)
      with d have dr: "dec_rune (c # cs) = Some (r, n)" by (simp add: DecodeRune_def del: dec_rune.simps)
      from dec_rune_local [OF this, of "[]"] dec_rune_width [OF this] x
      show ?thesis by (simp add: valid_seg_def del: dec_rune.simps)
    qed
  qed
qed simp

lemma dec_rune_mono: "dec_rune p = Some (r, n) \<Longrightarrow> dec_rune (p @ t) = Some (r, n)"
proof -
  assume d: "dec_rune p = Some (r, n)"
  have "p @ t = take n p @ drop n p @ t" by simp
  then show ?thesis using dec_rune_local [OF d, of "drop n p @ t"] by (simp only:)
qed

lemma DecodeRune_prefix:
  assumes "DecodeRune (p @ t) = (r, n)" and "n \<le> length p" and "p \<noteq> []"
  shows "DecodeRune p = (r, n)"
proof (cases "dec_rune (p @ t)")
  case None
  then have "dec_rune p = None" using dec_rune_mono [of p _ _ t] by (cases "dec_rune p") auto
  with None assms(1) show ?thesis by (simp add: DecodeRune_def)
next
  case (Some q)
  with assms have "dec_rune (take n (p @ t) @ drop n p) = Some (r, n)"
    by (intro dec_rune_local) (simp add: DecodeRune_def)
  with assms(2) show ?thesis by (simp add: DecodeRune_def)
qed

lemma segs_prefix: "segs s = ys @ bs \<Longrightarrow> segs (unsegs ys) = ys"
proof (induction s arbitrary: ys rule: segs.induct)
  case (2 c cs)
  obtain r n where d: "DecodeRune (c # cs) = (r, n)" by (cases "DecodeRune (c # cs)")
  have n: "1 \<le> n" "n \<le> length (c # cs)"
    using d dec_rune_width [of "c # cs" r n] by (auto simp: DecodeRune_def simp del: dec_rune.simps split: option.splits)
  show ?case
  proof (cases ys)
    case (Cons y zs)
    with "2.prems" d have y: "y = (r, take n (c # cs))" and zs: "segs (drop (n - 1) cs) = zs @ bs" by auto
    from "2.IH" [OF d [symmetric] zs] have IH: "segs (unsegs zs) = zs" .
    have "c # cs = unsegs ys @ unsegs bs"
      using arg_cong [OF "2.prems", of unsegs] by (simp only: unsegs_segs unsegs_simps)
    then have d': "DecodeRune (unsegs ys @ unsegs bs) = (r, n)" using d by (simp only:)
    have u: "unsegs ys = take n (c # cs) @ unsegs zs" by (simp add: Cons y)
    have "length (take n (c # cs)) = n" using n(2) by (simp only: length_take min_absorb2)
    then have len: "n \<le> length (unsegs ys)" by (simp only: u length_append)
    then have "unsegs ys \<noteq> []" using n(1) by (cases "unsegs ys") simp_all
    with d' len have "DecodeRune (unsegs ys) = (r, n)" by (rule DecodeRune_prefix)
    moreover obtain k where k: "n = Suc k" using n(1) by (cases n) simp_all
    ultimately have "segs (unsegs ys) = (r, take n (c # cs)) # segs (unsegs zs)"
      using n by (simp add: u)
    with IH show ?thesis by (simp add: Cons y)
  qed simp
qed simp

lemma segs_suffix: "segs s = as @ ys \<Longrightarrow> segs (unsegs ys) = ys"
proof (induction s arbitrary: as rule: segs.induct)
  case (2 c cs)
  obtain r n where d: "DecodeRune (c # cs) = (r, n)" by (cases "DecodeRune (c # cs)")
  show ?case
  proof (cases as)
    case Nil
    with "2.prems" have "ys = segs (c # cs)" by (simp only: append_Nil)
    then show ?thesis by (simp only: unsegs_segs)
  next
    case (Cons a as')
    with "2.prems" d have "segs (drop (n - 1) cs) = as' @ ys" by auto
    then show ?thesis by (rule "2.IH" [OF d [symmetric]])
  qed
qed simp

text \<open>Plain ASCII strings: one segment per byte.\<close>

definition ascii :: "string \<Rightarrow> bool" where
  "ascii s \<longleftrightarrow> (\<forall>c \<in> set s. ord c < 128)"

lemma ascii_simps [simp]:
  "ascii []" "ascii (c # s) \<longleftrightarrow> ord c < 128 \<and> ascii s" "ascii (s @ t) \<longleftrightarrow> ascii s \<and> ascii t"
  by (auto simp: ascii_def)

lemma segs_ascii: "ascii s \<Longrightarrow> segs s = map (\<lambda>c. (ord c, [c])) s"
  by (induction s) (auto simp: DecodeRune_def)

lemma ascii_valid: "ascii s \<Longrightarrow> valid_utf8 s"
  by (auto simp: valid_utf8_def segs_ascii valid_seg_def ascii_def)

lemma runes_ascii: "ascii s \<Longrightarrow> runes s = map ord s"
  by (simp add: runes_def segs_ascii)

section \<open>Package unicode\<close>

definition IsSpace :: "nat \<Rightarrow> bool" where
  "IsSpace r \<longleftrightarrow> (9 \<le> r \<and> r \<le> 13) \<or> r = 32 \<or> r = 133 \<or> r = 160 \<or> r = 5760 \<or>
     (8192 \<le> r \<and> r \<le> 8202) \<or> r = 8232 \<or> r = 8233 \<or> r = 8239 \<or> r = 8287 \<or> r = 12288"

definition is_digit :: "char \<Rightarrow> bool" where
  "is_digit c \<longleftrightarrow> 48 \<le> ord c \<and> ord c \<le> 57"

definition is_upper :: "char \<Rightarrow> bool" where
  "is_upper c \<longleftrightarrow> 65 \<le> ord c \<and> ord c \<le> 90"

definition is_lower :: "char \<Rightarrow> bool" where
  "is_lower c \<longleftrightarrow> 97 \<le> ord c \<and> ord c \<le> 122"

text \<open>
  Case mapping. Of the runes beyond ASCII, only U+0131 (dotless i) and U+017F (long s) have
  an ASCII upper case, and only U+0130 and U+212A (Kelvin sign) an ASCII lower case. Every
  caller in the program compares the mapped text with ASCII text, or drops what is not
  ASCII, so the other runes are left as they are. An invalid byte becomes U+FFFD, as in
  \<open>strings.Map\<close>.
\<close>

definition FFFD :: string where
  "FFFD = [CHR 0xEF, CHR 0xBF, CHR 0xBD]"

definition up_seg :: "nat \<times> string \<Rightarrow> string" where
  "up_seg x = (if 97 \<le> fst x \<and> fst x \<le> 122 then [char_of (fst x - 32)]
     else if fst x = 305 then ''I'' else if fst x = 383 then ''S''
     else if fst x = RuneError then FFFD else snd x)"

definition low_seg :: "nat \<times> string \<Rightarrow> string" where
  "low_seg x = (if 65 \<le> fst x \<and> fst x \<le> 90 then [char_of (fst x + 32)]
     else if fst x = 304 then ''i'' else if fst x = 8490 then ''k''
     else if fst x = RuneError then FFFD else snd x)"

definition ToUpper :: "string \<Rightarrow> string" where
  "ToUpper s = concat (map up_seg (segs s))"

definition ToLower :: "string \<Rightarrow> string" where
  "ToLower s = concat (map low_seg (segs s))"

section \<open>Package strings\<close>

definition TrimSpace :: "string \<Rightarrow> string" where
  "TrimSpace s = unsegs (trim_both (\<lambda>x. IsSpace (fst x)) (segs s))"

fun Split :: "char \<Rightarrow> string \<Rightarrow> string list" where
  "Split d [] = [[]]"
| "Split d (c # s) =
     (if c = d then [] # Split d s
      else case Split d s of [] \<Rightarrow> [[c]] | p # ps \<Rightarrow> (c # p) # ps)"

text \<open>\<open>SplitN(s, sep, n)\<close> for \<open>n > 0\<close>: at most \<open>n\<close> parts, the last one unsplit.\<close>

fun SplitN :: "char \<Rightarrow> nat \<Rightarrow> string \<Rightarrow> string list" where
  "SplitN d 0 s = []"
| "SplitN d (Suc 0) s = [s]"
| "SplitN d (Suc (Suc n)) s =
     (if d \<in> set s
      then takeWhile (\<lambda>c. c \<noteq> d) s # SplitN d (Suc n) (tl (dropWhile (\<lambda>c. c \<noteq> d) s))
      else [s])"

fun Join :: "string list \<Rightarrow> string \<Rightarrow> string" where
  "Join [] sep = []"
| "Join [x] sep = x"
| "Join (x # y # xs) sep = x @ sep @ Join (y # xs) sep"

definition HasPrefix :: "string \<Rightarrow> string \<Rightarrow> bool" where
  "HasPrefix s p \<longleftrightarrow> take (length p) s = p"

definition TrimPrefix :: "string \<Rightarrow> string \<Rightarrow> string" where
  "TrimPrefix s p = (if HasPrefix s p then drop (length p) s else s)"

fun Contains :: "string \<Rightarrow> string \<Rightarrow> bool" where
  "Contains [] p = (p = [])"
| "Contains (c # s) p = (HasPrefix (c # s) p \<or> Contains s p)"

lemma Split_nonempty [simp]: "Split d s \<noteq> []"
  by (induction s) (auto split: list.split)

lemma Split_no_sep [simp]: "d \<notin> set a \<Longrightarrow> Split d a = [a]"
  by (induction a) auto

lemma Split_append [simp]: "d \<notin> set a \<Longrightarrow> Split d (a @ d # s) = a # Split d s"
  by (induction a) auto

lemma Join_Cons: "xs \<noteq> [] \<Longrightarrow> Join (x # xs) sep = x @ sep @ Join xs sep"
  by (cases xs) auto

lemma Join_Split: "Join (Split d s) [d] = s"
proof (induction s)
  case (Cons c s)
  obtain p ps where sp: "Split d s = p # ps" by (cases "Split d s") auto
  show ?case
  proof (cases "c = d")
    case True
    then show ?thesis using Cons.IH by (simp add: Join_Cons)
  next
    case False
    then show ?thesis using Cons.IH sp by (cases ps) auto
  qed
qed simp

lemma Split_parts: "p \<in> set (Split d s) \<Longrightarrow> d \<notin> set p"
proof (induction s arbitrary: p)
  case (Cons c s)
  then show ?case by (cases "Split d s") (auto split: if_splits)
qed simp

lemma HasPrefix_append [simp]: "HasPrefix (p @ s) p"
  by (simp add: HasPrefix_def)

lemma HasPrefix_iff: "HasPrefix s p \<longleftrightarrow> (\<exists>t. s = p @ t)"
  by (metis HasPrefix_append HasPrefix_def append_take_drop_id)

lemma TrimPrefix_append [simp]: "TrimPrefix (p @ s) p = s"
  by (simp add: TrimPrefix_def)

lemma segs_TrimSpace: "segs (TrimSpace s) = trim_both (\<lambda>x. IsSpace (fst x)) (segs s)"
proof -
  let ?p = "\<lambda>x :: nat \<times> string. IsSpace (fst x)"
  obtain as bs where "segs s = as @ trim_both ?p (segs s) @ bs"
    using trim_both_decomp [of "segs s" ?p] by blast
  from segs_suffix [OF this] have "segs (unsegs (trim_both ?p (segs s) @ bs)) = trim_both ?p (segs s) @ bs" .
  from segs_prefix [OF this] show ?thesis by (simp add: TrimSpace_def)
qed

lemma TrimSpace_idem [simp]: "TrimSpace (TrimSpace s) = TrimSpace s"
  unfolding TrimSpace_def [of "TrimSpace s"] segs_TrimSpace trim_both_idem
  by (simp add: TrimSpace_def)

text \<open>Upper case, segment by segment: it is stable, and trimming commutes with it.\<close>

definition up_pair :: "nat \<times> string \<Rightarrow> nat \<times> string" where
  "up_pair x = (if 97 \<le> fst x \<and> fst x \<le> 122 then (fst x - 32, [char_of (fst x - 32)])
     else if fst x = 305 then (73, ''I'') else if fst x = 383 then (83, ''S'')
     else if fst x = RuneError then (RuneError, FFFD) else x)"

lemma up_seg_pair: "up_seg x = snd (up_pair x)"
  by (simp add: up_seg_def up_pair_def)

lemma valid_ascii_seg: "n < 128 \<Longrightarrow> valid_seg (n, [char_of n])"
  by (simp add: valid_seg_def)

lemma dec_rune_ascii:
  assumes "dec_rune s = Some (r, n)" and "r < 128"
  shows "n = 1 \<and> s \<noteq> [] \<and> hd s = char_of r"
proof (cases s)
  case Nil
  with assms show ?thesis by simp
next
  case (Cons c cs)
  have d2: "128 \<le> r" if "dec2 b cs = Some (r, n)" "194 \<le> b" for b
    using that by (induction b cs rule: dec2.induct) (auto split: if_splits)
  have d3: "128 \<le> r" if "dec3 b cs = Some (r, n)" "224 \<le> b" for b
    using that by (induction b cs rule: dec3.induct) (auto simp: second_ok_def split: if_splits)
  have d4: "128 \<le> r" if "dec4 b cs = Some (r, n)" "240 \<le> b" for b
    using that by (induction b cs rule: dec4.induct) (auto simp: second_ok_def split: if_splits)
  show ?thesis
    using assms d2 [of "ord c"] d3 [of "ord c"] d4 [of "ord c"]
    by (auto simp: Cons Let_def split: if_splits)
qed

lemma valid_seg_ascii: "valid_seg x \<Longrightarrow> fst x < 128 \<Longrightarrow> snd x = [char_of (fst x)]"
  unfolding valid_seg_def by (drule (1) dec_rune_ascii) (auto simp: length_Suc_conv)

lemma ascii_runes: "\<forall>r \<in> set (runes s). r < 128 \<Longrightarrow> ascii s"
proof -
  assume r: "\<forall>r \<in> set (runes s). r < 128"
  have "ord c < 128" if "x \<in> set (segs s)" "c \<in> set (snd x)" for x c
  proof -
    have f: "fst x < 128" using r that(1) by (auto simp: runes_def)
    then have "valid_seg x" using segs_cases [OF that(1)] by (auto simp: RuneError_def)
    then have "snd x = [char_of (fst x)]" using f by (rule valid_seg_ascii)
    with that(2) f show ?thesis by simp
  qed
  then have "ascii (unsegs (segs s))" by (auto simp: ascii_def unsegs_def)
  then show ?thesis by simp
qed

lemma valid_up_pair: "valid_seg x \<or> fst x = RuneError \<Longrightarrow> valid_seg (up_pair x)"
proof -
  assume x: "valid_seg x \<or> fst x = RuneError"
  have "valid_seg (RuneError, FFFD)" "valid_seg (73, ''I'')" "valid_seg (83, ''S'')"
    by (simp_all add: valid_seg_def FFFD_def RuneError_def second_ok_def is_cont_def)
  with x show ?thesis by (auto simp: up_pair_def intro!: valid_ascii_seg)
qed

lemma up_pair_idem [simp]: "up_pair (up_pair x) = up_pair x"
  by (auto simp: up_pair_def RuneError_def)

lemma IsSpace_up_pair [simp]: "IsSpace (fst (up_pair x)) = IsSpace (fst x)"
  by (auto simp: up_pair_def IsSpace_def RuneError_def)

lemma ToUpper_pairs: "ToUpper s = unsegs (map up_pair (segs s))"
  by (simp add: ToUpper_def unsegs_def up_seg_pair [abs_def] comp_def)

lemma segs_ToUpper: "segs (ToUpper s) = map up_pair (segs s)"
  unfolding ToUpper_pairs by (rule segs_unsegs) (auto dest: segs_cases intro!: valid_up_pair)

lemma ToUpper_idem [simp]: "ToUpper (ToUpper s) = ToUpper s"
  unfolding ToUpper_pairs [of "ToUpper s"] segs_ToUpper by (simp add: ToUpper_pairs comp_def)

lemma TrimSpace_ToUpper: "TrimSpace (ToUpper s) = ToUpper (TrimSpace s)"
  unfolding TrimSpace_def [of "ToUpper s"] segs_ToUpper ToUpper_pairs [of "TrimSpace s"] segs_TrimSpace
  by (simp add: trim_both_map)

lemma trim_split: "\<exists>as bs. s = unsegs as @ TrimSpace s @ unsegs bs"
proof -
  let ?z = "trim_both (\<lambda>x. IsSpace (fst x)) (segs s)"
  obtain as bs where ss: "segs s = as @ ?z @ bs"
    using trim_both_decomp [of "segs s" "\<lambda>x. IsSpace (fst x)"] by blast
  have "s = unsegs (as @ ?z @ bs)"
    using unsegs_segs [of s] by (simp only: ss [symmetric])
  also have "\<dots> = unsegs as @ TrimSpace s @ unsegs bs"
    by (simp only: unsegs_simps TrimSpace_def)
  finally show ?thesis by blast
qed

lemma length_TrimSpace: "length (TrimSpace s) \<le> length s"
proof -
  obtain as bs where "s = unsegs as @ TrimSpace s @ unsegs bs"
    using trim_split by blast
  then have "length s = length (unsegs as @ TrimSpace s @ unsegs bs)" by (rule arg_cong)
  then show ?thesis by (simp only: length_append)
qed

lemma set_TrimSpace: "set (TrimSpace s) \<subseteq> set s"
proof -
  obtain as bs where "s = unsegs as @ TrimSpace s @ unsegs bs"
    using trim_split by blast
  then have "set s = set (unsegs as @ TrimSpace s @ unsegs bs)" by (rule arg_cong)
  then show ?thesis by (simp only: set_append) blast
qed

text \<open>Text without white space is not changed by trimming.\<close>

lemma TrimSpace_ascii_id:
  assumes "ascii s" and "\<forall>c \<in> set s. \<not> IsSpace (ord c)"
  shows "TrimSpace s = s"
proof -
  have "\<forall>x \<in> set (segs s). \<not> IsSpace (fst x)"
    using assms by (auto simp: segs_ascii)
  then have "trim_both (\<lambda>x. IsSpace (fst x)) (segs s) = segs s" by (rule trim_both_id)
  then show ?thesis by (simp add: TrimSpace_def)
qed

lemma ToUpper_ascii: "ascii s \<Longrightarrow> ToUpper s = map (\<lambda>c. if is_lower c then char_of (ord c - 32) else c) s"
proof (induction s)
  case (Cons c s)
  then show ?case
    by (auto simp: ToUpper_def segs_ascii up_seg_def is_lower_def RuneError_def DecodeRune_def)
qed (simp add: ToUpper_def)

lemma ToUpper_no_lower: "ascii s \<Longrightarrow> \<forall>c \<in> set s. \<not> is_lower c \<Longrightarrow> ToUpper s = s"
  by (simp add: ToUpper_ascii map_idI)

section \<open>Decimal numbers\<close>

definition digit :: "nat \<Rightarrow> char" where
  "digit d = char_of (48 + d)"

definition digit_val :: "char \<Rightarrow> nat" where
  "digit_val c = ord c - 48"

fun dec :: "nat \<Rightarrow> string" where
  "dec n = (if n < 10 then [digit n] else dec (n div 10) @ [digit (n mod 10)])"

declare dec.simps [simp del]

text \<open>The value of a string of digits.\<close>

definition val :: "string \<Rightarrow> nat" where
  "val s = foldl (\<lambda>a c. 10 * a + digit_val c) 0 s"

definition all_digits :: "string \<Rightarrow> bool" where
  "all_digits s \<longleftrightarrow> (\<forall>c \<in> set s. is_digit c)"

text \<open>\<open>fmt.Sprintf("%0wd", n)\<close> for a non-negative number.\<close>

definition pad :: "nat \<Rightarrow> string \<Rightarrow> string" where
  "pad w s = replicate (w - length s) CHR ''0'' @ s"

lemma ord_digit [simp]: "d < 10 \<Longrightarrow> ord (digit d) = 48 + d"
  by (simp add: digit_def)

lemma digit_val_digit [simp]: "d < 10 \<Longrightarrow> digit_val (digit d) = d"
  by (simp add: digit_val_def)

lemma is_digit_digit [simp]: "d < 10 \<Longrightarrow> is_digit (digit d)"
  by (simp add: is_digit_def)

lemma digit_0: "digit 0 = CHR ''0''"
  by (simp add: digit_def char_of_def bit_iff_odd)

lemma digit_digit_val: "is_digit c \<Longrightarrow> digit (digit_val c) = c"
  by (simp add: is_digit_def digit_def digit_val_def)

lemma digit_val_less: "is_digit c \<Longrightarrow> digit_val c < 10"
  unfolding is_digit_def digit_val_def by linarith

lemma all_digits_simps [simp]:
  "all_digits []" "all_digits (c # s) \<longleftrightarrow> is_digit c \<and> all_digits s"
  "all_digits (s @ t) \<longleftrightarrow> all_digits s \<and> all_digits t"
  by (auto simp: all_digits_def)

lemma val_snoc [simp]: "val (s @ [c]) = 10 * val s + digit_val c"
  by (simp add: val_def)

lemma val_Nil [simp]: "val [] = 0"
  by (simp add: val_def)

lemma val_append: "val (s @ t) = val s * 10 ^ length t + val t"
  by (induction t rule: rev_induct) (simp_all flip: append_assoc add: algebra_simps)

lemma val_single [simp]: "val [c] = digit_val c"
  by (simp add: val_def)

lemma val_Cons: "val (c # s) = digit_val c * 10 ^ length s + val s"
  using val_append [of "[c]" s] by simp

lemma val_replicate_0 [simp]: "val (replicate n CHR ''0'') = 0"
  by (induction n) (simp_all add: val_Cons digit_val_def)

lemma val_dec [simp]: "val (dec n) = n"
proof (induction n rule: dec.induct)
  case (1 n)
  then show ?case by (subst dec.simps) auto
qed

lemma all_digits_dec [simp]: "all_digits (dec n)"
proof (induction n rule: dec.induct)
  case (1 n)
  then show ?case by (subst dec.simps) auto
qed

lemma dec_nonempty [simp]: "dec n \<noteq> []"
  by (subst dec.simps) simp

lemma val_pad [simp]: "val (pad w s) = val s"
  by (simp add: pad_def val_append)

lemma all_digits_pad [simp]: "all_digits (pad w s) = all_digits s"
  by (auto simp: pad_def all_digits_def is_digit_def)

lemma length_pad [simp]: "length (pad w s) = max w (length s)"
  by (simp add: pad_def)

lemma val_less: "all_digits s \<Longrightarrow> val s < 10 ^ length s"
proof (induction s rule: rev_induct)
  case (snoc c s)
  then have "val s < 10 ^ length s" and "digit_val c < 10" by (auto dest: digit_val_less)
  then show ?case by simp
qed simp

text \<open>Numbers below a power of ten have at most that many digits.\<close>

lemma length_dec_le: "n < 10 ^ k \<Longrightarrow> 0 < k \<Longrightarrow> length (dec n) \<le> k"
proof (induction k arbitrary: n)
  case (Suc k)
  show ?case
  proof (cases "n < 10")
    case True
    then show ?thesis by (subst dec.simps) simp
  next
    case False
    with Suc.prems have "n div 10 < 10 ^ k" and "0 < k"
      by (auto simp: less_mult_imp_div_less mult.commute intro: Nat.gr0I)
    with Suc.IH False show ?thesis by (subst dec.simps) simp
  qed
qed simp

lemma dec_val: "all_digits s \<Longrightarrow> s \<noteq> [] \<Longrightarrow> hd s \<noteq> CHR ''0'' \<or> length s = 1 \<Longrightarrow> dec (val s) = s"
proof (induction s rule: rev_induct)
  case (snoc c s)
  show ?case
  proof (cases "s = []")
    case True
    with snoc.prems show ?thesis
      by (subst dec.simps) (simp add: digit_val_less digit_digit_val)
  next
    case False
    with snoc.prems have h: "hd s \<noteq> CHR ''0''" and ds: "all_digits s" and c: "is_digit c" by auto
    have IH: "dec (val s) = s" using snoc.IH ds False h by simp
    have "val s \<noteq> 0"
    proof
      assume "val s = 0"
      with IH have "s = [digit 0]" by (subst (asm) dec.simps) simp
      with h show False by (simp add: digit_0)
    qed
    with IH c show ?thesis
      by (subst dec.simps) (simp add: digit_val_less digit_digit_val)
  qed
qed simp

section \<open>Package strconv\<close>

definition max_int64 :: int where
  "max_int64 = 2 ^ 63 - 1"

text \<open>Signed 64-bit arithmetic wraps around.\<close>

definition wrap64 :: "int \<Rightarrow> int" where
  "wrap64 x = (x + 2 ^ 63) mod 2 ^ 64 - 2 ^ 63"

lemma wrap64_id: "- (2 ^ 63) \<le> x \<Longrightarrow> x \<le> max_int64 \<Longrightarrow> wrap64 x = x"
  by (simp add: wrap64_def max_int64_def)

lemma wrap64_range: "- (2 ^ 63) \<le> wrap64 x \<and> wrap64 x \<le> max_int64"
  using pos_mod_bound [of "2 ^ 64" "x + 2 ^ 63"] by (simp add: wrap64_def max_int64_def)

text \<open>\<open>strconv.ParseInt(s, 10, 64)\<close>; \<open>strconv.Atoi\<close> is the same on a 64-bit platform.\<close>

definition parse_digits :: "string \<Rightarrow> nat option" where
  "parse_digits s = (if s \<noteq> [] \<and> all_digits s then Some (val s) else None)"

definition ParseInt64 :: "string \<Rightarrow> int option" where
  "ParseInt64 s =
     (case s of
        [] \<Rightarrow> None
      | c # r \<Rightarrow>
          if c = CHR ''-'' then
            (case parse_digits r of None \<Rightarrow> None
             | Some n \<Rightarrow> if n \<le> 2 ^ 63 then Some (- int n) else None)
          else
            (case parse_digits (if c = CHR ''+'' then r else s) of None \<Rightarrow> None
             | Some n \<Rightarrow> if n < 2 ^ 63 then Some (int n) else None))"

definition FormatInt :: "int \<Rightarrow> string" where
  "FormatInt n = (if n < 0 then CHR ''-'' # dec (nat (- n)) else dec (nat n))"

lemma ParseInt64_digits:
  assumes "all_digits s" and "s \<noteq> []"
  shows "ParseInt64 s = (if val s < 2 ^ 63 then Some (int (val s)) else None)"
proof -
  obtain c r where s: "s = c # r" using assms(2) by (cases s) auto
  with assms(1) have "c \<noteq> CHR ''-''" "c \<noteq> CHR ''+''" by (auto simp: is_digit_def)
  with s assms show ?thesis by (simp add: ParseInt64_def parse_digits_def)
qed

lemma ParseInt64_range: "ParseInt64 s = Some n \<Longrightarrow> - (2 ^ 63) \<le> n \<and> n \<le> max_int64"
  by (auto simp: ParseInt64_def max_int64_def split: list.splits if_splits option.splits)

declare segs.simps(2) [simp del]

end
