(* ===== verification/GoRegex.thy ===== *)
theory GoRegex
  imports GoText
begin

text \<open>
  The fragment of Go's package \<open>regexp\<close> (RE2 syntax, run on runes) that the program uses:
  character classes, concatenation, alternation, repetition, the word boundary \<open>\b\<close>, and
  unanchored search. \<open>ends\<close> is an executable matcher; \<open>matches\<close> is the declarative
  meaning; \<open>ends_iff\<close> shows that they agree. Case-insensitive literals are folded when the
  expression is built, as RE2 does: under \<open>(?i)\<close> a letter stands for both its cases, and
  \<open>k\<close>, \<open>s\<close> also for U+212A and U+017F.
\<close>

section \<open>Expressions\<close>

datatype rx =
    Cls "(nat \<times> nat) list"     \<comment> \<open>one rune in one of the ranges\<close>
  | NCls "(nat \<times> nat) list"    \<comment> \<open>one rune in none of the ranges\<close>
  | Eps
  | WordB                       \<comment> \<open>the empty matches at an ASCII word boundary\<close>
  | Cat rx rx
  | Alt rx rx
  | Star rx

definition in_ranges :: "(nat \<times> nat) list \<Rightarrow> nat \<Rightarrow> bool" where
  "in_ranges rs r \<longleftrightarrow> (\<exists>p \<in> set rs. fst p \<le> r \<and> r \<le> snd p)"

lemma in_ranges_simps [simp, code]:
  "in_ranges [] r = False"
  "in_ranges ((a, b) # rs) r = ((a \<le> r \<and> r \<le> b) \<or> in_ranges rs r)"
  by (auto simp: in_ranges_def)

text \<open>A position in the text: the rune before it, if any, and the runes after it.\<close>

type_synonym pos = "nat option \<times> nat list"

definition word_rune :: "nat \<Rightarrow> bool" where
  "word_rune r \<longleftrightarrow> (48 \<le> r \<and> r \<le> 57) \<or> (65 \<le> r \<and> r \<le> 90) \<or> r = 95 \<or> (97 \<le> r \<and> r \<le> 122)"

fun at_boundary :: "pos \<Rightarrow> bool" where
  "at_boundary (p, rest) =
     ((case p of None \<Rightarrow> False | Some r \<Rightarrow> word_rune r) \<noteq>
      (case rest of [] \<Rightarrow> False | r # _ \<Rightarrow> word_rune r))"

section \<open>Declarative meaning\<close>

inductive matches :: "rx \<Rightarrow> pos \<Rightarrow> pos \<Rightarrow> bool" where
  cls: "in_ranges rs r \<Longrightarrow> matches (Cls rs) (p, r # rest) (Some r, rest)"
| ncls: "\<not> in_ranges rs r \<Longrightarrow> matches (NCls rs) (p, r # rest) (Some r, rest)"
| eps: "matches Eps p p"
| wordb: "at_boundary p \<Longrightarrow> matches WordB p p"
| cat: "matches a p q \<Longrightarrow> matches b q r \<Longrightarrow> matches (Cat a b) p r"
| alt_left: "matches a p q \<Longrightarrow> matches (Alt a b) p q"
| alt_right: "matches b p q \<Longrightarrow> matches (Alt a b) p q"
| star_done: "matches (Star a) p p"
| star_more: "matches a p q \<Longrightarrow> matches (Star a) q r \<Longrightarrow> matches (Star a) p r"

inductive_cases matches_ClsE [elim!]: "matches (Cls rs) p q"
inductive_cases matches_NClsE [elim!]: "matches (NCls rs) p q"
inductive_cases matches_EpsE [elim!]: "matches Eps p q"
inductive_cases matches_WordBE [elim!]: "matches WordB p q"
inductive_cases matches_CatE [elim!]: "matches (Cat a b) p q"
inductive_cases matches_AltE [elim!]: "matches (Alt a b) p q"

text \<open>A matches consumes a prefix of the rest.\<close>

lemma matches_length: "matches a p q \<Longrightarrow> length (snd q) \<le> length (snd p)"
  by (induction rule: matches.induct) auto

lemma matches_same_length: "matches a p q \<Longrightarrow> length (snd q) = length (snd p) \<Longrightarrow> q = p"
proof (induction rule: matches.induct)
  case (cat a p q b r)
  then have "length (snd r) \<le> length (snd q)" "length (snd q) \<le> length (snd p)"
    by (auto dest: matches_length)
  with cat show ?case by simp
next
  case (star_more a p q r)
  then have "length (snd r) \<le> length (snd q)" "length (snd q) \<le> length (snd p)"
    by (auto dest: matches_length)
  with star_more show ?case by simp
qed simp_all

section \<open>The executable matcher\<close>

text \<open>
  All positions after a matches, without repetitions. A repetition is iterated while matches
  consume something; the length of the remaining text bounds the number of iterations.
\<close>

primrec star_iter :: "(pos \<Rightarrow> pos list) \<Rightarrow> nat \<Rightarrow> pos list \<Rightarrow> pos list" where
  "star_iter f 0 ps = ps"
| "star_iter f (Suc n) ps =
     (let qs = remdups (concat (map (\<lambda>p. filter (\<lambda>q. length (snd q) < length (snd p)) (f p)) ps))
      in if qs = [] then ps else ps @ star_iter f n qs)"

primrec ends :: "rx \<Rightarrow> pos \<Rightarrow> pos list" where
  "ends (Cls rs) = (\<lambda>(p, rest). case rest of [] \<Rightarrow> [] | r # rest' \<Rightarrow>
     if in_ranges rs r then [(Some r, rest')] else [])"
| "ends (NCls rs) = (\<lambda>(p, rest). case rest of [] \<Rightarrow> [] | r # rest' \<Rightarrow>
     if in_ranges rs r then [] else [(Some r, rest')])"
| "ends Eps = (\<lambda>p. [p])"
| "ends WordB = (\<lambda>p. if at_boundary p then [p] else [])"
| "ends (Cat a b) = (\<lambda>p. remdups (concat (map (ends b) (ends a p))))"
| "ends (Alt a b) = (\<lambda>p. remdups (ends a p @ ends b p))"
| "ends (Star a) = (\<lambda>p. star_iter (ends a) (length (snd p)) [p])"

lemma star_iter_sound:
  assumes "\<And>p q. q \<in> set (f p) \<Longrightarrow> matches a p q"
  shows "q \<in> set (star_iter f n ps) \<Longrightarrow> \<exists>p \<in> set ps. matches (Star a) p q"
proof (induction n arbitrary: ps)
  case 0
  then show ?case by (auto intro: matches.star_done)
next
  case (Suc n)
  let ?qs = "remdups (concat (map (\<lambda>p. filter (\<lambda>q. length (snd q) < length (snd p)) (f p)) ps))"
  from Suc.prems consider "q \<in> set ps" | "q \<in> set (star_iter f n ?qs)"
    by (auto simp: Let_def split: if_splits)
  then show ?case
  proof cases
    case 1
    then show ?thesis by (auto intro: matches.star_done)
  next
    case 2
    with Suc.IH obtain p' where p': "p' \<in> set ?qs" "matches (Star a) p' q" by blast
    then obtain p where "p \<in> set ps" "p' \<in> set (f p)" by auto
    with p' assms show ?thesis by (blast intro: matches.star_more)
  qed
qed

text \<open>A repetition can be cut into steps that consume text.\<close>

lemma star_iter_complete:
  assumes f: "\<And>p q. matches a p q \<Longrightarrow> q \<in> set (f p)"
  shows "matches (Star a) p q \<Longrightarrow> p \<in> set ps \<Longrightarrow> length (snd p) \<le> n \<Longrightarrow> q \<in> set (star_iter f n ps)"
proof (induction "Star a" p q arbitrary: ps n rule: matches.induct)
  case (star_done p)
  then show ?case by (cases n) (auto simp: Let_def)
next
  case (star_more p q r)
  show ?case
  proof (cases "q = p")
    case True
    with star_more show ?thesis by blast
  next
    case False
    with \<open>matches a p q\<close> have less: "length (snd q) < length (snd p)"
      by (meson le_neq_implies_less matches_length matches_same_length)
    with star_more.prems obtain m where n: "n = Suc m" by (cases n) auto
    let ?qs = "remdups (concat (map (\<lambda>p. filter (\<lambda>q. length (snd q) < length (snd p)) (f p)) ps))"
    have "q \<in> set (f p)" using \<open>matches a p q\<close> by (rule f)
    with less star_more.prems(1) have q: "q \<in> set ?qs" by auto
    moreover have "length (snd q) \<le> m" using less star_more.prems n by simp
    ultimately have "r \<in> set (star_iter f m ?qs)" using star_more.hyps by blast
    moreover have "?qs \<noteq> []" using q by (metis list.set_cases list.simps(3))
    ultimately show ?thesis using n by (simp only: star_iter.simps Let_def if_False set_append) blast
  qed
qed

theorem ends_iff: "q \<in> set (ends a p) \<longleftrightarrow> matches a p q"
proof (induction a arbitrary: p q)
  case (Star a)
  show ?case
  proof
    assume "q \<in> set (ends (Star a) p)"
    then have "q \<in> set (star_iter (ends a) (length (snd p)) [p])" by simp
    from star_iter_sound [OF _ this, of a] Star show "matches (Star a) p q" by auto
  next
    assume "matches (Star a) p q"
    then show "q \<in> set (ends (Star a) p)"
      using star_iter_complete [of a "ends a" p q "[p]" "length (snd p)"] Star by simp
  qed
qed (auto split: list.splits if_splits prod.splits intro: matches.intros)

section \<open>Search\<close>

text \<open>\<open>MatchString\<close>: some substring matches. Anchored expressions are \<open>full_match\<close>.\<close>

fun search_from :: "rx \<Rightarrow> nat option \<Rightarrow> nat list \<Rightarrow> bool" where
  "search_from a p [] = (ends a (p, []) \<noteq> [])"
| "search_from a p (r # rest) = (ends a (p, r # rest) \<noteq> [] \<or> search_from a (Some r) rest)"

definition MatchString :: "rx \<Rightarrow> string \<Rightarrow> bool" where
  "MatchString a s = search_from a None (runes s)"

text \<open>\<open>^a$\<close>: the whole text matches.\<close>

definition full_match :: "rx \<Rightarrow> string \<Rightarrow> bool" where
  "full_match a s \<longleftrightarrow> (\<exists>q \<in> set (ends a (None, runes s)). snd q = [])"

lemma full_match_iff: "full_match a s \<longleftrightarrow> (\<exists>p. matches a (None, runes s) (p, []))"
  unfolding full_match_def Bex_def ends_iff by auto

section \<open>Building expressions\<close>

fun cats :: "rx list \<Rightarrow> rx" where
  "cats [] = Eps"
| "cats [a] = a"
| "cats (a # b # as) = Cat a (cats (b # as))"

fun alts :: "rx list \<Rightarrow> rx" where
  "alts [] = Cls []"
| "alts [a] = a"
| "alts (a # b # as) = Alt a (alts (b # as))"

definition ropt :: "rx \<Rightarrow> rx" where "ropt a = Alt a Eps"
definition rplus :: "rx \<Rightarrow> rx" where "rplus a = Cat a (Star a)"

fun rtimes :: "nat \<Rightarrow> rx \<Rightarrow> rx" where
  "rtimes 0 a = Eps"
| "rtimes (Suc n) a = Cat a (rtimes n a)"

fun rupto :: "nat \<Rightarrow> rx \<Rightarrow> rx" where
  "rupto 0 a = Eps"
| "rupto (Suc n) a = Alt (Cat a (rupto n a)) Eps"

text \<open>\<open>a{n,}\<close> and \<open>a{n,m}\<close>.\<close>

definition atleast :: "nat \<Rightarrow> rx \<Rightarrow> rx" where "atleast n a = Cat (rtimes n a) (Star a)"
definition between :: "nat \<Rightarrow> nat \<Rightarrow> rx \<Rightarrow> rx" where "between n m a = Cat (rtimes n a) (rupto (m - n) a)"

text \<open>A literal, and a literal under \<open>(?i)\<close>.\<close>

definition rchr :: "char \<Rightarrow> rx" where "rchr c = Cls [(ord c, ord c)]"
definition rlit :: "string \<Rightarrow> rx" where "rlit s = cats (map rchr s)"

definition fold_rune :: "nat \<Rightarrow> (nat \<times> nat) list" where
  "fold_rune r =
     (let l = (if 65 \<le> r \<and> r \<le> 90 then r + 32 else r) in
      if 97 \<le> l \<and> l \<le> 122 then
        [(l, l), (l - 32, l - 32)] @ (if l = 107 then [(8490, 8490)] else if l = 115 then [(383, 383)] else [])
      else [(r, r)])"

definition richr :: "char \<Rightarrow> rx" where "richr c = Cls (fold_rune (ord c))"
definition rilit :: "string \<Rightarrow> rx" where "rilit s = cats (map richr s)"

text \<open>The classes of the expressions in use: \<open>\d\<close>, \<open>\s\<close>, \<open>[\w-]\<close> under \<open>(?i)\<close>, a list of characters.\<close>

definition d_cls :: "(nat \<times> nat) list" where "d_cls = [(48, 57)]"
definition s_cls :: "(nat \<times> nat) list" where "s_cls = [(9, 10), (12, 13), (32, 32)]"
definition ifold_az :: "(nat \<times> nat) list" where "ifold_az = [(97, 122), (65, 90), (383, 383), (8490, 8490)]"
definition chars :: "string \<Rightarrow> (nat \<times> nat) list" where "chars s = map (\<lambda>c. (ord c, ord c)) s"

definition rdig :: rx where "rdig = Cls d_cls"
definition rspc :: rx where "rspc = Cls s_cls"
definition rany :: rx where "rany = NCls [(10, 10)]"

text \<open>A run of characters of one class.\<close>

lemma matches_star_cls:
  "\<forall>r \<in> set xs. in_ranges rs r \<Longrightarrow> matches (Star (Cls rs)) (p, xs @ ys) (if xs = [] then p else Some (last xs), ys)"
proof (induction xs arbitrary: p)
  case Nil
  then show ?case by (auto intro: matches.star_done)
next
  case (Cons x xs)
  then have "matches (Star (Cls rs)) (Some x, xs @ ys) (if xs = [] then Some x else Some (last xs), ys)"
    by simp
  moreover have "matches (Cls rs) (p, (x # xs) @ ys) (Some x, xs @ ys)"
    using Cons.prems by (simp add: matches.cls)
  ultimately have "matches (Star (Cls rs)) (p, (x # xs) @ ys) (if xs = [] then Some x else Some (last xs), ys)"
    by (rule matches.star_more [rotated])
  then show ?case by (cases "xs = []") simp_all
qed

lemma star_cls_consumes: "matches (Star (Cls rs)) pos q \<Longrightarrow>
  \<exists>xs. snd pos = xs @ snd q \<and> (\<forall>r \<in> set xs. in_ranges rs r)"
proof (induction "Star (Cls rs)" pos q rule: matches.induct)
  case (star_done p)
  show ?case by (rule exI [of _ "[]"]) simp
next
  case (star_more p q r)
  then obtain xs where xs: "snd q = xs @ snd r" "\<forall>r \<in> set xs. in_ranges rs r" by blast
  from \<open>matches (Cls rs) p q\<close> obtain x where "snd p = x # snd q" "in_ranges rs x" by auto
  with xs show ?case by (intro exI [of _ "x # xs"]) simp
qed

section \<open>Anchored expressions\<close>

text \<open>What an expression matches from a position on, as a relation on the remaining runes.\<close>

inductive_simps matches_simps:
  "matches (Cls rs) p q" "matches Eps p q" "matches (Cat a b) p q" "matches (Alt a b) p q"

lemma matches_star_cls_iff: "matches (Star (Cls rs)) (p, xs) (q, []) \<longleftrightarrow>
    (\<forall>r \<in> set xs. in_ranges rs r) \<and> q = (if xs = [] then p else Some (last xs))"
proof
  assume m: "matches (Star (Cls rs)) (p, xs) (q, [])"
  from star_cls_consumes [OF m] have a: "\<forall>r \<in> set xs. in_ranges rs r" by auto
  have "q = (if xs = [] then p else Some (last xs))" using m
  proof (induction "Star (Cls rs)" "(p, xs)" "(q, [] :: nat list)" arbitrary: p xs rule: matches.induct)
    case (star_more p' xs' q')
    then show ?case by (cases q') (auto split: if_splits)
  qed simp
  with a show "(\<forall>r \<in> set xs. in_ranges rs r) \<and> q = (if xs = [] then p else Some (last xs))" by blast
next
  assume "(\<forall>r \<in> set xs. in_ranges rs r) \<and> q = (if xs = [] then p else Some (last xs))"
  then show "matches (Star (Cls rs)) (p, xs) (q, [])"
    using matches_star_cls [of xs rs p "[]"] by simp
qed

definition covers :: "rx \<Rightarrow> nat option \<Rightarrow> nat list \<Rightarrow> bool" where
  "covers a p xs \<longleftrightarrow> (\<exists>q. matches a (p, xs) (q, []))"

lemma full_match_covers: "full_match a s \<longleftrightarrow> covers a None (runes s)"
  by (simp add: full_match_iff covers_def)

lemma covers_Alt: "covers (Alt a b) p xs \<longleftrightarrow> covers a p xs \<or> covers b p xs"
  by (auto simp: covers_def matches_simps)

lemma covers_Eps: "covers Eps p xs \<longleftrightarrow> xs = []"
  by (auto simp: covers_def matches_simps)

lemma covers_Cls: "covers (Cls rs) p xs \<longleftrightarrow> (\<exists>r. xs = [r] \<and> in_ranges rs r)"
  by (auto simp: covers_def matches_simps)

lemma covers_Cls_Cat: "covers (Cat (Cls rs) b) p xs \<longleftrightarrow>
    (\<exists>r ys. xs = r # ys \<and> in_ranges rs r \<and> covers b (Some r) ys)"
  by (auto simp: covers_def matches_simps)

lemma covers_Star_Cls: "covers (Star (Cls rs)) p xs \<longleftrightarrow> (\<forall>r \<in> set xs. in_ranges rs r)"
  by (simp add: covers_def matches_star_cls_iff)

lemma covers_Eps_Cat: "covers (Cat Eps b) p xs \<longleftrightarrow> covers b p xs"
  by (auto simp: covers_def matches_simps)

lemma covers_assoc: "covers (Cat (Cat a b) c) p xs \<longleftrightarrow> covers (Cat a (Cat b c)) p xs"
  by (auto simp: covers_def matches_simps) metis+

lemma covers_Alt_Cat: "covers (Cat (Alt a b) c) p xs \<longleftrightarrow> covers (Cat a c) p xs \<or> covers (Cat b c) p xs"
  by (auto simp: covers_def matches_simps)

lemma star_cls_position: "matches (Star (Cls rs)) pos q \<Longrightarrow>
  \<exists>xs. snd pos = xs @ snd q \<and> (\<forall>r \<in> set xs. in_ranges rs r) \<and>
    fst q = (if xs = [] then fst pos else Some (last xs))"
proof (induction "Star (Cls rs)" pos q rule: matches.induct)
  case (star_done p)
  show ?case by (rule exI [of _ "[]"]) simp
next
  case (star_more p q r)
  then obtain xs where xs: "snd q = xs @ snd r" "\<forall>r \<in> set xs. in_ranges rs r"
    "fst r = (if xs = [] then fst q else Some (last xs))" by blast
  from \<open>matches (Cls rs) p q\<close> obtain x where "snd p = x # snd q" "in_ranges rs x" "fst q = Some x" by auto
  with xs show ?case by (intro exI [of _ "x # xs"]) simp
qed

lemma covers_Star_Cat: "covers (Cat (Star (Cls rs)) b) p xs \<longleftrightarrow>
    (\<exists>ys zs. xs = ys @ zs \<and> (\<forall>r \<in> set ys. in_ranges rs r) \<and>
      covers b (if ys = [] then p else Some (last ys)) zs)" (is "?l \<longleftrightarrow> ?r")
proof
  assume ?l
  then obtain p' zs q where m: "matches (Star (Cls rs)) (p, xs) (p', zs)" "matches b (p', zs) (q, [])"
    by (auto simp: covers_def matches_simps)
  from star_cls_position [OF m(1)] obtain ys where "xs = ys @ zs" "\<forall>r \<in> set ys. in_ranges rs r"
    "p' = (if ys = [] then p else Some (last ys))" by (simp only: fst_conv snd_conv) blast
  with m(2) show ?r unfolding covers_def by blast
next
  assume ?r
  then obtain ys zs q where y: "xs = ys @ zs" "\<forall>r \<in> set ys. in_ranges rs r"
    "matches b (if ys = [] then p else Some (last ys), zs) (q, [])" unfolding covers_def by blast
  from matches.cat [OF matches_star_cls [OF y(2), of p zs] y(3)] show ?l
    unfolding covers_def y(1) by (rule exI)
qed

lemmas covers_simps = covers_Alt covers_Eps covers_Cls covers_Cls_Cat covers_Star_Cls covers_Eps_Cat
  covers_assoc covers_Alt_Cat

section \<open>A necessary condition\<close>

text \<open>
  Whether an expression can match using only runes of a given list: a cheap, sound test that
  a text cannot match.
\<close>

primrec feasible :: "nat list \<Rightarrow> rx \<Rightarrow> bool" where
  "feasible X (Cls rs) = list_ex (in_ranges rs) X"
| "feasible X (NCls rs) = (X \<noteq> [])"
| "feasible X Eps = True"
| "feasible X WordB = True"
| "feasible X (Cat a b) = (feasible X a \<and> feasible X b)"
| "feasible X (Alt a b) = (feasible X a \<or> feasible X b)"
| "feasible X (Star a) = True"

lemma matches_suffix: "matches a p q \<Longrightarrow> set (snd q) \<subseteq> set (snd p)"
  by (induction rule: matches.induct) auto

lemma matches_feasible: "matches a p q \<Longrightarrow> set (snd p) \<subseteq> set X \<Longrightarrow> feasible X a"
  by (induction rule: matches.induct) (auto simp: list_ex_iff dest!: matches_suffix)

lemma search_feasible: "search_from a p rest \<Longrightarrow> set rest \<subseteq> set X \<Longrightarrow> feasible X a"
proof (induction a p rest rule: search_from.induct)
  case (1 a p)
  then obtain q where "q \<in> set (ends a (p, []))" by (cases "ends a (p, [])") auto
  then show ?case using matches_feasible [of a "(p, [])" q X] by (simp add: ends_iff)
next
  case (2 a p r rest)
  show ?case
  proof (cases "ends a (p, r # rest) = []")
    case True
    with 2 show ?thesis by simp
  next
    case False
    then obtain q where "q \<in> set (ends a (p, r # rest))" by (cases "ends a (p, r # rest)") auto
    then show ?thesis using 2(3) matches_feasible [of a "(p, r # rest)" q X] by (simp add: ends_iff)
  qed
qed

lemma infeasible: "\<not> feasible (runes s) a \<Longrightarrow> \<not> MatchString a s"
  unfolding MatchString_def using search_feasible by blast

lemma feasible_cats [simp]: "feasible X (cats as) \<longleftrightarrow> list_all (feasible X) as"
  by (induction as rule: cats.induct) auto

lemma feasible_alts [simp]: "feasible X (alts as) \<longleftrightarrow> list_ex (feasible X) as"
  by (induction as rule: alts.induct) (auto simp: list_ex_iff)

lemma feasible_builders [simp]:
  "feasible X (ropt a)" "feasible X (rplus a) = feasible X a" "feasible X (rupto n a)"
  "feasible X (rtimes n a) \<longleftrightarrow> n = 0 \<or> feasible X a"
  "feasible X (atleast n a) \<longleftrightarrow> n = 0 \<or> feasible X a"
  "feasible X (between n m a) \<longleftrightarrow> n = 0 \<or> feasible X a"
proof -
  have u: "feasible X (rupto k a)" for k by (cases k) simp_all
  then show "feasible X (rupto n a)" .
  show t: "feasible X (rtimes n a) \<longleftrightarrow> n = 0 \<or> feasible X a" by (induction n) auto
  show "feasible X (ropt a)" "feasible X (rplus a) = feasible X a"
    "feasible X (atleast n a) \<longleftrightarrow> n = 0 \<or> feasible X a"
    "feasible X (between n m a) \<longleftrightarrow> n = 0 \<or> feasible X a"
    by (simp_all add: ropt_def rplus_def atleast_def between_def t u)
qed

end
