(* ===== verification/Safety.thy ===== *)
theory Safety
  imports GoUnicode
begin

text \<open>
  The detection of sensitive data in ticket text (modules/ticket/safety.go): the expressions
  of \<open>sensitivePatterns\<close>, the card number check with its Luhn sum, and the findings over the
  fields of a form. Under \<open>(?i)\<close> the letters of an expression stand for both their cases.
\<close>

section \<open>The expressions\<close>

definition quote_cls :: "(nat \<times> nat) list" where
  "quote_cls = chars [CHR 0x22, CHR 0x27, CHR 0x60, CHR ''*'']"

definition alpha_ws :: rx where "alpha_ws = rplus (Cls (chars [CHR '' '', CHR 0x09]))"

definition word_cls :: "(nat \<times> nat) list" where
  "word_cls = (48, 57) # (95, 95) # (45, 45) # ifold_az"

definition labelledSecret :: "rx \<Rightarrow> rx" where
  "labelledSecret lbl = cats [WordB, lbl, WordB, Star (Cls quote_cls), Star rspc,
     alts [rchr CHR '':'', rchr CHR ''='', cats [WordB, rilit ''is'', WordB],
           cats [WordB, rilit ''adalah'', WordB], cats [alpha_ws, rchr CHR ''-'', alpha_ws]],
     Star (Cls (s_cls @ quote_cls)),
     rplus (NCls (s_cls @ quote_cls @ chars '',;:=''))]"

definition tokenRe :: rx where
  "tokenRe = alts [
     Cat (rilit ''mfa.'') (atleast 20 (Cls word_cls)),
     cats [between 24 28 (Cls word_cls), rchr CHR ''.'', rtimes 6 (Cls word_cls), rchr CHR ''.'',
           between 27 40 (Cls word_cls)]]"

definition sep_cls :: rx where "sep_cls = Star (Cls (chars '' _-''))"

definition keyRe :: rx where
  "keyRe = alts [
     cats [rilit ''-----BEGIN '',
           ropt (alts [rilit ''RSA '', rilit ''EC '', rilit ''OPENSSH '', rilit ''DSA '', rilit ''ENCRYPTED '']),
           rilit ''PRIVATE KEY-----''],
     cats [alts [rilit ''sk'', rilit ''pk''], rchr CHR ''-'',
           ropt (alts [rilit ''live'', rilit ''test'', rilit ''proj'']), ropt (Cls (chars ''_-'')),
           atleast 20 (Cls ((48, 57) # chars ''_-'' @ ifold_az))],
     labelledSecret (alts [
       cats [alts [rilit ''api'', rilit ''access'', rilit ''client''], sep_cls,
             alts [rilit ''key'', rilit ''token'', rilit ''secret'']],
       cats [rilit ''private'', sep_cls, rilit ''key'']]),
     cats [WordB, rilit ''bearer'', alpha_ws,
           atleast 12 (Cls ((48, 57) # chars ''._~+/=-'' @ ifold_az)), rupto 2 (rchr CHR ''='')]]"

definition otpRe :: rx where
  "otpRe = cats [WordB, alts [rilit ''otp'', rilit ''2fa'', rilit ''cvv'', rilit ''cvc'', rilit ''pin''], WordB,
     ropt (Cat alpha_ws (rilit ''code'')), Star (Cls quote_cls), Star rspc,
     ropt (alts [Cat (alts [rilit ''is'', rilit ''adalah'']) WordB, Cls (chars ''=:-'')]),
     Star (Cls (s_cls @ quote_cls)), between 3 8 rdig, WordB]"

definition seedRe :: rx where
  "seedRe = cats [WordB, alts [rilit ''seed'', rilit ''recovery''], rplus rspc, rilit ''phrase'', Star rspc,
     alts [rilit ''is'', rchr CHR ''='', rchr CHR '':'', rchr CHR ''-''], atleast 8 rany]"

definition passwordRe :: rx where
  "passwordRe = labelledSecret (alts [rilit ''password'', rilit ''passwd'',
     Cat (ropt (Cat (rilit ''kata'') (rplus rspc))) (rilit ''sandi'')])"

section \<open>Card numbers\<close>

text \<open>\<open>strings.ReplaceAll(text, "<@", " ")\<close>\<close>

fun unmention :: "string \<Rightarrow> string" where
  "unmention (c # d # s) =
     (if c = CHR ''<'' \<and> d = CHR ''@'' then CHR '' '' # unmention s else c # unmention (d # s))"
| "unmention s = s"

definition card_rune :: "nat \<Rightarrow> bool" where
  "card_rune r \<longleftrightarrow> IsDigit r \<or> r = 32 \<or> r = 9 \<or> r = 45"

definition card_text :: "string \<Rightarrow> string" where
  "card_text cleaned = concat (map (\<lambda>x. if card_rune (fst x) then snd x else '' '') (segs cleaned))"

text \<open>\<open>strings.FieldsFunc\<close>: the maximal non-empty runs of runes outside the class.\<close>

fun fields_func :: "(nat \<Rightarrow> bool) \<Rightarrow> (nat \<times> string) list \<Rightarrow> string \<Rightarrow> string list" where
  "fields_func p [] cur = (if cur = [] then [] else [cur])"
| "fields_func p (x # xs) cur =
     (if p (fst x) then (if cur = [] then [] else [cur]) @ fields_func p xs []
      else fields_func p xs (cur @ snd x))"

text \<open>The Luhn sum of a run of digits, and \<open>flush\<close> (which also empties the run).\<close>

definition luhn_digit :: "string \<Rightarrow> nat \<Rightarrow> nat" where
  "luhn_digit run i =
     (let d = digit_val (run ! i) in
      if (length run - 1 - i) mod 2 = 1 then (if 9 < d * 2 then d * 2 - 9 else d * 2) else d)"

definition flush :: "string \<Rightarrow> bool" where
  "flush run =
     (if length run < 13 \<or> 19 < length run \<or> run ! 0 = CHR ''0'' then False
      else foldl (\<lambda>sum i. sum + luhn_digit run i) 0 (rev [0..<length run]) mod 10 = 0)"

fun card_scan :: "string \<Rightarrow> string \<Rightarrow> bool" where
  "card_scan run [] = flush run"
| "card_scan run (c # s) =
     (if is_digit c then card_scan (run @ [c]) s
      else if c = CHR '' '' \<or> c = CHR 0x09 \<or> c = CHR ''-'' then card_scan run s
      else if flush run then True
      else card_scan [] s)"

definition hasCardNumber :: "string \<Rightarrow> bool" where
  "hasCardNumber text =
     (let cleaned = unmention text;
          b = card_text cleaned;
          fields = fields_func (\<lambda>r. r \<noteq> 32 \<and> r \<noteq> 9 \<and> r \<noteq> 45 \<and> \<not> IsDigit r) (segs b) [];
          joined = Join fields '' ''
      in card_scan [] joined)"

section \<open>Findings\<close>

definition sensitivePatterns :: "(string \<times> (string \<Rightarrow> bool)) list" where
  "sensitivePatterns = [
     (''Discord token'', MatchString tokenRe),
     (''private or API key'', MatchString keyRe),
     (''full card number'', hasCardNumber),
     (''OTP, PIN, or CVV'', MatchString otpRe),
     (''seed or recovery phrase'', MatchString seedRe),
     (''password'', MatchString passwordRe)]"

text \<open>One pattern over all fields; \<open>seen\<close> is membership in the labels found so far.\<close>

definition pattern_step :: "(string, string) gomap \<Rightarrow> string list \<Rightarrow> string \<times> (string \<Rightarrow> bool) \<Rightarrow> string list" where
  "pattern_step data labels p =
     (if \<exists>kv \<in> set data. snd p (snd kv)
      then if fst p \<in> set labels then labels else labels @ [fst p]
      else labels)"

definition SensitiveFindings :: "(string, string) gomap \<Rightarrow> string list" where
  "SensitiveFindings data = foldl (pattern_step data) [] sensitivePatterns"

definition StaffRoleNames :: "string list" where
  "StaffRoleNames = [''Server Owner'', ''Platform Administrator'', ''Operations Lead'',
     ''Intermediary Lead'', ''Intermediary'', ''Dispute & Compliance'',
     ''Security & Fraud'', ''Finance & Risk'', ''Support & Verification'',
     ''Regional & Translation'', ''Moderator'']"

definition IsStaffRole :: "string \<Rightarrow> bool" where
  "IsStaffRole name \<longleftrightarrow> name \<in> set StaffRoleNames"

text \<open>A text is sensitive when one of the patterns hits it.\<close>

definition sensitive :: "string \<Rightarrow> bool" where
  "sensitive text \<longleftrightarrow> (\<exists>p \<in> set sensitivePatterns. snd p text)"

lemma pattern_step_empty: "pattern_step data ls p = [] \<longleftrightarrow> ls = [] \<and> (\<forall>kv \<in> set data. \<not> snd p (snd kv))"
  by (auto simp: pattern_step_def)

lemma foldl_pattern_empty: "foldl (pattern_step data) ls ps = [] \<longleftrightarrow>
    ls = [] \<and> (\<forall>p \<in> set ps. \<forall>kv \<in> set data. \<not> snd p (snd kv))"
  by (induction ps arbitrary: ls) (simp_all only: pattern_step_empty foldl.simps list.set ball_simps simp_thms conj_assoc)

lemma SensitiveFindings_empty_iff: "SensitiveFindings data = [] \<longleftrightarrow> (\<forall>kv \<in> set data. \<not> sensitive (snd kv))"
  unfolding SensitiveFindings_def foldl_pattern_empty sensitive_def by blast

lemma SensitiveFindings_single [simp]: "SensitiveFindings [(k, t)] = [] \<longleftrightarrow> \<not> sensitive t"
  by (simp add: SensitiveFindings_empty_iff)

section \<open>The card number check\<close>

text \<open>On ASCII text everything but digits, blanks, tabs and dashes is a blank.\<close>

lemma unmention_ascii: "ascii s \<Longrightarrow> ascii (unmention s)"
  by (induction s rule: unmention.induct) (auto simp: ascii_def split: if_splits)

lemma unmention_digits: "filter is_digit (unmention s) = filter is_digit s"
  by (induction s rule: unmention.induct) (auto simp: is_digit_def)

lemma card_rune_digit: "ord c < 128 \<Longrightarrow> is_digit c \<Longrightarrow> card_rune (ord c)"
  by (simp add: card_rune_def IsDigit_ascii is_digit_def)

lemma card_text_ascii: "ascii s \<Longrightarrow> card_text s = map (\<lambda>c. if card_rune (ord c) then c else CHR '' '') s"
proof -
  assume "ascii s"
  moreover have "concat (map (\<lambda>c. if card_rune (ord c) then [c] else '' '') s) =
      map (\<lambda>c. if card_rune (ord c) then c else CHR '' '') s"
    by (induction s) simp_all
  ultimately show ?thesis by (simp add: card_text_def segs_ascii comp_def cong: if_cong)
qed

lemma fields_func_none: "\<forall>x \<in> set xs. \<not> p (fst x) \<Longrightarrow>
    fields_func p xs cur = (if cur @ unsegs xs = [] then [] else [cur @ unsegs xs])"
  by (induction xs arbitrary: cur) (auto simp: unsegs_simps)

lemma card_scan_filter:
  "\<forall>c \<in> set s. is_digit c \<or> c = CHR '' '' \<or> c = CHR 0x09 \<or> c = CHR ''-'' \<Longrightarrow>
    card_scan run s = flush (run @ filter is_digit s)"
  by (induction run s rule: card_scan.induct) auto

lemma card_char_cases: "ord c < 128 \<Longrightarrow> card_rune (ord c) \<Longrightarrow>
    is_digit c \<or> c = CHR '' '' \<or> c = CHR 0x09 \<or> c = CHR ''-''"
  using of_char_eq_iff [of c "CHR '' ''", where ?'a = nat] of_char_eq_iff [of c "CHR 0x09", where ?'a = nat]
    of_char_eq_iff [of c "CHR ''-''", where ?'a = nat]
  by (auto simp: card_rune_def IsDigit_ascii is_digit_def)

lemma hasCardNumber_ascii:
  assumes "ascii text"
  shows "hasCardNumber text = flush (filter is_digit text)"
proof -
  define t where "t = unmention text"
  have t: "ascii t" using assms by (simp add: t_def unmention_ascii)
  define b where "b = card_text t"
  have b: "b = map (\<lambda>c. if card_rune (ord c) then c else CHR '' '') t"
    using t by (simp add: b_def card_text_ascii)
  have asc: "\<forall>c \<in> set b. ord c < 128 \<and> card_rune (ord c)"
    using t by (auto simp: b ascii_def card_rune_def)
  then have "ascii b" by (auto simp: ascii_def)
  then have "Join (fields_func (\<lambda>r. r \<noteq> 32 \<and> r \<noteq> 9 \<and> r \<noteq> 45 \<and> \<not> IsDigit r) (segs b) []) '' '' = b"
    using asc unsegs_segs [of b] by (subst fields_func_none) (auto simp: segs_ascii card_rune_def)
  then have "hasCardNumber text = card_scan [] b"
    by (simp add: hasCardNumber_def Let_def t_def b_def)
  also have "\<dots> = flush (filter is_digit b)"
    using asc card_char_cases by (subst card_scan_filter) auto
  also have "filter is_digit b = filter is_digit t"
    using t unfolding b by (induction t) (auto simp: ascii_def card_rune_digit is_digit_def)
  finally show ?thesis by (simp add: t_def unmention_digits)
qed

lemma foldl_sum: "foldl (\<lambda>a i. a + f i) (z :: nat) xs = z + sum_list (map f xs)"
  by (induction xs arbitrary: z) simp_all

lemma flush_sum: "flush run \<longleftrightarrow> 13 \<le> length run \<and> length run \<le> 19 \<and> hd run \<noteq> CHR ''0'' \<and>
    (\<Sum>i < length run. luhn_digit run i) mod 10 = 0"
proof -
  have "foldl (\<lambda>a i. a + luhn_digit run i) 0 (rev [0..<length run]) = (\<Sum>i < length run. luhn_digit run i)"
    by (simp add: foldl_sum rev_map [symmetric] interv_sum_list_conv_sum_set_nat atLeast0LessThan)
  then show ?thesis by (cases run) (auto simp: flush_def hd_conv_nth)
qed

text \<open>
  C32: On ASCII text the card check is the Luhn test of all digits of the text read as one
  number: it answers yes exactly when the text holds 13 to 19 digits in all, the first of them
  not 0, and their Luhn sum is a multiple of 10. Letters and punctuation between two numbers
  do not separate them.
\<close>

theorem card_number_ascii:
  assumes "ascii text"
  shows "hasCardNumber text \<longleftrightarrow>
    (let ds = filter is_digit text in 13 \<le> length ds \<and> length ds \<le> 19 \<and> hd ds \<noteq> CHR ''0'' \<and>
      (\<Sum>i < length ds. luhn_digit ds i) mod 10 = 0)"
  unfolding Let_def hasCardNumber_ascii [OF assms] by (rule flush_sum)

text \<open>A card number is not seen when other digits stand in the same text.\<close>

theorem card_number_ascii_witness:
  "hasCardNumber ''card 4111 1111 1111 1111'' \<and> \<not> hasCardNumber ''card 4111 1111 1111 1111, order 20260''"
  by (subst card_number_ascii, simp, subst card_number_ascii, simp)
    (simp add: Let_def is_digit_def lessThan_nat_numeral lessThan_Suc luhn_digit_def digit_val_def)

text \<open>A text with fewer than 13 digits holds no card number.\<close>

lemma few_digits_no_card: "ascii t \<Longrightarrow> length (filter is_digit t) < 13 \<Longrightarrow> \<not> hasCardNumber t"
  by (simp add: hasCardNumber_ascii flush_sum)

lemma hasCardNumber_sensitive: "hasCardNumber t \<Longrightarrow> sensitive t"
  by (auto simp: sensitive_def sensitivePatterns_def)

section \<open>Harmless text\<close>

lemma harmlessI:
  assumes "ascii t" and "length (filter is_digit t) < 13"
    and "\<not> list_ex (feasible (map ord t)) [tokenRe, keyRe, otpRe, seedRe, passwordRe]"
  shows "\<not> sensitive t"
  using assms infeasible [of t] few_digits_no_card [of t]
  by (simp add: sensitive_def sensitivePatterns_def runes_ascii)

lemmas feasible_eval = tokenRe_def keyRe_def otpRe_def seedRe_def passwordRe_def labelledSecret_def
  rilit_def richr_def rlit_def rchr_def fold_rune_def chars_def alpha_ws_def sep_cls_def word_cls_def
  quote_cls_def ifold_az_def s_cls_def d_cls_def rdig_def rspc_def rany_def

lemma harmless_examples: "\<not> sensitive ''paid out'' \<and> \<not> sensitive ''PAY-7'' \<and> \<not> sensitive ''sale''"
  by (intro conjI harmlessI) (simp_all add: is_digit_def feasible_eval)

end
