(* ===== verification/Http.thy ===== *)
theory Http
  imports Safety
begin

text \<open>
  The HTTP side that all modules share: the responses of infrastructure/httplib, the
  middlewares of infrastructure/middleware, the token checks of infrastructure/jwt and the
  handler chain that router/router.go puts in front of the operator-only groups.

  Gin and the token library are parameters. A request context \<open>ctx\<close> is passed along the chain
  and comes back changed, as all handlers of a request share one \<open>*gin.Context\<close>. A middleware
  takes the rest of the chain, which it runs with \<open>c.Next()\<close>; one that aborts does not run it.
  A panic sets \<open>cx_Panicked\<close> and leaves every handler up to \<open>Recovery\<close>. A UUID is kept as its
  canonical text.
\<close>

type_synonym uuid = string

definition NilUUID :: uuid where
  "NilUUID = ''00000000-0000-0000-0000-000000000000''"

section \<open>Responses\<close>

record 'a response =
  rs_Status :: int
  rs_Success :: bool
  rs_Message :: string
  rs_Data :: "'a option"
  rs_Error :: "string option"

record 'a ctx =
  cx_Method :: string
  cx_Path :: string
  cx_Route :: string
  cx_RawQuery :: string
  cx_Query :: "(string, string) gomap"
  cx_Param :: "(string, string) gomap"
  cx_Header :: "(string, string) gomap"
  cx_ClientIP :: string
  cx_UserAgent :: string
  cx_BodyLimit :: "int option"
  cx_RequestID :: "string option"
  cx_UserID :: "uuid option"
  cx_Allowlist :: "uuid list option"
  cx_OutHeader :: "(string, string) gomap"
  cx_Response :: "'a response option"
  cx_Panicked :: bool

text \<open>The first response that is written decides the status.\<close>

definition JSON :: "'a response \<Rightarrow> 'a ctx \<Rightarrow> 'a ctx" where
  "JSON r c = (case cx_Response c of None \<Rightarrow> c\<lparr>cx_Response := Some r\<rparr> | Some _ \<Rightarrow> c)"

definition SetSuccessResponse :: "'a ctx \<Rightarrow> int \<Rightarrow> string \<Rightarrow> 'a option \<Rightarrow> 'a ctx" where
  "SetSuccessResponse c status message data =
     JSON \<lparr>rs_Status = status, rs_Success = True, rs_Message = message, rs_Data = data, rs_Error = None\<rparr> c"

definition SetCreatedResponse :: "'a ctx \<Rightarrow> string \<Rightarrow> 'a option \<Rightarrow> 'a ctx" where
  "SetCreatedResponse c message data =
     JSON \<lparr>rs_Status = 201, rs_Success = True, rs_Message = message, rs_Data = data, rs_Error = None\<rparr> c"

definition SetErrorResponse :: "'a ctx \<Rightarrow> int \<Rightarrow> string \<Rightarrow> string option \<Rightarrow> 'a ctx" where
  "SetErrorResponse c status message details =
     JSON \<lparr>rs_Status = status, rs_Success = False, rs_Message = message, rs_Data = None, rs_Error = details\<rparr> c"

definition MessageOK :: string where "MessageOK = ''ok''"
definition MessageInvalidBody :: string where "MessageInvalidBody = ''invalid request body''"
definition MessageValidationFailed :: string where "MessageValidationFailed = ''validation failed''"
definition MessageInvalidCredential :: string where "MessageInvalidCredential = ''invalid credentials''"
definition MessageUnauthorized :: string where "MessageUnauthorized = ''unauthorized''"
definition MessageUserNotFound :: string where "MessageUserNotFound = ''user not found''"
definition MessageForbidden :: string where "MessageForbidden = ''forbidden''"
definition MessageRegistered :: string where "MessageRegistered = ''registered''"
definition MessageLoginSuccess :: string where "MessageLoginSuccess = ''login success''"
definition MessageRefreshSuccess :: string where "MessageRefreshSuccess = ''refresh success''"
definition MessageLogoutSuccess :: string where "MessageLogoutSuccess = ''logout success''"

type_synonym ('w, 'a) handler = "'a ctx \<Rightarrow> 'w \<Rightarrow> 'a ctx \<times> 'w"
type_synonym ('w, 'a) middleware = "('w, 'a) handler \<Rightarrow> ('w, 'a) handler"

definition status_of :: "'a ctx \<Rightarrow> int" where
  "status_of c = (case cx_Response c of None \<Rightarrow> 200 | Some r \<Rightarrow> rs_Status r)"

section \<open>Tokens\<close>

text \<open>\<open>strings.Fields\<close>, and \<open>strings.EqualFold\<close> with an ASCII word without k and s.\<close>

definition Fields :: "string \<Rightarrow> string list" where
  "Fields s = fields_func IsSpace (segs s) []"

definition lower_char :: "char \<Rightarrow> char" where
  "lower_char c = (if is_upper c then char_of (ord c + 32) else c)"

definition EqualFold :: "string \<Rightarrow> string \<Rightarrow> bool" where
  "EqualFold s t \<longleftrightarrow> map lower_char s = map lower_char t"

definition bearerToken :: "string \<Rightarrow> string option" where
  "bearerToken header =
     (let parts = Fields header in
      if length parts \<noteq> 2 \<or> \<not> EqualFold (parts ! 0) ''Bearer'' then None else Some (parts ! 1))"

record Claims =
  cl_UserID :: uuid
  cl_Subject :: string

text \<open>\<open>parse\<close>, over the verification of signature and expiry, which is the token library's.\<close>

record token_service =
  ts_verify :: "string \<Rightarrow> Claims option"
  ts_hmac :: "string \<Rightarrow> bool"

definition parse_token :: "token_service \<Rightarrow> string \<Rightarrow> Claims option" where
  "parse_token ts tokenString = (if \<not> ts_hmac ts tokenString then None else ts_verify ts tokenString)"

definition ParseAccessToken :: "token_service \<Rightarrow> string \<Rightarrow> Claims option" where
  "ParseAccessToken ts header =
     (case bearerToken header of None \<Rightarrow> None
      | Some tokenString \<Rightarrow>
          (case parse_token ts tokenString of None \<Rightarrow> None
           | Some claims \<Rightarrow> if cl_Subject claims \<noteq> ''access'' then None else Some claims))"

definition ParseRefreshToken :: "token_service \<Rightarrow> string \<Rightarrow> Claims option" where
  "ParseRefreshToken ts tokenString =
     (case parse_token ts tokenString of None \<Rightarrow> None
      | Some claims \<Rightarrow> if cl_Subject claims \<noteq> ''refresh'' then None else Some claims)"

section \<open>Middlewares\<close>

text \<open>\<open>fresh\<close> is the UUID that \<open>uuid.NewString\<close> makes for the request.\<close>

definition RequestID :: "string \<Rightarrow> ('w, 'a) middleware" where
  "RequestID fresh nxt c w =
     (let requestID = mget (cx_Header c) ''X-Request-ID'';
          requestID = (if requestID = [] then fresh else requestID)
      in nxt (c\<lparr>cx_OutHeader := mput (cx_OutHeader c) ''X-Request-ID'' requestID, cx_RequestID := Some requestID\<rparr>) w)"

definition SecurityHeaders :: "('w, 'a) middleware" where
  "SecurityHeaders nxt c w =
     nxt (c\<lparr>cx_OutHeader := mput (mput (mput (cx_OutHeader c) ''X-Content-Type-Options'' ''nosniff'')
       ''X-Frame-Options'' ''DENY'') ''Referrer-Policy'' ''no-referrer''\<rparr>) w"

definition GetUserID :: "'a ctx \<Rightarrow> uuid option" where
  "GetUserID c = cx_UserID c"

definition clientKey :: "'a ctx \<Rightarrow> string" where
  "clientKey c = (case GetUserID c of Some userID \<Rightarrow> ''user:'' @ userID | None \<Rightarrow> ''ip:'' @ cx_ClientIP c)"

definition RateLimiterMiddlewareWithPrefix :: "(string \<Rightarrow> 'w \<Rightarrow> bool \<times> 'w) \<Rightarrow> string \<Rightarrow> ('w, 'a) middleware" where
  "RateLimiterMiddlewareWithPrefix allow pfx nxt c w =
     (case allow (pfx @ '':'' @ clientKey c) w of
        (False, w') \<Rightarrow> (SetErrorResponse c 429 ''rate limit exceeded'' None, w')
      | (True, w') \<Rightarrow> nxt c w')"

definition RateLimiterMiddleware :: "(string \<Rightarrow> 'w \<Rightarrow> bool \<times> 'w) \<Rightarrow> ('w, 'a) middleware" where
  "RateLimiterMiddleware allow = RateLimiterMiddlewareWithPrefix allow ''global''"

definition Recovery :: "('w, 'a) middleware" where
  "Recovery nxt c w =
     (case nxt c w of (c', w') \<Rightarrow>
        if cx_Panicked c' then (SetErrorResponse (c'\<lparr>cx_Panicked := False\<rparr>) 500 ''internal server error'' None, w')
        else (c', w'))"

definition BodyLimit :: "int \<Rightarrow> ('w, 'a) middleware" where
  "BodyLimit maxBytes nxt c w = nxt (if 0 < maxBytes then c\<lparr>cx_BodyLimit := Some maxBytes\<rparr> else c) w"

definition AuthMiddleware :: "token_service \<Rightarrow> ('w, 'a) middleware" where
  "AuthMiddleware ts nxt c w =
     (case ParseAccessToken ts (mget (cx_Header c) ''Authorization'') of
        None \<Rightarrow> (SetErrorResponse c 401 ''unauthorized'' None, w)
      | Some claims \<Rightarrow> nxt (c\<lparr>cx_UserID := Some (cl_UserID claims)\<rparr>) w)"

definition IsOperator :: "'a ctx \<Rightarrow> bool" where
  "IsOperator c =
     (case cx_Allowlist c of None \<Rightarrow> False
      | Some allowlist \<Rightarrow>
          if length allowlist = 0 then False
          else case GetUserID c of None \<Rightarrow> False
            | Some userID \<Rightarrow> if userID = NilUUID then False else userID \<in> set allowlist)"

definition OperatorMiddleware :: "('w, 'a) middleware" where
  "OperatorMiddleware nxt c w =
     (if \<not> IsOperator c then (SetErrorResponse c 403 MessageForbidden None, w) else nxt c w)"

text \<open>The context key that the router sets from the configuration.\<close>

definition OperatorKeys :: "uuid list \<Rightarrow> ('w, 'a) middleware" where
  "OperatorKeys configured nxt c w =
     nxt (if 0 < length configured then c\<lparr>cx_Allowlist := Some configured\<rparr> else c) w"

section \<open>The audit trail\<close>

record AuditEntry =
  au_ActorID :: "uuid option"
  au_Action :: string
  au_ResourceType :: string
  au_ResourceID :: string
  au_Method :: string
  au_Path :: string
  au_Status :: int
  au_IPAddress :: string
  au_UserAgent :: string
  au_RequestID :: string
  au_Query :: string

definition shouldSkipAudit :: "'a ctx \<Rightarrow> bool" where
  "shouldSkipAudit c \<longleftrightarrow> Contains (cx_Path c) ''/health'' \<or> Contains (cx_Path c) ''/metrics''"

definition auditAction :: "string \<Rightarrow> string" where
  "auditAction verb =
     (if verb = ''POST'' then ''create'' else if verb = ''PUT'' \<or> verb = ''PATCH'' then ''update''
      else if verb = ''DELETE'' then ''delete'' else ''read'')"

definition trim_slashes :: "string \<Rightarrow> string" where
  "trim_slashes s = trim_both (\<lambda>c. c = CHR ''/'') s"

definition auditResourceType :: "string \<Rightarrow> string \<Rightarrow> string" where
  "auditResourceType route path =
     (let value = (if route = [] then path else route);
          parts = Split CHR ''/'' (trim_slashes value)
      in if 3 \<le> length parts \<and> parts ! 0 = ''api'' then parts ! 2
         else if 0 < length parts \<and> parts ! 0 \<noteq> [] then parts ! 0
         else ''unknown'')"

text \<open>
  The entry is written after the rest of the chain, also when the response is an error. The
  request id that is missing from the context prints as \<open>nil\<close>; an error of the recorder is
  only logged.
\<close>

definition audit_entry :: "'a ctx \<Rightarrow> AuditEntry" where
  "audit_entry c = \<lparr>
     au_ActorID = (case GetUserID c of Some userID \<Rightarrow> if userID \<noteq> NilUUID then Some userID else None | None \<Rightarrow> None),
     au_Action = auditAction (cx_Method c), au_ResourceType = auditResourceType (cx_Route c) (cx_Path c),
     au_ResourceID = mget (cx_Param c) ''id'', au_Method = cx_Method c, au_Path = cx_Path c,
     au_Status = status_of c, au_IPAddress = cx_ClientIP c, au_UserAgent = cx_UserAgent c,
     au_RequestID = (case cx_RequestID c of None \<Rightarrow> ''<nil>'' | Some r \<Rightarrow> r), au_Query = cx_RawQuery c\<rparr>"

definition AuditLog :: "(AuditEntry \<Rightarrow> 'w \<Rightarrow> 'w) option \<Rightarrow> ('w, 'a) middleware" where
  "AuditLog recorder nxt c w =
     (case nxt c w of (c', w') \<Rightarrow>
        if cx_Panicked c' then (c', w')
        else case recorder of None \<Rightarrow> (c', w')
          | Some record1 \<Rightarrow> if shouldSkipAudit c' then (c', w') else (c', record1 (audit_entry c') w'))"

section \<open>The chain of the router\<close>

record 'w wiring =
  su_fresh :: string
  su_maxBody :: int
  su_allow :: "string \<Rightarrow> 'w \<Rightarrow> bool \<times> 'w"
  su_recorder :: "(AuditEntry \<Rightarrow> 'w \<Rightarrow> 'w) option"
  su_operators :: "uuid list"
  su_tokens :: token_service

text \<open>
  The global middlewares in the order of the router. Compression, the access log, the metrics
  and CORS neither change the state modelled here nor decide whether a handler runs (CORS may
  answer a cross-origin request by itself; such a request never reaches a handler).
\<close>

definition global_chain :: "'w wiring \<Rightarrow> ('w, 'a) middleware" where
  "global_chain su h = Recovery (RequestID (su_fresh su) (SecurityHeaders (BodyLimit (su_maxBody su)
     (RateLimiterMiddlewareWithPrefix (su_allow su) ''global''
       (AuditLog (su_recorder su) (OperatorKeys (su_operators su) h))))))"

text \<open>The groups /tickets and /membership.\<close>

definition operator_group :: "'w wiring \<Rightarrow> string \<Rightarrow> ('w, 'a) middleware" where
  "operator_group su pfx h =
     AuthMiddleware (su_tokens su) (OperatorMiddleware (RateLimiterMiddlewareWithPrefix (su_allow su) pfx h))"

text \<open>The groups /user, /uploads and /audit-logs, whose handlers check the operator themselves.\<close>

definition user_group :: "'w wiring \<Rightarrow> string \<Rightarrow> ('w, 'a) middleware" where
  "user_group su pfx h = AuthMiddleware (su_tokens su) (RateLimiterMiddlewareWithPrefix (su_allow su) pfx h)"

section \<open>Who reaches a handler\<close>

text \<open>
  The state has a part that only handlers change: limiter and recorder leave \<open>core\<close> alone.
\<close>

definition quiet_setup :: "('w \<Rightarrow> 'c) \<Rightarrow> 'w wiring \<Rightarrow> bool" where
  "quiet_setup core su \<longleftrightarrow> (\<forall>k w. core (snd (su_allow su k w)) = core w) \<and>
     (case su_recorder su of None \<Rightarrow> True | Some r \<Rightarrow> \<forall>e w. core (r e w) = core w)"

definition operator_token :: "'w wiring \<Rightarrow> 'a ctx \<Rightarrow> bool" where
  "operator_token su c \<longleftrightarrow> (case ParseAccessToken (su_tokens su) (mget (cx_Header c) ''Authorization'') of
     None \<Rightarrow> False | Some claims \<Rightarrow> cl_UserID claims \<noteq> NilUUID \<and> cl_UserID claims \<in> set (su_operators su))"

lemma operator_group_core:
  assumes "quiet_setup core su" and "cx_Allowlist c = (if 0 < length (su_operators su) then Some (su_operators su) else None)"
    and "\<not> operator_token su c" and "operator_group su pfx h c w = (c', w')" and "cx_Response c = None"
  shows "core w' = core w \<and> (\<exists>r. cx_Response c' = Some r \<and> rs_Status r \<in> {401, 403} \<and> rs_Data r = None) \<and>
    cx_Panicked c' = cx_Panicked c"
proof (cases "ParseAccessToken (su_tokens su) (mget (cx_Header c) ''Authorization'')")
  case None
  with assms(4,5) show ?thesis
    by (auto simp: operator_group_def AuthMiddleware_def SetErrorResponse_def JSON_def)
next
  case (Some claims)
  have "\<not> IsOperator (c\<lparr>cx_UserID := Some (cl_UserID claims)\<rparr>)"
    using assms(2,3) Some by (auto simp: IsOperator_def GetUserID_def operator_token_def)
  with assms(4,5) Some show ?thesis
    by (auto simp: operator_group_def AuthMiddleware_def OperatorMiddleware_def SetErrorResponse_def JSON_def)
qed

definition same_request :: "'a ctx \<Rightarrow> 'a ctx \<Rightarrow> bool" where
  "same_request d c \<longleftrightarrow> cx_Response d = cx_Response c \<and> cx_Allowlist d = cx_Allowlist c \<and> cx_Header d = cx_Header c \<and>
     cx_Panicked d = cx_Panicked c"

lemma RequestID_same: "\<exists>d. RequestID f nxt c w = nxt d w \<and> same_request d c"
  unfolding RequestID_def Let_def by (rule exI, rule conjI, rule refl) (simp add: same_request_def)

lemma SecurityHeaders_same: "\<exists>d. SecurityHeaders nxt c w = nxt d w \<and> same_request d c"
  unfolding SecurityHeaders_def by (rule exI, rule conjI, rule refl) (simp add: same_request_def)

lemma BodyLimit_same: "\<exists>d. BodyLimit n nxt c w = nxt d w \<and> same_request d c"
  unfolding BodyLimit_def by (rule exI, rule conjI, rule refl) (simp add: same_request_def)

lemma global_chain_limiter: "\<exists>d. global_chain su h c w = Recovery (\<lambda>_. RateLimiterMiddlewareWithPrefix (su_allow su) ''global''
      (AuditLog (su_recorder su) (OperatorKeys (su_operators su) h)) d) c w \<and> same_request d c"
proof -
  define L where "L = RateLimiterMiddlewareWithPrefix (su_allow su) ''global'' (AuditLog (su_recorder su) (OperatorKeys (su_operators su) h))"
  obtain c1 where 1: "RequestID (su_fresh su) (SecurityHeaders (BodyLimit (su_maxBody su) L)) c w = SecurityHeaders (BodyLimit (su_maxBody su) L) c1 w"
    "same_request c1 c" using RequestID_same [of "su_fresh su" "SecurityHeaders (BodyLimit (su_maxBody su) L)" c w] by auto
  obtain c2 where 2: "SecurityHeaders (BodyLimit (su_maxBody su) L) c1 w = BodyLimit (su_maxBody su) L c2 w" "same_request c2 c1"
    using SecurityHeaders_same [of "BodyLimit (su_maxBody su) L" c1 w] by auto
  obtain d where 3: "BodyLimit (su_maxBody su) L c2 w = L d w" "same_request d c2" using BodyLimit_same [of "su_maxBody su" L c2 w] by auto
  have "same_request d c" using 1(2) 2(2) 3(2) by (simp add: same_request_def)
  moreover have "global_chain su h c w = Recovery (\<lambda>_. L d) c w"
    unfolding global_chain_def L_def [symmetric] Recovery_def 1(1) 2(1) 3(1) by (rule refl)
  ultimately show ?thesis unfolding L_def by blast
qed

lemma global_chain_cases:
  assumes "quiet_setup core su" and "global_chain su h c w = (c', w')" and "cx_Response c = None" and "cx_Allowlist c = None"
    and "\<And>d v d' v'. h d v = (d', v') \<Longrightarrow> cx_Response d = None \<Longrightarrow> cx_Header d = cx_Header c \<Longrightarrow> cx_Panicked d = cx_Panicked c \<Longrightarrow>
      cx_Allowlist d = (if 0 < length (su_operators su) then Some (su_operators su) else None) \<Longrightarrow>
      core v' = core v \<and> (\<exists>r. cx_Response d' = Some r \<and> 400 \<le> rs_Status r \<and> rs_Data r = None)"
  shows "core w' = core w \<and> (\<exists>r. cx_Response c' = Some r \<and> 400 \<le> rs_Status r \<and> rs_Data r = None)"
proof -
  obtain d where g: "global_chain su h c w = Recovery (\<lambda>_. RateLimiterMiddlewareWithPrefix (su_allow su) ''global''
      (AuditLog (su_recorder su) (OperatorKeys (su_operators su) h)) d) c w" and same: "same_request d c"
    using global_chain_limiter [of su h c w] by auto
  define e where "e = (if 0 < length (su_operators su) then d\<lparr>cx_Allowlist := Some (su_operators su)\<rparr> else d)"
  have d: "cx_Response d = None" "cx_Allowlist d = None" "cx_Header d = cx_Header c" "cx_Panicked d = cx_Panicked c"
    using assms(3,4) same by (simp_all add: same_request_def)
  then have e: "cx_Response e = None" "cx_Allowlist e = (if 0 < length (su_operators su) then Some (su_operators su) else None)"
    "cx_Header e = cx_Header c" "cx_Panicked e = cx_Panicked c" by (simp_all add: e_def)
  define key where "key = ''global'' @ '':'' @ clientKey d"
  define C where "C = AuditLog (su_recorder su) (OperatorKeys (su_operators su) h)"
  have q: "core (snd (su_allow su k v)) = core v" for k v using assms(1) by (simp add: quiet_setup_def)
  obtain ok w1 where a: "su_allow su key w = (ok, w1)" by (cases "su_allow su key w")
  have w1: "core w1 = core w" using q [of key w] by (simp add: a)
  have lim: "RateLimiterMiddlewareWithPrefix (su_allow su) ''global'' C d w =
      (if ok then C d w1 else (SetErrorResponse d 429 ''rate limit exceeded'' None, w1))"
    unfolding RateLimiterMiddlewareWithPrefix_def key_def [symmetric] a by (simp split: bool.split)
  show ?thesis
  proof (cases ok)
    case False
    have "(c', w') = (SetErrorResponse d 429 ''rate limit exceeded'' None, w1) \<or>
        (c', w') = (SetErrorResponse (SetErrorResponse d 429 ''rate limit exceeded'' None\<lparr>cx_Panicked := False\<rparr>) 500 ''internal server error'' None, w1)"
      using assms(2) False unfolding g Recovery_def C_def [symmetric] lim by (simp split: if_splits)
    with d(1) w1 show ?thesis by (auto simp: SetErrorResponse_def JSON_def)
  next
    case True
    obtain d' v' where h: "h e w1 = (d', v')" by (cases "h e w1")
    have i: "core v' = core w1" "\<exists>r. cx_Response d' = Some r \<and> 400 \<le> rs_Status r \<and> rs_Data r = None"
      using assms(5) [OF h e(1,3,4,2)] by auto
    have keys: "OperatorKeys (su_operators su) h d w1 = (d', v')" using h by (simp add: OperatorKeys_def e_def)
    obtain v2 where C: "C d w1 = (d', v2)" "core v2 = core v'"
    proof (cases "cx_Panicked d' \<or> su_recorder su = None \<or> shouldSkipAudit d'")
      case True
      then have "C d w1 = (d', v')" unfolding C_def AuditLog_def keys by (auto split: option.split)
      then show ?thesis using that by simp
    next
      case False
      then obtain record1 where recorder: "su_recorder su = Some record1" by auto
      with False have "C d w1 = (d', record1 (audit_entry d') v')" unfolding C_def AuditLog_def keys by simp
      moreover have "core (record1 (audit_entry d') v') = core v'" using assms(1) recorder by (simp add: quiet_setup_def)
      ultimately show ?thesis using that by simp
    qed
    have "(c', w') = (d', v2) \<or> (c', w') = (SetErrorResponse (d'\<lparr>cx_Panicked := False\<rparr>) 500 ''internal server error'' None, v2)"
      using assms(2) True C unfolding g Recovery_def C_def [symmetric] lim by (simp split: if_splits)
    with i C(2) w1 show ?thesis by (auto simp: SetErrorResponse_def JSON_def)
  qed
qed


definition demo_setup :: "nat wiring" where
  "demo_setup = \<lparr>su_fresh = ''r'', su_maxBody = 10, su_allow = (\<lambda>k w. (True, w)), su_recorder = None,
     su_operators = [''u1''], su_tokens = \<lparr>ts_verify = (\<lambda>t. Some \<lparr>cl_UserID = ''u2'', cl_Subject = ''access''\<rparr>), ts_hmac = (\<lambda>t. True)\<rparr>\<rparr>"

definition demo_ctx :: "nat ctx" where
  "demo_ctx = \<lparr>cx_Method = ''GET'', cx_Path = ''/api/v1/tickets'', cx_Route = ''/api/v1/tickets'', cx_RawQuery = [],
     cx_Query = [], cx_Param = [], cx_Header = [(''Authorization'', ''Bearer t'')], cx_ClientIP = ''10.0.0.1'', cx_UserAgent = [],
     cx_BodyLimit = None, cx_RequestID = None, cx_UserID = None, cx_Allowlist = None, cx_OutHeader = [],
     cx_Response = None, cx_Panicked = False\<rparr>"


end
