(* ===== verification/GoTime.thy ===== *)
theory GoTime
  imports GoText
begin

text \<open>
  What the program uses of Go's package \<open>time\<close>. An instant is the number of nanoseconds
  since the Unix epoch; a \<open>time.Duration\<close> is a number of nanoseconds. \<open>format_milli\<close> is
  \<open>t.UTC().Format("2006-01-02T15:04:05.000Z")\<close>; \<open>parse_rfc3339\<close> is \<open>time.Parse\<close> for
  \<open>RFC3339Nano\<close> and for \<open>RFC3339\<close> (the two layouts accept the same strings: when the
  layout has no fraction, one after the seconds is accepted all the same);
  \<open>parse_milli_zone\<close> and \<open>parse_milli_Z\<close> are the layouts with exactly three decimals. The
  calendar is the proleptic Gregorian one, days counted from 0000-01-01.
\<close>

type_synonym instant = int
type_synonym duration = int

definition Second :: duration where "Second = 1000000000"
definition Minute :: duration where "Minute = 60 * Second"
definition Hour :: duration where "Hour = 60 * Minute"
definition Millisecond :: duration where "Millisecond = 1000000"

text \<open>The zero value of \<open>time.Time\<close>: 0001-01-01 00:00:00 UTC.\<close>

definition zero_time :: instant where
  "zero_time = - 62135596800 * Second"

section \<open>Calendar\<close>

definition leap :: "int \<Rightarrow> bool" where
  "leap y \<longleftrightarrow> y mod 4 = 0 \<and> (y mod 100 \<noteq> 0 \<or> y mod 400 = 0)"

text \<open>Days before 1 January of a year.\<close>

definition year_start :: "int \<Rightarrow> int" where
  "year_start y = 365 * y + (y + 3) div 4 - (y + 99) div 100 + (y + 399) div 400"

definition year_of :: "int \<Rightarrow> int" where
  "year_of d = (let y = (d * 400) div 146097 in
     if year_start (y + 1) \<le> d then y + 1 else if d < year_start y then y - 1 else y)"

definition month_start :: "bool \<Rightarrow> nat \<Rightarrow> int" where
  "month_start lp m =
     [0, 0, 31, 59, 90, 120, 151, 181, 212, 243, 273, 304, 334] ! m + (if lp \<and> 2 < m then 1 else 0)"

definition days_in :: "bool \<Rightarrow> nat \<Rightarrow> int" where
  "days_in lp m = (if m = 2 then (if lp then 29 else 28)
     else if m = 4 \<or> m = 6 \<or> m = 9 \<or> m = 11 then 30 else 31)"

fun month_at :: "bool \<Rightarrow> int \<Rightarrow> nat \<Rightarrow> nat" where
  "month_at lp yd 0 = 1"
| "month_at lp yd (Suc m) = (if month_start lp (Suc m) \<le> yd then Suc m else month_at lp yd m)"

definition month_of :: "bool \<Rightarrow> int \<Rightarrow> nat" where
  "month_of lp yd = month_at lp yd 12"

definition civil :: "int \<Rightarrow> int \<times> nat \<times> nat" where
  "civil d = (let y = year_of d; yd = d - year_start y; m = month_of (leap y) yd
     in (y, m, nat (yd - month_start (leap y) m + 1)))"

definition days_of :: "int \<Rightarrow> nat \<Rightarrow> nat \<Rightarrow> int" where
  "days_of y m d = year_start y + month_start (leap y) m + int d - 1"

lemma div_bounds: "0 < k \<Longrightarrow> k * (x div k) \<le> x \<and> x < k * (x div k) + k" for x k :: int
  using pos_mod_bound [of k x] pos_mod_sign [of k x] mult_div_mod_eq [of k x] by linarith

lemma year_start_bounds:
  "146097 * y - 497 \<le> 400 * year_start y \<and> 400 * year_start y \<le> 146097 * y + 796"
proof -
  have aux: "4 * a \<le> y + 3 \<and> y + 3 < 4 * a + 4 \<Longrightarrow> 100 * b \<le> y + 99 \<and> y + 99 < 100 * b + 100 \<Longrightarrow>
    400 * c \<le> y + 399 \<and> y + 399 < 400 * c + 400 \<Longrightarrow>
    146097 * y - 497 \<le> 400 * (365 * y + a - b + c) \<and> 400 * (365 * y + a - b + c) \<le> 146097 * y + 796"
    for a b c by auto
  show ?thesis unfolding year_start_def by (rule aux) (rule div_bounds, simp)+
qed

lemma year_of_bounds: "year_start (year_of d) \<le> d \<and> d < year_start (year_of d + 1)"
proof -
  define y where "y = (d * 400) div 146097"
  have y: "146097 * y \<le> d * 400" "d * 400 < 146097 * (y + 1)"
    using div_bounds [of 146097 "d * 400"] unfolding y_def by simp_all
  have "year_start (y - 1) \<le> d"
    using year_start_bounds [of "y - 1"] y by (simp add: algebra_simps)
  moreover have "d < year_start (y + 2)"
    using year_start_bounds [of "y + 2"] y by (simp add: algebra_simps)
  ultimately show ?thesis
    unfolding year_of_def Let_def y_def [symmetric] by (auto simp: algebra_simps)
qed

lemma div_succ: "(x + k) div k = (x + k - 1) div k + (if x mod k = 0 then 1 else 0)"
  if "1 < k" for x k :: int
proof (cases "x mod k = 0")
  case True
  then obtain q where q: "x = k * q" by (auto simp: mod_eq_0_iff_dvd)
  have "(k * q + (k - 1)) div k = q" using that by (simp add: div_mult_self4)
  moreover have "(k * q + k) div k = q + 1" using that by (simp add: div_mult_self4)
  ultimately show ?thesis using True by (simp add: q algebra_simps)
next
  case False
  have r: "0 < x mod k" "x mod k < k"
    using False that pos_mod_sign [of k x] pos_mod_bound [of k x] by linarith+
  have "x + k - 1 = k * (x div k) + (x mod k + k - 1)" using mult_div_mod_eq [of k x] by linarith
  then have "(x + k - 1) div k = (k * (x div k) + (x mod k + k - 1)) div k" by (rule arg_cong)
  also have "\<dots> = x div k + (x mod k + k - 1) div k" using that by (intro div_mult_self4) simp
  also have "(x mod k + k - 1) div k = (k + (x mod k - 1)) div k" by (simp add: algebra_simps)
  also have "\<dots> = (x mod k - 1) div k + 1" using that by (intro div_add_self1) simp
  also have "(x mod k - 1) div k = 0" using r by (intro div_pos_pos_trivial) linarith+
  finally have "(x + k - 1) div k = x div k + 1" by simp
  moreover have "(x + k) div k = x div k + 1" using that by (intro div_add_self2) simp
  ultimately show ?thesis using False by simp
qed

lemma leap_sum:
  fixes a0 b0 c0 y :: int
  assumes "a1 = a0 + (if p then 1 else 0)" "b1 = b0 + (if q then 1 else 0)"
    "c1 = c0 + (if r then 1 else 0)" "q \<longrightarrow> p" "r \<longrightarrow> q"
  shows "365 * (y + 1) + a1 - b1 + c1 =
    365 * y + a0 - b0 + c0 + (if p \<and> (\<not> q \<or> r) then 366 else 365)"
  using assms by (cases p; cases q; cases r) simp_all

lemma div_next: "1 < k \<Longrightarrow> j = k - 1 \<Longrightarrow>
    (x + 1 + j) div k = (x + j) div k + (if x mod k = 0 then 1 else 0)" for x k j :: int
proof -
  assume k: "1 < k" and j: "j = k - 1"
  have "x + 1 + j = x + k" "x + j = x + k - 1" by (simp_all add: j)
  then show ?thesis by (simp only: div_succ [OF k])
qed

lemma year_length: "year_start (y + 1) = year_start y + (if leap y then 366 else 365)"
proof -
  have m: "y mod 100 = 0 \<longrightarrow> y mod 4 = 0" "y mod 400 = 0 \<longrightarrow> y mod 100 = 0"
    using mod_mod_cancel [of 4 100 y] mod_mod_cancel [of 100 400 y] by auto
  show ?thesis
    unfolding year_start_def leap_def
    by (rule leap_sum [OF div_next div_next div_next m]) simp_all
qed

lemma year_start_mono: "y \<le> z \<Longrightarrow> year_start y \<le> year_start z"
proof -
  assume "y \<le> z"
  have step: "year_start x \<le> year_start (x + 1)" for x
    using year_length [of x] by simp
  have "year_start y \<le> year_start (y + int n)" for n
  proof (induction n)
    case (Suc n)
    also have "year_start (y + int n) \<le> year_start (y + int n + 1)" by (rule step)
    finally show ?case by (simp add: algebra_simps)
  qed simp
  from this [of "nat (z - y)"] \<open>y \<le> z\<close> show ?thesis by simp
qed

lemma year_of_unique:
  assumes "year_start y \<le> d" and "d < year_start (y + 1)"
  shows "year_of d = y"
proof (rule antisym)
  show "year_of d \<le> y"
    using year_of_bounds [of d] assms(2) year_start_mono [of "y + 1" "year_of d"] by fastforce
  show "y \<le> year_of d"
    using year_of_bounds [of d] assms(1) year_start_mono [of "year_of d + 1" y] by fastforce
qed

lemma month_at_spec:
  assumes "month_start lp 1 \<le> yd"
  shows "1 \<le> month_at lp yd n \<and> month_at lp yd n \<le> max 1 n \<and> month_start lp (month_at lp yd n) \<le> yd \<and>
     (\<forall>k. month_at lp yd n < k \<and> k \<le> n \<longrightarrow> yd < month_start lp k)"
proof (induction n)
  case 0
  with assms show ?case by simp
next
  case (Suc n)
  then show ?case by (auto simp: le_Suc_eq)
qed

lemma months_cover:
  assumes "0 \<le> yd" and "yd < (if lp then 366 else 365)"
  shows "1 \<le> month_of lp yd \<and> month_of lp yd \<le> 12 \<and>
     month_start lp (month_of lp yd) \<le> yd \<and>
     yd - month_start lp (month_of lp yd) < days_in lp (month_of lp yd)"
proof -
  have s1: "month_start lp 1 \<le> yd" using assms(1) by (simp add: month_start_def)
  note ma = month_at_spec [OF s1, of 12, folded month_of_def]
  define m where "m = month_of lp yd"
  have "1 \<le> m \<and> m \<le> 12" using ma by (simp add: m_def)
  then have "m \<in> {1, 2, 3, 4, 5, 6, 7, 8, 9, 10, 11, 12}" unfolding insert_iff empty_iff by presburger
  moreover have "m < 12 \<Longrightarrow> yd < month_start lp (Suc m)" using ma by (auto simp: m_def)
  moreover note assms(2)
  ultimately have "yd - month_start lp m < days_in lp m"
    by (auto simp: month_start_def days_in_def split: if_splits)
  with ma show ?thesis by (simp add: m_def)
qed

lemma civil_valid:
  assumes "civil d = (y, m, dd)"
  shows "y = year_of d" "1 \<le> m" "m \<le> 12" "1 \<le> dd" "int dd \<le> days_in (leap y) m" "days_of y m dd = d"
proof -
  let ?yd = "d - year_start (year_of d)"
  have yd: "0 \<le> ?yd" "?yd < (if leap (year_of d) then 366 else 365)"
    using year_of_bounds [of d] year_length [of "year_of d"] by (auto split: if_splits)
  note mc = months_cover [OF yd]
  show "y = year_of d" using assms by (simp add: civil_def Let_def)
  then show "1 \<le> m" "m \<le> 12" "1 \<le> dd" "int dd \<le> days_in (leap y) m" "days_of y m dd = d"
    using assms mc by (auto simp: civil_def Let_def days_of_def)
qed

section \<open>Formatting\<close>

definition year_str :: "int \<Rightarrow> string" where
  "year_str y = (if y < 0 then CHR ''-'' # pad 4 (dec (nat (- y))) else pad 4 (dec (nat y)))"

definition p2 :: "nat \<Rightarrow> string" where "p2 n = pad 2 (dec n)"
definition p3 :: "nat \<Rightarrow> string" where "p3 n = pad 3 (dec n)"

definition epoch_day :: int where "epoch_day = 719528"

text \<open>The clock fields of an instant in milliseconds.\<close>

definition format_milli :: "instant \<Rightarrow> string" where
  "format_milli t =
     (let ms = t div Millisecond; r = nat (ms mod 86400000)
      in case civil (ms div 86400000 + epoch_day) of (y, m, d) \<Rightarrow>
        year_str y @ ''-'' @ p2 m @ ''-'' @ p2 d @ ''T'' @ p2 (r div 3600000) @ '':'' @
        p2 (r div 60000 mod 60) @ '':'' @ p2 (r div 1000 mod 60) @ ''.'' @ p3 (r mod 1000) @ ''Z'')"

text \<open>\<open>Format("2006-01-02")\<close>\<close>

definition format_date :: "instant \<Rightarrow> string" where
  "format_date t = (case civil (t div (86400 * Second) + epoch_day) of (y, m, d) \<Rightarrow>
     year_str y @ ''-'' @ p2 m @ ''-'' @ p2 d)"

section \<open>Parsing\<close>

fun num4 :: "string \<Rightarrow> (nat \<times> string) option" where
  "num4 (a # b # c # d # s) =
     (if is_digit a \<and> is_digit b \<and> is_digit c \<and> is_digit d then Some (val [a, b, c, d], s) else None)"
| "num4 _ = None"

fun num2 :: "string \<Rightarrow> (nat \<times> string) option" where
  "num2 (a # b # s) = (if is_digit a \<and> is_digit b then Some (val [a, b], s) else None)"
| "num2 _ = None"

text \<open>The hour may have one digit.\<close>

fun num12 :: "string \<Rightarrow> (nat \<times> string) option" where
  "num12 (a # b # s) = (if is_digit a then (if is_digit b then Some (val [a, b], s)
     else Some (digit_val a, b # s)) else None)"
| "num12 [a] = (if is_digit a then Some (digit_val a, []) else None)"
| "num12 [] = None"

fun skip :: "char \<Rightarrow> string \<Rightarrow> string option" where
  "skip c (d # s) = (if c = d then Some s else None)"
| "skip c [] = None"

definition lim :: "nat \<Rightarrow> nat \<Rightarrow> (nat \<times> string) option \<Rightarrow> (nat \<times> string) option" where
  "lim lo hi r = (case r of None \<Rightarrow> None | Some (n, s) \<Rightarrow> if lo \<le> n \<and> n \<le> hi then Some (n, s) else None)"

text \<open>\<open>YYYY-MM-DDTHH:MM:SS\<close>: the seconds since the epoch at offset 0, and the rest.\<close>

definition parse_datetime :: "string \<Rightarrow> (int \<times> string) option" where
  "parse_datetime s0 =
     Option.bind (num4 s0) (\<lambda>(y, s1). Option.bind (skip CHR ''-'' s1) (\<lambda>s2.
     Option.bind (lim 1 12 (num2 s2)) (\<lambda>(m, s3). Option.bind (skip CHR ''-'' s3) (\<lambda>s4.
     Option.bind (num2 s4) (\<lambda>(d, s5). Option.bind (skip CHR ''T'' s5) (\<lambda>s6.
     Option.bind (lim 0 23 (num12 s6)) (\<lambda>(h, s7). Option.bind (skip CHR '':'' s7) (\<lambda>s8.
     Option.bind (lim 0 59 (num2 s8)) (\<lambda>(mi, s9). Option.bind (skip CHR '':'' s9) (\<lambda>s10.
     Option.bind (lim 0 59 (num2 s10)) (\<lambda>(sec, s11).
       if 1 \<le> d \<and> int d \<le> days_in (leap (int y)) m
       then Some ((days_of (int y) m d - epoch_day) * 86400 + int (h * 3600 + mi * 60 + sec), s11)
       else None)))))))))))"

text \<open>An optional fraction: a dot or a comma, then digits, of which nine count.\<close>

definition parse_frac :: "string \<Rightarrow> int \<times> string" where
  "parse_frac s =
     (case s of
        c # e # _ \<Rightarrow>
          if (c = CHR ''.'' \<or> c = CHR '','') \<and> is_digit e then
            (let ds = takeWhile is_digit (tl s); ns = take 9 ds
             in (int (val ns * 10 ^ (9 - length ns)), dropWhile is_digit (tl s)))
          else (0, s)
      | _ \<Rightarrow> (0, s))"

text \<open>Exactly three decimals. Go's inner \<open>atoi\<close> takes a sign here; no caller accepts one.\<close>

fun parse_frac3 :: "string \<Rightarrow> (int \<times> string) option" where
  "parse_frac3 (c # d1 # d2 # d3 # s) =
     (if (c = CHR ''.'' \<or> c = CHR '','') \<and> all_digits [d1, d2, d3]
      then Some (int (val [d1, d2, d3]) * 1000000, s) else None)"
| "parse_frac3 _ = None"

text \<open>\<open>Z07:00\<close>: the offset in seconds.\<close>

definition parse_zone :: "string \<Rightarrow> (int \<times> string) option" where
  "parse_zone s =
     (case s of
        [] \<Rightarrow> None
      | c # r \<Rightarrow>
          if c = CHR ''Z'' then Some (0, r)
          else Option.bind (lim 0 24 (num2 r)) (\<lambda>(h, r1). Option.bind (skip CHR '':'' r1) (\<lambda>r2.
            Option.bind (lim 0 60 (num2 r2)) (\<lambda>(mi, r3).
              if c = CHR ''+'' then Some (int (h * 60 + mi) * 60, r3)
              else if c = CHR ''-'' then Some (- int (h * 60 + mi) * 60, r3) else None))))"

definition parse_rfc3339 :: "string \<Rightarrow> instant option" where
  "parse_rfc3339 s =
     Option.bind (parse_datetime s) (\<lambda>(secs, s1).
       (case parse_frac s1 of (ns, s2) \<Rightarrow>
         Option.bind (parse_zone s2) (\<lambda>(off, s3).
           if s3 = [] then Some ((secs - off) * Second + ns) else None)))"

definition parse_milli_zone :: "string \<Rightarrow> instant option" where
  "parse_milli_zone s =
     Option.bind (parse_datetime s) (\<lambda>(secs, s1). Option.bind (parse_frac3 s1) (\<lambda>(ns, s2).
       Option.bind (parse_zone s2) (\<lambda>(off, s3).
         if s3 = [] then Some ((secs - off) * Second + ns) else None)))"

definition parse_milli_Z :: "string \<Rightarrow> instant option" where
  "parse_milli_Z s =
     Option.bind (parse_datetime s) (\<lambda>(secs, s1). Option.bind (parse_frac3 s1) (\<lambda>(ns, s2).
       if s2 = ''Z'' then Some (secs * Second + ns) else None))"

section \<open>Round trip\<close>

text \<open>
  The instants a clock reads: from 1970 up to the end of the year 9999, where the formatted
  year has four digits.
\<close>

definition clock_ok :: "instant \<Rightarrow> bool" where
  "clock_ok t \<longleftrightarrow> 0 \<le> t \<and> t < 253402300800 * Second"

definition trunc_milli :: "instant \<Rightarrow> instant" where
  "trunc_milli t = t div Millisecond * Millisecond"

lemma trunc_milli_idem [simp]: "trunc_milli (trunc_milli t) = trunc_milli t"
  by (simp add: trunc_milli_def Millisecond_def)

lemma trunc_milli_le: "trunc_milli t \<le> t"
  using div_bounds [of Millisecond t] by (simp add: trunc_milli_def Millisecond_def)

lemma clock_ok_trunc: "clock_ok t \<Longrightarrow> clock_ok (trunc_milli t)"
  using trunc_milli_le [of t] by (auto simp: clock_ok_def trunc_milli_def Millisecond_def)

lemma format_milli_trunc [simp]: "format_milli (trunc_milli t) = format_milli t"
  by (simp add: format_milli_def trunc_milli_def Millisecond_def)

text \<open>Padded numbers as lists of digits.\<close>

lemma list2: "length s = 2 \<Longrightarrow> \<exists>a b. s = [a, b]"
  by (auto simp: numeral_eq_Suc length_Suc_conv)

lemma list3: "length s = 3 \<Longrightarrow> \<exists>a b c. s = [a, b, c]"
  by (auto simp: numeral_eq_Suc length_Suc_conv)

lemma list4: "length s = 4 \<Longrightarrow> \<exists>a b c d. s = [a, b, c, d]"
  by (auto simp: numeral_eq_Suc length_Suc_conv)

lemma num4_pad: "n < 10000 \<Longrightarrow> num4 (pad 4 (dec n) @ s) = Some (n, s)"
proof -
  assume n: "n < 10000"
  have "length (dec n) \<le> 4" using n by (intro length_dec_le) simp_all
  then obtain a b c d where p: "pad 4 (dec n) = [a, b, c, d]" using list4 [of "pad 4 (dec n)"] by auto
  have "all_digits [a, b, c, d]" "val [a, b, c, d] = n" by (simp_all flip: p)
  then show ?thesis by (simp add: p)
qed

lemma pad2_list: "n < 100 \<Longrightarrow> \<exists>a b. pad 2 (dec n) = [a, b] \<and> is_digit a \<and> is_digit b \<and> val [a, b] = n"
proof -
  assume n: "n < 100"
  have "length (dec n) \<le> 2" using n by (intro length_dec_le) simp_all
  then obtain a b where p: "pad 2 (dec n) = [a, b]"
    using list2 [of "pad 2 (dec n)"] by auto
  have "all_digits [a, b]" "val [a, b] = n" by (simp_all flip: p)
  with p show ?thesis by auto
qed

lemma num2_pad [simp]: "n < 100 \<Longrightarrow> num2 (p2 n @ s) = Some (n, s)"
  using pad2_list [of n] by (auto simp: p2_def)

lemma num12_pad [simp]: "n < 100 \<Longrightarrow> num12 (p2 n @ s) = Some (n, s)"
  using pad2_list [of n] by (auto simp: p2_def)

lemma frac3_pad:
  "n < 1000 \<Longrightarrow> parse_frac3 (CHR ''.'' # p3 n @ s) = Some (int n * 1000000, s)"
  "n < 1000 \<Longrightarrow> s = [] \<or> \<not> is_digit (hd s) \<Longrightarrow> parse_frac (CHR ''.'' # p3 n @ s) = (int n * 1000000, s)"
proof -
  assume n: "n < 1000"
  have "length (dec n) \<le> 3" using n by (intro length_dec_le) simp_all
  then obtain a b c where p: "p3 n = [a, b, c]"
    using list3 [of "pad 3 (dec n)"] by (auto simp: p3_def)
  have v: "all_digits [a, b, c]" "val [a, b, c] = n" by (simp_all flip: p add: p3_def)
  then show "parse_frac3 (CHR ''.'' # p3 n @ s) = Some (int n * 1000000, s)" by (simp add: p)
  assume s: "s = [] \<or> \<not> is_digit (hd s)"
  then have "takeWhile is_digit s = []" "dropWhile is_digit s = s" by (cases s; simp)+
  with v show "parse_frac (CHR ''.'' # p3 n @ s) = (int n * 1000000, s)"
    by (simp add: parse_frac_def p Let_def)
qed

lemma year_of_clock:
  assumes "clock_ok t"
  shows "1970 \<le> year_of (t div Millisecond div 86400000 + epoch_day) \<and>
         year_of (t div Millisecond div 86400000 + epoch_day) \<le> 9999"
proof -
  let ?d = "t div Millisecond div 86400000 + epoch_day"
  have ms: "0 \<le> t div Millisecond" "t div Millisecond < 253402300800 * 1000"
    using assms div_bounds [of Millisecond t]
    by (auto simp: clock_ok_def Second_def Millisecond_def)
  have lo: "year_start 1970 \<le> ?d" and hi: "?d < year_start 10000"
    using ms div_bounds [of 86400000 "t div Millisecond"]
    by (auto simp: epoch_day_def year_start_def)
  have "1970 \<le> year_of ?d"
    using year_of_bounds [of ?d] lo year_start_mono [of "year_of ?d + 1" 1970] by fastforce
  moreover have "year_of ?d \<le> 9999"
    using year_of_bounds [of ?d] hi year_start_mono [of 10000 "year_of ?d"] by fastforce
  ultimately show ?thesis by simp
qed

lemma parse_datetime_format:
  assumes "0 \<le> y" "y < 10000" "1 \<le> m" "m \<le> 12" "1 \<le> d" "int d \<le> days_in (leap y) m"
    "h < 24" "mi < 60" "sec < 60"
  shows "parse_datetime (year_str y @ ''-'' @ p2 m @ ''-'' @ p2 d @ ''T'' @ p2 h @ '':'' @ p2 mi @
     '':'' @ p2 sec @ rest) = Some ((days_of y m d - epoch_day) * 86400 + int (h * 3600 + mi * 60 + sec), rest)"
proof -
  have "d < 100" using assms(6) by (auto simp: days_in_def split: if_splits)
  with assms show ?thesis
    by (simp add: parse_datetime_def year_str_def num4_pad lim_def)
qed

lemma clock_fields:
  "r div 3600000 * 3600 + r div 60000 mod 60 * 60 + r div 1000 mod 60 = r div 1000" for r :: nat
proof -
  have "r div 60000 = r div 1000 div 60" "r div 3600000 = r div 1000 div 60 div 60"
    by (simp_all flip: div_mult2_eq)
  moreover have "a * 60 + b = q \<Longrightarrow> q * 60 + c = p \<Longrightarrow> a * 3600 + b * 60 + c = p" for a b c p q :: nat
    by simp
  ultimately show ?thesis
    using div_mult_mod_eq [of "r div 1000 div 60" 60] div_mult_mod_eq [of "r div 1000" 60] by metis
qed

lemma clock_seconds:
  "t div Millisecond div 86400000 * 86400 + int (nat (t div Millisecond mod 86400000) div 1000) = t div Second"
proof -
  define m where "m = t div Millisecond"
  have "t div Second = m div 1000"
    unfolding m_def Second_def Millisecond_def by (simp flip: zdiv_zmult2_eq)
  moreover have "(1000 * (86400 * q) + p) div 1000 = 86400 * q + p div 1000" for p q :: int
    by (rule div_mult_self4) simp
  from this [of "m div 86400000" "m mod 86400000"]
  have "m div 1000 = 86400 * (m div 86400000) + m mod 86400000 div 1000" by simp
  ultimately show ?thesis
    by (simp add: m_def [symmetric] zdiv_int)
qed

lemma clock_millis:
  "t div Second * Second + int (nat (t div Millisecond mod 86400000) mod 1000) * 1000000 = trunc_milli t"
proof -
  define m where "m = t div Millisecond"
  have "t div Second = m div 1000"
    unfolding m_def Second_def Millisecond_def by (simp flip: zdiv_zmult2_eq)
  moreover have "m mod 86400000 mod 1000 = m mod 1000"
    by (rule mod_mod_cancel) simp
  moreover have "m div 1000 * 1000 + m mod 1000 = m" by simp
  then have "m div 1000 * 1000000000 + m mod 1000 * 1000000 = m * 1000000" by linarith
  ultimately show ?thesis
    unfolding trunc_milli_def m_def [symmetric] Second_def Millisecond_def
    by (simp only: m_def [symmetric, unfolded Millisecond_def] zmod_int) simp
qed

lemma format_milli_shape:
  assumes "clock_ok t"
  obtains s n where "n < 1000" "format_milli t = s @ CHR ''.'' # p3 n @ ''Z''"
    "parse_datetime (format_milli t) = Some (t div Second, CHR ''.'' # p3 n @ ''Z'')"
    "t div Second * Second + int n * 1000000 = trunc_milli t"
proof -
  define ms where "ms = t div Millisecond"
  define r where "r = nat (ms mod 86400000)"
  obtain y m d where c: "civil (ms div 86400000 + epoch_day) = (y, m, d)"
    by (cases "civil (ms div 86400000 + epoch_day)") auto
  note cv = civil_valid [OF c]
  have y: "0 \<le> y" "y < 10000" using year_of_clock [OF assms] cv(1) by (auto simp: ms_def)
  have r: "r < 86400000" by (simp add: r_def)
  let ?s = "year_str y @ ''-'' @ p2 m @ ''-'' @ p2 d @ ''T'' @ p2 (r div 3600000) @ '':'' @
        p2 (r div 60000 mod 60) @ '':'' @ p2 (r div 1000 mod 60)"
  let ?tail = "CHR ''.'' # p3 (r mod 1000) @ ''Z''"
  have f: "format_milli t = ?s @ ?tail"
    using c by (simp add: format_milli_def Let_def ms_def [symmetric] r_def [symmetric])
  have h: "r div 3600000 < 24" using r by auto
  have "parse_datetime (format_milli t) =
      Some ((days_of y m d - epoch_day) * 86400 +
        int (r div 3600000 * 3600 + r div 60000 mod 60 * 60 + r div 1000 mod 60), ?tail)"
    unfolding f append_assoc using y cv h by (intro parse_datetime_format) simp_all
  moreover have "r div 3600000 * 3600 + r div 60000 mod 60 * 60 + r div 1000 mod 60 = r div 1000"
    by (rule clock_fields)
  moreover have "ms div 86400000 * 86400 + int (r div 1000) = t div Second"
    unfolding r_def ms_def by (rule clock_seconds)
  ultimately have "parse_datetime (format_milli t) = Some (t div Second, ?tail)"
    using cv(6) by simp
  moreover have "t div Second * Second + int (r mod 1000) * 1000000 = trunc_milli t"
    unfolding r_def ms_def by (rule clock_millis)
  ultimately show thesis using f by (intro that [of "r mod 1000" ?s]) simp_all
qed

lemma parse_format_rfc3339: "clock_ok t \<Longrightarrow> parse_rfc3339 (format_milli t) = Some (trunc_milli t)"
  by (erule format_milli_shape) (simp add: parse_rfc3339_def frac3_pad is_digit_def parse_zone_def)

lemma parse_format_milli_zone: "clock_ok t \<Longrightarrow> parse_milli_zone (format_milli t) = Some (trunc_milli t)"
  by (erule format_milli_shape) (simp add: parse_milli_zone_def frac3_pad parse_zone_def)

lemma parse_format_milli_Z: "clock_ok t \<Longrightarrow> parse_milli_Z (format_milli t) = Some (trunc_milli t)"
  by (erule format_milli_shape) (simp add: parse_milli_Z_def frac3_pad)

lemma format_milli_nonempty [simp]: "format_milli t \<noteq> []"
  by (simp add: format_milli_def Let_def split: prod.split)

lemma ascii_digits: "all_digits s \<Longrightarrow> ascii s"
  by (auto simp: all_digits_def ascii_def is_digit_def)

lemma ascii_format_milli [simp]: "ascii (format_milli t)"
  by (auto simp: format_milli_def Let_def year_str_def p2_def p3_def ascii_digits split: prod.split)

lemma trunc_not_zero: "clock_ok t \<Longrightarrow> trunc_milli t \<noteq> zero_time"
  using clock_ok_trunc [of t] by (auto simp: clock_ok_def zero_time_def Second_def)

end
