(* ===== verification/Catalog.thy ===== *)
theory Catalog
  imports GoText
begin

text \<open>
  The ticket catalogue (modules/ticket/catalog.go): ticket types, regions, currencies and the
  limits of the ticket forms. Field names carry a prefix, since a record's fields are global.
\<close>

definition WorkflowLegacy :: string where "WorkflowLegacy = ''legacy''"
definition WorkflowWithdrawal :: string where "WorkflowWithdrawal = ''withdrawal-v1''"
definition WorkflowTransaction :: string where "WorkflowTransaction = ''transaction-v1''"
definition WorkflowReview :: string where "WorkflowReview = ''review-v1''"
definition WorkflowSupport :: string where "WorkflowSupport = ''support-v1''"

definition OpenerBuyer :: string where "OpenerBuyer = ''buyer''"
definition OpenerSeller :: string where "OpenerSeller = ''seller''"
definition OpenerAny :: string where "OpenerAny = ''any''"

definition MaxOpenTickets :: nat where "MaxOpenTickets = 3"
definition TicketTextLimit :: nat where "TicketTextLimit = 900"
definition PaymentRefLimit :: nat where "PaymentRefLimit = 120"
definition MethodLimit :: nat where "MethodLimit = 60"

record Type =
  ty_Key :: string
  ty_Code :: string
  ty_Label :: string
  ty_Workflow :: string
  ty_Opener :: string
  ty_Emoji :: string
  ty_Description :: string
  ty_Requires :: "string list"

definition mkType :: "string \<Rightarrow> string \<Rightarrow> string \<Rightarrow> string \<Rightarrow> string \<Rightarrow> string \<Rightarrow> string \<Rightarrow> string list \<Rightarrow> Type" where
  "mkType key code label wfl opn em desc reqs = \<lparr>ty_Key = key, ty_Code = code, ty_Label = label,
     ty_Workflow = wfl, ty_Opener = opn, ty_Emoji = em, ty_Description = desc, ty_Requires = reqs\<rparr>"

definition RegionCodes :: "string list" where
  "RegionCodes = [
     ''ID'', ''MY'', ''SG'', ''PH'', ''TH'', ''VN'', ''BN'', ''IN'', ''BD'', ''PK'', ''LK'',
     ''CN'', ''HK'', ''TW'', ''JP'', ''KR'', ''XX'']"

definition Currencies :: "string list" where
  "Currencies = [
     ''IDR'', ''MYR'', ''SGD'', ''PHP'', ''THB'', ''VND'', ''BND'', ''INR'', ''BDT'', ''PKR'',
     ''LKR'', ''CNY'', ''HKD'', ''TWD'', ''JPY'', ''KRW'', ''USD'']"

definition ZeroDecimalCurrencies :: "string list" where
  "ZeroDecimalCurrencies = [''JPY'', ''KRW'', ''VND'']"

definition Types :: "Type list" where
  "Types = [
     mkType ''purchase'' ''BUY'' ''Purchase Coordination'' WorkflowTransaction OpenerBuyer
       [CHR 0xF0, CHR 0x9F, CHR 0x9B, CHR 0x92] ''You want to buy from a seller.''
       [''product'', ''quantity'', ''price'', ''currency'', ''paymentMethod'', ''region''],
     mkType ''sale'' ''SELL'' ''Sale Coordination'' WorkflowTransaction OpenerSeller
       [CHR 0xF0, CHR 0x9F, CHR 0x8F, CHR 0xB7, CHR 0xEF, CHR 0xB8, CHR 0x8F] ''You are a seller coordinating a sale.''
       [''product'', ''quantity'', ''price'', ''currency'', ''deliveryMethod'', ''region''],
     mkType ''introduction'' ''INTRO'' ''Buyer-Seller Introduction'' WorkflowTransaction OpenerAny
       [CHR 0xF0, CHR 0x9F, CHR 0xA4, CHR 0x9D] ''Request an introduction to a specific counterparty.''
       [''counterparty'', ''product'', ''region''],
     mkType ''seller-verification'' ''VERIFY'' ''Seller Verification'' WorkflowReview OpenerBuyer
       [CHR 0xE2, CHR 0x9C, CHR 0x85] ''Apply to become a verified seller.''
       [''region'', ''languages'', ''currencies'', ''productCategories'', ''deliveryMethod'', ''refundTerms'', ''legalityDeclaration''],
     mkType ''buyer-support'' ''SUPPORT'' ''Buyer Support'' WorkflowSupport OpenerBuyer
       [CHR 0xF0, CHR 0x9F, CHR 0x92, CHR 0xAC] ''General buyer help.''
       [''summary''],
     mkType ''delivery'' ''DELIVERY'' ''Delivery Confirmation'' WorkflowTransaction OpenerAny
       [CHR 0xF0, CHR 0x9F, CHR 0x93, CHR 0xA6] ''Confirm delivery, or report a late or partial delivery.''
       [''transactionId'', ''deliveryStatus''],
     mkType ''refund'' ''REFUND'' ''Refund Request'' WorkflowReview OpenerBuyer
       [CHR 0xE2, CHR 0x86, CHR 0xA9, CHR 0xEF, CHR 0xB8, CHR 0x8F] ''Request a refund or a cancellation.''
       [''transactionId'', ''reason'', ''currency'', ''amount''],
     mkType ''dispute'' ''DISPUTE'' ''Dispute Review'' WorkflowReview OpenerAny
       [CHR 0xE2, CHR 0x9A, CHR 0x96, CHR 0xEF, CHR 0xB8, CHR 0x8F] ''Open a formal dispute over a transaction.''
       [''transactionId'', ''chronology'', ''evidence'', ''region'', ''currency''],
     mkType ''scam'' ''SCAM'' ''Scam Report'' WorkflowReview OpenerAny
       [CHR 0xF0, CHR 0x9F, CHR 0x9A, CHR 0xA8] ''Report a scam attempt or fraud.''
       [''reportedUser'', ''chronology'', ''evidence''],
     mkType ''impersonation'' ''IMPERSONATE'' ''Impersonation Report'' WorkflowReview OpenerAny
       [CHR 0xF0, CHR 0x9F, CHR 0x8E, CHR 0xAD] ''Someone is impersonating staff, a seller, or a buyer.''
       [''reportedUser'', ''impersonatedParty'', ''evidence''],
     mkType ''regional'' ''REGION'' ''Regional Support'' WorkflowSupport OpenerAny
       [CHR 0xF0, CHR 0x9F, CHR 0x8C, CHR 0x8F] ''Help in your country or region.''
       [''region'', ''summary''],
     mkType ''translation'' ''TRANSLATE'' ''Translation Support'' WorkflowSupport OpenerAny
       [CHR 0xF0, CHR 0x9F, CHR 0x97, CHR 0xA3, CHR 0xEF, CHR 0xB8, CHR 0x8F] ''Request translation help.''
       [''language'', ''summary''],
     mkType ''partnership'' ''PARTNER'' ''Partnership Request'' WorkflowSupport OpenerAny
       [CHR 0xF0, CHR 0x9F, CHR 0x93, CHR 0x88] ''Business or partnership enquiry.''
       [''organisation'', ''proposal''],
     mkType ''general'' ''GEN'' ''General Support'' WorkflowSupport OpenerAny
       [CHR 0xE2, CHR 0x9D, CHR 0x93] ''Anything else.''
       [''summary''],
     mkType ''withdraw'' ''WD'' ''Seller Withdrawal'' WorkflowWithdrawal OpenerSeller
       [CHR 0xF0, CHR 0x9F, CHR 0x93, CHR 0xA4] ''Seller request for manual admin review; approval is not payment.''
       [''region'', ''transactionId'', ''amount'', ''currency'', ''method''],
     mkType ''campaign'' ''CAMPAIGN'' ''Campaign Application'' WorkflowReview OpenerAny
       [CHR 0xF0, CHR 0x9F, CHR 0x93, CHR 0xA3] ''Ask an admin about campaign participation; no automatic discount.''
       [''region'', ''chronology''],
     mkType ''affiliate'' ''AFFILIATE'' ''Affiliate Application'' WorkflowReview OpenerAny
       [CHR 0xF0, CHR 0x9F, CHR 0x94, CHR 0x97] ''Ask an admin about affiliate participation; no automatic commission.''
       [''region'', ''chronology'']]"

definition GatedTypes :: "string list" where
  "GatedTypes = [''withdraw'', ''seller-verification'', ''campaign'', ''affiliate'']"

definition WithdrawalNotice :: string where
  "WithdrawalNotice = ''Approval is not payment. An admin must verify the external sale and actual payment, then use /withdraw-paid to confirm one outgoing record. No automatic transfer or balance is provided.''"

lemmas workflow_names [tables] = WorkflowLegacy_def WorkflowWithdrawal_def WorkflowTransaction_def
  WorkflowReview_def WorkflowSupport_def

definition TypeByKey :: "string \<Rightarrow> Type option" where
  "TypeByKey key = find (\<lambda>t. ty_Key t = key) Types"

definition ValidRegion :: "string \<Rightarrow> bool" where
  "ValidRegion code \<longleftrightarrow> ToUpper (TrimSpace code) \<in> set RegionCodes"

definition ValidCurrency :: "string \<Rightarrow> bool" where
  "ValidCurrency code \<longleftrightarrow> ToUpper (TrimSpace code) \<in> set Currencies"

section \<open>The tables\<close>

text \<open>Keys and codes are unique, every workflow exists, and codes are upper-case words.\<close>

lemma types_distinct: "distinct (map ty_Key Types) \<and> distinct (map ty_Code Types)"
  by code_simp

lemma types_codes: "\<forall>t \<in> set Types. ty_Code t \<noteq> [] \<and> list_all is_upper (ty_Code t)"
  by code_simp

lemma types_workflows: "\<forall>t \<in> set Types. ty_Workflow t \<in>
    {WorkflowWithdrawal, WorkflowTransaction, WorkflowReview, WorkflowSupport} \<and>
    (ty_Workflow t = WorkflowWithdrawal \<longleftrightarrow> ty_Key t = ''withdraw'')"
  by code_simp

lemma TypeByKey_Some: "TypeByKey k = Some t \<Longrightarrow> t \<in> set Types \<and> ty_Key t = k"
  unfolding TypeByKey_def by (drule find_SomeD) simp

lemma region_shape: "\<forall>r \<in> set RegionCodes. length r = 2 \<and> list_all is_upper r"
  by code_simp

lemma currency_shape: "\<forall>c \<in> set Currencies. length c = 3 \<and> list_all is_upper c"
  by code_simp

lemma zero_decimal_currencies: "set ZeroDecimalCurrencies \<subseteq> set Currencies"
  by code_simp

lemma is_upper_ascii: "is_upper c \<Longrightarrow> ord c < 128 \<and> \<not> is_lower c \<and> \<not> IsSpace (ord c)"
  by (auto simp: is_upper_def is_lower_def IsSpace_def)

text \<open>Upper-case words are their own normal form.\<close>

lemma upper_word: "list_all is_upper w \<Longrightarrow> TrimSpace w = w \<and> ToUpper w = w"
  using is_upper_ascii by (auto simp: list_all_iff ascii_def intro!: TrimSpace_ascii_id ToUpper_no_lower)

lemma region_code_valid: "r \<in> set RegionCodes \<Longrightarrow> ValidRegion r \<and> ToUpper (TrimSpace r) = r"
  using region_shape upper_word [of r] by (auto simp: ValidRegion_def)

lemma currency_code_valid: "c \<in> set Currencies \<Longrightarrow> ValidCurrency c \<and> ToUpper (TrimSpace c) = c"
  using currency_shape upper_word [of c] by (auto simp: ValidCurrency_def)

end
