(* ===== verification/Errors.thy ===== *)
theory Errors
  imports GoText
begin

text \<open>
  The error values of modules/ticket/errors.go, and \<open>DbError\<close> for an error that the database
  layer returned. Two errors of the package are the same under \<open>errors.Is\<close> exactly when they
  are the same value.
\<close>

datatype ticket_error =
    ErrUnknownType
  | ErrUnknownWorkflow
  | ErrInvalidForm
  | ErrRequiredField
  | ErrInvalidRegion
  | ErrSensitive
  | ErrTextEmpty
  | ErrTextLength
  | ErrDuplicateType
  | ErrOpenLimit
  | ErrNotEligible
  | ErrNoAdmin
  | ErrNotFound
  | ErrNotAdmin
  | ErrOpenerRecusal
  | ErrIllegalTransition
  | ErrAlreadyClaimed
  | ErrResolutionMissing
  | ErrWithdrawalInvalid
  | ErrNotApproved
  | ErrDuplicatePayment
  | ErrAlreadyPaid
  | ErrSellerTicket
  | ErrAlreadyApproved
  | ErrHandoffTarget
  | DbError string

type_synonym 'a tres = "(ticket_error, 'a) result"

text \<open>\<open>err.Error()\<close>\<close>

fun Error :: "ticket_error \<Rightarrow> string" where
   "Error ErrUnknownType = ''unknown ticket type''"
| "Error ErrUnknownWorkflow = ''ticket workflow needs admin review''"
| "Error ErrInvalidForm = ''ticket form could not be read''"
| "Error ErrRequiredField = ''complete this required field''"
| "Error ErrInvalidRegion = ''choose a supported country / region code''"
| "Error ErrSensitive = ''form appears to contain sensitive data''"
| "Error ErrTextEmpty = ''text is empty''"
| "Error ErrTextLength = ''text exceeds the allowed length''"
| "Error ErrDuplicateType = ''a non-closed ticket of this type already exists''"
| "Error ErrOpenLimit = ''limit of 3 non-closed tickets reached''"
| "Error ErrNotEligible = ''current membership is not eligible for this ticket type''"
| "Error ErrNoAdmin = ''no other human server admin is available''"
| "Error ErrNotFound = ''ticket not found''"
| "Error ErrNotAdmin = ''administrator permission is required''"
| "Error ErrOpenerRecusal = ''you cannot handle your own ticket''"
| "Error ErrIllegalTransition = ''illegal status transition''"
| "Error ErrAlreadyClaimed = ''ticket is already claimed''"
| "Error ErrResolutionMissing = ''save a member-visible resolution note before closing''"
| "Error ErrWithdrawalInvalid = ''withdrawal record is invalid''"
| "Error ErrNotApproved = ''only an approved withdrawal can record payment''"
| "Error ErrDuplicatePayment = ''payment reference already recorded''"
| "Error ErrAlreadyPaid = ''this withdrawal already has an outgoing payment record''"
| "Error ErrSellerTicket = ''use seller-approve only on a seller verification ticket''"
| "Error ErrAlreadyApproved = ''seller approval is already recorded''"
| "Error ErrHandoffTarget = ''handoff target must be another current human admin''"
| "Error (DbError s) = s"

end
