(* ===== verification/Workflow.thy ===== *)
theory Workflow
  imports Catalog Errors Safety GoTime
begin

text \<open>
  The workflows of the tickets and the rules of ticket text (modules/ticket/workflow.go): the
  five status graphs, the lookup of a ticket's graph, the permitted transitions, and the
  normal form and validation of text that members read.
\<close>

section \<open>The status graphs\<close>

record Status =
  st_Key :: string
  st_Label :: string
  st_Next :: "string list"
  st_Terminal :: bool
  st_Note :: string

record Workflow =
  wf_ID :: string
  wf_Statuses :: "Status list"

definition mkStatus :: "string \<Rightarrow> string \<Rightarrow> string list \<Rightarrow> bool \<Rightarrow> string \<Rightarrow> Status" where
  "mkStatus k l n t note = \<lparr>st_Key = k, st_Label = l, st_Next = n, st_Terminal = t, st_Note = note\<rparr>"

definition graph :: "string \<Rightarrow> Status list \<Rightarrow> Workflow" where
  "graph wid statuses = \<lparr>wf_ID = wid,
     wf_Statuses = map (\<lambda>s. mkStatus (st_Key s) (st_Label s) ([] @ st_Next s) (st_Terminal s) (st_Note s)) statuses\<rparr>"

definition terminalStatuses :: "Status list" where
  "terminalStatuses = [
     mkStatus ''resolved'' ''Resolved'' [''closed''] False [],
     mkStatus ''cancelled'' ''Cancelled'' [''closed''] False [],
     mkStatus ''closed'' ''Closed'' [] True []]"

definition legacyStatuses :: "Status list" where
  "legacyStatuses = [
     mkStatus ''open'' ''Open'' [''pending-verification'', ''buyer-confirmation'', ''seller-confirmation'', ''cancelled''] False [],
     mkStatus ''pending-verification'' ''Pending Verification'' [''buyer-confirmation'', ''seller-confirmation'', ''cancelled''] False [],
     mkStatus ''buyer-confirmation'' ''Buyer Confirmation Needed'' [''seller-confirmation'', ''payment-pending'', ''cancelled''] False [],
     mkStatus ''seller-confirmation'' ''Seller Confirmation Needed'' [''buyer-confirmation'', ''payment-pending'', ''cancelled''] False [],
     mkStatus ''payment-pending'' ''Payment Pending'' [''payment-confirmed'', ''cancelled'', ''dispute-opened''] False [],
     mkStatus ''payment-confirmed'' ''Payment Confirmed by Relevant Party'' [''delivery-pending'', ''dispute-opened''] False 
       (''Confirmed BY THE RELEVANT PARTY '' @ [CHR 0xE2, CHR 0x80, CHR 0x94] @ '' Skill Issues does not verify or hold payments.''),
     mkStatus ''delivery-pending'' ''Delivery Pending'' [''delivery-submitted'', ''dispute-opened'', ''cancelled''] False [],
     mkStatus ''delivery-submitted'' ''Delivery Submitted'' [''buyer-review'', ''dispute-opened''] False [],
     mkStatus ''buyer-review'' ''Buyer Review'' [''resolved'', ''dispute-opened''] False [],
     mkStatus ''dispute-opened'' ''Dispute Opened'' [''escalated'', ''resolved'', ''cancelled''] False [],
     mkStatus ''escalated'' ''Escalated'' [''resolved'', ''cancelled''] False [],
     mkStatus ''resolved'' ''Resolved'' [''closed''] False [],
     mkStatus ''cancelled'' ''Cancelled'' [''closed''] False [],
     mkStatus ''closed'' ''Closed'' [] True []]"

definition workflows :: "(string, Workflow) gomap" where
  "workflows = [
   (WorkflowLegacy, graph WorkflowLegacy legacyStatuses),
   (WorkflowWithdrawal, graph WorkflowWithdrawal [
     mkStatus ''open'' ''Awaiting admin review'' [''approved'', ''rejected'', ''cancelled''] False WithdrawalNotice,
     mkStatus ''approved'' ''Approved'' [''rejected'', ''cancelled''] False WithdrawalNotice,
     mkStatus ''paid'' ''Payment confirmed by admin'' [''closed''] False WithdrawalNotice,
     mkStatus ''rejected'' ''Rejected'' [''closed''] False WithdrawalNotice,
     mkStatus ''cancelled'' ''Cancelled'' [''closed''] False WithdrawalNotice,
     mkStatus ''closed'' ''Closed'' [] True WithdrawalNotice]),
   (WorkflowTransaction, graph WorkflowTransaction legacyStatuses),
   (WorkflowReview, graph WorkflowReview ([
     mkStatus ''open'' ''Open'' [''under-admin-review'', ''cancelled''] False [],
     mkStatus ''under-admin-review'' ''Under admin review'' [''waiting-for-member'', ''escalated'', ''resolved'', ''cancelled''] False [],
     mkStatus ''waiting-for-member'' ''Waiting for member'' [''under-admin-review'', ''escalated'', ''resolved'', ''cancelled''] False [],
     mkStatus ''escalated'' ''Escalated'' [''under-admin-review'', ''waiting-for-member'', ''resolved'', ''cancelled''] False []] @ terminalStatuses)),
   (WorkflowSupport, graph WorkflowSupport ([
     mkStatus ''open'' ''Open'' [''in-progress'', ''cancelled''] False [],
     mkStatus ''in-progress'' ''In progress'' [''waiting-for-member'', ''resolved'', ''cancelled''] False [],
     mkStatus ''waiting-for-member'' ''Waiting for member'' [''in-progress'', ''resolved'', ''cancelled''] False []] @ terminalStatuses))]"

definition WorkflowForType :: "string \<Rightarrow> string" where
  "WorkflowForType typeKey = (case TypeByKey typeKey of None \<Rightarrow> [] | Some t \<Rightarrow> ty_Workflow t)"

text \<open>\<open>(w, true)\<close> is \<open>Some w\<close>. The status argument is not used by the code.\<close>

definition WorkflowForTicket :: "string \<Rightarrow> string \<Rightarrow> string \<Rightarrow> Workflow option" where
  "WorkflowForTicket typeKey workflowID status =
     (if workflowID = [] then map_of workflows WorkflowLegacy
      else let expected = WorkflowForType typeKey in
        if expected \<noteq> workflowID then None else map_of workflows workflowID)"

definition StatusFor :: "string \<Rightarrow> string \<Rightarrow> string \<Rightarrow> Status option" where
  "StatusFor typeKey workflowID status =
     (case WorkflowForTicket typeKey workflowID status of
        None \<Rightarrow> None
      | Some w \<Rightarrow> find (\<lambda>s. st_Key s = status) (wf_Statuses w))"

definition CanTransition :: "string \<Rightarrow> string \<Rightarrow> string \<Rightarrow> string \<Rightarrow> bool" where
  "CanTransition typeKey workflowID src dst =
     (case StatusFor typeKey workflowID src of
        None \<Rightarrow> False
      | Some s \<Rightarrow> list_ex (\<lambda>n. n = dst) (st_Next s))"

definition NextStatuses :: "string \<Rightarrow> string \<Rightarrow> string \<Rightarrow> Status list" where
  "NextStatuses typeKey workflowID status =
     (case WorkflowForTicket typeKey workflowID status of
        None \<Rightarrow> []
      | Some w \<Rightarrow>
          (case StatusFor typeKey workflowID status of
             None \<Rightarrow> []
           | Some cur \<Rightarrow> concat (map (\<lambda>key. filter (\<lambda>s. st_Key s = key) (wf_Statuses w)) (st_Next cur))))"

section \<open>Ticket text\<close>

definition control_ranges :: "(nat \<times> nat) list" where
  "control_ranges = [(0, 8), (11, 31), (127, 127), (8203, 8207), (8234, 8238), (8294, 8297)]"

text \<open>\<open>controlRunes.ReplaceAllString(value, "")\<close>\<close>

definition strip_control :: "string \<Rightarrow> string" where
  "strip_control value = unsegs (filter (\<lambda>x. \<not> in_ranges control_ranges (fst x)) (segs value))"

definition NormalizeText :: "string \<Rightarrow> string" where
  "NormalizeText value = TrimSpace (strip_control value)"

definition ValidateTicketText :: "string \<Rightarrow> string tres" where
  "ValidateTicketText value =
     (if TicketTextLimit < RuneCount value \<or> TicketTextLimit < length value then Inl ErrTextLength
      else let text = NormalizeText value in
        if text = [] then Inl ErrTextEmpty
        else if 0 < length (SensitiveFindings [(''text'', text)]) then Inl ErrSensitive
        else Inr text)"

definition ValidResolution :: "string \<Rightarrow> string \<Rightarrow> string \<Rightarrow> bool" where
  "ValidResolution text by at =
     (if NormalizeText text \<noteq> text \<or> text = [] \<or> by = [] \<or> at = [] then False
      else case ValidateTicketText text of
        Inl _ \<Rightarrow> False
      | Inr _ \<Rightarrow>
          (case (case parse_rfc3339 at of None \<Rightarrow> parse_rfc3339 at | Some p \<Rightarrow> Some p) of
             None \<Rightarrow> False
           | Some parsed \<Rightarrow> parsed \<noteq> zero_time))"

section \<open>The graphs are well formed\<close>

definition keys :: "Workflow \<Rightarrow> string list" where
  "keys w = map st_Key (wf_Statuses w)"

definition well_formed :: "Workflow \<Rightarrow> bool" where
  "well_formed w \<longleftrightarrow> distinct (keys w) \<and> ''open'' \<in> set (keys w) \<and> ''closed'' \<in> set (keys w) \<and>
     list_all (\<lambda>s. distinct (st_Next s) \<and> list_all (\<lambda>n. n \<in> set (keys w)) (st_Next s) \<and>
       st_Key s \<notin> set (st_Next s) \<and> (st_Terminal s \<longleftrightarrow> st_Key s = ''closed'') \<and>
       (st_Next s = [] \<longleftrightarrow> st_Terminal s) \<and> ''paid'' \<notin> set (st_Next s) \<and> ''open'' \<notin> set (st_Next s))
     (wf_Statuses w)"

text \<open>Whether \<open>closed\<close> can be reached from a status in at most \<open>n\<close> steps.\<close>

primrec reach_closed :: "Workflow \<Rightarrow> nat \<Rightarrow> string \<Rightarrow> bool" where
  "reach_closed w 0 k \<longleftrightarrow> k = ''closed''"
| "reach_closed w (Suc n) k \<longleftrightarrow> k = ''closed'' \<or>
     (case find (\<lambda>s. st_Key s = k) (wf_Statuses w) of None \<Rightarrow> False
      | Some s \<Rightarrow> list_ex (reach_closed w n) (st_Next s))"

lemma workflows_well_formed: "list_all (\<lambda>p. well_formed (snd p) \<and> wf_ID (snd p) = fst p) workflows"
  by code_simp

lemma workflows_reach: "list_all (\<lambda>p. list_all (reach_closed (snd p) 6) (keys (snd p))) workflows"
  by code_simp

lemma WorkflowForTicket_in: "WorkflowForTicket ty wid st = Some w \<Longrightarrow> (wf_ID w, w) \<in> set workflows"
  using workflows_well_formed
  by (auto simp: WorkflowForTicket_def list_all_iff Let_def split: if_splits dest!: map_of_SomeD)

lemma WorkflowForTicket_wf: "WorkflowForTicket ty wid st = Some w \<Longrightarrow> well_formed w"
  using WorkflowForTicket_in workflows_well_formed by (fastforce simp: list_all_iff)

lemma WorkflowForTicket_status: "WorkflowForTicket ty wid st = WorkflowForTicket ty wid st'"
  by (simp add: WorkflowForTicket_def)

lemma StatusFor_SomeD: "StatusFor ty wid st = Some s \<Longrightarrow>
    \<exists>w. WorkflowForTicket ty wid st = Some w \<and> s \<in> set (wf_Statuses w) \<and> st_Key s = st \<and> well_formed w"
  by (auto simp: StatusFor_def split: option.splits dest!: find_SomeD WorkflowForTicket_wf)

lemma CanTransition_iff: "CanTransition ty wid src dst \<longleftrightarrow>
    (\<exists>s. StatusFor ty wid src = Some s \<and> dst \<in> set (st_Next s))"
  by (auto simp: CanTransition_def list_ex_iff split: option.splits)

lemma CanTransition_wf:
  assumes "CanTransition ty wid src dst"
  obtains w where "WorkflowForTicket ty wid src = Some w" "src \<in> set (keys w)" "dst \<in> set (keys w)"
    "src \<noteq> dst" "src \<noteq> ''closed''" "dst \<noteq> ''paid''" "dst \<noteq> ''open''"
proof -
  obtain s where s: "StatusFor ty wid src = Some s" "dst \<in> set (st_Next s)"
    using assms by (auto simp: CanTransition_iff)
  obtain w where w: "WorkflowForTicket ty wid src = Some w" "s \<in> set (wf_Statuses w)" "st_Key s = src" "well_formed w"
    using StatusFor_SomeD [OF s(1)] by blast
  have "dst \<in> set (keys w)" "st_Key s \<notin> set (st_Next s)" "st_Next s = [] \<longleftrightarrow> st_Key s = ''closed''"
    "''paid'' \<notin> set (st_Next s)" "''open'' \<notin> set (st_Next s)"
    using w s(2) by (auto simp: well_formed_def list_all_iff)
  then show thesis using w s(2) by (intro that [of w]) (auto simp: keys_def)
qed

text \<open>
  C28: The status graphs. A permitted transition leads between two different statuses of the
  ticket's own workflow; nothing leaves \<open>closed\<close>, no transition leads to \<open>paid\<close> (only a
  recorded payment does) and none leads back to \<open>open\<close>.
\<close>

theorem transition_shape:
  assumes "CanTransition ty wid src dst"
  shows "\<exists>w. WorkflowForTicket ty wid src = Some w \<and> src \<in> set (keys w) \<and> dst \<in> set (keys w) \<and>
    src \<noteq> dst \<and> src \<noteq> ''closed'' \<and> dst \<noteq> ''paid'' \<and> dst \<noteq> ''open''"
  using assms by (rule CanTransition_wf) auto

theorem transition_shape_witness:
  "\<exists>w. WorkflowForTicket ''withdraw'' ''withdrawal-v1'' ''approved'' = Some w \<and> ''cancelled'' \<in> set (keys w)"
proof -
  have "map_option st_Next (StatusFor ''withdraw'' ''withdrawal-v1'' ''approved'') =
      Some [''rejected'', ''cancelled'']" by code_simp
  then have "CanTransition ''withdraw'' ''withdrawal-v1'' ''approved'' ''cancelled''" by (auto simp: CanTransition_iff)
  from transition_shape [OF this] show ?thesis by blast
qed

text \<open>No status is a dead end: a ticket can always be brought to \<open>closed\<close>.\<close>

lemma reach_closed_path:
  assumes "WorkflowForTicket ty wid k = Some w" and "reach_closed w n k"
  shows "(CanTransition ty wid)\<^sup>*\<^sup>* k ''closed''"
  using assms
proof (induction n arbitrary: k)
  case 0
  then show ?case by simp
next
  case (Suc n)
  show ?case
  proof (cases "k = ''closed''")
    case False
    with Suc.prems(2) obtain s n' where s: "find (\<lambda>s. st_Key s = k) (wf_Statuses w) = Some s"
        "n' \<in> set (st_Next s)" "reach_closed w n n'"
      by (auto simp: list_ex_iff split: option.splits)
    then have "CanTransition ty wid k n'"
      using Suc.prems(1) by (auto simp: CanTransition_iff StatusFor_def)
    moreover have "(CanTransition ty wid)\<^sup>*\<^sup>* n' ''closed''"
      using Suc.IH [of n'] s(3) Suc.prems(1) WorkflowForTicket_status by metis
    ultimately show ?thesis by (rule converse_rtranclp_into_rtranclp)
  qed simp
qed

text \<open>
  C29: No ticket is stuck. From every status of every workflow, under every ticket type that
  uses the workflow, some sequence of permitted transitions leads to \<open>closed\<close>.
\<close>

theorem closed_reachable:
  assumes "WorkflowForTicket ty wid k = Some w" and "k \<in> set (keys w)"
  shows "(CanTransition ty wid)\<^sup>*\<^sup>* k ''closed''"
proof -
  have "reach_closed w 6 k"
    using workflows_reach WorkflowForTicket_in [OF assms(1)] assms(2) by (fastforce simp: list_all_iff)
  with assms(1) show ?thesis by (rule reach_closed_path)
qed

theorem closed_reachable_witness: "(CanTransition ''dispute'' ''review-v1'')\<^sup>*\<^sup>* ''escalated'' ''closed''"
proof -
  have "WorkflowForTicket ''dispute'' ''review-v1'' ''escalated'' \<noteq> None \<and>
      ''escalated'' \<in> set (keys (the (WorkflowForTicket ''dispute'' ''review-v1'' ''escalated'')))"
    by code_simp
  then obtain w where "WorkflowForTicket ''dispute'' ''review-v1'' ''escalated'' = Some w" "''escalated'' \<in> set (keys w)"
    by auto
  from closed_reachable [OF this] show ?thesis .
qed

text \<open>
  The statuses offered for a ticket are exactly those it can move to: \<open>NextStatuses\<close> lists,
  without repetition, the entries of the ticket's workflow whose key \<open>CanTransition\<close> accepts.
\<close>

theorem next_statuses_exact:
  "set (map st_Key (NextStatuses ty wid src)) = {dst. CanTransition ty wid src dst} \<and>
   distinct (map st_Key (NextStatuses ty wid src))"
proof (cases "StatusFor ty wid src")
  case None
  then show ?thesis by (auto simp: NextStatuses_def CanTransition_iff split: option.split)
next
  case (Some s)
  then obtain w where w: "WorkflowForTicket ty wid src = Some w" "s \<in> set (wf_Statuses w)" "well_formed w"
    using StatusFor_SomeD by blast
  have d: "distinct (map st_Key (wf_Statuses w))" and ds: "distinct (st_Next s)"
    and sub: "set (st_Next s) \<subseteq> set (map st_Key (wf_Statuses w))"
    using w by (auto simp: well_formed_def keys_def list_all_iff)
  have one: "map st_Key (filter (\<lambda>s. st_Key s = k) ss) = (if k \<in> set (map st_Key ss) then [k] else [])"
    if "distinct (map st_Key ss)" for k ss
    using that by (induction ss) (auto simp: filter_empty_conv)
  have "map st_Key (concat (map (\<lambda>key. filter (\<lambda>s. st_Key s = key) (wf_Statuses w)) ks)) = ks"
    if "set ks \<subseteq> set (map st_Key (wf_Statuses w))" for ks
    using that by (induction ks) (simp_all add: one [OF d])
  then have "map st_Key (NextStatuses ty wid src) = st_Next s"
    using sub by (simp add: NextStatuses_def w Some)
  then show ?thesis using ds Some by (auto simp: CanTransition_iff)
qed

section \<open>Text in normal form\<close>

lemma strip_control_segs: "valid_utf8 v \<Longrightarrow>
    segs (strip_control v) = filter (\<lambda>x. \<not> in_ranges control_ranges (fst x)) (segs v)"
  unfolding strip_control_def by (rule segs_unsegs) (auto simp: valid_utf8_def)

lemma valid_strip_control: "valid_utf8 v \<Longrightarrow> valid_utf8 (strip_control v)"
  by (auto simp: valid_utf8_def strip_control_segs)

lemma valid_TrimSpace: "valid_utf8 v \<Longrightarrow> valid_utf8 (TrimSpace v)"
  unfolding valid_utf8_def
  by (metis segs_TrimSpace subsetD trim_both_set valid_utf8_def)

lemma valid_NormalizeText: "valid_utf8 v \<Longrightarrow> valid_utf8 (NormalizeText v)"
  by (simp add: NormalizeText_def valid_TrimSpace valid_strip_control)

lemma NormalizeText_clean: "valid_utf8 v \<Longrightarrow> \<forall>x \<in> set (segs (NormalizeText v)). \<not> in_ranges control_ranges (fst x)"
proof -
  assume v: "valid_utf8 v"
  have "set (segs (NormalizeText v)) \<subseteq> set (segs (strip_control v))"
    using trim_both_set by (metis NormalizeText_def segs_TrimSpace v valid_strip_control)
  then show ?thesis using strip_control_segs [OF v] by auto
qed

lemma strip_control_id: "\<forall>x \<in> set (segs v). \<not> in_ranges control_ranges (fst x) \<Longrightarrow> strip_control v = v"
  unfolding strip_control_def by (simp add: filter_True)

lemma NormalizeText_idem: "valid_utf8 v \<Longrightarrow> NormalizeText (NormalizeText v) = NormalizeText v"
  unfolding NormalizeText_def [of "NormalizeText v"] strip_control_id [OF NormalizeText_clean]
  unfolding NormalizeText_def by (simp add: TrimSpace_idem valid_strip_control)

lemma unsegs_chars: "unsegs (map (\<lambda>c. (ord c, [c])) v) = v"
  by (induction v) (simp_all add: unsegs_def)

lemma NormalizeText_ascii:
  assumes "ascii v"
  shows "NormalizeText v =
    trim_both (\<lambda>c. IsSpace (ord c)) (filter (\<lambda>c. \<not> in_ranges control_ranges (ord c)) v)"
proof -
  let ?v = "filter (\<lambda>c. \<not> in_ranges control_ranges (ord c)) v"
  have "strip_control v = ?v"
    using assms by (simp add: strip_control_def segs_ascii filter_map comp_def unsegs_chars)
  moreover have "ascii ?v" using assms by (auto simp: ascii_def)
  ultimately show ?thesis
    by (simp add: NormalizeText_def TrimSpace_def segs_ascii trim_both_def dropWhile_map_comp
        unsegs_chars rev_map)
qed

lemma length_unsegs_filter: "length (unsegs (filter P xs)) \<le> length (unsegs xs)"
  by (induction xs) (auto simp: unsegs_simps)

lemma length_NormalizeText: "length (NormalizeText v) \<le> length v"
  using length_TrimSpace [of "strip_control v"]
    length_unsegs_filter [of "\<lambda>x. \<not> in_ranges control_ranges (fst x)" "segs v"]
  by (simp add: NormalizeText_def strip_control_def)

lemma ValidateTicketText_Inr: "ValidateTicketText v = Inr t \<longleftrightarrow>
    length v \<le> TicketTextLimit \<and> t = NormalizeText v \<and> t \<noteq> [] \<and> \<not> sensitive t"
proof -
  have "RuneCount v \<le> length v" by (rule RuneCount_le_length)
  then show ?thesis by (auto simp: ValidateTicketText_def Let_def)
qed

lemma ValidateTicketText_stable:
  assumes "valid_utf8 v" and "ValidateTicketText v = Inr t"
  shows "NormalizeText t = t" "ValidateTicketText t = Inr t"
  using assms length_NormalizeText [of v] NormalizeText_idem [of v]
  by (auto simp: ValidateTicketText_Inr)

lemma ValidResolution_iff: "ValidResolution text by at \<longleftrightarrow>
    ValidateTicketText text = Inr text \<and> by \<noteq> [] \<and> at \<noteq> [] \<and> (\<exists>p. parse_rfc3339 at = Some p \<and> p \<noteq> zero_time)"
proof (cases "ValidateTicketText text")
  case (Inl e)
  then show ?thesis by (simp add: ValidResolution_def)
next
  case (Inr u)
  then have "u = NormalizeText text" "u \<noteq> []" by (auto simp: ValidateTicketText_Inr)
  with Inr show ?thesis by (auto simp: ValidResolution_def split: option.splits)
qed

text \<open>
  Accepted text is in normal form. For text in valid UTF-8, what \<open>ValidateTicketText\<close>
  returns is not empty, has at most 900 bytes, holds no sensitive data, and passes both the
  normalisation and the validation unchanged.
\<close>

theorem accepted_text_stable:
  assumes "valid_utf8 v" and "ValidateTicketText v = Inr t"
  shows "t \<noteq> [] \<and> length t \<le> 900 \<and> SensitiveFindings [(''text'', t)] = [] \<and> NormalizeText t = t \<and>
    ValidateTicketText t = Inr t"
  using ValidateTicketText_stable [OF assms] assms(2) length_NormalizeText [of v]
  by (auto simp: ValidateTicketText_Inr TicketTextLimit_def)

theorem accepted_text_stable_witness: "ValidateTicketText ''paid out'' = Inr ''paid out''"
proof -
  have n: "NormalizeText ''  paid out '' = ''paid out''"
    by (simp add: NormalizeText_ascii trim_both_def IsSpace_def control_ranges_def)
  have "valid_utf8 ''  paid out ''" by (rule ascii_valid) simp
  moreover have "ValidateTicketText ''  paid out '' = Inr ''paid out''"
    using harmless_examples by (simp add: ValidateTicketText_Inr n TicketTextLimit_def)
  ultimately show ?thesis using accepted_text_stable by blast
qed

end
