(* ===== verification/TicketRecord.thy ===== *)
theory TicketRecord
  imports Workflow
begin

text \<open>
  The ticket record and its operations (modules/ticket/record.go), with the withdrawal
  records of withdrawal.go that it contains. Times are kept as the code keeps them, as text in
  the format of \<open>format_milli\<close>. A pointer that may be nil is an option; the operations take
  the record by value and return the changed copy, so an error leaves no trace.
\<close>

section \<open>Data\<close>

record ActorTime =
  at_By :: string
  at_At :: string

record OutgoingPayment =
  op_ID :: string
  op_TicketID :: string
  op_Direction :: string
  op_SellerID :: string
  op_AmountMinor :: int
  op_Currency :: string
  op_Reference :: string
  op_By :: string
  op_At :: string

record Withdrawal =
  wd_Version :: int
  wd_SellerID :: string
  wd_AmountMinor :: int
  wd_Currency :: string
  wd_SaleReference :: string
  wd_Method :: string
  wd_Approval :: "ActorTime option"
  wd_Outgoing :: "OutgoingPayment option"

record Event =
  ev_At :: string
  ev_Event :: string
  ev_By :: string
  ev_Reason :: string
  ev_MemberID :: string
  ev_MutationID :: string

record Resolution =
  rs_Text :: string
  rs_By :: string
  rs_At :: string

record SellerApproval =
  sa_Version :: int
  sa_By :: string
  sa_At :: string
  sa_MemberID :: string

record Record =
  r_ID :: string
  r_Type :: string
  r_Code :: string
  r_Region :: string
  r_Workflow :: string
  r_OpenerID :: string
  r_OpenerTag :: string
  r_ThreadID :: string
  r_Status :: string
  r_AssignedTo :: "string option"
  r_OpenedAt :: string
  r_ClosedAt :: string
  r_SummaryMsgID :: string
  r_Data :: "(string, string) gomap"
  r_History :: "Event list"
  r_Resolution :: "Resolution option"
  r_Withdrawal :: "Withdrawal option"
  r_SellerApproval :: "SellerApproval option"

text \<open>An event with the fields that every caller sets.\<close>

definition event :: "string \<Rightarrow> string \<Rightarrow> string \<Rightarrow> Event" where
  "event at e by = \<lparr>ev_At = at, ev_Event = e, ev_By = by, ev_Reason = [], ev_MemberID = [], ev_MutationID = []\<rparr>"

section \<open>Operations\<close>

definition Closed :: "Record \<Rightarrow> bool" where
  "Closed r \<longleftrightarrow> r_Status r = ''closed''"

fun active_scan :: "Record list \<Rightarrow> string \<Rightarrow> string \<Rightarrow> nat \<Rightarrow> nat tres" where
  "active_scan [] openerID typeKey active = Inr active"
| "active_scan (t # ts) openerID typeKey active =
     (if r_OpenerID t \<noteq> openerID \<or> Closed t then active_scan ts openerID typeKey active
      else if r_Type t = typeKey then Inl ErrDuplicateType
      else active_scan ts openerID typeKey (active + 1))"

definition ActiveLimit :: "Record list \<Rightarrow> string \<Rightarrow> string \<Rightarrow> unit tres" where
  "ActiveLimit existing openerID typeKey =
     rbind (active_scan existing openerID typeKey 0)
       (\<lambda>active. if MaxOpenTickets \<le> active then Inl ErrOpenLimit else Inr ())"

definition NewRecord :: "string \<Rightarrow> string \<Rightarrow> string \<Rightarrow> string \<Rightarrow> string \<Rightarrow> string \<Rightarrow> string \<Rightarrow> string \<Rightarrow>
    (string, string) gomap \<Rightarrow> Withdrawal option \<Rightarrow> instant \<Rightarrow> Record" where
  "NewRecord i typeKey code region workflow openerID openerTag threadID data wd now =
     (let at = format_milli now in
      \<lparr>r_ID = i, r_Type = typeKey, r_Code = code, r_Region = region, r_Workflow = workflow,
       r_OpenerID = openerID, r_OpenerTag = openerTag, r_ThreadID = threadID, r_Status = ''open'',
       r_AssignedTo = None, r_OpenedAt = at, r_ClosedAt = [], r_SummaryMsgID = [], r_Data = data,
       r_History = [event at ''created'' openerID], r_Resolution = None,
       r_Withdrawal = map_option (\<lambda>w. w\<lparr>wd_SellerID := openerID\<rparr>) wd, r_SellerApproval = None\<rparr>)"

definition Claim :: "Record \<Rightarrow> string \<Rightarrow> instant \<Rightarrow> Record tres" where
  "Claim rec actorID now =
     (if r_AssignedTo rec \<noteq> None \<and> the (r_AssignedTo rec) \<noteq> [] then
        (if the (r_AssignedTo rec) = actorID then Inl ErrAlreadyClaimed else Inl ErrAlreadyClaimed)
      else Inr (rec\<lparr>r_AssignedTo := Some actorID,
                    r_History := r_History rec @ [event (format_milli now) ''claimed'' actorID]\<rparr>))"

definition Handoff :: "Record \<Rightarrow> string \<Rightarrow> string \<Rightarrow> string \<Rightarrow> instant \<Rightarrow> Record tres" where
  "Handoff rec actorID targetID reason now =
     (if targetID = [] \<or> targetID = r_OpenerID rec \<or> targetID = actorID then Inl ErrHandoffTarget
      else rbind (ValidateTicketText reason) (\<lambda>text.
        Inr (rec\<lparr>r_AssignedTo := Some targetID,
                 r_History := r_History rec @ [(event (format_milli now) ''handoff'' actorID)
                   \<lparr>ev_Reason := text, ev_MemberID := targetID\<rparr>]\<rparr>)))"

definition SetResolution :: "Record \<Rightarrow> string \<Rightarrow> string \<Rightarrow> instant \<Rightarrow> Record tres" where
  "SetResolution rec actorID note now =
     rbind (ValidateTicketText note) (\<lambda>text.
       let at = format_milli now in
       Inr (rec\<lparr>r_Resolution := Some \<lparr>rs_Text = text, rs_By = actorID, rs_At = at\<rparr>,
                r_History := r_History rec @ [event at ''resolution'' actorID]\<rparr>))"

definition resolved :: "Record \<Rightarrow> bool" where
  "resolved rec \<longleftrightarrow> (case r_Resolution rec of None \<Rightarrow> False
     | Some res \<Rightarrow> ValidResolution (rs_Text res) (rs_By res) (rs_At res))"

definition Transition :: "Record \<Rightarrow> string \<Rightarrow> string \<Rightarrow> instant \<Rightarrow> Record tres" where
  "Transition rec actorID dst now =
     (if \<not> CanTransition (r_Type rec) (r_Workflow rec) (r_Status rec) dst then Inl ErrIllegalTransition
      else rbind
        (if dst = ''closed'' then
           (if \<not> resolved rec then Inl ErrResolutionMissing
            else Inr (rec\<lparr>r_ClosedAt := format_milli now\<rparr>))
         else Inr rec)
        (\<lambda>rec. let src = r_Status rec in
          Inr (rec\<lparr>r_Status := dst,
                   r_History := r_History rec @
                     [event (format_milli now) (''status:'' @ src @ ''->'' @ dst) actorID]\<rparr>)))"

definition ApproveSeller :: "Record \<Rightarrow> string \<Rightarrow> string \<Rightarrow> string \<Rightarrow> instant \<Rightarrow> Record tres" where
  "ApproveSeller rec actorID reason memberID now =
     (if r_Type rec \<noteq> ''seller-verification'' \<or> r_Workflow rec \<noteq> WorkflowReview then Inl ErrSellerTicket
      else if r_Status rec = ''closed'' \<or> r_Status rec = ''cancelled'' \<or> r_Status rec = ''resolved''
      then Inl ErrIllegalTransition
      else if r_SellerApproval rec \<noteq> None then Inl ErrAlreadyApproved
      else rbind (ValidateTicketText reason) (\<lambda>text.
        let at = format_milli now in
        Inr (rec\<lparr>r_SellerApproval := Some \<lparr>sa_Version = 1, sa_By = actorID, sa_At = at, sa_MemberID = memberID\<rparr>,
                 r_History := r_History rec @ [(event at ''seller.approve'' actorID)
                   \<lparr>ev_Reason := text, ev_MemberID := memberID\<rparr>]\<rparr>)))"

text \<open>\<open>t.Sub(u)\<close> saturates at the range of a 64-bit duration.\<close>

definition time_sub :: "instant \<Rightarrow> instant \<Rightarrow> duration" where
  "time_sub t u = max (- (2 ^ 63)) (min max_int64 (t - u))"

definition parse_opened :: "string \<Rightarrow> instant option" where
  "parse_opened s = (case parse_rfc3339 s of None \<Rightarrow> parse_rfc3339 s | Some t \<Rightarrow> Some t)"

definition NeedsReminder :: "Record \<Rightarrow> instant \<Rightarrow> bool" where
  "NeedsReminder rec now =
     (if r_AssignedTo rec \<noteq> None \<and> the (r_AssignedTo rec) \<noteq> [] then False
      else if r_Status rec \<in> {''resolved'', ''cancelled'', ''closed'', ''paid'', ''rejected''} then False
      else case parse_opened (r_OpenedAt rec) of
        None \<Rightarrow> False
      | Some opened \<Rightarrow> 30 * Minute \<le> time_sub now opened)"

section \<open>The limit of open tickets\<close>

definition active_of :: "string \<Rightarrow> Record list \<Rightarrow> Record list" where
  "active_of opn rs = filter (\<lambda>r. r_OpenerID r = opn \<and> \<not> Closed r) rs"

lemma active_of_simps [simp]:
  "active_of opn [] = []"
  "active_of opn (r # rs) = (if r_OpenerID r = opn \<and> \<not> Closed r then r # active_of opn rs else active_of opn rs)"
  by (simp_all add: active_of_def)

lemma active_scan_eq: "active_scan ts opn ty n =
    (if \<exists>t \<in> set (active_of opn ts). r_Type t = ty then Inl ErrDuplicateType
     else Inr (n + length (active_of opn ts)))"
  by (induction ts arbitrary: n) auto

lemma ActiveLimit_eq: "ActiveLimit ts opn ty =
    (if \<exists>t \<in> set (active_of opn ts). r_Type t = ty then Inl ErrDuplicateType
     else if 3 \<le> length (active_of opn ts) then Inl ErrOpenLimit else Inr ())"
  by (simp add: ActiveLimit_def active_scan_eq MaxOpenTickets_def)

text \<open>Nobody has more than three active tickets, nor two of one type.\<close>

definition within_limit :: "string \<Rightarrow> Record list \<Rightarrow> bool" where
  "within_limit opn ts \<longleftrightarrow> length (active_of opn ts) \<le> 3 \<and> distinct (map r_Type (active_of opn ts))"

text \<open>
  The ticket limit. \<open>ActiveLimit\<close> answers the duplicate error exactly when the member has
  an open ticket of the type, the limit error when he has three or more others, and lets him
  through otherwise.
\<close>

theorem active_limit_exact:
  "ActiveLimit ts opn ty =
     (if \<exists>t \<in> set ts. r_OpenerID t = opn \<and> \<not> Closed t \<and> r_Type t = ty then Inl ErrDuplicateType
      else if 3 \<le> length (filter (\<lambda>r. r_OpenerID r = opn \<and> \<not> Closed r) ts) then Inl ErrOpenLimit
      else Inr ())"
  unfolding ActiveLimit_eq active_of_def by auto

lemma active_limit_keeps:
  assumes "ActiveLimit ts (r_OpenerID new) (r_Type new) = Inr ()" and "within_limit opn ts"
  shows "within_limit opn (new # ts)"
  using assms by (auto simp: ActiveLimit_eq within_limit_def split: if_splits)

section \<open>What the operations do\<close>

lemma event_simps [simp]: "ev_At (event a e b) = a" "ev_Event (event a e b) = e" "ev_By (event a e b) = b"
  by (simp_all add: event_def)

lemma Claim_Inr: "Claim rec a now = Inr rec' \<longleftrightarrow>
    (r_AssignedTo rec = None \<or> r_AssignedTo rec = Some []) \<and>
    rec' = rec\<lparr>r_AssignedTo := Some a, r_History := r_History rec @ [event (format_milli now) ''claimed'' a]\<rparr>"
  by (cases "r_AssignedTo rec") (auto simp: Claim_def)

lemma Handoff_Inr: "Handoff rec a t reason now = Inr rec' \<longleftrightarrow>
    t \<noteq> [] \<and> t \<noteq> r_OpenerID rec \<and> t \<noteq> a \<and> (\<exists>text. ValidateTicketText reason = Inr text \<and>
    rec' = rec\<lparr>r_AssignedTo := Some t, r_History := r_History rec @
      [(event (format_milli now) ''handoff'' a)\<lparr>ev_Reason := text, ev_MemberID := t\<rparr>]\<rparr>)"
  by (auto simp: Handoff_def rbind_Inr_iff)

lemma SetResolution_Inr: "SetResolution rec a note now = Inr rec' \<longleftrightarrow>
    (\<exists>text. ValidateTicketText note = Inr text \<and>
    rec' = rec\<lparr>r_Resolution := Some \<lparr>rs_Text = text, rs_By = a, rs_At = format_milli now\<rparr>,
      r_History := r_History rec @ [event (format_milli now) ''resolution'' a]\<rparr>)"
  by (auto simp: SetResolution_def rbind_Inr_iff Let_def)

lemma Transition_Inr: "Transition rec a dst now = Inr rec' \<longleftrightarrow>
    CanTransition (r_Type rec) (r_Workflow rec) (r_Status rec) dst \<and> (dst = ''closed'' \<longrightarrow> resolved rec) \<and>
    rec' = rec\<lparr>r_ClosedAt := (if dst = ''closed'' then format_milli now else r_ClosedAt rec),
      r_Status := dst, r_History := r_History rec @
        [event (format_milli now) (''status:'' @ r_Status rec @ ''->'' @ dst) a]\<rparr>"
  by (auto simp: Transition_def Let_def)

lemma ApproveSeller_Inr: "ApproveSeller rec a reason mem now = Inr rec' \<longleftrightarrow>
    r_Type rec = ''seller-verification'' \<and> r_Workflow rec = WorkflowReview \<and>
    r_Status rec \<notin> {''closed'', ''cancelled'', ''resolved''} \<and> r_SellerApproval rec = None \<and>
    (\<exists>text. ValidateTicketText reason = Inr text \<and>
    rec' = rec\<lparr>r_SellerApproval := Some \<lparr>sa_Version = 1, sa_By = a, sa_At = format_milli now, sa_MemberID = mem\<rparr>,
      r_History := r_History rec @ [(event (format_milli now) ''seller.approve'' a)
        \<lparr>ev_Reason := text, ev_MemberID := mem\<rparr>]\<rparr>)"
  by (auto simp: ApproveSeller_def rbind_Inr_iff Let_def)

lemmas record_ops_Inr = Claim_Inr Handoff_Inr SetResolution_Inr Transition_Inr ApproveSeller_Inr

text \<open>A resolution set by a clock reading satisfies the check that closing makes.\<close>

lemma set_resolution_resolved:
  assumes "SetResolution rec a note now = Inr rec'" and "valid_utf8 note" and "a \<noteq> []" and "clock_ok now"
  shows "resolved rec'"
  using assms ValidateTicketText_stable(2) parse_format_rfc3339 trunc_not_zero
  by (auto simp: SetResolution_Inr resolved_def ValidResolution_iff)

text \<open>
  A ticket with a saved resolution note can be closed: after \<open>SetResolution\<close> accepted a
  note of valid UTF-8 text, \<open>Transition\<close> to \<open>closed\<close> succeeds from every status whose graph
  allows it, stamps the closing time, and adds exactly the events \<open>resolution\<close> and
  \<open>status:..->closed\<close> to the history.
\<close>

theorem resolution_then_close:
  assumes "SetResolution rec a note now = Inr rec1" and "valid_utf8 note" and "a \<noteq> []" and "clock_ok now"
    and "CanTransition (r_Type rec) (r_Workflow rec) (r_Status rec) ''closed''"
  shows "\<exists>rec2. Transition rec1 b ''closed'' later = Inr rec2 \<and> Closed rec2 \<and>
    r_ClosedAt rec2 = format_milli later \<and>
    r_History rec2 = r_History rec @ [event (format_milli now) ''resolution'' a,
      event (format_milli later) (''status:'' @ r_Status rec @ ''->closed'') b]"
proof -
  have "resolved rec1" using set_resolution_resolved assms(1-4) by blast
  with assms(1,5) show ?thesis by (auto simp: Transition_Inr SetResolution_Inr Closed_def)
qed

text \<open>A ticket record for examples.\<close>

definition sample :: "string \<Rightarrow> string \<Rightarrow> string \<Rightarrow> Record" where
  "sample ty wfl st = (NewRecord ''GEN-ID-budi-00001'' ty ''GEN'' ''ID'' wfl ''42'' ''budi'' ''t1'' [] None
     1700000000000000000)\<lparr>r_Status := st\<rparr>"

lemma sample_simps [simp]:
  "r_Type (sample ty wfl st) = ty" "r_Workflow (sample ty wfl st) = wfl" "r_Status (sample ty wfl st) = st"
  "r_OpenerID (sample ty wfl st) = ''42''" "r_AssignedTo (sample ty wfl st) = None"
  "r_SellerApproval (sample ty wfl st) = None" "r_Withdrawal (sample ty wfl st) = None"
  by (simp_all add: sample_def NewRecord_def Let_def)

lemma sample_clock: "clock_ok 1700000000000000000"
  by (simp add: clock_ok_def Second_def)

lemma sample_text: "ValidateTicketText ''paid out'' = Inr ''paid out''"
  using harmless_examples
  by (simp add: ValidateTicketText_Inr TicketTextLimit_def NormalizeText_ascii trim_both_def IsSpace_def
      control_ranges_def)

theorem resolution_then_close_witness:
  "\<exists>rec1 rec2. SetResolution (sample ''general'' ''support-v1'' ''resolved'') ''7'' ''paid out'' 1700000000000000000 = Inr rec1 \<and>
    Transition rec1 ''7'' ''closed'' 1700000001000000000 = Inr rec2 \<and> Closed rec2"
proof -
  let ?r = "sample ''general'' ''support-v1'' ''resolved''"
  obtain rec1 where s: "SetResolution ?r ''7'' ''paid out'' 1700000000000000000 = Inr rec1"
    using sample_text by (simp add: SetResolution_Inr)
  have "valid_utf8 ''paid out''" by (rule ascii_valid) simp
  moreover have "CanTransition ''general'' ''support-v1'' ''resolved'' ''closed''" by code_simp
  ultimately show ?thesis
    using s resolution_then_close [OF s _ _ sample_clock, of "''7''" 1700000001000000000] by auto
qed

text \<open>
  The reminder of an unclaimed ticket. A ticket opened at a clock reading needs a reminder
  exactly when nobody has claimed it, its status is not one of the five settled ones, and at
  least thirty minutes have passed since the (millisecond) time it was opened.
\<close>

theorem needs_reminder_iff:
  assumes "clock_ok opened" and "r_OpenedAt rec = format_milli opened" and "clock_ok now"
  shows "NeedsReminder rec now \<longleftrightarrow>
    (r_AssignedTo rec = None \<or> r_AssignedTo rec = Some []) \<and>
    r_Status rec \<notin> {''resolved'', ''cancelled'', ''closed'', ''paid'', ''rejected''} \<and>
    trunc_milli opened + 30 * Minute \<le> now"
proof -
  have p: "parse_opened (r_OpenedAt rec) = Some (trunc_milli opened)"
    using assms(1,2) by (simp add: parse_opened_def parse_format_rfc3339)
  have b: "0 \<le> trunc_milli opened" "trunc_milli opened < 253402300800 * Second" "0 \<le> now" "now < 253402300800 * Second"
    using clock_ok_trunc [OF assms(1)] assms(3) by (auto simp: clock_ok_def)
  have "30 * Minute \<le> time_sub now (trunc_milli opened) \<longleftrightarrow> trunc_milli opened + 30 * Minute \<le> now"
    using b by (auto simp: time_sub_def max_int64_def Minute_def Second_def)
  with p show ?thesis by (cases "r_AssignedTo rec") (auto simp: NeedsReminder_def)
qed

theorem needs_reminder_witness:
  "NeedsReminder (sample ''general'' ''support-v1'' ''open'') 1700001800000000000 \<and>
   \<not> NeedsReminder (sample ''general'' ''support-v1'' ''open'') 1700001799999999999"
proof -
  let ?r = "sample ''general'' ''support-v1'' ''open''"
  have o: "r_OpenedAt ?r = format_milli 1700000000000000000" by (simp add: sample_def NewRecord_def Let_def)
  have c: "clock_ok 1700001800000000000" "clock_ok 1700001799999999999" by (simp_all add: clock_ok_def Second_def)
  show ?thesis
    unfolding needs_reminder_iff [OF sample_clock o c(1)] needs_reminder_iff [OF sample_clock o c(2)]
    by (simp add: trunc_milli_def Millisecond_def Minute_def Second_def)
qed

end
