(* ===== verification/Withdrawal.thy ===== *)
theory Withdrawal
  imports TicketRecord
begin

text \<open>
  Withdrawals (modules/ticket/withdrawal.go): amounts in minor units and their text, payment
  references, the withdrawal form, and the two operations an admin has on a withdrawal ticket,
  approval and the record of the payment. A Go panic (a negative repeat count, a slice out of
  range) is \<open>None\<close>.
\<close>

section \<open>Expressions\<close>

definition az09 :: "(nat \<times> nat) list" where "az09 = [(65, 90), (48, 57)]"

definition refRe :: rx where
  "refRe = Cat (Cls az09) (Star (Cls (az09 @ chars ''._/-'')))"

definition ibanRe :: rx where
  "ibanRe = cats [rtimes 2 (Cls [(65, 90)]), rtimes 2 rdig, between 11 30 (Cls az09)]"

definition ethRe :: rx where
  "ethRe = Cat (rlit ''0X'') (atleast 40 (Cls [(65, 70), (48, 57)]))"

definition btcRe :: rx where
  "btcRe = Cat (Alt (rlit ''BC1'') (Cls (chars ''13''))) (between 25 90 (Cls az09))"

definition digitsRe :: rx where
  "digitsRe = atleast 8 rdig"

definition methodRe :: rx where
  "methodRe = Cat (Cls L_table) (Star (Cls (L_table @ chars '' .&()/-'')))"

definition codeRe :: rx where
  "codeRe = rtimes 3 (Cls [(65, 90), (97, 122)])"

definition wholeRe :: rx where
  "wholeRe = Alt (rchr CHR ''0'') (Cat (Cls [(49, 57)]) (Star rdig))"

definition decimalRe :: rx where
  "decimalRe = Cat wholeRe (ropt (Cat (rchr CHR ''.'') (between 1 2 rdig)))"

record WithdrawalForm =
  wf_Region :: string
  wf_TransactionID :: string
  wf_Amount :: string
  wf_Currency :: string
  wf_Method :: string

section \<open>Amounts\<close>

text \<open>\<open>(exp, true)\<close> is \<open>Some exp\<close>.\<close>

definition currencyExponent :: "string \<Rightarrow> int option" where
  "currencyExponent code =
     (if \<not> ValidCurrency code then None
      else if code \<in> set ZeroDecimalCurrencies then Some 0 else Some 2)"

definition FormatAmount :: "int \<Rightarrow> string \<Rightarrow> string" where
  "FormatAmount amountMinor currency =
     (case currencyExponent currency of
        None \<Rightarrow> []
      | Some exp \<Rightarrow>
          if amountMinor \<le> 0 then []
          else if exp = 0 then FormatInt amountMinor
          else let padded = pad 3 (dec (nat amountMinor))
            in take (length padded - 2) padded @ ''.'' @ drop (length padded - 2) padded)"

text \<open>\<open>strings.Repeat(s, n)\<close> panics for a negative count.\<close>

definition Repeat :: "char \<Rightarrow> int \<Rightarrow> string option" where
  "Repeat c n = (if n < 0 then None else Some (replicate (nat n) c))"

definition ParseAmount :: "string \<Rightarrow> string \<Rightarrow> (int \<times> string \<times> string) tres option" where
  "ParseAmount value code =
     (let currency = ToUpper (TrimSpace code) in
      case currencyExponent currency of
        None \<Rightarrow> Some (Inl ErrWithdrawalInvalid)
      | Some exp \<Rightarrow>
          if \<not> full_match codeRe (TrimSpace code) then Some (Inl ErrWithdrawalInvalid)
          else let amount = TrimSpace value in
            if amount = [] \<or> 40 < length amount then Some (Inl ErrWithdrawalInvalid)
            else let pattern = (if exp = 2 then decimalRe else wholeRe) in
              if \<not> full_match pattern amount then Some (Inl ErrWithdrawalInvalid)
              else let parts = Split CHR ''.'' amount;
                       whole = parts ! 0;
                       frac = (if length parts = 2 then parts ! 1 else [])
                in case Repeat CHR ''0'' (exp - int (length frac)) of
                     None \<Rightarrow> None
                   | Some zeros \<Rightarrow>
                       let combined = whole @ frac @ zeros in
                         Some (case ParseInt64 combined of
                           None \<Rightarrow> Inl ErrWithdrawalInvalid
                         | Some n \<Rightarrow> if n \<le> 0 \<or> max_int64 < n then Inl ErrWithdrawalInvalid
                             else Inr (n, currency, FormatAmount n currency)))"

section \<open>Payment references and the form\<close>

text \<open>
  \<open>strings.Map\<close> dropping the four separators; letters, digits and all other runes stay (an
  invalid byte becomes U+FFFD).
\<close>

definition strip_separators :: "string \<Rightarrow> string" where
  "strip_separators ref = concat (map (\<lambda>x. if fst x \<in> {46, 95, 47, 45} then []
     else if fst x = RuneError then FFFD else snd x) (segs ref))"

definition ValidatePaymentReference :: "string \<Rightarrow> string tres" where
  "ValidatePaymentReference value =
     (let raw = TrimSpace value in
      if raw = [] \<or> PaymentRefLimit + 2 < length raw then Inl ErrWithdrawalInvalid
      else let ref = ToUpper raw in
        if PaymentRefLimit < length ref \<or> \<not> full_match refRe ref then Inl ErrWithdrawalInvalid
        else if 0 < length (SensitiveFindings [(''reference'', ref)]) then Inl ErrSensitive
        else let stripped = strip_separators ref in
          if full_match digitsRe stripped \<or> full_match ibanRe ref \<or> full_match ethRe ref \<or> full_match btcRe ref
          then Inl ErrWithdrawalInvalid
          else Inr ref)"

definition form_keys :: "string list" where
  "form_keys = [''region'', ''transactionId'', ''amount'', ''currency'', ''method'']"

definition ValidateWithdrawalInput ::
  "(string, string) gomap \<Rightarrow> ((string, string) gomap \<times> Withdrawal) tres option" where
  "ValidateWithdrawalInput data =
     (if length data \<noteq> length form_keys \<or> \<not> list_all (\<lambda>k. map_of data k \<noteq> None) form_keys
      then Some (Inl ErrInvalidForm)
      else let region = ToUpper (TrimSpace (mget data ''region'')) in
        if \<not> ValidRegion region then Some (Inl ErrInvalidRegion)
        else case ParseAmount (mget data ''amount'') (mget data ''currency'') of
          None \<Rightarrow> None
        | Some pa \<Rightarrow> Some (rbind pa (\<lambda>(minor, currency, display).
            rbind (ValidatePaymentReference (mget data ''transactionId'')) (\<lambda>sale.
              let meth = TrimSpace (mget data ''method'') in
                if meth = [] \<or> MethodLimit < length meth \<or> \<not> full_match methodRe meth \<or> Contains meth ''://''
                then Inl ErrWithdrawalInvalid
                else if 0 < length (SensitiveFindings [(''method'', meth)]) then Inl ErrSensitive
                else Inr ([(''region'', region), (''transactionId'', sale), (''amount'', display),
                           (''currency'', currency), (''method'', meth)],
                  \<lparr>wd_Version = 1, wd_SellerID = [], wd_AmountMinor = minor, wd_Currency = currency,
                   wd_SaleReference = sale, wd_Method = meth, wd_Approval = None, wd_Outgoing = None\<rparr>)))))"

definition IsWithdrawal :: "string \<Rightarrow> string \<Rightarrow> bool" where
  "IsWithdrawal typeKey workflow \<longleftrightarrow> typeKey = ''withdraw'' \<and> workflow = WorkflowWithdrawal"

section \<open>Approval and payment\<close>

definition rfc3339Milli :: "string \<Rightarrow> bool" where
  "rfc3339Milli value = (case parse_milli_zone value of None \<Rightarrow> False | Some t \<Rightarrow> format_milli t = value)"

definition actorTimeOK :: "ActorTime \<Rightarrow> string \<Rightarrow> bool" where
  "actorTimeOK at sellerID \<longleftrightarrow> at_By at \<noteq> [] \<and> at_By at \<noteq> sellerID \<and> rfc3339Milli (at_At at)"

definition ApproveWithdrawal :: "Record \<Rightarrow> string \<Rightarrow> string \<Rightarrow> Record tres" where
  "ApproveWithdrawal rec actorID at =
     (case (if IsWithdrawal (r_Type rec) (r_Workflow rec) \<and> r_Status rec = ''open'' then r_Withdrawal rec else None) of
        None \<Rightarrow> Inl ErrWithdrawalInvalid
      | Some wd \<Rightarrow>
          if wd_Approval wd \<noteq> None then Inl ErrAlreadyApproved
          else let stamp = \<lparr>at_By = actorID, at_At = at\<rparr> in
            if \<not> actorTimeOK stamp (r_OpenerID rec) then Inl ErrNotAdmin
            else (case (parse_opened (r_OpenedAt rec), parse_opened at) of
              (Some opened, Some paidAt) \<Rightarrow>
                if paidAt < opened then Inl ErrWithdrawalInvalid
                else Inr (rec\<lparr>r_Withdrawal := Some (wd\<lparr>wd_Approval := Some stamp\<rparr>),
                              r_Status := ''approved'',
                              r_History := r_History rec @ [event at ''status:open->approved'' actorID]\<rparr>)
            | _ \<Rightarrow> Inl ErrWithdrawalInvalid))"

definition pays :: "string \<Rightarrow> Record \<Rightarrow> bool" where
  "pays ref other \<longleftrightarrow> (case r_Withdrawal other of None \<Rightarrow> False
     | Some wd \<Rightarrow> (case wd_Outgoing wd of None \<Rightarrow> False | Some out \<Rightarrow> op_Reference out = ref))"

definition RecordWithdrawalPayment :: "Record \<Rightarrow> string \<Rightarrow> string \<Rightarrow> string \<Rightarrow> Record list \<Rightarrow> Record tres" where
  "RecordWithdrawalPayment rec actorID at reference others =
     (case (if IsWithdrawal (r_Type rec) (r_Workflow rec) then r_Withdrawal rec else None) of
        None \<Rightarrow> Inl ErrNotApproved
      | Some wd \<Rightarrow>
          if wd_Outgoing wd \<noteq> None then Inl ErrAlreadyPaid
          else if r_Status rec \<noteq> ''approved'' then Inl ErrNotApproved
          else rbind (ValidatePaymentReference reference) (\<lambda>ref.
            if list_ex (pays ref) others then Inl ErrDuplicatePayment
            else let stamp = \<lparr>at_By = actorID, at_At = at\<rparr> in
              if \<not> actorTimeOK stamp (r_OpenerID rec) then Inl ErrNotAdmin
              else let out = \<lparr>op_ID = ''OUT-'' @ r_ID rec, op_TicketID = r_ID rec, op_Direction = ''outgoing'',
                         op_SellerID = r_OpenerID rec, op_AmountMinor = wd_AmountMinor wd,
                         op_Currency = wd_Currency wd, op_Reference = ref, op_By = actorID, op_At = at\<rparr>
                in Inr (rec\<lparr>r_Withdrawal := Some (wd\<lparr>wd_Outgoing := Some out\<rparr>),
                            r_Status := ''paid'',
                            r_History := r_History rec @
                              [(event at ''withdraw.paid'' actorID)\<lparr>ev_MutationID := op_ID out\<rparr>]\<rparr>)))"

section \<open>The number expressions\<close>

definition whole_ok :: "string \<Rightarrow> bool" where
  "whole_ok w \<longleftrightarrow> w \<noteq> [] \<and> all_digits w \<and> (hd w \<noteq> CHR ''0'' \<or> length w = 1)"

definition dig_rune :: "nat \<Rightarrow> bool" where
  "dig_rune r \<longleftrightarrow> 48 \<le> r \<and> r \<le> 57"

lemma dig_rune_ord [simp]: "dig_rune (ord c) \<longleftrightarrow> is_digit c"
  by (simp add: dig_rune_def is_digit_def)

lemma ord_eq_iff: "ord c = ord d \<longleftrightarrow> c = d"
  by (rule of_char_eq_iff)

definition whole_runes :: "nat list \<Rightarrow> bool" where
  "whole_runes xs \<longleftrightarrow> xs \<noteq> [] \<and> list_all dig_rune xs \<and> (hd xs \<noteq> 48 \<or> length xs = 1)"

lemma whole_runes_ord: "whole_runes (map ord w) \<longleftrightarrow> whole_ok w"
proof (cases w)
  case (Cons c cs)
  have "ord c = 48 \<longleftrightarrow> c = CHR ''0''" using ord_eq_iff [of c "CHR ''0''"] by simp
  then show ?thesis by (auto simp: whole_runes_def whole_ok_def Cons list_all_iff all_digits_def)
qed (simp add: whole_runes_def whole_ok_def)

lemma whole_runes_cases: "whole_runes xs \<longleftrightarrow>
    xs = [48] \<or> (\<exists>r ys. xs = r # ys \<and> 49 \<le> r \<and> r \<le> 57 \<and> (\<forall>y \<in> set ys. dig_rune y))"
  by (cases xs) (auto simp: whole_runes_def dig_rune_def list_all_iff)

lemma covers_whole: "covers wholeRe p xs \<longleftrightarrow> whole_runes xs"
  unfolding whole_runes_cases
  by (auto simp: wholeRe_def rchr_def rdig_def d_cls_def covers_simps dig_rune_def)

lemma covers_between12: "covers (between 1 2 rdig) p xs \<longleftrightarrow> list_all dig_rune xs \<and> (length xs = 1 \<or> length xs = 2)"
  by (auto simp: between_def rdig_def d_cls_def numeral_eq_Suc covers_simps dig_rune_def length_Suc_conv)

definition fracRe :: rx where
  "fracRe = ropt (Cat (rchr CHR ''.'') (between 1 2 rdig))"

definition frac_runes :: "nat list \<Rightarrow> bool" where
  "frac_runes xs \<longleftrightarrow> xs = [] \<or> (\<exists>f. xs = 46 # f \<and> list_all dig_rune f \<and> (length f = 1 \<or> length f = 2))"

lemma covers_frac: "covers fracRe p xs \<longleftrightarrow> frac_runes xs"
  unfolding fracRe_def frac_runes_def ropt_def rchr_def covers_Alt covers_Eps covers_Cls_Cat covers_between12
  by auto

lemma covers_decimal_cases: "covers decimalRe p xs \<longleftrightarrow>
    (\<exists>ys. xs = 48 # ys \<and> frac_runes ys) \<or>
    (\<exists>r ys zs. xs = r # ys @ zs \<and> 49 \<le> r \<and> r \<le> 57 \<and> (\<forall>y \<in> set ys. dig_rune y) \<and> frac_runes zs)"
proof -
  have d: "decimalRe = Cat (Alt (Cls [(48, 48)]) (Cat (Cls [(49, 57)]) (Star (Cls [(48, 57)])))) fracRe"
    by (simp add: decimalRe_def fracRe_def wholeRe_def rchr_def rdig_def d_cls_def)
  show ?thesis
    unfolding d covers_Alt_Cat covers_assoc covers_Cls_Cat covers_Star_Cat covers_frac
    by (auto simp: dig_rune_def) blast
qed

lemma covers_decimal: "covers decimalRe p xs \<longleftrightarrow> (\<exists>w f. xs = w @ f \<and> whole_runes w \<and> frac_runes f)"
  unfolding covers_decimal_cases
proof (intro iffI; elim disjE exE conjE)
  fix ys assume "xs = 48 # ys" "frac_runes ys"
  then show "\<exists>w f. xs = w @ f \<and> whole_runes w \<and> frac_runes f"
    by (intro exI [of _ "[48]"] exI [of _ ys]) (simp add: whole_runes_cases)
next
  fix r ys zs assume "xs = r # ys @ zs" "49 \<le> r" "r \<le> 57" "\<forall>y \<in> set ys. dig_rune y" "frac_runes zs"
  then show "\<exists>w f. xs = w @ f \<and> whole_runes w \<and> frac_runes f"
    by (intro exI [of _ "r # ys"] exI [of _ zs]) (simp add: whole_runes_cases)
next
  fix w f assume "xs = w @ f" "whole_runes w" "frac_runes f"
  then show "(\<exists>ys. xs = 48 # ys \<and> frac_runes ys) \<or>
    (\<exists>r ys zs. xs = r # ys @ zs \<and> 49 \<le> r \<and> r \<le> 57 \<and> (\<forall>y \<in> set ys. dig_rune y) \<and> frac_runes zs)"
    unfolding whole_runes_cases by (elim disjE exE conjE) (rule disjI1, simp, rule disjI2, fastforce)
qed

text \<open>The same on strings.\<close>

lemma dig_runes_ascii: "list_all dig_rune xs \<Longrightarrow> \<forall>r \<in> set xs. r < 128"
  by (auto simp: list_all_iff dig_rune_def)

lemma full_whole: "full_match wholeRe s \<longleftrightarrow> whole_ok s"
proof
  assume "full_match wholeRe s"
  then have w: "whole_runes (runes s)" by (simp add: full_match_covers covers_whole)
  then have "ascii s" by (intro ascii_runes dig_runes_ascii) (simp add: whole_runes_def)
  with w show "whole_ok s" by (simp add: runes_ascii whole_runes_ord)
next
  assume w: "whole_ok s"
  then have "ascii s" by (auto simp: whole_ok_def all_digits_def ascii_def is_digit_def)
  with w show "full_match wholeRe s" by (simp add: full_match_covers covers_whole runes_ascii whole_runes_ord)
qed

definition frac_str :: "string \<Rightarrow> string" where
  "frac_str f = (if f = [] then [] else CHR ''.'' # f)"

definition decimal_ok :: "string \<Rightarrow> string \<Rightarrow> bool" where
  "decimal_ok w f \<longleftrightarrow> whole_ok w \<and> all_digits f \<and> length f \<le> 2"

lemma frac_runes_ord: "frac_runes (map ord s) \<longleftrightarrow> (\<exists>f. s = frac_str f \<and> all_digits f \<and> length f \<le> 2)"
proof
  assume "frac_runes (map ord s)"
  then consider "s = []" | g where "map ord s = 46 # g" "list_all dig_rune g" "length g = 1 \<or> length g = 2"
    by (auto simp: frac_runes_def)
  then show "\<exists>f. s = frac_str f \<and> all_digits f \<and> length f \<le> 2"
  proof cases
    case 1
    then show ?thesis by (intro exI [of _ "[]"]) (simp add: frac_str_def)
  next
    case (2 g)
    then obtain c f where s: "s = c # f" "ord c = 46" "map ord f = g" by (cases s) auto
    have "c = CHR ''.''" using s(2) ord_eq_iff [of c "CHR ''.''"] by simp
    with 2 s show ?thesis
      by (intro exI [of _ f]) (auto simp: frac_str_def list_all_iff all_digits_def)
  qed
next
  assume "\<exists>f. s = frac_str f \<and> all_digits f \<and> length f \<le> 2"
  then obtain f where f: "s = frac_str f" "all_digits f" "length f \<le> 2" by blast
  show "frac_runes (map ord s)"
  proof (cases "f = []")
    case False
    with f(3) have "length f = 1 \<or> length f = 2" by (cases f) (auto simp: le_Suc_eq)
    with f False show ?thesis
      by (auto simp: frac_runes_def frac_str_def list_all_iff all_digits_def)
  qed (simp add: f frac_runes_def frac_str_def)
qed

lemma full_decimal: "full_match decimalRe s \<longleftrightarrow> (\<exists>w f. s = w @ frac_str f \<and> decimal_ok w f)"
proof
  assume "full_match decimalRe s"
  then obtain w f where wf: "runes s = w @ f" "whole_runes w" "frac_runes f"
    by (auto simp: full_match_covers covers_decimal)
  have "\<forall>r \<in> set w. r < 128" using wf(2) by (intro dig_runes_ascii) (simp add: whole_runes_def)
  moreover have "\<forall>r \<in> set f. r < 128" using wf(3) dig_runes_ascii by (auto simp: frac_runes_def)
  ultimately have a: "ascii s" by (intro ascii_runes) (auto simp: wf(1))
  with wf(1) obtain u v where "s = u @ v" "w = map ord u" "f = map ord v"
    by (auto simp: runes_ascii map_eq_append_conv)
  with wf(2,3) show "\<exists>w f. s = w @ frac_str f \<and> decimal_ok w f"
    by (auto simp: whole_runes_ord frac_runes_ord decimal_ok_def)
next
  assume "\<exists>w f. s = w @ frac_str f \<and> decimal_ok w f"
  then obtain w f where s: "s = w @ frac_str f" "decimal_ok w f" by blast
  have "whole_runes (map ord w)" "frac_runes (map ord (frac_str f))"
    using s(2) by (auto simp: decimal_ok_def whole_runes_ord frac_runes_ord)
  moreover have "ascii s"
    using s by (auto simp: decimal_ok_def whole_ok_def frac_str_def all_digits_def ascii_def is_digit_def)
  ultimately show "full_match decimalRe s"
    by (auto simp: full_match_covers covers_decimal runes_ascii s(1))
qed

section \<open>Amounts: exact parsing and round trip\<close>

definition exponent :: "string \<Rightarrow> nat" where
  "exponent cur = (if cur \<in> set ZeroDecimalCurrencies then 0 else 2)"

lemma currencyExponent_eq: "cur = ToUpper (TrimSpace c) \<Longrightarrow>
    currencyExponent cur = (if cur \<in> set Currencies then Some (int (exponent cur)) else None)"
  by (simp add: currencyExponent_def exponent_def ValidCurrency_def TrimSpace_ToUpper)

definition amount_text :: "nat \<Rightarrow> string \<Rightarrow> string \<Rightarrow> string \<Rightarrow> bool" where
  "amount_text e s w f \<longleftrightarrow> s = w @ frac_str f \<and> whole_ok w \<and> all_digits f \<and> length f \<le> e"

lemma amount_pattern: "e = 0 \<or> e = 2 \<Longrightarrow>
    full_match (if e = 2 then decimalRe else wholeRe) s \<longleftrightarrow> (\<exists>w f. amount_text e s w f)"
  by (auto simp: amount_text_def full_decimal decimal_ok_def full_whole frac_str_def)

lemma all_digits_no_dot: "all_digits s \<Longrightarrow> CHR ''.'' \<notin> set s"
  by (auto simp: all_digits_def is_digit_def)

lemma amount_split:
  assumes "amount_text e s w f"
  shows "Split CHR ''.'' s = (if f = [] then [w] else [w, f])"
proof -
  have "CHR ''.'' \<notin> set w" "CHR ''.'' \<notin> set f"
    using assms all_digits_no_dot by (auto simp: amount_text_def whole_ok_def)
  with assms show ?thesis by (auto simp: amount_text_def frac_str_def)
qed

definition amount_value :: "nat \<Rightarrow> string \<Rightarrow> string \<Rightarrow> nat" where
  "amount_value e w f = val w * 10 ^ e + val f * 10 ^ (e - length f)"

lemma amount_combined:
  assumes "amount_text e s w f"
  shows "ParseInt64 (w @ f @ replicate (e - length f) CHR ''0'') =
     (if amount_value e w f < 2 ^ 63 then Some (int (amount_value e w f)) else None)"
proof -
  let ?c = "w @ f @ replicate (e - length f) CHR ''0''"
  have "all_digits ?c" "?c \<noteq> []"
    using assms by (auto simp: amount_text_def whole_ok_def all_digits_def is_digit_def)
  moreover have "val ?c = amount_value e w f"
    using assms by (simp add: val_append amount_value_def amount_text_def power_add [symmetric] algebra_simps)
  ultimately show ?thesis using ParseInt64_digits by presburger
qed

lemma ParseAmount_text:
  assumes "cur = ToUpper (TrimSpace code)" and "cur \<in> set Currencies" and "full_match codeRe (TrimSpace code)"
    and "length (TrimSpace v) \<le> 40" and "amount_text (exponent cur) (TrimSpace v) w f"
  shows "ParseAmount v code = Some (
    let n = int (amount_value (exponent cur) w f) in
    if 0 < n \<and> n \<le> max_int64 then Inr (n, cur, FormatAmount n cur) else Inl ErrWithdrawalInvalid)"
proof -
  let ?e = "exponent cur" and ?s = "TrimSpace v"
  have e: "?e = 0 \<or> ?e = 2" by (simp add: exponent_def)
  have pat: "full_match (if int ?e = 2 then decimalRe else wholeRe) ?s"
    using amount_pattern [OF e, of ?s] assms(5) by auto
  have ne: "?s \<noteq> []" using assms(5) by (auto simp: amount_text_def whole_ok_def)
  have fl: "length f \<le> ?e" using assms(5) by (simp add: amount_text_def)
  have parts: "(if length (Split CHR ''.'' ?s) = 2 then Split CHR ''.'' ?s ! 1 else []) = f"
    "Split CHR ''.'' ?s ! 0 = w"
    using amount_split [OF assms(5)] by auto
  have rep: "Repeat CHR ''0'' (int ?e - int (length f)) = Some (replicate (?e - length f) CHR ''0'')"
    using fl by (simp add: Repeat_def nat_diff_distrib)
  have n63: "m < 9223372036854775808 \<longleftrightarrow> int m \<le> max_int64" for m by (auto simp: max_int64_def)
  show ?thesis
    using assms(4) ne pat parts rep amount_combined [OF assms(5)]
    unfolding ParseAmount_def Let_def assms(1) [symmetric] currencyExponent_eq [OF assms(1)]
    by (simp add: assms(2,3) n63)
qed

lemma ParseAmount_else:
  assumes "cur = ToUpper (TrimSpace code)"
    and "\<not> (cur \<in> set Currencies \<and> full_match codeRe (TrimSpace code) \<and> length (TrimSpace v) \<le> 40 \<and>
      (\<exists>w f. amount_text (exponent cur) (TrimSpace v) w f))"
  shows "ParseAmount v code = Some (Inl ErrWithdrawalInvalid)"
proof -
  have e: "exponent cur = 0 \<or> exponent cur = 2" by (simp add: exponent_def)
  have i: "(int (exponent cur) = 2) = (exponent cur = 2)" by simp
  show ?thesis
    using assms(2) amount_pattern [OF e, of "TrimSpace v"]
    unfolding ParseAmount_def Let_def assms(1) [symmetric] currencyExponent_eq [OF assms(1)]
    by (auto simp: i)
qed

text \<open>
  C23: Amounts are read exactly. \<open>ParseAmount\<close> never panics, and it accepts a value precisely
  when the code is a supported currency, the text is a decimal number of at most 40 bytes
  without superfluous leading zeros and with no more decimals than the currency has, and its
  value in minor units is positive and fits in 64 bits; the result is that value.
\<close>

theorem parse_amount_exact:
  "ParseAmount v code \<noteq> None \<and>
   (ParseAmount v code = Some (Inr (n, cur, disp)) \<longleftrightarrow>
     cur = ToUpper (TrimSpace code) \<and> cur \<in> set Currencies \<and> full_match codeRe (TrimSpace code) \<and>
     length (TrimSpace v) \<le> 40 \<and>
     (\<exists>w f. amount_text (exponent cur) (TrimSpace v) w f \<and> n = int (amount_value (exponent cur) w f)) \<and>
     0 < n \<and> n \<le> max_int64 \<and> disp = FormatAmount n cur)"
proof -
  let ?cur = "ToUpper (TrimSpace code)"
  let ?ok = "?cur \<in> set Currencies \<and> full_match codeRe (TrimSpace code) \<and> length (TrimSpace v) \<le> 40 \<and>
      (\<exists>w f. amount_text (exponent ?cur) (TrimSpace v) w f)"
  show ?thesis
  proof (cases ?ok)
    case False
    with ParseAmount_else [OF refl False] show ?thesis by auto
  next
    case True
    then obtain w f where wf: "amount_text (exponent ?cur) (TrimSpace v) w f" by blast
    have u: "w' = w \<and> f' = f" if "amount_text (exponent ?cur) (TrimSpace v) w' f'" for w' f'
      using amount_split [OF wf] amount_split [OF that] by (auto split: if_splits)
    have ex: "(\<exists>w f. amount_text (exponent ?cur) (TrimSpace v) w f \<and> n = int (amount_value (exponent ?cur) w f)) \<longleftrightarrow>
        n = int (amount_value (exponent ?cur) w f)"
      using wf u by blast
    have p: "ParseAmount v code = Some (let n = int (amount_value (exponent ?cur) w f) in
        if 0 < n \<and> n \<le> max_int64 then Inr (n, ?cur, FormatAmount n ?cur) else Inl ErrWithdrawalInvalid)"
      using True by (intro ParseAmount_text wf) simp_all
    show ?thesis
    proof (cases "cur = ?cur")
      case False
      then show ?thesis by (simp add: p Let_def)
    next
      case t: True
      show ?thesis
        unfolding p Let_def unfolding t ex using True by (simp only: simp_thms if_splits) auto
    qed
  qed
qed

lemma hd_dec: "0 < n \<Longrightarrow> hd (dec n) \<noteq> CHR ''0''"
proof (induction n rule: dec.induct)
  case (1 n)
  show ?case
  proof (cases "n < 10")
    case True
    have "digit n \<noteq> CHR ''0''"
      using 1(2) True ord_eq_iff [of "digit n" "CHR ''0''"] by simp
    with True show ?thesis by (subst dec.simps) simp
  next
    case False
    with 1 show ?thesis by (subst dec.simps) simp
  qed
qed

lemma length_dec_ge: "100 \<le> n \<Longrightarrow> 3 \<le> length (dec n)"
  using val_less [of "dec n"] power_increasing [of "length (dec n)" 2 "10 :: nat"]
  by (cases "3 \<le> length (dec n)") auto

lemma FormatAmount_text:
  assumes "0 < n" and "n \<le> max_int64" and "cur \<in> set Currencies"
  obtains w f where "amount_text (exponent cur) (FormatAmount n cur) w f"
    "int (amount_value (exponent cur) w f) = n" "length (FormatAmount n cur) \<le> 20"
proof -
  have vc: "currencyExponent cur = Some (int (exponent cur))"
    using currencyExponent_eq [of cur cur] currency_code_valid assms(3) by simp
  have nat: "nat n < 10 ^ 19" using assms(2) by (simp add: max_int64_def nat_less_iff)
  have len: "length (dec (nat n)) \<le> 19" by (rule length_dec_le [OF nat]) simp
  show thesis
  proof (cases "cur \<in> set ZeroDecimalCurrencies")
    case True
    then have "FormatAmount n cur = dec (nat n)"
      using vc assms(1) by (simp add: FormatAmount_def exponent_def FormatInt_def)
    moreover have "whole_ok (dec (nat n))" using hd_dec [of "nat n"] assms(1) by (simp add: whole_ok_def)
    ultimately show ?thesis
      using that [of "dec (nat n)" "[]"] len True assms(1)
      by (simp add: amount_text_def frac_str_def exponent_def amount_value_def)
  next
    case False
    let ?p = "pad 3 (dec (nat n))" and ?k = "length (pad 3 (dec (nat n))) - 2"
    let ?w = "take ?k ?p" and ?f = "drop ?k ?p"
    have fa: "FormatAmount n cur = ?w @ CHR ''.'' # ?f"
      using vc False assms(1) by (simp add: FormatAmount_def exponent_def Let_def)
    have f2: "length ?f = 2" by simp
    have ds: "all_digits ?w" "all_digits ?f"
      by (metis all_digits_dec all_digits_pad all_digits_simps(3) append_take_drop_id)+
    have "val ?p = val ?w * 10 ^ length ?f + val ?f" by (metis append_take_drop_id val_append)
    then have v: "amount_value 2 ?w ?f = nat n" using f2 by (simp add: amount_value_def)
    have "?p \<noteq> []" by (simp add: pad_def)
    then have wne: "?w \<noteq> []" by simp
    have "hd ?w \<noteq> CHR ''0'' \<or> length ?w = 1"
    proof (cases "100 \<le> nat n")
      case True
      then have "?p = dec (nat n)" using length_dec_ge by (simp add: pad_def)
      moreover have "hd ?w = hd ?p" using wne by (metis hd_take take_eq_Nil gr0I)
      ultimately show ?thesis using hd_dec [of "nat n"] assms(1) by simp
    next
      case False
      then have "length (dec (nat n)) \<le> 2" by (intro length_dec_le) simp_all
      then show ?thesis by simp
    qed
    with ds wne have "whole_ok ?w" by (simp add: whole_ok_def)
    with ds f2 have "amount_text 2 (FormatAmount n cur) ?w ?f"
      by (auto simp: amount_text_def fa frac_str_def)
    moreover have "length (FormatAmount n cur) \<le> 20" using len by (simp add: fa)
    ultimately show ?thesis using that [of ?w ?f] v False assms(1) by (simp add: exponent_def)
  qed
qed

lemma covers_code: "covers codeRe p xs \<longleftrightarrow> length xs = 3 \<and> (\<forall>r \<in> set xs. in_ranges [(65, 90), (97, 122)] r)"
  by (auto simp: codeRe_def numeral_eq_Suc covers_Cls_Cat covers_Eps length_Suc_conv)

lemma currency_codeRe: "c \<in> set Currencies \<Longrightarrow> full_match codeRe c"
proof -
  assume "c \<in> set Currencies"
  then have "length c = 3" "list_all is_upper c" using currency_shape by auto
  moreover from this have "ascii c" using is_upper_ascii by (auto simp: ascii_def list_all_iff)
  ultimately show ?thesis
    by (auto simp: full_match_covers covers_code runes_ascii list_all_iff is_upper_def)
qed

lemma amount_text_trim: "amount_text e s w f \<Longrightarrow> TrimSpace s = s"
proof -
  assume a: "amount_text e s w f"
  then have c: "is_digit c \<or> c = CHR ''.''" if "c \<in> set s" for c
    using that by (auto simp: amount_text_def whole_ok_def frac_str_def all_digits_def split: if_splits)
  have "ord c < 128 \<and> \<not> IsSpace (ord c)" if "c \<in> set s" for c
    using c [OF that] by (auto simp: is_digit_def IsSpace_def)
  then show ?thesis by (intro TrimSpace_ascii_id) (auto simp: ascii_def)
qed

text \<open>
  C22: Amounts round trip. For every positive 64-bit number of minor units and every supported
  currency, the text that \<open>FormatAmount\<close> prints is read back by \<open>ParseAmount\<close> as the same
  number, and is displayed as the same text.
\<close>

theorem amount_roundtrip:
  assumes "0 < n" and "n \<le> max_int64" and "cur \<in> set Currencies"
  shows "ParseAmount (FormatAmount n cur) cur = Some (Inr (n, cur, FormatAmount n cur))"
proof -
  have cur: "cur = ToUpper (TrimSpace cur)" "TrimSpace cur = cur"
    using currency_code_valid [OF assms(3)] currency_shape assms(3) upper_word by auto
  obtain w f where wf: "amount_text (exponent cur) (FormatAmount n cur) w f"
    "int (amount_value (exponent cur) w f) = n" "length (FormatAmount n cur) \<le> 20"
    using FormatAmount_text [OF assms] by blast
  have t: "TrimSpace (FormatAmount n cur) = FormatAmount n cur" using wf(1) by (rule amount_text_trim)
  have "full_match codeRe (TrimSpace cur)" using currency_codeRe [OF assms(3)] cur(2) by simp
  from ParseAmount_text [OF cur(1) assms(3) this, of "FormatAmount n cur" w f] t wf assms(1,2)
  show ?thesis by (simp add: Let_def)
qed

theorem amount_roundtrip_witness:
  "ParseAmount (FormatAmount 5 ''USD'') ''USD'' = Some (Inr (5, ''USD'', ''0.05''))"
proof -
  have "currencyExponent ''USD'' = Some 2"
    using currencyExponent_eq [of "''USD''" "''USD''"] currency_code_valid [of "''USD''"]
    by (simp add: Currencies_def exponent_def ZeroDecimalCurrencies_def)
  moreover have "dec 5 = ''5''"
    using dec_val [of "''5''"] by (simp add: is_digit_def digit_val_def)
  ultimately have "FormatAmount 5 ''USD'' = ''0.05''" by (simp add: FormatAmount_def pad_def numeral_eq_Suc)
  then show ?thesis using amount_roundtrip [of 5 "''USD''"] by (simp add: max_int64_def Currencies_def)
qed

section \<open>Payment references\<close>

definition ref_char :: "char \<Rightarrow> bool" where
  "ref_char c \<longleftrightarrow> is_upper c \<or> is_digit c \<or> c \<in> set ''._/-''"

lemma refRe_chars:
  assumes "full_match refRe ref"
  shows "ref \<noteq> []" "ascii ref" "\<forall>c \<in> set ref. ref_char c" "is_upper (hd ref) \<or> is_digit (hd ref)"
proof -
  from assms obtain r ys where r: "runes ref = r # ys" "in_ranges az09 r"
    "\<forall>y \<in> set ys. in_ranges (az09 @ chars ''._/-'') y"
    by (auto simp: full_match_covers refRe_def covers_Cls_Cat covers_Star_Cls)
  have "y < 128" if "in_ranges (az09 @ chars ''._/-'') y" for y
    using that by (auto simp: az09_def chars_def)
  with r have "\<forall>y \<in> set (runes ref). y < 128" by (auto simp: az09_def)
  then show a: "ascii ref" by (rule ascii_runes)
  with r(1) have m: "map ord ref = r # ys" by (simp add: runes_ascii)
  then show "ref \<noteq> []" by auto
  have c: "ref_char c" if "in_ranges (az09 @ chars ''._/-'') (ord c)" for c
    using that ord_eq_iff [of c "CHR ''.''"] ord_eq_iff [of c "CHR ''_''"] ord_eq_iff [of c "CHR ''/''"]
      ord_eq_iff [of c "CHR ''-''"]
    by (auto simp: az09_def chars_def ref_char_def is_upper_def is_digit_def)
  have "in_ranges (az09 @ chars ''._/-'') y" if "y \<in> set (map ord ref)" for y
    using that r(2,3) by (auto simp: m az09_def)
  then show "\<forall>c \<in> set ref. ref_char c" using c by auto
  show "is_upper (hd ref) \<or> is_digit (hd ref)"
    using m r(2) by (cases ref) (auto simp: az09_def is_upper_def is_digit_def)
qed

lemma ref_chars_plain: "ref_char c \<Longrightarrow> ord c < 128 \<and> \<not> is_lower c \<and> \<not> IsSpace (ord c)"
  by (auto simp: ref_char_def is_upper_def is_digit_def is_lower_def IsSpace_def)

text \<open>The checks on a reference in normal form.\<close>

definition ref_ok :: "string \<Rightarrow> bool" where
  "ref_ok ref \<longleftrightarrow> length ref \<le> PaymentRefLimit \<and> full_match refRe ref \<and> \<not> sensitive ref \<and>
     \<not> full_match digitsRe (strip_separators ref) \<and> \<not> full_match ibanRe ref \<and>
     \<not> full_match ethRe ref \<and> \<not> full_match btcRe ref"

lemma ref_ok_normal: "ref_ok ref \<Longrightarrow> TrimSpace ref = ref \<and> ToUpper ref = ref"
  using refRe_chars ref_chars_plain
  by (auto simp: ref_ok_def intro!: TrimSpace_ascii_id ToUpper_no_lower)

lemma ValidatePaymentReference_Inr: "ValidatePaymentReference v = Inr ref \<longleftrightarrow>
    TrimSpace v \<noteq> [] \<and> length (TrimSpace v) \<le> PaymentRefLimit + 2 \<and> ref = ToUpper (TrimSpace v) \<and> ref_ok ref"
  by (auto simp: ValidatePaymentReference_def Let_def ref_ok_def)

lemma reference_stable: "ref_ok ref \<Longrightarrow> ValidatePaymentReference ref = Inr ref"
  using ref_ok_normal [of ref] refRe_chars(1) [of ref]
  by (auto simp: ValidatePaymentReference_Inr) (simp_all add: ref_ok_def)

text \<open>
  Payment references have one normal form. An accepted reference is the trimmed,
  upper-case input, has at most 120 characters of the set A-Z, 0-9, dot, underscore, slash and
  dash, does not look like an account number, an IBAN or a wallet address, holds no sensitive
  data, and is accepted again unchanged; so two spellings that differ in case or blanks are
  one reference to the duplicate check.
\<close>

theorem reference_normal_form:
  assumes "ValidatePaymentReference v = Inr ref"
  shows "ref = ToUpper (TrimSpace v) \<and> length ref \<le> 120 \<and> (\<forall>c \<in> set ref. ref_char c) \<and> \<not> sensitive ref \<and>
    \<not> full_match digitsRe (strip_separators ref) \<and> \<not> full_match ibanRe ref \<and> \<not> full_match ethRe ref \<and>
    \<not> full_match btcRe ref \<and> ValidatePaymentReference ref = Inr ref"
proof -
  have r: "ref = ToUpper (TrimSpace v)" "ref_ok ref" using assms by (auto simp: ValidatePaymentReference_Inr)
  have "\<forall>c \<in> set ref. ref_char c" using r(2) refRe_chars(3) unfolding ref_ok_def by blast
  with r reference_stable [OF r(2)] show ?thesis by (simp only: ref_ok_def PaymentRefLimit_def) blast
qed

text \<open>A reference for examples.\<close>

lemma covers_refRe: "covers refRe p xs \<longleftrightarrow>
    (\<exists>r ys. xs = r # ys \<and> in_ranges az09 r \<and> (\<forall>y \<in> set ys. in_ranges (az09 @ chars ''._/-'') y))"
  by (simp add: refRe_def covers_Cls_Cat covers_Star_Cls)

lemma sample_ref_ok: "ref_ok ''PAY-7''"
proof -
  have r: "runes ''PAY-7'' = [80, 65, 89, 45, 55]" by (simp add: runes_ascii)
  have "full_match refRe ''PAY-7''"
    unfolding full_match_covers r covers_refRe by (simp add: az09_def chars_def)
  moreover have "strip_separators ''PAY-7'' = ''PAY7''"
    by (simp add: strip_separators_def segs_ascii RuneError_def)
  moreover have "\<not> full_match digitsRe ''PAY7''" "\<not> full_match ibanRe ''PAY-7''"
    "\<not> full_match ethRe ''PAY-7''" "\<not> full_match btcRe ''PAY-7''"
    unfolding full_match_covers r
    by (simp_all add: runes_ascii digitsRe_def ibanRe_def ethRe_def btcRe_def atleast_def between_def numeral_eq_Suc
      rdig_def d_cls_def az09_def rlit_def rchr_def chars_def covers_simps)
  ultimately show ?thesis
    using harmless_examples by (simp add: ref_ok_def PaymentRefLimit_def)
qed

lemma sample_ref: "ValidatePaymentReference ''PAY-7'' = Inr ''PAY-7''"
  using sample_ref_ok by (rule reference_stable)

theorem reference_normal_form_witness: "list_all ref_char ''PAY-7'' \<and> ValidatePaymentReference ''PAY-7'' = Inr ''PAY-7''"
  using reference_normal_form [OF sample_ref] unfolding list_all_iff by blast

section \<open>The withdrawal form\<close>

text \<open>The form check never panics, and its result is one clean form with its withdrawal.\<close>

lemma ParseAmount_total: "\<exists>r. ParseAmount v code = Some r"
proof (cases "ToUpper (TrimSpace code) \<in> set Currencies \<and> full_match codeRe (TrimSpace code) \<and>
    length (TrimSpace v) \<le> 40 \<and> (\<exists>w f. amount_text (exponent (ToUpper (TrimSpace code))) (TrimSpace v) w f)")
  case True
  then show ?thesis using ParseAmount_text [OF refl] by blast
next
  case False
  then show ?thesis using ParseAmount_else [OF refl] by blast
qed

lemma ParseAmount_Inr: "ParseAmount v code = Some (Inr (n, cur, disp)) \<Longrightarrow>
    cur \<in> set Currencies \<and> 0 < n \<and> n \<le> max_int64 \<and> disp = FormatAmount n cur"
proof -
  assume p: "ParseAmount v code = Some (Inr (n, cur, disp))"
  let ?cur = "ToUpper (TrimSpace code)"
  show ?thesis
  proof (cases "?cur \<in> set Currencies \<and> full_match codeRe (TrimSpace code) \<and>
      length (TrimSpace v) \<le> 40 \<and> (\<exists>w f. amount_text (exponent ?cur) (TrimSpace v) w f)")
    case True
    then obtain w f where "amount_text (exponent ?cur) (TrimSpace v) w f" by blast
    from ParseAmount_text [OF refl _ _ _ this] True p show ?thesis by (auto simp: Let_def split: if_splits)
  next
    case False
    with ParseAmount_else [OF refl False] p show ?thesis by simp
  qed
qed

definition withdrawal_ok :: "Withdrawal \<Rightarrow> bool" where
  "withdrawal_ok wd \<longleftrightarrow> 0 < wd_AmountMinor wd \<and> wd_AmountMinor wd \<le> max_int64 \<and>
     wd_Currency wd \<in> set Currencies \<and> ref_ok (wd_SaleReference wd) \<and>
     wd_Method wd \<noteq> [] \<and> \<not> sensitive (wd_Method wd)"

lemma withdrawal_form_total: "\<exists>r. ValidateWithdrawalInput data = Some r"
proof -
  obtain pa where "ParseAmount (mget data ''amount'') (mget data ''currency'') = Some pa"
    using ParseAmount_total by blast
  then show ?thesis by (simp add: ValidateWithdrawalInput_def Let_def)
qed

lemma withdrawal_form_Inr:
  assumes "ValidateWithdrawalInput data = Some (Inr (clean, wd))"
  shows "withdrawal_ok wd \<and> wd_Approval wd = None \<and> wd_Outgoing wd = None \<and>
    clean = [(''region'', mget clean ''region''), (''transactionId'', wd_SaleReference wd),
      (''amount'', FormatAmount (wd_AmountMinor wd) (wd_Currency wd)),
      (''currency'', wd_Currency wd), (''method'', wd_Method wd)] \<and>
    mget clean ''region'' \<in> set RegionCodes"
proof -
  let ?reg = "ToUpper (TrimSpace (mget data ''region''))" and ?m = "TrimSpace (mget data ''method'')"
  obtain n cur disp sale where f: "ValidRegion ?reg"
    "ParseAmount (mget data ''amount'') (mget data ''currency'') = Some (Inr (n, cur, disp))"
    "ValidatePaymentReference (mget data ''transactionId'') = Inr sale" "?m \<noteq> []" "\<not> sensitive ?m"
    "clean = [(''region'', ?reg), (''transactionId'', sale), (''amount'', disp), (''currency'', cur), (''method'', ?m)]"
    "wd = \<lparr>wd_Version = 1, wd_SellerID = [], wd_AmountMinor = n, wd_Currency = cur,
      wd_SaleReference = sale, wd_Method = ?m, wd_Approval = None, wd_Outgoing = None\<rparr>"
    using assms
    by (auto simp: ValidateWithdrawalInput_def Let_def rbind_Inr_iff split: if_splits option.splits)
  have "?reg \<in> set RegionCodes" using f(1) by (simp add: ValidRegion_def TrimSpace_ToUpper)
  moreover have "ref_ok sale" using f(3) by (auto simp: ValidatePaymentReference_Inr)
  moreover have "mget clean ''region'' = ?reg" by (simp add: f(6) mget_def)
  ultimately show ?thesis
    using ParseAmount_Inr [OF f(2)] f(4,5) by (simp add: f(6,7) withdrawal_ok_def)
qed

text \<open>
  A withdrawal form is answered without a panic, and what it lets through is sound: the
  amount is positive and fits in 64 bits, the currency and the region are of the catalogue,
  the sale reference is in normal form, the method is not empty and not sensitive, and the
  clean form displays exactly these values. Neither approval nor payment can come from a form.
\<close>

theorem withdrawal_form_sound:
  "\<exists>r. ValidateWithdrawalInput data = Some r \<and>
     (case r of Inl _ \<Rightarrow> True
      | Inr (clean, wd) \<Rightarrow> withdrawal_ok wd \<and> wd_Approval wd = None \<and> wd_Outgoing wd = None \<and>
          clean = [(''region'', mget clean ''region''), (''transactionId'', wd_SaleReference wd),
            (''amount'', FormatAmount (wd_AmountMinor wd) (wd_Currency wd)),
            (''currency'', wd_Currency wd), (''method'', wd_Method wd)] \<and>
          mget clean ''region'' \<in> set RegionCodes)"
proof -
  obtain r where r: "ValidateWithdrawalInput data = Some r" using withdrawal_form_total by blast
  show ?thesis
  proof (cases r)
    case (Inl e)
    with r show ?thesis by simp
  next
    case (Inr p)
    then show ?thesis using withdrawal_form_Inr [of data "fst p" "snd p"] r by (cases p) auto
  qed
qed

section \<open>Approval and payment\<close>

lemma actorTimeOK_clock: "clock_ok now \<Longrightarrow>
    actorTimeOK \<lparr>at_By = a, at_At = format_milli now\<rparr> seller \<longleftrightarrow> a \<noteq> [] \<and> a \<noteq> seller"
  by (simp add: actorTimeOK_def rfc3339Milli_def parse_format_milli_zone)

lemma ApproveWithdrawal_Inr: "ApproveWithdrawal rec a at = Inr rec' \<longleftrightarrow>
    (\<exists>wd opened approved. IsWithdrawal (r_Type rec) (r_Workflow rec) \<and> r_Status rec = ''open'' \<and>
      r_Withdrawal rec = Some wd \<and> wd_Approval wd = None \<and>
      actorTimeOK \<lparr>at_By = a, at_At = at\<rparr> (r_OpenerID rec) \<and>
      parse_opened (r_OpenedAt rec) = Some opened \<and> parse_opened at = Some approved \<and> opened \<le> approved \<and>
      rec' = rec\<lparr>r_Withdrawal := Some (wd\<lparr>wd_Approval := Some \<lparr>at_By = a, at_At = at\<rparr>\<rparr>),
        r_Status := ''approved'', r_History := r_History rec @ [event at ''status:open->approved'' a]\<rparr>)"
  by (auto simp: ApproveWithdrawal_def Let_def not_less split: option.splits if_splits)

definition outgoing_of :: "Record \<Rightarrow> Withdrawal \<Rightarrow> string \<Rightarrow> string \<Rightarrow> string \<Rightarrow> OutgoingPayment" where
  "outgoing_of rec wd ref a at = \<lparr>op_ID = ''OUT-'' @ r_ID rec, op_TicketID = r_ID rec, op_Direction = ''outgoing'',
     op_SellerID = r_OpenerID rec, op_AmountMinor = wd_AmountMinor wd, op_Currency = wd_Currency wd,
     op_Reference = ref, op_By = a, op_At = at\<rparr>"

lemma RecordWithdrawalPayment_Inr: "RecordWithdrawalPayment rec a at reference others = Inr rec' \<longleftrightarrow>
    (\<exists>wd ref. IsWithdrawal (r_Type rec) (r_Workflow rec) \<and> r_Status rec = ''approved'' \<and>
      r_Withdrawal rec = Some wd \<and> wd_Outgoing wd = None \<and>
      ValidatePaymentReference reference = Inr ref \<and> \<not> (\<exists>t \<in> set others. pays ref t) \<and>
      actorTimeOK \<lparr>at_By = a, at_At = at\<rparr> (r_OpenerID rec) \<and>
      rec' = rec\<lparr>r_Withdrawal := Some (wd\<lparr>wd_Outgoing := Some (outgoing_of rec wd ref a at)\<rparr>),
        r_Status := ''paid'', r_History := r_History rec @
          [(event at ''withdraw.paid'' a)\<lparr>ev_MutationID := ''OUT-'' @ r_ID rec\<rparr>]\<rparr>)"
  by (auto simp: RecordWithdrawalPayment_def Let_def rbind_Inr_iff list_ex_iff outgoing_of_def
      split: option.splits if_splits)

lemmas all_ops_Inr = record_ops_Inr ApproveWithdrawal_Inr RecordWithdrawalPayment_Inr


end
