(* ===== verification/TicketId.thy ===== *)
theory TicketId
  imports Catalog
begin

text \<open>
  Public ticket ids (modules/ticket/id.go): \<open>FormatID\<close> builds them from the type's code, the
  region, the opener's name and the sequence number, \<open>ParseID\<close> takes them apart. The capture
  groups of \<open>idRe\<close> are modelled by \<open>id_groups\<close>; \<open>id_groups_iff\<close> shows that it finds the
  groups of the expression, and that they are unique.
\<close>

definition user_char :: "char \<Rightarrow> bool" where
  "user_char c \<longleftrightarrow> is_lower c \<or> is_digit c \<or> c = CHR ''.'' \<or> c = CHR ''_'' \<or> c = CHR ''-''"

definition user_rune :: "nat \<Rightarrow> bool" where
  "user_rune r \<longleftrightarrow> r < 128 \<and> user_char (char_of r)"

text \<open>\<open>userCleanRe.ReplaceAllString(s, "")\<close>\<close>

definition userClean :: "string \<Rightarrow> string" where
  "userClean s = unsegs (filter (\<lambda>x. user_rune (fst x)) (segs s))"

definition safe_region :: "string \<Rightarrow> string" where
  "safe_region region =
     (let r = ToUpper (TrimSpace region) in if \<not> ValidRegion r then ''XX'' else r)"

definition safe_user :: "string \<Rightarrow> string" where
  "safe_user username =
     (let u = userClean (ToLower username);
          v = (if 20 < length u then take 20 u else u)
      in if v = [] then ''member'' else v)"

text \<open>\<open>fmt.Sprintf("%05d", n)\<close>: the width counts the sign.\<close>

definition d05 :: "int \<Rightarrow> string" where
  "d05 n = (if n < 0 then CHR ''-'' # pad 4 (dec (nat (- n))) else pad 5 (dec (nat n)))"

definition FormatID :: "string \<Rightarrow> string \<Rightarrow> string \<Rightarrow> int \<Rightarrow> string" where
  "FormatID code region username seq =
     code @ ''-'' @ safe_region region @ ''-'' @ safe_user username @ ''-'' @ d05 seq"

text \<open>\<open>^([A-Z]+)-([A-Z]{2})-([a-z0-9._-]+)-(\d{5,16})$\<close>\<close>

definition id_groups :: "string \<Rightarrow> (string \<times> string \<times> string \<times> string) option" where
  "id_groups s =
     (let a = takeWhile is_upper s; r = dropWhile is_upper s;
          b = take 2 (drop 1 r); t = drop 4 r;
          d = rev (takeWhile is_digit (rev t)); u = rev (dropWhile is_digit (rev t)); c = butlast u
      in if a \<noteq> [] \<and> take 1 r = ''-'' \<and> length b = 2 \<and> list_all is_upper b \<and> take 1 (drop 3 r) = ''-'' \<and>
            u \<noteq> [] \<and> last u = CHR ''-'' \<and> c \<noteq> [] \<and> list_all user_char c \<and> 5 \<le> length d \<and> length d \<le> 16
         then Some (a, b, c, d) else None)"

definition ParseID :: "string \<Rightarrow> (string \<times> string \<times> string \<times> int) option" where
  "ParseID i =
     (case id_groups i of
        None \<Rightarrow> None
      | Some (a, b, c, d) \<Rightarrow>
          (case ParseInt64 d of
             None \<Rightarrow> None
           | Some n \<Rightarrow> if n < 0 then None else Some (a, b, c, n)))"

section \<open>The groups of the expression\<close>

definition id_shape :: "string \<Rightarrow> string \<Rightarrow> string \<Rightarrow> string \<Rightarrow> bool" where
  "id_shape a b c d \<longleftrightarrow> a \<noteq> [] \<and> list_all is_upper a \<and> length b = 2 \<and> list_all is_upper b \<and>
     c \<noteq> [] \<and> list_all user_char c \<and> all_digits d \<and> 5 \<le> length d \<and> length d \<le> 16"

lemma dash_class [simp]: "\<not> is_upper CHR ''-''" "\<not> is_digit CHR ''-''"
  by (simp_all add: is_upper_def is_digit_def)

lemma id_groups_complete:
  assumes "id_shape a b c d"
  shows "id_groups (a @ ''-'' @ b @ ''-'' @ c @ ''-'' @ d) = Some (a, b, c, d)"
proof -
  let ?s = "a @ ''-'' @ b @ ''-'' @ c @ ''-'' @ d" and ?r = "''-'' @ b @ ''-'' @ c @ ''-'' @ d"
  have a: "takeWhile is_upper ?s = a" "dropWhile is_upper ?s = ?r"
    using assms by (simp_all add: id_shape_def list_all_iff)
  have b: "take 2 (drop 1 ?r) = b" "drop 4 ?r = c @ ''-'' @ d" "take 1 (drop 3 ?r) = ''-''"
    using assms by (simp_all add: id_shape_def numeral_eq_Suc)
  have "\<forall>x \<in> set (rev d). is_digit x" using assms by (simp add: id_shape_def all_digits_def)
  then have d: "takeWhile is_digit (rev (c @ ''-'' @ d)) = rev d"
    "dropWhile is_digit (rev (c @ ''-'' @ d)) = rev (c @ ''-'')"
    using takeWhile_append2 [of "rev d" is_digit "rev (c @ ''-'')"]
      dropWhile_append2 [of "rev d" is_digit "rev (c @ ''-'')"] by simp_all
  show ?thesis
    using assms unfolding id_groups_def Let_def a b d by (simp add: id_shape_def)
qed

lemma id_groups_sound:
  assumes "id_groups s = Some (a, b, c, d)"
  shows "s = a @ ''-'' @ b @ ''-'' @ c @ ''-'' @ d \<and> id_shape a b c d"
proof -
  define r where "r = dropWhile is_upper s"
  define t where "t = drop 4 r"
  define u where "u = rev (dropWhile is_digit (rev t))"
  have g: "a = takeWhile is_upper s" "b = take 2 (drop 1 r)" "d = rev (takeWhile is_digit (rev t))" "c = butlast u"
    "a \<noteq> []" "take 1 r = ''-''" "length b = 2" "list_all is_upper b" "take 1 (drop 3 r) = ''-''"
    "u \<noteq> []" "last u = CHR ''-''" "c \<noteq> []" "list_all user_char c" "5 \<le> length d" "length d \<le> 16"
    using assms unfolding id_groups_def Let_def r_def [symmetric] t_def [symmetric] u_def [symmetric]
    by (auto split: if_splits)
  have s: "s = a @ r" by (simp add: g(1) r_def)
  have "r = take 1 r @ take 2 (drop 1 r) @ take 1 (drop 3 r) @ drop 4 r"
    by (simp flip: append_assoc take_add add: numeral_eq_Suc)
  then have r: "r = ''-'' @ b @ ''-'' @ t" by (simp only: g(2,6,9) t_def)
  have "t = u @ d" by (metis g(3) rev_append rev_rev_ident takeWhile_dropWhile_id u_def)
  also have "u = c @ ''-''" using g(4,10,11) append_butlast_last_id [of u] by simp
  finally have t: "t = c @ ''-'' @ d" by simp
  have "all_digits d" by (auto simp: g(3) all_digits_def dest: set_takeWhileD)
  moreover have "list_all is_upper a" by (auto simp: g(1) list_all_iff dest: set_takeWhileD)
  moreover have "s = a @ ''-'' @ b @ ''-'' @ c @ ''-'' @ d" by (subst s, subst r, subst t) (rule refl)
  ultimately show ?thesis using g(5,7,8,12-15) unfolding id_shape_def by blast
qed

lemma id_groups_iff: "id_groups s = Some (a, b, c, d) \<longleftrightarrow>
    s = a @ ''-'' @ b @ ''-'' @ c @ ''-'' @ d \<and> id_shape a b c d"
  using id_groups_sound id_groups_complete by blast

text \<open>The sequence number always fits: \<open>Atoi\<close> does not fail on a matching id.\<close>

lemma ParseID_groups: "ParseID s = (case id_groups s of None \<Rightarrow> None | Some (a, b, c, d) \<Rightarrow> Some (a, b, c, int (val d)))"
proof (cases "id_groups s")
  case None
  then show ?thesis by (simp add: ParseID_def)
next
  case (Some g)
  obtain a b c d where g: "g = (a, b, c, d)" by (cases g)
  with Some id_groups_sound have d: "all_digits d" "5 \<le> length d" "length d \<le> 16" by (auto simp: id_shape_def)
  have "val d < 10 ^ length d" using d(1) by (rule val_less)
  also have "(10 :: nat) ^ length d \<le> 10 ^ 16" using d(3) by (intro power_increasing) simp_all
  finally have "val d < 2 ^ 63" by simp
  moreover have "d \<noteq> []" using d(2) by auto
  ultimately show ?thesis using d(1) by (simp add: ParseID_def Some g ParseInt64_digits)
qed

section \<open>Round trip\<close>

lemma safe_region_code: "safe_region region \<in> set RegionCodes"
  "ValidRegion region \<Longrightarrow> safe_region region = ToUpper (TrimSpace region)"
  by (auto simp: safe_region_def Let_def ValidRegion_def TrimSpace_ToUpper RegionCodes_def)

lemma safe_region_shape: "length (safe_region region) = 2 \<and> list_all is_upper (safe_region region)"
  using region_shape safe_region_code(1) by blast

lemma userClean_chars: "list_all user_char (userClean s)"
proof -
  have "user_char c" if "x \<in> set (segs s)" "user_rune (fst x)" "c \<in> set (snd x)" for x c
  proof -
    have "valid_seg x" using segs_cases [OF that(1)] that(2) by (auto simp: user_rune_def RuneError_def)
    moreover have "fst x < 128" using that(2) by (simp add: user_rune_def)
    ultimately have "snd x = [char_of (fst x)]" by (rule valid_seg_ascii)
    with that show ?thesis by (simp add: user_rune_def)
  qed
  then show ?thesis by (auto simp: userClean_def unsegs_def list_all_iff)
qed

lemma safe_user_shape: "safe_user u \<noteq> [] \<and> list_all user_char (safe_user u)"
proof -
  have "list_all user_char (take 20 (userClean v))" for v
    using userClean_chars [of v] by (auto simp: list_all_iff dest: in_set_takeD)
  moreover have "list_all user_char ''member''" by (simp add: user_char_def is_lower_def)
  ultimately show ?thesis using userClean_chars by (simp add: safe_user_def Let_def)
qed

lemma d05_shape:
  assumes "0 \<le> n" and "n < 10 ^ 16"
  shows "all_digits (d05 n)" "5 \<le> length (d05 n)" "length (d05 n) \<le> 16" "int (val (d05 n)) = n"
proof -
  have "length (dec (nat n)) \<le> 16" using assms by (intro length_dec_le) (simp_all add: nat_less_iff)
  then show "all_digits (d05 n)" "5 \<le> length (d05 n)" "length (d05 n) \<le> 16" "int (val (d05 n)) = n"
    using assms(1) by (simp_all add: d05_def)
qed

lemma ParseID_FormatID:
  assumes "code \<noteq> []" and "list_all is_upper code" and "0 \<le> seq" and "seq < 10 ^ 16"
  shows "ParseID (FormatID code region username seq) = Some (code, safe_region region, safe_user username, seq)"
proof -
  have "id_shape code (safe_region region) (safe_user username) (d05 seq)"
    using assms d05_shape safe_region_shape safe_user_shape by (simp add: id_shape_def)
  then show ?thesis
    using d05_shape [OF assms(3,4)] unfolding FormatID_def ParseID_groups
    by (subst id_groups_complete) simp_all
qed

text \<open>
  C21: Ids round trip. For every ticket type, any region and any user name, \<open>ParseID\<close> reads
  back from the id made by \<open>FormatID\<close> the type's code, a region of the catalogue (the given
  one where it is valid, XX otherwise), a clean user name of at most 20 bytes and the
  sequence number.
\<close>

theorem id_roundtrip:
  assumes "t \<in> set Types" and "0 \<le> seq" and "seq < 10 ^ 16"
  shows "\<exists>r u. ParseID (FormatID (ty_Code t) region username seq) = Some (ty_Code t, r, u, seq) \<and>
    r = (if ValidRegion region then ToUpper (TrimSpace region) else ''XX'') \<and> r \<in> set RegionCodes \<and>
    u \<noteq> [] \<and> length u \<le> 20 \<and> list_all user_char u"
proof -
  have "ty_Code t \<noteq> []" "list_all is_upper (ty_Code t)" using types_codes assms(1) by blast+
  note p = ParseID_FormatID [OF this assms(2,3), of region username]
  have r: "safe_region region = (if ValidRegion region then ToUpper (TrimSpace region) else ''XX'')"
    by (auto simp: safe_region_def Let_def ValidRegion_def TrimSpace_ToUpper)
  have "length (safe_user username) \<le> 20" by (simp add: safe_user_def Let_def)
  with p r safe_region_code(1) safe_user_shape show ?thesis by metis
qed

theorem id_roundtrip_witness:
  "\<exists>r u. ParseID (FormatID (ty_Code (Types ! 14)) ''id'' ''Budi'' 42) = Some (ty_Code (Types ! 14), r, u, 42)"
  using id_roundtrip [of "Types ! 14" 42 "''id''" "''Budi''"] by (auto simp: Types_def)

text \<open>
  Ids are unique. Two ids made from different sequence numbers differ, whatever the
  types, regions and names are.
\<close>

theorem ids_unique:
  assumes "t \<in> set Types" and "t' \<in> set Types" and "0 \<le> seq" and "seq < 10 ^ 16" and "0 \<le> seq'" and "seq' < 10 ^ 16"
    and "FormatID (ty_Code t) region username seq = FormatID (ty_Code t') region' username' seq'"
  shows "seq = seq' \<and> ty_Code t = ty_Code t'"
  using ParseID_FormatID [of "ty_Code t" seq region username] ParseID_FormatID [of "ty_Code t'" seq' region' username']
    types_codes assms by auto

theorem ids_unique_witness: "(42 :: int) = 42 \<and> ty_Code (Types ! 14) = ty_Code (Types ! 14)"
  using ids_unique [of "Types ! 14" "Types ! 14" 42 42 "''ID''" "''budi''" "''ID''" "''budi''"]
  by (simp add: Types_def)

end
