(* ===== verification/TicketModel.thy ===== *)
theory TicketModel
  imports Withdrawal TicketId
begin

text \<open>
  The database row of a ticket (modules/primitive/ticket.go) and the translation between rows
  and records (\<open>toModel\<close>, \<open>fromModel\<close> in modules/ticket/repository.go). A JSON document is kept
  as its value, in the columns as in the text that \<open>EncodeJSON\<close> makes; \<open>NoText\<close> is the empty
  string, which is not JSON. Package \<open>encoding/json\<close>: strings are written with every invalid
  byte replaced by U+FFFD, the keys of a map are written in order, a field tagged
  \<open>omitempty\<close> is left out when it is empty (a nil pointer or the empty string), and reading
  into a struct leaves the fields of missing keys zero and fails on a value of another type.
\<close>

section \<open>JSON values\<close>

datatype json =
    JNull
  | JInt int
  | JStr string
  | JArr "json list"
  | JObj "(string \<times> json) list"

datatype jtext = NoText | Text json

definition EncodeJSON :: "json \<Rightarrow> jtext" where
  "EncodeJSON v = Text v"

definition coerce_seg :: "nat \<times> string \<Rightarrow> string" where
  "coerce_seg x = (if fst x = RuneError then FFFD else snd x)"

definition coerce :: "string \<Rightarrow> string" where
  "coerce s = concat (map coerce_seg (segs s))"

definition jstr :: "string \<Rightarrow> json" where
  "jstr s = JStr (coerce s)"

definition omit :: "string \<Rightarrow> string \<Rightarrow> (string \<times> json) list" where
  "omit k s = (if s = [] then [] else [(k, jstr s)])"

definition omit_ptr :: "string \<Rightarrow> ('a \<Rightarrow> json) \<Rightarrow> 'a option \<Rightarrow> (string \<times> json) list" where
  "omit_ptr k enc p = (case p of None \<Rightarrow> [] | Some x \<Rightarrow> [(k, enc x)])"

text \<open>Reading: \<open>None\<close> is an error.\<close>

definition get_str :: "(string \<times> json) list \<Rightarrow> string \<Rightarrow> string option" where
  "get_str fs k = (case map_of fs k of None \<Rightarrow> Some [] | Some JNull \<Rightarrow> Some []
     | Some (JStr s) \<Rightarrow> Some s | Some _ \<Rightarrow> None)"

definition get_int :: "(string \<times> json) list \<Rightarrow> string \<Rightarrow> int option" where
  "get_int fs k = (case map_of fs k of None \<Rightarrow> Some 0 | Some JNull \<Rightarrow> Some 0
     | Some (JInt n) \<Rightarrow> if - (2 ^ 63) \<le> n \<and> n \<le> max_int64 then Some n else None | Some _ \<Rightarrow> None)"

definition get_ptr :: "(json \<Rightarrow> 'a option) \<Rightarrow> (string \<times> json) list \<Rightarrow> string \<Rightarrow> 'a option option" where
  "get_ptr rd fs k = (case map_of fs k of None \<Rightarrow> Some None | Some JNull \<Rightarrow> Some None
     | Some v \<Rightarrow> map_option Some (rd v))"

definition obj_fields :: "json \<Rightarrow> (string \<times> json) list option" where
  "obj_fields v = (case v of JObj fs \<Rightarrow> Some fs | JNull \<Rightarrow> Some [] | _ \<Rightarrow> None)"

section \<open>The structures in JSON\<close>

definition enc_event :: "Event \<Rightarrow> json" where
  "enc_event e = JObj ([(''at'', jstr (ev_At e)), (''event'', jstr (ev_Event e)), (''by'', jstr (ev_By e))] @
     omit ''reason'' (ev_Reason e) @ omit ''memberId'' (ev_MemberID e) @ omit ''mutationId'' (ev_MutationID e))"

definition dec_event :: "json \<Rightarrow> Event option" where
  "dec_event v = Option.bind (obj_fields v) (\<lambda>fs.
     Option.bind (get_str fs ''at'') (\<lambda>at. Option.bind (get_str fs ''event'') (\<lambda>ev.
     Option.bind (get_str fs ''by'') (\<lambda>by. Option.bind (get_str fs ''reason'') (\<lambda>re.
     Option.bind (get_str fs ''memberId'') (\<lambda>me. Option.bind (get_str fs ''mutationId'') (\<lambda>mu.
       Some \<lparr>ev_At = at, ev_Event = ev, ev_By = by, ev_Reason = re, ev_MemberID = me, ev_MutationID = mu\<rparr>)))))))"

definition enc_resolution :: "Resolution \<Rightarrow> json" where
  "enc_resolution r = JObj [(''text'', jstr (rs_Text r)), (''by'', jstr (rs_By r)), (''at'', jstr (rs_At r))]"

definition dec_resolution :: "json \<Rightarrow> Resolution option" where
  "dec_resolution v = Option.bind (obj_fields v) (\<lambda>fs.
     Option.bind (get_str fs ''text'') (\<lambda>te. Option.bind (get_str fs ''by'') (\<lambda>by.
     Option.bind (get_str fs ''at'') (\<lambda>at. Some \<lparr>rs_Text = te, rs_By = by, rs_At = at\<rparr>))))"

definition enc_stamp :: "ActorTime \<Rightarrow> json" where
  "enc_stamp a = JObj [(''by'', jstr (at_By a)), (''at'', jstr (at_At a))]"

definition dec_stamp :: "json \<Rightarrow> ActorTime option" where
  "dec_stamp v = Option.bind (obj_fields v) (\<lambda>fs. Option.bind (get_str fs ''by'') (\<lambda>by.
     Option.bind (get_str fs ''at'') (\<lambda>at. Some \<lparr>at_By = by, at_At = at\<rparr>)))"

definition enc_outgoing :: "OutgoingPayment \<Rightarrow> json" where
  "enc_outgoing p = JObj [(''id'', jstr (op_ID p)), (''ticketId'', jstr (op_TicketID p)),
     (''direction'', jstr (op_Direction p)), (''sellerId'', jstr (op_SellerID p)),
     (''amountMinor'', JInt (op_AmountMinor p)), (''currency'', jstr (op_Currency p)),
     (''reference'', jstr (op_Reference p)), (''by'', jstr (op_By p)), (''at'', jstr (op_At p))]"

definition dec_outgoing :: "json \<Rightarrow> OutgoingPayment option" where
  "dec_outgoing v = Option.bind (obj_fields v) (\<lambda>fs.
     Option.bind (get_str fs ''id'') (\<lambda>i. Option.bind (get_str fs ''ticketId'') (\<lambda>ti.
     Option.bind (get_str fs ''direction'') (\<lambda>di. Option.bind (get_str fs ''sellerId'') (\<lambda>se.
     Option.bind (get_int fs ''amountMinor'') (\<lambda>am. Option.bind (get_str fs ''currency'') (\<lambda>cu.
     Option.bind (get_str fs ''reference'') (\<lambda>re. Option.bind (get_str fs ''by'') (\<lambda>by.
     Option.bind (get_str fs ''at'') (\<lambda>at.
       Some \<lparr>op_ID = i, op_TicketID = ti, op_Direction = di, op_SellerID = se, op_AmountMinor = am,
             op_Currency = cu, op_Reference = re, op_By = by, op_At = at\<rparr>))))))))))"

definition enc_withdrawal :: "Withdrawal \<Rightarrow> json" where
  "enc_withdrawal w = JObj ([(''version'', JInt (wd_Version w)), (''sellerId'', jstr (wd_SellerID w)),
     (''amountMinor'', JInt (wd_AmountMinor w)), (''currency'', jstr (wd_Currency w)),
     (''saleReference'', jstr (wd_SaleReference w)), (''method'', jstr (wd_Method w))] @
     omit_ptr ''approval'' enc_stamp (wd_Approval w) @ omit_ptr ''outgoing'' enc_outgoing (wd_Outgoing w))"

definition dec_withdrawal :: "json \<Rightarrow> Withdrawal option" where
  "dec_withdrawal v = Option.bind (obj_fields v) (\<lambda>fs.
     Option.bind (get_int fs ''version'') (\<lambda>ve. Option.bind (get_str fs ''sellerId'') (\<lambda>se.
     Option.bind (get_int fs ''amountMinor'') (\<lambda>am. Option.bind (get_str fs ''currency'') (\<lambda>cu.
     Option.bind (get_str fs ''saleReference'') (\<lambda>sa. Option.bind (get_str fs ''method'') (\<lambda>me.
     Option.bind (get_ptr dec_stamp fs ''approval'') (\<lambda>ap. Option.bind (get_ptr dec_outgoing fs ''outgoing'') (\<lambda>ou.
       Some \<lparr>wd_Version = ve, wd_SellerID = se, wd_AmountMinor = am, wd_Currency = cu,
             wd_SaleReference = sa, wd_Method = me, wd_Approval = ap, wd_Outgoing = ou\<rparr>)))))))))"

definition enc_seller :: "SellerApproval \<Rightarrow> json" where
  "enc_seller s = JObj [(''version'', JInt (sa_Version s)), (''by'', jstr (sa_By s)), (''at'', jstr (sa_At s)),
     (''memberId'', jstr (sa_MemberID s))]"

definition dec_seller :: "json \<Rightarrow> SellerApproval option" where
  "dec_seller v = Option.bind (obj_fields v) (\<lambda>fs.
     Option.bind (get_int fs ''version'') (\<lambda>ve. Option.bind (get_str fs ''by'') (\<lambda>by.
     Option.bind (get_str fs ''at'') (\<lambda>at. Option.bind (get_str fs ''memberId'') (\<lambda>me.
       Some \<lparr>sa_Version = ve, sa_By = by, sa_At = at, sa_MemberID = me\<rparr>)))))"

text \<open>
  The form data, a map. The order in which its keys are written (they are sorted) does not
  matter to any reader; the model writes them in the order of the list.
\<close>

definition enc_data :: "(string, string) gomap \<Rightarrow> json" where
  "enc_data m = JObj (map (\<lambda>(k, v). (coerce k, jstr v)) m)"

fun dec_data :: "json \<Rightarrow> (string, string) gomap option" where
  "dec_data JNull = Some []"
| "dec_data (JObj fs) = those (map (\<lambda>(k, v). case v of JStr s \<Rightarrow> Some (k, s) | JNull \<Rightarrow> Some (k, []) | _ \<Rightarrow> None) fs)"
| "dec_data _ = None"

fun dec_history :: "json \<Rightarrow> Event list option" where
  "dec_history JNull = Some []"
| "dec_history (JArr es) = those (map dec_event es)"
| "dec_history _ = None"

section \<open>Rows\<close>

record Ticket =
  tk_ID :: nat
  tk_PublicID :: string
  tk_Seq :: int
  tk_Type :: string
  tk_Code :: string
  tk_Region :: string
  tk_Workflow :: string
  tk_Status :: string
  tk_OpenerID :: string
  tk_OpenerTag :: string
  tk_ThreadID :: string
  tk_AssignedTo :: "string option"
  tk_SummaryMsgID :: string
  tk_OpenedAt :: instant
  tk_ClosedAt :: "instant option"
  tk_DataJSON :: jtext
  tk_HistoryJSON :: jtext
  tk_ResolutionJSON :: "jtext option"
  tk_WithdrawalJSON :: "jtext option"
  tk_SellerJSON :: "jtext option"
  tk_CreatedAt :: instant
  tk_UpdatedAt :: instant

record TicketCounter =
  tc_ID :: int
  tc_Seq :: int
  tc_UpdatedAt :: instant

record OutgoingMutation =
  om_ID :: nat
  om_PublicID :: string
  om_TicketID :: string
  om_SellerID :: string
  om_AmountMinor :: int
  om_Currency :: string
  om_Reference :: string
  om_By :: string
  om_PaidAt :: instant
  om_CreatedAt :: instant

definition jsonOrNull :: "jtext \<Rightarrow> jtext option" where
  "jsonOrNull v = (if v = NoText then None else Some v)"

definition emptyJSON :: "jtext \<Rightarrow> json \<Rightarrow> json" where
  "emptyJSON v fallback = (case v of NoText \<Rightarrow> fallback | Text j \<Rightarrow> j)"

text \<open>\<open>t, _ := time.Parse(..)\<close> gives the zero time on an error.\<close>

definition time_or_zero :: "instant option \<Rightarrow> instant" where
  "time_or_zero p = (case p of None \<Rightarrow> zero_time | Some t \<Rightarrow> t)"

definition toModel :: "Record \<Rightarrow> Ticket" where
  "toModel rec =
     (let seq = (case ParseID (r_ID rec) of None \<Rightarrow> 0 | Some (_, _, _, n) \<Rightarrow> n);
          opened0 = time_or_zero (parse_rfc3339 (r_OpenedAt rec));
          opened = (if opened0 = zero_time then time_or_zero (parse_rfc3339 (r_OpenedAt rec)) else opened0)
      in \<lparr>tk_ID = 0, tk_PublicID = r_ID rec, tk_Seq = seq, tk_Type = r_Type rec, tk_Code = r_Code rec,
          tk_Region = r_Region rec, tk_Workflow = r_Workflow rec, tk_Status = r_Status rec,
          tk_OpenerID = r_OpenerID rec, tk_OpenerTag = r_OpenerTag rec, tk_ThreadID = r_ThreadID rec,
          tk_AssignedTo = r_AssignedTo rec, tk_SummaryMsgID = r_SummaryMsgID rec, tk_OpenedAt = opened,
          tk_ClosedAt = (if r_ClosedAt rec \<noteq> [] then
              Some (case parse_rfc3339 (r_ClosedAt rec) of
                None \<Rightarrow> time_or_zero (parse_rfc3339 (r_ClosedAt rec)) | Some t \<Rightarrow> t)
            else None),
          tk_DataJSON = EncodeJSON (enc_data (r_Data rec)),
          tk_HistoryJSON = EncodeJSON (JArr (map enc_event (r_History rec))),
          tk_ResolutionJSON = Option.bind (r_Resolution rec) (\<lambda>x. jsonOrNull (EncodeJSON (enc_resolution x))),
          tk_WithdrawalJSON = Option.bind (r_Withdrawal rec) (\<lambda>x. jsonOrNull (EncodeJSON (enc_withdrawal x))),
          tk_SellerJSON = Option.bind (r_SellerApproval rec) (\<lambda>x. jsonOrNull (EncodeJSON (enc_seller x))),
          tk_CreatedAt = zero_time, tk_UpdatedAt = zero_time\<rparr>)"

text \<open>An optional column: nil, the empty string and unreadable JSON all leave the pointer nil.\<close>

definition read_opt :: "(json \<Rightarrow> 'a option) \<Rightarrow> jtext option \<Rightarrow> 'a option" where
  "read_opt rd col = (case col of Some (Text j) \<Rightarrow> rd j | _ \<Rightarrow> None)"

text \<open>
  Unreadable form data or history is ignored: the map stays empty, the history nil. (Go keeps
  what was read before the error; the columns are only ever written by \<open>toModel\<close>.)
\<close>

definition fromModel :: "Ticket \<Rightarrow> Record" where
  "fromModel row =
     \<lparr>r_ID = tk_PublicID row, r_Type = tk_Type row, r_Code = tk_Code row, r_Region = tk_Region row,
      r_Workflow = tk_Workflow row, r_OpenerID = tk_OpenerID row, r_OpenerTag = tk_OpenerTag row,
      r_ThreadID = tk_ThreadID row, r_Status = tk_Status row, r_AssignedTo = tk_AssignedTo row,
      r_OpenedAt = format_milli (tk_OpenedAt row),
      r_ClosedAt = (case tk_ClosedAt row of None \<Rightarrow> [] | Some t \<Rightarrow> format_milli t),
      r_SummaryMsgID = tk_SummaryMsgID row,
      r_Data = (case dec_data (emptyJSON (tk_DataJSON row) (JObj [])) of None \<Rightarrow> [] | Some m \<Rightarrow> m),
      r_History = (case dec_history (emptyJSON (tk_HistoryJSON row) (JArr [])) of None \<Rightarrow> [] | Some es \<Rightarrow> es),
      r_Resolution = read_opt dec_resolution (tk_ResolutionJSON row),
      r_Withdrawal = read_opt dec_withdrawal (tk_WithdrawalJSON row),
      r_SellerApproval = read_opt dec_seller (tk_SellerJSON row)\<rparr>"

section \<open>What is written is read back\<close>

lemma dec3_FFFD: "dec3 b cs = Some (65533, n) \<Longrightarrow> b \<le> 239 \<Longrightarrow> n = Suc (length cs) \<Longrightarrow>
    b = 239 \<and> map ord cs = [191, 189]"
proof (induction b cs rule: dec3.induct)
  case (1 b c1 c2 r)
  then have r: "r = []" "ord c2 \<le> 191" "128 \<le> ord c2" "ord c1 \<le> 191" "128 \<le> ord c1"
    "((b - 224) * 64 + (ord c1 - 128)) * 64 + (ord c2 - 128) = 65533"
    by (auto simp: second_ok_def is_cont_def split: if_splits)
  have "d = 15 \<and> x = 63 \<and> y = 61" if "(d * 64 + x) * 64 + y = 65533" "d \<le> 15" "x \<le> 63" "y \<le> 63" for d x y :: nat
  proof -
    have "d = 15" using that by (cases "d \<le> 14") (simp_all add: algebra_simps)
    then have "x * 64 + y = 4093" using that by simp
    then have "x = 63" using that by (cases "x \<le> 62") simp_all
    with \<open>d = 15\<close> \<open>x * 64 + y = 4093\<close> show ?thesis by simp
  qed
  from this [OF r(6)] have "b - 224 = 15" "ord c1 - 128 = 63" "ord c2 - 128 = 61" using r(2-5) 1(2) by auto
  then show ?case using r(1-5) by auto
qed simp_all

lemma dec2_less: "dec2 b cs = Some (r, n) \<Longrightarrow> b \<le> 223 \<Longrightarrow> r < 65533"
  by (induction b cs rule: dec2.induct) (auto simp: second_ok_def is_cont_def split: if_splits)

lemma dec4_greater: "dec4 b cs = Some (r, n) \<Longrightarrow> 240 \<le> b \<Longrightarrow> 65533 < r"
  by (induction b cs rule: dec4.induct) (auto simp: second_ok_def is_cont_def split: if_splits)

lemma valid_FFFD: "valid_seg x \<Longrightarrow> fst x = RuneError \<Longrightarrow> snd x = FFFD"
proof -
  assume v: "valid_seg x" and f: "fst x = RuneError"
  obtain c cs where x: "snd x = c # cs" using valid_seg_nonempty [OF v] by (cases "snd x") auto
  have d: "dec_rune (c # cs) = Some (65533, Suc (length cs))"
    using v f by (simp add: valid_seg_def x RuneError_def)
  have "224 \<le> ord c \<and> ord c \<le> 239 \<and> dec3 (ord c) cs = Some (65533, Suc (length cs))"
    using d dec2_less [of "ord c" cs 65533 "Suc (length cs)"] dec4_greater [of "ord c" cs 65533 "Suc (length cs)"]
    by (auto simp: Let_def split: if_splits)
  then have "map ord (c # cs) = map ord FFFD"
    using dec3_FFFD [of "ord c" cs "Suc (length cs)"] by (simp add: FFFD_def)
  then show ?thesis
    unfolding x by (rule map_injective) (simp add: inj_def)
qed

lemma coerce_valid: "valid_utf8 s \<Longrightarrow> coerce s = s"
proof -
  assume "valid_utf8 s"
  then have "\<forall>x \<in> set (segs s). coerce_seg x = snd x"
    using valid_FFFD by (auto simp: valid_utf8_def coerce_seg_def)
  then have "coerce s = unsegs (segs s)" by (simp add: coerce_def unsegs_def cong: map_cong)
  then show ?thesis by simp
qed

lemma coerce_Nil [simp]: "coerce [] = []"
  by (simp add: coerce_def)

lemma jstr_valid: "valid_utf8 s \<Longrightarrow> jstr s = JStr s"
  by (simp add: jstr_def coerce_valid)

lemma valid_Nil [simp]: "valid_utf8 []"
  by (simp add: valid_utf8_def)

definition valid_event :: "Event \<Rightarrow> bool" where
  "valid_event e \<longleftrightarrow> list_all valid_utf8 [ev_At e, ev_Event e, ev_By e, ev_Reason e, ev_MemberID e, ev_MutationID e]"

definition valid_stamp :: "ActorTime \<Rightarrow> bool" where
  "valid_stamp a \<longleftrightarrow> valid_utf8 (at_By a) \<and> valid_utf8 (at_At a)"

definition int64 :: "int \<Rightarrow> bool" where
  "int64 n \<longleftrightarrow> - (2 ^ 63) \<le> n \<and> n \<le> max_int64"

definition valid_outgoing :: "OutgoingPayment \<Rightarrow> bool" where
  "valid_outgoing p \<longleftrightarrow> list_all valid_utf8 [op_ID p, op_TicketID p, op_Direction p, op_SellerID p,
     op_Currency p, op_Reference p, op_By p, op_At p] \<and> int64 (op_AmountMinor p)"

definition valid_withdrawal :: "Withdrawal \<Rightarrow> bool" where
  "valid_withdrawal w \<longleftrightarrow> list_all valid_utf8 [wd_SellerID w, wd_Currency w, wd_SaleReference w, wd_Method w] \<and>
     int64 (wd_Version w) \<and> int64 (wd_AmountMinor w) \<and>
     pred_option valid_stamp (wd_Approval w) \<and> pred_option valid_outgoing (wd_Outgoing w)"

definition valid_resolution :: "Resolution \<Rightarrow> bool" where
  "valid_resolution r \<longleftrightarrow> valid_utf8 (rs_Text r) \<and> valid_utf8 (rs_By r) \<and> valid_utf8 (rs_At r)"

definition valid_seller :: "SellerApproval \<Rightarrow> bool" where
  "valid_seller s \<longleftrightarrow> int64 (sa_Version s) \<and> valid_utf8 (sa_By s) \<and> valid_utf8 (sa_At s) \<and> valid_utf8 (sa_MemberID s)"

lemmas json_defs = obj_fields_def get_str_def get_int_def get_ptr_def omit_def omit_ptr_def jstr_valid int64_def

lemma event_roundtrip: "valid_event e \<Longrightarrow> dec_event (enc_event e) = Some e"
  by (cases e) (simp add: dec_event_def enc_event_def valid_event_def json_defs)

lemma stamp_roundtrip: "valid_stamp e \<Longrightarrow> dec_stamp (enc_stamp e) = Some e"
  by (cases e) (simp add: dec_stamp_def enc_stamp_def valid_stamp_def json_defs)

lemma resolution_roundtrip: "valid_resolution e \<Longrightarrow> dec_resolution (enc_resolution e) = Some e"
  by (cases e) (simp add: dec_resolution_def enc_resolution_def valid_resolution_def json_defs)

lemma seller_roundtrip: "valid_seller e \<Longrightarrow> dec_seller (enc_seller e) = Some e"
  by (cases e) (simp add: dec_seller_def enc_seller_def valid_seller_def json_defs)

lemma outgoing_roundtrip: "valid_outgoing e \<Longrightarrow> dec_outgoing (enc_outgoing e) = Some e"
  by (cases e) (simp add: dec_outgoing_def enc_outgoing_def valid_outgoing_def json_defs)

lemma enc_not_null [simp]: "enc_stamp a \<noteq> JNull" "enc_outgoing p \<noteq> JNull"
  by (simp_all add: enc_stamp_def enc_outgoing_def)

lemma get_ptr_enc: "map_of fs k = Some v \<Longrightarrow> v \<noteq> JNull \<Longrightarrow> get_ptr rd fs k = map_option Some (rd v)"
  by (cases v) (simp_all add: get_ptr_def)

lemma withdrawal_roundtrip: "valid_withdrawal e \<Longrightarrow> dec_withdrawal (enc_withdrawal e) = Some e"
proof -
  assume v: "valid_withdrawal e"
  let ?fs = "[(''version'', JInt (wd_Version e)), (''sellerId'', jstr (wd_SellerID e)),
     (''amountMinor'', JInt (wd_AmountMinor e)), (''currency'', jstr (wd_Currency e)),
     (''saleReference'', jstr (wd_SaleReference e)), (''method'', jstr (wd_Method e))] @
     omit_ptr ''approval'' enc_stamp (wd_Approval e) @ omit_ptr ''outgoing'' enc_outgoing (wd_Outgoing e)"
  have a: "get_ptr dec_stamp ?fs ''approval'' = Some (wd_Approval e)"
    using v by (cases "wd_Approval e"; cases "wd_Outgoing e")
      (simp_all add: omit_ptr_def get_ptr_enc stamp_roundtrip valid_withdrawal_def, simp_all add: get_ptr_def)
  have o: "get_ptr dec_outgoing ?fs ''outgoing'' = Some (wd_Outgoing e)"
    using v by (cases "wd_Approval e"; cases "wd_Outgoing e")
      (simp_all add: omit_ptr_def get_ptr_enc outgoing_roundtrip valid_withdrawal_def, simp_all add: get_ptr_def)
  have f: "obj_fields (enc_withdrawal e) = Some ?fs" by (simp add: enc_withdrawal_def obj_fields_def)
  show ?thesis
    unfolding dec_withdrawal_def f using v a o
    by (cases e) (simp add: get_str_def get_int_def valid_withdrawal_def jstr_valid int64_def)
qed

lemma those_map_Some: "(\<And>x. x \<in> set xs \<Longrightarrow> f (g x) = Some x) \<Longrightarrow> those (map f (map g xs)) = Some xs"
  by (induction xs) auto

lemma data_roundtrip: "\<forall>(k, v) \<in> set m. valid_utf8 k \<and> valid_utf8 v \<Longrightarrow> dec_data (enc_data m) = Some m"
  by (induction m) (auto simp: enc_data_def coerce_valid jstr_valid)

lemma history_roundtrip: "\<forall>e \<in> set es. valid_event e \<Longrightarrow> dec_history (JArr (map enc_event es)) = Some es"
  by (simp only: dec_history.simps) (rule those_map_Some, simp add: event_roundtrip)

definition clock_text :: "string \<Rightarrow> bool" where
  "clock_text s \<longleftrightarrow> (\<exists>t. clock_ok t \<and> s = format_milli t)"

lemma clock_text_read: "clock_text s \<Longrightarrow>
    \<exists>t. parse_rfc3339 s = Some t \<and> t \<noteq> zero_time \<and> format_milli t = s"
  using parse_format_rfc3339 trunc_not_zero by (fastforce simp: clock_text_def)

text \<open>The records that can be stored without loss.\<close>

definition storable :: "Record \<Rightarrow> bool" where
  "storable rec \<longleftrightarrow> clock_text (r_OpenedAt rec) \<and> (r_ClosedAt rec = [] \<or> clock_text (r_ClosedAt rec)) \<and>
     (\<forall>(k, v) \<in> set (r_Data rec). valid_utf8 k \<and> valid_utf8 v) \<and> (\<forall>e \<in> set (r_History rec). valid_event e) \<and>
     pred_option valid_resolution (r_Resolution rec) \<and> pred_option valid_withdrawal (r_Withdrawal rec) \<and>
     pred_option valid_seller (r_SellerApproval rec)"

lemma model_roundtrip:
  assumes "storable rec"
  shows "fromModel (toModel rec) = rec"
proof -
  obtain t where t: "parse_rfc3339 (r_OpenedAt rec) = Some t" "t \<noteq> zero_time" "format_milli t = r_OpenedAt rec"
    using assms clock_text_read [of "r_OpenedAt rec"] by (auto simp: storable_def)
  have c: "(case tk_ClosedAt (toModel rec) of None \<Rightarrow> [] | Some t \<Rightarrow> format_milli t) = r_ClosedAt rec"
    using assms clock_text_read [of "r_ClosedAt rec"]
    by (auto simp: storable_def toModel_def Let_def time_or_zero_def)
  have o: "format_milli (tk_OpenedAt (toModel rec)) = r_OpenedAt rec"
    using t by (simp add: toModel_def Let_def time_or_zero_def)
  have h: "dec_history (JArr (map enc_event (r_History rec))) = Some (r_History rec)"
    and d: "dec_data (enc_data (r_Data rec)) = Some (r_Data rec)"
    using assms history_roundtrip data_roundtrip by (auto simp: storable_def)
  have r: "read_opt dec_resolution (Option.bind (r_Resolution rec) (\<lambda>x. jsonOrNull (EncodeJSON (enc_resolution x)))) = r_Resolution rec"
    using assms by (cases "r_Resolution rec") (simp_all add: read_opt_def jsonOrNull_def EncodeJSON_def storable_def resolution_roundtrip)
  have w: "read_opt dec_withdrawal (Option.bind (r_Withdrawal rec) (\<lambda>x. jsonOrNull (EncodeJSON (enc_withdrawal x)))) = r_Withdrawal rec"
    using assms by (cases "r_Withdrawal rec") (simp_all add: read_opt_def jsonOrNull_def EncodeJSON_def storable_def withdrawal_roundtrip)
  have s: "read_opt dec_seller (Option.bind (r_SellerApproval rec) (\<lambda>x. jsonOrNull (EncodeJSON (enc_seller x)))) = r_SellerApproval rec"
    using assms by (cases "r_SellerApproval rec") (simp_all add: read_opt_def jsonOrNull_def EncodeJSON_def storable_def seller_roundtrip)
  have f: "fromModel (toModel rec) = rec\<lparr>r_OpenedAt := format_milli (tk_OpenedAt (toModel rec)),
      r_ClosedAt := (case tk_ClosedAt (toModel rec) of None \<Rightarrow> [] | Some t \<Rightarrow> format_milli t)\<rparr>"
    using h d r w s unfolding fromModel_def toModel_def Let_def
    by (simp add: emptyJSON_def EncodeJSON_def)
  show ?thesis unfolding f o c by simp
qed

text \<open>
  C24: Storing a ticket loses nothing. For every record whose times were stamped by the clock
  and whose texts are valid UTF-8, reading the database row back gives the same record, with
  its history, its resolution, its withdrawal with approval and payment, and its seller
  approval.
\<close>

theorem stored_record_roundtrip:
  assumes "storable rec"
  shows "fromModel (toModel rec) = rec"
  using assms by (rule model_roundtrip)

lemma valid_ascii [simp]: "ascii s \<Longrightarrow> valid_utf8 s"
  by (rule ascii_valid)

lemma storable_sample: "storable (sample ty wfl st)"
  using sample_clock
  by (auto simp: storable_def sample_def NewRecord_def Let_def clock_text_def valid_event_def event_def)

theorem stored_record_roundtrip_witness:
  "fromModel (toModel (sample ''general'' ''support-v1'' ''open'')) = sample ''general'' ''support-v1'' ''open''"
  by (rule stored_record_roundtrip [OF storable_sample])

text \<open>The key and the bookkeeping columns of a row do not show in the record.\<close>

definition same_ticket :: "Ticket \<Rightarrow> Ticket \<Rightarrow> bool" where
  "same_ticket a b \<longleftrightarrow> a\<lparr>tk_ID := 0, tk_Seq := 0, tk_CreatedAt := 0, tk_UpdatedAt := 0\<rparr> =
     b\<lparr>tk_ID := 0, tk_Seq := 0, tk_CreatedAt := 0, tk_UpdatedAt := 0\<rparr>"

lemma same_ticketD:
  assumes "same_ticket a b"
  shows "fromModel a = fromModel b" "tk_PublicID a = tk_PublicID b" "tk_ThreadID a = tk_ThreadID b"
proof -
  let ?n = "\<lambda>t. t\<lparr>tk_ID := 0, tk_Seq := 0, tk_CreatedAt := 0, tk_UpdatedAt := 0\<rparr>"
  have f: "fromModel (?n t) = fromModel t" "tk_PublicID (?n t) = tk_PublicID t" "tk_ThreadID (?n t) = tk_ThreadID t" for t
    by (simp_all add: fromModel_def)
  have "?n a = ?n b" using assms by (simp add: same_ticket_def)
  then show "fromModel a = fromModel b" "tk_PublicID a = tk_PublicID b" "tk_ThreadID a = tk_ThreadID b"
    using f [of a] f [of b] by (metis+)
qed

lemma same_ticket_refl [simp]: "same_ticket a a"
  by (simp add: same_ticket_def)

lemma same_ticket_stamps [simp]:
  "same_ticket (a\<lparr>tk_ID := i\<rparr>) b = same_ticket a b" "same_ticket (a\<lparr>tk_Seq := n\<rparr>) b = same_ticket a b"
  "same_ticket (a\<lparr>tk_CreatedAt := c\<rparr>) b = same_ticket a b" "same_ticket (a\<lparr>tk_UpdatedAt := u\<rparr>) b = same_ticket a b"
  by (simp_all add: same_ticket_def)

lemma toModel_ids [simp]: "tk_PublicID (toModel rec) = r_ID rec" "tk_ThreadID (toModel rec) = r_ThreadID rec"
  "tk_Status (toModel rec) = r_Status rec" "tk_OpenerID (toModel rec) = r_OpenerID rec"
  by (simp_all add: toModel_def Let_def)

lemma fromModel_ids [simp]: "r_ID (fromModel row) = tk_PublicID row" "r_ThreadID (fromModel row) = tk_ThreadID row"
  "r_Status (fromModel row) = tk_Status row" "r_OpenerID (fromModel row) = tk_OpenerID row"
  by (simp_all add: fromModel_def)

end
