(* ===== verification/Store.thy ===== *)
theory Store
  imports TicketModel "HOL-Library.Multiset"
begin

text \<open>
  The database as the ticket repository sees it. PostgreSQL and gorm are not part of the
  repository's source: the statements the repository issues are a parameter, the record
  \<open>store\<close>, and \<open>store_laws\<close> states the documented behaviour the repository relies on, over the
  contents of the three tables. Every statement may fail.

  The second half is a store in which the laws hold: lists of rows with the unique indexes,
  the check and the integer columns of migrations/postgres/000002_discord_marketplace.up.sql,
  and a plan of which statements fail.
\<close>

datatype db_error = NoRecord | Fail string

type_synonym ('w, 'a) stmt = "('w, db_error, 'a) sop"

record 'w store =
  st_First :: "(Ticket \<Rightarrow> bool) \<Rightarrow> ('w, Ticket) stmt"
  st_Create :: "Ticket \<Rightarrow> ('w, unit) stmt"
  st_Save :: "Ticket \<Rightarrow> ('w, unit) stmt"
  st_Find :: "(Ticket \<Rightarrow> bool) \<Rightarrow> (Ticket \<Rightarrow> instant) \<Rightarrow> ('w, Ticket list) stmt"
  st_FirstCounter :: "('w, TicketCounter) stmt"
  st_CreateCounter :: "TicketCounter \<Rightarrow> ('w, unit) stmt"
  st_SaveCounter :: "TicketCounter \<Rightarrow> ('w, unit) stmt"
  st_FindOut :: "(OutgoingMutation \<Rightarrow> bool) \<Rightarrow> (OutgoingMutation \<Rightarrow> instant) \<Rightarrow> ('w, OutgoingMutation list) stmt"
  st_CountOut :: "(OutgoingMutation \<Rightarrow> bool) \<Rightarrow> ('w, int) stmt"
  st_CreateOut :: "OutgoingMutation \<Rightarrow> ('w, unit) stmt"
  st_Begin :: "('w, unit) stmt"
  st_Commit :: "('w, unit) stmt"
  st_Rollback :: "('w, unit) stmt"

record tables =
  tb_Tickets :: "Ticket list"
  tb_Outs :: "OutgoingMutation list"
  tb_Counters :: "TicketCounter list"

text \<open>Rows of \<open>outgoing_mutations\<close> up to the key and the creation time.\<close>

definition same_out :: "OutgoingMutation \<Rightarrow> OutgoingMutation \<Rightarrow> bool" where
  "same_out a b \<longleftrightarrow> a\<lparr>om_ID := 0, om_CreatedAt := 0\<rparr> = b\<lparr>om_ID := 0, om_CreatedAt := 0\<rparr>"

definition save_row :: "Ticket \<Rightarrow> Ticket list \<Rightarrow> Ticket list" where
  "save_row row ts = map (\<lambda>r. if tk_ID r = tk_ID row then row else r) ts"

text \<open>The unique indexes of the tables.\<close>

definition unique_tickets :: "Ticket list \<Rightarrow> bool" where
  "unique_tickets ts \<longleftrightarrow> distinct (map tk_ID ts) \<and> distinct (map tk_PublicID ts) \<and> distinct (map tk_ThreadID ts)"

definition unique_outs :: "OutgoingMutation list \<Rightarrow> bool" where
  "unique_outs os \<longleftrightarrow> distinct (map om_PublicID os) \<and> distinct (map om_Reference os) \<and>
     (\<forall>x \<in> set os. 0 < om_AmountMinor x)"

definition tables_ok :: "tables \<Rightarrow> bool" where
  "tables_ok tb \<longleftrightarrow> unique_tickets (tb_Tickets tb) \<and> unique_outs (tb_Outs tb) \<and> length (tb_Counters tb) \<le> 1"

locale store_laws =
  fixes st :: "'w store" and tabs :: "'w \<Rightarrow> tables" and saved :: "'w \<Rightarrow> tables"
  assumes First: "\<And>P w r w'. st_First st P w = (r, w') \<Longrightarrow> tabs w' = tabs w \<and> saved w' = saved w \<and>
      (case r of Inr t \<Rightarrow> t \<in> set (tb_Tickets (tabs w)) \<and> P t
       | Inl NoRecord \<Rightarrow> (\<forall>t \<in> set (tb_Tickets (tabs w)). \<not> P t) | Inl (Fail _) \<Rightarrow> True)"
    and Create: "\<And>t w r w'. st_Create st t w = (r, w') \<Longrightarrow> saved w' = saved w \<and>
      (case r of Inl _ \<Rightarrow> tabs w' = tabs w
       | Inr _ \<Rightarrow> \<exists>row. same_ticket row t \<and> tk_Seq row = tk_Seq t \<and>
           tabs w' = (tabs w)\<lparr>tb_Tickets := tb_Tickets (tabs w) @ [row]\<rparr> \<and>
           (unique_tickets (tb_Tickets (tabs w)) \<longrightarrow> unique_tickets (tb_Tickets (tabs w) @ [row])))"
    and Save: "\<And>t w r w'. st_Save st t w = (r, w') \<Longrightarrow> \<exists>x \<in> set (tb_Tickets (tabs w)). tk_ID x = tk_ID t \<Longrightarrow>
      saved w' = saved w \<and>
      (case r of Inl _ \<Rightarrow> tabs w' = tabs w
       | Inr _ \<Rightarrow> \<exists>row. same_ticket row t \<and> tk_ID row = tk_ID t \<and> tk_Seq row = tk_Seq t \<and>
           tabs w' = (tabs w)\<lparr>tb_Tickets := save_row row (tb_Tickets (tabs w))\<rparr> \<and>
           (unique_tickets (tb_Tickets (tabs w)) \<longrightarrow> unique_tickets (save_row row (tb_Tickets (tabs w)))))"
    and Find: "\<And>P key w r w'. st_Find st P key w = (r, w') \<Longrightarrow> tabs w' = tabs w \<and> saved w' = saved w \<and>
      (case r of Inl _ \<Rightarrow> True
       | Inr ts \<Rightarrow> mset ts = mset (filter P (tb_Tickets (tabs w))) \<and> sorted (map key ts))"
    and FirstCounter: "\<And>w r w'. st_FirstCounter st w = (r, w') \<Longrightarrow> tabs w' = tabs w \<and> saved w' = saved w \<and>
      (case r of Inr c \<Rightarrow> c \<in> set (tb_Counters (tabs w)) | Inl NoRecord \<Rightarrow> tb_Counters (tabs w) = []
       | Inl (Fail _) \<Rightarrow> True)"
    and CreateCounter: "\<And>c w r w'. st_CreateCounter st c w = (r, w') \<Longrightarrow> saved w' = saved w \<and>
      (case r of Inl _ \<Rightarrow> tabs w' = tabs w
       | Inr _ \<Rightarrow> tb_Counters (tabs w) = [] \<longrightarrow> tabs w' = (tabs w)\<lparr>tb_Counters := [c]\<rparr>)"
    and SaveCounter: "\<And>c w r w'. st_SaveCounter st c w = (r, w') \<Longrightarrow> saved w' = saved w \<and>
      (case r of Inl _ \<Rightarrow> tabs w' = tabs w
       | Inr _ \<Rightarrow> tc_Seq c < 2 ^ 31 \<and> (length (tb_Counters (tabs w)) = 1 \<longrightarrow> tabs w' = (tabs w)\<lparr>tb_Counters := [c]\<rparr>))"
    and FindOut: "\<And>Q okey w r w'. st_FindOut st Q okey w = (r, w') \<Longrightarrow> tabs w' = tabs w \<and> saved w' = saved w \<and>
      (case r of Inl _ \<Rightarrow> True
       | Inr os \<Rightarrow> mset os = mset (filter Q (tb_Outs (tabs w))) \<and> sorted (map okey os))"
    and CountOut: "\<And>Q w r w'. st_CountOut st Q w = (r, w') \<Longrightarrow> tabs w' = tabs w \<and> saved w' = saved w \<and>
      (case r of Inl _ \<Rightarrow> True | Inr n \<Rightarrow> n = int (length (filter Q (tb_Outs (tabs w)))))"
    and CreateOut: "\<And>x w r w'. st_CreateOut st x w = (r, w') \<Longrightarrow> saved w' = saved w \<and>
      (case r of Inl _ \<Rightarrow> tabs w' = tabs w
       | Inr _ \<Rightarrow> \<exists>row. same_out row x \<and> tabs w' = (tabs w)\<lparr>tb_Outs := tb_Outs (tabs w) @ [row]\<rparr> \<and>
           (unique_outs (tb_Outs (tabs w)) \<longrightarrow> unique_outs (tb_Outs (tabs w) @ [row])))"
    and Begin: "\<And>w r w'. st_Begin st w = (r, w') \<Longrightarrow> tabs w' = tabs w \<and>
      (case r of Inl _ \<Rightarrow> True | Inr _ \<Rightarrow> saved w' = tabs w)"
    and Commit: "\<And>w r w'. st_Commit st w = (r, w') \<Longrightarrow>
      (case r of Inl _ \<Rightarrow> tabs w' = tabs w \<or> tabs w' = saved w | Inr _ \<Rightarrow> tabs w' = tabs w)"
    and Rollback: "\<And>w r w'. st_Rollback st w = (r, w') \<Longrightarrow> tabs w' = saved w"

section \<open>Tables with the schema's constraints\<close>

record pg =
  pg_Tabs :: tables
  pg_Saved :: tables
  pg_Faults :: "bool list"
  pg_Clock :: instant

text \<open>One statement: the next entry of the plan decides whether it fails.\<close>

definition stmt :: "(pg, 'a) stmt \<Rightarrow> (pg, 'a) stmt" where
  "stmt f w = (case pg_Faults w of
     True # fs \<Rightarrow> (Inl (Fail ''connection lost''), w\<lparr>pg_Faults := fs\<rparr>)
   | False # fs \<Rightarrow> f (w\<lparr>pg_Faults := fs\<rparr>)
   | [] \<Rightarrow> f w)"

definition fresh_id :: "nat list \<Rightarrow> nat" where
  "fresh_id ks = Suc (fold max ks 0)"

definition pg_first :: "(Ticket \<Rightarrow> bool) \<Rightarrow> (pg, Ticket) stmt" where
  "pg_first P = stmt (\<lambda>w. (case find P (tb_Tickets (pg_Tabs w)) of None \<Rightarrow> Inl NoRecord | Some t \<Rightarrow> Inr t, w))"

definition pg_create :: "Ticket \<Rightarrow> (pg, unit) stmt" where
  "pg_create t = stmt (\<lambda>w.
     let ts = tb_Tickets (pg_Tabs w);
         row = t\<lparr>tk_ID := fresh_id (map tk_ID ts), tk_CreatedAt := pg_Clock w, tk_UpdatedAt := pg_Clock w\<rparr>
     in if tk_PublicID t \<in> set (map tk_PublicID ts) \<or> tk_ThreadID t \<in> set (map tk_ThreadID ts) \<or> 2 ^ 31 \<le> tk_Seq t
        then (Inl (Fail ''duplicate key''), w)
        else (Inr (), w\<lparr>pg_Tabs := (pg_Tabs w)\<lparr>tb_Tickets := ts @ [row]\<rparr>\<rparr>))"

definition pg_save :: "Ticket \<Rightarrow> (pg, unit) stmt" where
  "pg_save t = stmt (\<lambda>w.
     let ts = tb_Tickets (pg_Tabs w); row = t\<lparr>tk_UpdatedAt := pg_Clock w\<rparr>;
         others = filter (\<lambda>r. tk_ID r \<noteq> tk_ID t) ts
     in if tk_PublicID t \<in> set (map tk_PublicID others) \<or> tk_ThreadID t \<in> set (map tk_ThreadID others)
        then (Inl (Fail ''duplicate key''), w)
        else (Inr (), w\<lparr>pg_Tabs := (pg_Tabs w)\<lparr>tb_Tickets := save_row row ts\<rparr>\<rparr>))"

definition pg_find :: "(Ticket \<Rightarrow> bool) \<Rightarrow> (Ticket \<Rightarrow> instant) \<Rightarrow> (pg, Ticket list) stmt" where
  "pg_find P key = stmt (\<lambda>w. (Inr (sort_key key (filter P (tb_Tickets (pg_Tabs w)))), w))"

definition pg_first_counter :: "(pg, TicketCounter) stmt" where
  "pg_first_counter = stmt (\<lambda>w. (case tb_Counters (pg_Tabs w) of [] \<Rightarrow> Inl NoRecord | c # _ \<Rightarrow> Inr c, w))"

definition pg_create_counter :: "TicketCounter \<Rightarrow> (pg, unit) stmt" where
  "pg_create_counter c = stmt (\<lambda>w. if tb_Counters (pg_Tabs w) \<noteq> [] then (Inl (Fail ''duplicate key''), w)
     else (Inr (), w\<lparr>pg_Tabs := (pg_Tabs w)\<lparr>tb_Counters := [c]\<rparr>\<rparr>))"

definition pg_save_counter :: "TicketCounter \<Rightarrow> (pg, unit) stmt" where
  "pg_save_counter c = stmt (\<lambda>w. if 2 ^ 31 \<le> tc_Seq c then (Inl (Fail ''integer out of range''), w)
     else (Inr (), w\<lparr>pg_Tabs := (pg_Tabs w)\<lparr>tb_Counters := [c]\<rparr>\<rparr>))"

definition pg_find_out :: "(OutgoingMutation \<Rightarrow> bool) \<Rightarrow> (OutgoingMutation \<Rightarrow> instant) \<Rightarrow> (pg, OutgoingMutation list) stmt" where
  "pg_find_out P key = stmt (\<lambda>w. (Inr (sort_key key (filter P (tb_Outs (pg_Tabs w)))), w))"

definition pg_count_out :: "(OutgoingMutation \<Rightarrow> bool) \<Rightarrow> (pg, int) stmt" where
  "pg_count_out P = stmt (\<lambda>w. (Inr (int (length (filter P (tb_Outs (pg_Tabs w))))), w))"

definition pg_create_out :: "OutgoingMutation \<Rightarrow> (pg, unit) stmt" where
  "pg_create_out x = stmt (\<lambda>w.
     let os = tb_Outs (pg_Tabs w); row = x\<lparr>om_ID := fresh_id (map om_ID os), om_CreatedAt := pg_Clock w\<rparr>
     in if om_PublicID x \<in> set (map om_PublicID os) \<or> om_Reference x \<in> set (map om_Reference os) \<or> om_AmountMinor x \<le> 0
        then (Inl (Fail ''constraint violated''), w)
        else (Inr (), w\<lparr>pg_Tabs := (pg_Tabs w)\<lparr>tb_Outs := os @ [row]\<rparr>\<rparr>))"

definition pg_begin :: "(pg, unit) stmt" where
  "pg_begin = stmt (\<lambda>w. (Inr (), w\<lparr>pg_Saved := pg_Tabs w\<rparr>))"

definition pg_commit :: "(pg, unit) stmt" where
  "pg_commit w = (case stmt (\<lambda>w. (Inr (), w)) w of
     (Inl e, w') \<Rightarrow> (Inl e, w'\<lparr>pg_Tabs := pg_Saved w'\<rparr>) | (Inr _, w') \<Rightarrow> (Inr (), w'))"

definition pg_rollback :: "(pg, unit) stmt" where
  "pg_rollback w = (Inr (), w\<lparr>pg_Tabs := pg_Saved w\<rparr>)"

definition pg_store :: "pg store" where
  "pg_store = \<lparr>st_First = pg_first, st_Create = pg_create, st_Save = pg_save, st_Find = pg_find,
     st_FirstCounter = pg_first_counter, st_CreateCounter = pg_create_counter, st_SaveCounter = pg_save_counter,
     st_FindOut = pg_find_out, st_CountOut = pg_count_out, st_CreateOut = pg_create_out,
     st_Begin = pg_begin, st_Commit = pg_commit, st_Rollback = pg_rollback\<rparr>"

lemma stmt_cases:
  assumes "stmt f w = (r, w')"
  obtains (fault) fs where "r = Inl (Fail ''connection lost'')" "w' = w\<lparr>pg_Faults := fs\<rparr>"
    | (run) fs where "f (w\<lparr>pg_Faults := fs\<rparr>) = (r, w')"
proof (cases "pg_Faults w")
  case Nil
  then have "f w = (r, w')" using assms by (simp add: stmt_def)
  moreover have "w\<lparr>pg_Faults := pg_Faults w\<rparr> = w" by simp
  ultimately show thesis using run [of "pg_Faults w"] by (simp only:)
next
  case (Cons b fs)
  with assms show thesis by (cases b) (auto simp: stmt_def intro: fault run)
qed

lemma fresh_id_new: "k \<in> set ks \<Longrightarrow> k < fresh_id ks"
proof -
  assume k: "k \<in> set ks"
  have "m \<le> fold max ks m \<and> (\<forall>x \<in> set ks. x \<le> fold max ks m)" for m :: nat
    by (induction ks arbitrary: m) (auto, (meson le_trans max.cobounded1 max.cobounded2)+)
  with k show ?thesis by (auto simp: fresh_id_def less_Suc_eq_le)
qed

lemma fresh_id_notin [simp]: "x \<in> set ts \<Longrightarrow> fresh_id (map f ts) \<noteq> f x" "x \<in> set ts \<Longrightarrow> f x \<noteq> fresh_id (map f ts)"
  using fresh_id_new [of "f x" "map f ts"] by auto

lemma save_row_ids: "map tk_ID (save_row row ts) = map tk_ID ts"
  by (induction ts) (auto simp: save_row_def)

lemma save_row_unique:
  assumes "unique_tickets ts" and "tk_ID row = tk_ID t" "tk_PublicID row = tk_PublicID t" "tk_ThreadID row = tk_ThreadID t"
    and "tk_PublicID t \<notin> set (map tk_PublicID (filter (\<lambda>r. tk_ID r \<noteq> tk_ID t) ts))"
    and "tk_ThreadID t \<notin> set (map tk_ThreadID (filter (\<lambda>r. tk_ID r \<noteq> tk_ID t) ts))"
  shows "unique_tickets (save_row row ts)"
  using assms
proof (induction ts)
  case (Cons x ts)
  show ?case
  proof (cases "tk_ID x = tk_ID row")
    case True
    then have n: "\<forall>r \<in> set ts. tk_ID r \<noteq> tk_ID row" using Cons.prems(1,2) by (force simp: unique_tickets_def)
    then have s: "save_row row ts = ts" by (auto simp: save_row_def intro!: map_idI)
    have f: "filter (\<lambda>r. tk_ID r \<noteq> tk_ID t) ts = ts" using n Cons.prems(2) by (auto intro!: filter_True)
    have "save_row row (x # ts) = row # ts" using s True by (simp add: save_row_def)
    then show ?thesis
      using Cons.prems(1,3-6) n True f Cons.prems(2) by (auto simp: unique_tickets_def)
  next
    case False
    have IH: "unique_tickets (save_row row ts)"
      using Cons.prems False by (intro Cons.IH) (auto simp: unique_tickets_def)
    have ids: "set (map tk_ID (save_row row ts)) = set (map tk_ID ts)" by (simp only: save_row_ids)
    have sub: "set (map tk_PublicID (save_row row ts)) \<subseteq> insert (tk_PublicID t) (set (map tk_PublicID ts))"
      "set (map tk_ThreadID (save_row row ts)) \<subseteq> insert (tk_ThreadID t) (set (map tk_ThreadID ts))"
      using Cons.prems(3,4) by (auto simp: save_row_def)
    have neq: "tk_PublicID x \<noteq> tk_PublicID t" "tk_ThreadID x \<noteq> tk_ThreadID t"
      using Cons.prems(2,5,6) False by auto
    have x: "tk_ID x \<notin> set (map tk_ID ts)" "tk_PublicID x \<notin> set (map tk_PublicID ts)" "tk_ThreadID x \<notin> set (map tk_ThreadID ts)"
      using Cons.prems(1) by (simp_all add: unique_tickets_def)
    have "tk_ID x \<notin> set (map tk_ID (save_row row ts))" using x(1) unfolding ids .
    moreover have "tk_PublicID x \<notin> set (map tk_PublicID (save_row row ts))" using sub(1) neq(1) x(2) by blast
    moreover have "tk_ThreadID x \<notin> set (map tk_ThreadID (save_row row ts))" using sub(2) neq(2) x(3) by blast
    moreover have "save_row row (x # ts) = x # save_row row ts" using False by (simp add: save_row_def)
    ultimately show ?thesis using IH by (simp add: unique_tickets_def)
  qed
qed (simp add: save_row_def)

lemma pg_create_law:
  assumes "pg_create t w = (r, w')"
  shows "pg_Saved w' = pg_Saved w \<and>
      (case r of Inl _ \<Rightarrow> pg_Tabs w' = pg_Tabs w
       | Inr _ \<Rightarrow> \<exists>row. same_ticket row t \<and> tk_Seq row = tk_Seq t \<and>
           pg_Tabs w' = (pg_Tabs w)\<lparr>tb_Tickets := tb_Tickets (pg_Tabs w) @ [row]\<rparr> \<and>
           (unique_tickets (tb_Tickets (pg_Tabs w)) \<longrightarrow> unique_tickets (tb_Tickets (pg_Tabs w) @ [row])))"
  using assms unfolding pg_create_def
proof (cases rule: stmt_cases)
  case (run fs)
  let ?row = "t\<lparr>tk_ID := fresh_id (map tk_ID (tb_Tickets (pg_Tabs w))), tk_CreatedAt := pg_Clock w, tk_UpdatedAt := pg_Clock w\<rparr>"
  show ?thesis
  proof (cases r)
    case Inl
    with run show ?thesis by (auto simp: Let_def split: if_splits)
  next
    case Inr
    with run have n: "tk_PublicID t \<notin> set (map tk_PublicID (tb_Tickets (pg_Tabs w)))"
      "tk_ThreadID t \<notin> set (map tk_ThreadID (tb_Tickets (pg_Tabs w)))"
      and w': "w' = w\<lparr>pg_Faults := fs, pg_Tabs := (pg_Tabs w)\<lparr>tb_Tickets := tb_Tickets (pg_Tabs w) @ [?row]\<rparr>\<rparr>"
      by (auto simp: Let_def split: if_splits)
    have "unique_tickets (tb_Tickets (pg_Tabs w)) \<longrightarrow> unique_tickets (tb_Tickets (pg_Tabs w) @ [?row])"
      using n by (auto simp: unique_tickets_def)
    with Inr w' show ?thesis by (auto intro!: exI [of _ ?row])
  qed
qed simp

lemma pg_save_law:
  assumes "pg_save t w = (r, w')"
  shows "pg_Saved w' = pg_Saved w \<and>
      (case r of Inl _ \<Rightarrow> pg_Tabs w' = pg_Tabs w
       | Inr _ \<Rightarrow> \<exists>row. same_ticket row t \<and> tk_ID row = tk_ID t \<and> tk_Seq row = tk_Seq t \<and>
           pg_Tabs w' = (pg_Tabs w)\<lparr>tb_Tickets := save_row row (tb_Tickets (pg_Tabs w))\<rparr> \<and>
           (unique_tickets (tb_Tickets (pg_Tabs w)) \<longrightarrow> unique_tickets (save_row row (tb_Tickets (pg_Tabs w)))))"
  using assms unfolding pg_save_def
proof (cases rule: stmt_cases)
  case (run fs)
  let ?row = "t\<lparr>tk_UpdatedAt := pg_Clock w\<rparr>"
  let ?others = "filter (\<lambda>r. tk_ID r \<noteq> tk_ID t) (tb_Tickets (pg_Tabs w))"
  show ?thesis
  proof (cases r)
    case Inl
    with run show ?thesis by (auto simp: Let_def split: if_splits)
  next
    case Inr
    with run have n: "tk_PublicID t \<notin> set (map tk_PublicID ?others)" "tk_ThreadID t \<notin> set (map tk_ThreadID ?others)"
      and w': "w' = w\<lparr>pg_Faults := fs, pg_Tabs := (pg_Tabs w)\<lparr>tb_Tickets := save_row ?row (tb_Tickets (pg_Tabs w))\<rparr>\<rparr>"
      by (auto simp: Let_def split: if_splits)
    have "unique_tickets (save_row ?row (tb_Tickets (pg_Tabs w)))" if "unique_tickets (tb_Tickets (pg_Tabs w))"
      using n by (intro save_row_unique [OF that, of ?row t]) simp_all
    with Inr w' show ?thesis by (auto intro!: exI [of _ ?row])
  qed
qed simp

lemma pg_create_out_law:
  assumes "pg_create_out x w = (r, w')"
  shows "pg_Saved w' = pg_Saved w \<and>
      (case r of Inl _ \<Rightarrow> pg_Tabs w' = pg_Tabs w
       | Inr _ \<Rightarrow> \<exists>row. same_out row x \<and> pg_Tabs w' = (pg_Tabs w)\<lparr>tb_Outs := tb_Outs (pg_Tabs w) @ [row]\<rparr> \<and>
           (unique_outs (tb_Outs (pg_Tabs w)) \<longrightarrow> unique_outs (tb_Outs (pg_Tabs w) @ [row])))"
  using assms unfolding pg_create_out_def
proof (cases rule: stmt_cases)
  case (run fs)
  let ?row = "x\<lparr>om_ID := fresh_id (map om_ID (tb_Outs (pg_Tabs w))), om_CreatedAt := pg_Clock w\<rparr>"
  show ?thesis
  proof (cases r)
    case Inl
    with run show ?thesis by (auto simp: Let_def split: if_splits)
  next
    case Inr
    with run have n: "om_PublicID x \<notin> set (map om_PublicID (tb_Outs (pg_Tabs w)))"
      "om_Reference x \<notin> set (map om_Reference (tb_Outs (pg_Tabs w)))" "0 < om_AmountMinor x"
      and w': "w' = w\<lparr>pg_Faults := fs, pg_Tabs := (pg_Tabs w)\<lparr>tb_Outs := tb_Outs (pg_Tabs w) @ [?row]\<rparr>\<rparr>"
      by (auto simp: Let_def split: if_splits)
    have "unique_outs (tb_Outs (pg_Tabs w)) \<longrightarrow> unique_outs (tb_Outs (pg_Tabs w) @ [?row])"
      using n by (auto simp: unique_outs_def)
    with Inr w' show ?thesis by (auto intro!: exI [of _ ?row] simp: same_out_def)
  qed
qed simp

text \<open>The remaining statements read, or write the counter or the snapshot.\<close>

lemma pg_first_law: "pg_first P w = (r, w') \<Longrightarrow> pg_Tabs w' = pg_Tabs w \<and> pg_Saved w' = pg_Saved w \<and>
      (case r of Inr t \<Rightarrow> t \<in> set (tb_Tickets (pg_Tabs w)) \<and> P t
       | Inl NoRecord \<Rightarrow> (\<forall>t \<in> set (tb_Tickets (pg_Tabs w)). \<not> P t) | Inl (Fail _) \<Rightarrow> True)"
  unfolding pg_first_def
  by (erule stmt_cases) (auto dest: find_SomeD simp: find_None_iff split: option.splits)

lemma pg_find_law: "pg_find P key w = (r, w') \<Longrightarrow> pg_Tabs w' = pg_Tabs w \<and> pg_Saved w' = pg_Saved w \<and>
      (case r of Inl _ \<Rightarrow> True
       | Inr ts \<Rightarrow> mset ts = mset (filter P (tb_Tickets (pg_Tabs w))) \<and> sorted (map key ts))"
  unfolding pg_find_def by (erule stmt_cases) auto

lemma pg_find_out_law: "pg_find_out Q key w = (r, w') \<Longrightarrow> pg_Tabs w' = pg_Tabs w \<and> pg_Saved w' = pg_Saved w \<and>
      (case r of Inl _ \<Rightarrow> True
       | Inr ts \<Rightarrow> mset ts = mset (filter Q (tb_Outs (pg_Tabs w))) \<and> sorted (map key ts))"
  unfolding pg_find_out_def by (erule stmt_cases) auto

lemma pg_count_out_law: "pg_count_out Q w = (r, w') \<Longrightarrow> pg_Tabs w' = pg_Tabs w \<and> pg_Saved w' = pg_Saved w \<and>
      (case r of Inl _ \<Rightarrow> True | Inr n \<Rightarrow> n = int (length (filter Q (tb_Outs (pg_Tabs w)))))"
  unfolding pg_count_out_def by (erule stmt_cases) auto

lemma pg_counter_laws:
  "pg_first_counter w = (r, w') \<Longrightarrow> pg_Tabs w' = pg_Tabs w \<and> pg_Saved w' = pg_Saved w \<and>
      (case r of Inr c \<Rightarrow> c \<in> set (tb_Counters (pg_Tabs w)) | Inl NoRecord \<Rightarrow> tb_Counters (pg_Tabs w) = []
       | Inl (Fail _) \<Rightarrow> True)"
  "pg_create_counter c w = (q, w') \<Longrightarrow> pg_Saved w' = pg_Saved w \<and>
      (case q of Inl _ \<Rightarrow> pg_Tabs w' = pg_Tabs w
       | Inr _ \<Rightarrow> tb_Counters (pg_Tabs w) = [] \<longrightarrow> pg_Tabs w' = (pg_Tabs w)\<lparr>tb_Counters := [c]\<rparr>)"
  "pg_save_counter c w = (q, w') \<Longrightarrow> pg_Saved w' = pg_Saved w \<and>
      (case q of Inl _ \<Rightarrow> pg_Tabs w' = pg_Tabs w
       | Inr _ \<Rightarrow> tc_Seq c < 2 ^ 31 \<and> (length (tb_Counters (pg_Tabs w)) = 1 \<longrightarrow> pg_Tabs w' = (pg_Tabs w)\<lparr>tb_Counters := [c]\<rparr>))"
proof -
  show "pg_first_counter w = (r, w') \<Longrightarrow> pg_Tabs w' = pg_Tabs w \<and> pg_Saved w' = pg_Saved w \<and>
      (case r of Inr c \<Rightarrow> c \<in> set (tb_Counters (pg_Tabs w)) | Inl NoRecord \<Rightarrow> tb_Counters (pg_Tabs w) = []
       | Inl (Fail _) \<Rightarrow> True)"
    unfolding pg_first_counter_def by (erule stmt_cases) (auto split: list.splits)
  show "pg_create_counter c w = (q, w') \<Longrightarrow> pg_Saved w' = pg_Saved w \<and>
      (case q of Inl _ \<Rightarrow> pg_Tabs w' = pg_Tabs w
       | Inr _ \<Rightarrow> tb_Counters (pg_Tabs w) = [] \<longrightarrow> pg_Tabs w' = (pg_Tabs w)\<lparr>tb_Counters := [c]\<rparr>)"
    unfolding pg_create_counter_def by (erule stmt_cases) (auto split: if_splits)
  show "pg_save_counter c w = (q, w') \<Longrightarrow> pg_Saved w' = pg_Saved w \<and>
      (case q of Inl _ \<Rightarrow> pg_Tabs w' = pg_Tabs w
       | Inr _ \<Rightarrow> tc_Seq c < 2 ^ 31 \<and> (length (tb_Counters (pg_Tabs w)) = 1 \<longrightarrow> pg_Tabs w' = (pg_Tabs w)\<lparr>tb_Counters := [c]\<rparr>))"
    unfolding pg_save_counter_def by (erule stmt_cases) (auto split: if_splits)
qed

lemma pg_tx_laws:
  "pg_begin w = (r, w') \<Longrightarrow> pg_Tabs w' = pg_Tabs w \<and> (case r of Inl _ \<Rightarrow> True | Inr _ \<Rightarrow> pg_Saved w' = pg_Tabs w)"
  "pg_commit w = (r, w') \<Longrightarrow>
      (case r of Inl _ \<Rightarrow> pg_Tabs w' = pg_Tabs w \<or> pg_Tabs w' = pg_Saved w | Inr _ \<Rightarrow> pg_Tabs w' = pg_Tabs w)"
  "pg_rollback w = (r, w') \<Longrightarrow> pg_Tabs w' = pg_Saved w"
proof -
  show "pg_begin w = (r, w') \<Longrightarrow> pg_Tabs w' = pg_Tabs w \<and> (case r of Inl _ \<Rightarrow> True | Inr _ \<Rightarrow> pg_Saved w' = pg_Tabs w)"
    unfolding pg_begin_def by (erule stmt_cases) auto
  show "pg_commit w = (r, w') \<Longrightarrow>
      (case r of Inl _ \<Rightarrow> pg_Tabs w' = pg_Tabs w \<or> pg_Tabs w' = pg_Saved w | Inr _ \<Rightarrow> pg_Tabs w' = pg_Tabs w)"
    by (auto simp: pg_commit_def stmt_def split: list.splits bool.splits)
  show "pg_rollback w = (r, w') \<Longrightarrow> pg_Tabs w' = pg_Saved w"
    by (auto simp: pg_rollback_def)
qed

interpretation pg: store_laws pg_store pg_Tabs pg_Saved
  by unfold_locales
    (simp_all only: pg_store_def store.simps,
      (rule pg_first_law pg_create_law pg_save_law pg_find_law pg_counter_laws pg_find_out_law
        pg_count_out_law pg_create_out_law pg_tx_laws, assumption)+)

end
