(* ===== verification/RateLimits.thy ===== *)
theory RateLimits
  imports Http GoTime Store Complex_Main
begin

text \<open>
  Rate limits (infrastructure/limiter) and the health checks (modules/health). A bucket of
  golang.org/x/time/rate and the Redis commands are parameters; the rates, 64-bit floats in the
  code, are rationals here. The local limiter keeps a bucket per client and forgets all of
  them when a new client would make them more than the limit; calls on it are taken one after
  the other.
\<close>

section \<open>The local limiter\<close>

definition maxLimiterEntries :: int where "maxLimiterEntries = 10000"

record ('b, 'w) rate_lib =
  rl_NewLimiter :: "rat \<Rightarrow> int \<Rightarrow> 'b"
  rl_Wait :: "'b \<Rightarrow> duration \<Rightarrow> 'w \<Rightarrow> (bool \<times> 'b) \<times> 'w"

record 'b LocalRateLimiter =
  ll_limiters :: "(string, 'b) gomap"
  ll_rps :: rat
  ll_burst :: int
  ll_timeout :: duration
  ll_entries :: int

definition NewLocalRateLimiter :: "rat \<Rightarrow> int \<Rightarrow> 'b LocalRateLimiter" where
  "NewLocalRateLimiter rps burst =
     \<lparr>ll_limiters = [], ll_rps = (if rps \<le> 0 then 1 else rps), ll_burst = (if burst \<le> 0 then 1 else burst),
      ll_timeout = 100 * Millisecond, ll_entries = 0\<rparr>"

text \<open>The receiver may be nil; then everything is allowed.\<close>

definition AllowLocal :: "('b, 'w) rate_lib \<Rightarrow> 'b LocalRateLimiter option \<Rightarrow> string \<Rightarrow> 'w \<Rightarrow> (bool \<times> 'b LocalRateLimiter option) \<times> 'w" where
  "AllowLocal lib recv key w =
     (case recv of None \<Rightarrow> ((True, None), w)
      | Some r \<Rightarrow>
          let key = (if key = [] then ''global'' else key);
              r = (if map_of (ll_limiters r) key = None \<and> maxLimiterEntries \<le> ll_entries r
                   then r\<lparr>ll_limiters := [], ll_entries := 0\<rparr> else r);
              r = (case map_of (ll_limiters r) key of Some _ \<Rightarrow> r
                   | None \<Rightarrow> r\<lparr>ll_limiters := mput (ll_limiters r) key (rl_NewLimiter lib (ll_rps r) (ll_burst r)),
                       ll_entries := ll_entries r + 1\<rparr>)
          in (case map_of (ll_limiters r) key of None \<Rightarrow> ((False, Some r), w)
              | Some limiter \<Rightarrow> (case rl_Wait lib limiter (ll_timeout r) w of
                  ((granted, limiter'), w') \<Rightarrow> ((granted, Some (r\<lparr>ll_limiters := mput (ll_limiters r) key limiter'\<rparr>)), w'))))"

section \<open>The Redis limiter\<close>

record 'w redis_client =
  rd_Incr :: "string \<Rightarrow> ('w, string, int) sop"
  rd_Expire :: "string \<Rightarrow> duration \<Rightarrow> ('w, string, unit) sop"

record 'w RedisRateLimiter =
  rr_redis :: "'w redis_client option"
  rr_limit :: int
  rr_window :: duration

definition NewRedisRateLimiter :: "'w redis_client option \<Rightarrow> int \<Rightarrow> duration \<Rightarrow> 'w RedisRateLimiter" where
  "NewRedisRateLimiter redis limit window =
     \<lparr>rr_redis = redis, rr_limit = (if limit \<le> 0 then 1 else limit), rr_window = (if window \<le> 0 then Second else window)\<rparr>"

definition AllowRedis :: "'w RedisRateLimiter option \<Rightarrow> string \<Rightarrow> 'w \<Rightarrow> bool \<times> 'w" where
  "AllowRedis recv key w =
     (case recv of None \<Rightarrow> (True, w)
      | Some r \<Rightarrow>
          (case rr_redis r of None \<Rightarrow> (True, w)
           | Some redis \<Rightarrow>
               let redisKey = ''rate_limit:'' @ key in
               (case rd_Incr redis redisKey w of
                  (Inl e, w') \<Rightarrow> (False, w')
                | (Inr count1, w') \<Rightarrow>
                    (count1 \<le> rr_limit r, if count1 = 1 then snd (rd_Expire redis redisKey (rr_window r) w') else w'))))"

section \<open>Health\<close>

record 'w prober =
  gp_GatewayStatus :: "'w \<Rightarrow> bool \<times> instant"

record 'w health_service =
  hs_Ping :: "('w, string, unit) sop"
  hs_gateway :: "'w prober option"

definition gatewayStaleAfter :: duration where "gatewayStaleAfter = 3 * Minute"

definition errGatewayDown :: string where "errGatewayDown = ''discord gateway not connected''"

definition SetGateway :: "'w health_service \<Rightarrow> 'w prober \<Rightarrow> 'w health_service" where
  "SetGateway s p = s\<lparr>hs_gateway := Some p\<rparr>"

definition Live :: "(string, string) gomap" where
  "Live = [(''status'', ''ok'')]"

text \<open>The status map, and the error if there is one.\<close>

definition Ready :: "'w health_service \<Rightarrow> ('w \<Rightarrow> instant) \<Rightarrow> 'w \<Rightarrow> ((string, string) gomap \<times> string option) \<times> 'w" where
  "Ready s now w =
     (let status = [(''database'', ''ok'')] in
      case hs_Ping s w of
        (Inl e, w') \<Rightarrow> ((mput status ''database'' e, Some e), w')
      | (Inr _, w') \<Rightarrow>
          ((case hs_gateway s of None \<Rightarrow> (mput status ''discord_gateway'' ''disabled'', None)
            | Some g \<Rightarrow>
                (case gp_GatewayStatus g w' of (online, lastAck) \<Rightarrow>
                   if \<not> online then (mput status ''discord_gateway'' ''disconnected'', Some errGatewayDown)
                   else if now w' - lastAck > gatewayStaleAfter then (mput status ''discord_gateway'' ''stale'', Some errGatewayDown)
                   else (mput status ''discord_gateway'' ''ok'', None))), w'))"

text \<open>The status map is the data of the answer; with an error, its JSON text is the detail.\<close>

definition LiveHandler :: "('w, (string, string) gomap) handler" where
  "LiveHandler c w = (SetSuccessResponse c 200 ''alive'' (Some Live), w)"

definition ReadyHandler :: "'w health_service \<Rightarrow> ('w \<Rightarrow> instant) \<Rightarrow> ((string, string) gomap \<Rightarrow> string) \<Rightarrow> ('w, (string, string) gomap) handler" where
  "ReadyHandler s now json c w =
     (case Ready s now w of
        ((status, Some e), w') \<Rightarrow> (SetErrorResponse c 503 ''not ready'' (Some (json status)), w')
      | ((status, None), w') \<Rightarrow> (SetSuccessResponse c 200 ''ready'' (Some status), w'))"

datatype health_route = GET_live | GET_ready

fun GroupHealth :: "'w health_service \<Rightarrow> ('w \<Rightarrow> instant) \<Rightarrow> ((string, string) gomap \<Rightarrow> string) \<Rightarrow> health_route \<Rightarrow> ('w, (string, string) gomap) handler" where
  "GroupHealth s now json GET_live = LiveHandler"
| "GroupHealth s now json GET_ready = ReadyHandler s now json"

lemma ready_status: "cx_Response c = None \<Longrightarrow> status_of (fst (ReadyHandler s now json c w)) =
    (if (\<exists>w'. hs_Ping s w = (Inr (), w') \<and> (case hs_gateway s of None \<Rightarrow> True
       | Some g \<Rightarrow> fst (gp_GatewayStatus g w') \<and> now w' - snd (gp_GatewayStatus g w') \<le> gatewayStaleAfter)) then 200 else 503)"
  by (auto simp: ReadyHandler_def Ready_def Let_def status_of_def SetErrorResponse_def SetSuccessResponse_def JSON_def
      split: prod.splits sum.splits option.splits if_splits)

section \<open>The local limiter is bounded\<close>

definition limiter_ok :: "'b LocalRateLimiter \<Rightarrow> bool" where
  "limiter_ok r \<longleftrightarrow> distinct (map fst (ll_limiters r)) \<and> ll_entries r = int (length (ll_limiters r)) \<and>
     ll_entries r \<le> maxLimiterEntries \<and> 0 < ll_rps r \<and> 0 < ll_burst r"

lemma limiter_ok_new: "limiter_ok (NewLocalRateLimiter rps burst)"
  by (simp add: limiter_ok_def NewLocalRateLimiter_def maxLimiterEntries_def)

lemma limiter_ok_allow:
  assumes "AllowLocal lib (Some r) key w = ((b, q), w')" and "limiter_ok r"
  shows "\<exists>r'. q = Some r' \<and> limiter_ok r' \<and> ll_rps r' = ll_rps r \<and> ll_burst r' = ll_burst r \<and>
    map_of (ll_limiters r') (if key = [] then ''global'' else key) \<noteq> None"
proof -
  define k where "k = (if key = [] then ''global'' else key)"
  define r1 where "r1 = (if map_of (ll_limiters r) k = None \<and> maxLimiterEntries \<le> ll_entries r then r\<lparr>ll_limiters := [], ll_entries := 0\<rparr> else r)"
  define r2 where "r2 = (case map_of (ll_limiters r1) k of Some _ \<Rightarrow> r1
     | None \<Rightarrow> r1\<lparr>ll_limiters := mput (ll_limiters r1) k (rl_NewLimiter lib (ll_rps r1) (ll_burst r1)), ll_entries := ll_entries r1 + 1\<rparr>)"
  have 1: "limiter_ok r1" "map_of (ll_limiters r1) k = None \<longrightarrow> ll_entries r1 < maxLimiterEntries" "ll_rps r1 = ll_rps r" "ll_burst r1 = ll_burst r"
    using assms(2) by (auto simp: r1_def limiter_ok_def maxLimiterEntries_def)
  have 2: "limiter_ok r2" "map_of (ll_limiters r2) k \<noteq> None" "ll_rps r2 = ll_rps r" "ll_burst r2 = ll_burst r"
    using 1 by (auto simp: r2_def limiter_ok_def mput_keys length_mput map_of_eq_None_iff intro: rev_image_eqI split: option.split)
  obtain l where l: "map_of (ll_limiters r2) k = Some l" using 2(2) by auto
  obtain a l' v where wt: "rl_Wait lib l (ll_timeout r2) w = ((a, l'), v)" by (metis prod.collapse)
  have "q = Some (r2\<lparr>ll_limiters := mput (ll_limiters r2) k l'\<rparr>)"
    using assms(1) unfolding AllowLocal_def option.case Let_def k_def [symmetric] r1_def [symmetric] r2_def [symmetric]
    by (simp add: l wt)
  moreover have "k \<in> set (map fst (ll_limiters r2))" using l by (metis domI dom_map_of_conv_image_fst set_map)
  then have "limiter_ok (r2\<lparr>ll_limiters := mput (ll_limiters r2) k l'\<rparr>)"
    using 2(1) by (auto simp: limiter_ok_def mput_keys length_mput)
  ultimately show ?thesis using 2 by (simp add: k_def [symmetric])
qed

section \<open>The window of the Redis limiter\<close>

text \<open>A run of requests; \<open>quiet\<close> steps of other clients may come gap them.\<close>

fun requests :: "'w RedisRateLimiter \<Rightarrow> (string \<times> ('w \<Rightarrow> 'w)) list \<Rightarrow> 'w \<Rightarrow> (string \<times> bool) list" where
  "requests r [] w = []"
| "requests r ((key, gap) # rest) w =
     (case AllowRedis (Some r) key w of (b, w') \<Rightarrow> (key, b) # requests r rest (gap w'))"

definition granted :: "string \<Rightarrow> (string \<times> bool) list \<Rightarrow> nat" where
  "granted key rs = length (filter (\<lambda>p. p = (key, True)) rs)"

text \<open>
  The counters as Redis keeps them while no key expires: INCR adds one and returns the sum,
  EXPIRE changes no counter. An answer may be lost.
\<close>

locale counters =
  fixes redis :: "'w redis_client" and tally :: "'w \<Rightarrow> string \<Rightarrow> int"
  assumes Incr: "\<And>k w r w'. rd_Incr redis k w = (r, w') \<Longrightarrow>
      (case r of Inr n \<Rightarrow> n = tally w k + 1 \<and> tally w' = (tally w)(k := n)
       | Inl _ \<Rightarrow> tally w' = tally w \<or> tally w' = (tally w)(k := tally w k + 1))"
    and Expire: "\<And>k d w. tally (snd (rd_Expire redis k d w)) = tally w"
begin

lemma AllowRedis_count:
  assumes "AllowRedis (Some r) key w = (b, w')" and "rr_redis r = Some redis"
  shows "tally w' k \<ge> tally w k" and "b \<Longrightarrow> tally w' (''rate_limit:'' @ key) = tally w (''rate_limit:'' @ key) + 1"
    and "b \<Longrightarrow> tally w (''rate_limit:'' @ key) < rr_limit r"
proof -
  let ?k = "''rate_limit:'' @ key"
  obtain q v where q: "rd_Incr redis ?k w = (q, v)" by (cases "rd_Incr redis ?k w")
  have run: "(b, w') = (case q of Inl e \<Rightarrow> (False, v) | Inr n \<Rightarrow> (n \<le> rr_limit r, if n = 1 then snd (rd_Expire redis ?k (rr_window r) v) else v))"
    using assms q by (auto simp: AllowRedis_def Let_def split: sum.splits)
  note law = Incr [OF q]
  show "tally w' k \<ge> tally w k"
    using run law Expire by (auto split: sum.splits if_splits)
  show "b \<Longrightarrow> tally w' ?k = tally w ?k + 1" "b \<Longrightarrow> tally w ?k < rr_limit r"
    using run law Expire by (auto split: sum.splits if_splits)
qed

lemma requests_granted:
  assumes "rr_redis r = Some redis" and "list_all (\<lambda>(key, gap). \<forall>w k. tally w k \<le> tally (gap w) k) rs"
  shows "int (granted key (requests r rs w)) \<le> max 0 (rr_limit r - tally w (''rate_limit:'' @ key))"
  using assms(2)
proof (induction rs arbitrary: w)
  case Nil
  then show ?case by (simp add: granted_def)
next
  case (Cons p rs)
  obtain k gap where p: "p = (k, gap)" by (cases p)
  obtain b w1 where a: "AllowRedis (Some r) k w = (b, w1)" by (cases "AllowRedis (Some r) k w")
  let ?c = "\<lambda>w. tally w (''rate_limit:'' @ key)"
  have mono: "?c w1 \<le> ?c (gap w1)" "?c w \<le> ?c w1" using Cons.prems p AllowRedis_count(1) [OF a assms(1)] by auto
  have IH: "int (granted key (requests r rs (gap w1))) \<le> max 0 (rr_limit r - ?c (gap w1))"
    using Cons by simp
  have eval: "requests r (p # rs) w = (k, b) # requests r rs (gap w1)" by (simp add: p a)
  show ?case
  proof (cases "b \<and> k = key")
    case True
    with AllowRedis_count(2,3) [OF a assms(1)] have "?c w1 = ?c w + 1" "?c w < rr_limit r" by auto
    with IH mono True show ?thesis unfolding eval by (simp add: granted_def)
  next
    case False
    with IH mono show ?thesis unfolding eval by (auto simp: granted_def)
  qed
qed

end

text \<open>Every sequence of calls keeps the local limiter within its bound.\<close>

fun calls :: "('b, 'w) rate_lib \<Rightarrow> string list \<Rightarrow> 'b LocalRateLimiter option \<Rightarrow> 'w \<Rightarrow> 'b LocalRateLimiter option" where
  "calls lib [] q w = q"
| "calls lib (key # ks) q w = (case AllowLocal lib q key w of ((_, q'), w') \<Rightarrow> calls lib ks q' w')"

lemma limiter_bounded: "\<exists>r. calls lib ks (Some (NewLocalRateLimiter rps burst)) w = Some r \<and>
    int (length (ll_limiters r)) \<le> 10000 \<and> ll_entries r = int (length (ll_limiters r))"
proof -
  have "limiter_ok r \<Longrightarrow> \<exists>r'. calls lib ks (Some r) w = Some r' \<and> limiter_ok r'" for r
  proof (induction ks arbitrary: r w)
    case (Cons key ks)
    obtain b q w1 where a: "AllowLocal lib (Some r) key w = ((b, q), w1)" by (metis prod.collapse)
    from limiter_ok_allow [OF this Cons.prems] obtain r1 where "q = Some r1" "limiter_ok r1" by blast
    with Cons.IH [of r1 w1] a show ?case by simp
  qed simp
  from this [OF limiter_ok_new] obtain r where "calls lib ks (Some (NewLocalRateLimiter rps burst)) w = Some r" "limiter_ok r" by blast
  then show ?thesis by (auto simp: limiter_ok_def maxLimiterEntries_def)
qed

section \<open>Redis in memory\<close>

text \<open>Counters with an optional time to live, and a plan of lost or refused commands.\<close>

record redis_mem =
  rm_Count :: "string \<Rightarrow> int"
  rm_Expires :: "string \<Rightarrow> instant option"
  rm_Clock :: instant
  rm_Faults :: "bool list"

definition redis_op :: "(redis_mem, string, 'a) sop \<Rightarrow> (redis_mem, string, 'a) sop" where
  "redis_op f w = (case rm_Faults w of [] \<Rightarrow> f w
     | b # fs \<Rightarrow> if b then (Inl ''i/o timeout'', w\<lparr>rm_Faults := fs\<rparr>) else f (w\<lparr>rm_Faults := fs\<rparr>))"

definition mem_redis :: "redis_mem redis_client" where
  "mem_redis = \<lparr>rd_Incr = (\<lambda>k. redis_op (\<lambda>w. (Inr (rm_Count w k + 1), w\<lparr>rm_Count := (rm_Count w)(k := rm_Count w k + 1)\<rparr>))),
     rd_Expire = (\<lambda>k d. redis_op (\<lambda>w. (Inr (), w\<lparr>rm_Expires := (rm_Expires w)(k := Some (rm_Clock w + d))\<rparr>)))\<rparr>"

text \<open>Time passes: the keys whose time has come are gone.\<close>

definition tick :: "duration \<Rightarrow> redis_mem \<Rightarrow> redis_mem" where
  "tick d w = (let now = rm_Clock w + d; gone = (\<lambda>k. case rm_Expires w k of None \<Rightarrow> False | Some t \<Rightarrow> t \<le> now) in
     w\<lparr>rm_Clock := now, rm_Count := (\<lambda>k. if gone k then 0 else rm_Count w k), rm_Expires := (\<lambda>k. if gone k then None else rm_Expires w k)\<rparr>)"

interpretation mem: counters mem_redis rm_Count
proof (unfold_locales, goal_cases)
  case (1 k w r w')
  then show ?case by (auto simp: mem_redis_def redis_op_def split: list.splits if_splits)
next
  case (2 k d w)
  then show ?case by (auto simp: mem_redis_def redis_op_def split: list.splits)
qed

text \<open>
  A lost EXPIRE is never repeated: the counter has no time to live, so when the limit is used
  up the client is refused for good.
\<close>

lemma expire_lost:
  assumes "rm_Expires w k = None" and "rr_redis r = Some mem_redis" and "k = ''rate_limit:'' @ key" and "0 \<le> rr_limit r"
    and "rr_limit r \<le> rm_Count w k" and "0 < rm_Count w k" and "AllowRedis (Some r) key w = (b, w')"
  shows "\<not> b \<and> rm_Expires (tick d w') k = None \<and> rr_limit r \<le> rm_Count (tick d w') k \<and> 0 < rm_Count (tick d w') k"
proof (cases "rm_Faults w")
  case Nil
  with assms show ?thesis by (auto simp: AllowRedis_def mem_redis_def redis_op_def tick_def Let_def)
next
  case (Cons f fs)
  with assms show ?thesis
    by (cases f) (auto simp: AllowRedis_def mem_redis_def redis_op_def tick_def Let_def)
qed



end
