(* ===== verification/Config.thy ===== *)
theory Config
  imports RateLimits "HOL-Library.Code_Target_Numeral"
begin

text \<open>
  The configuration (infrastructure/config): every setting is read from an environment
  variable, trimmed, with a fallback, and the whole is validated. The environment is a
  function from names to values (empty when unset), as it is after the .env file was read.
  \<open>time.ParseDuration\<close>, \<open>strconv.ParseFloat\<close> (a rational here) and \<open>uuid.Parse\<close> are parameters.
\<close>

record parsers =
  ps_Duration :: "string \<Rightarrow> duration option"
  ps_Float :: "string \<Rightarrow> rat option"
  ps_UUID :: "string \<Rightarrow> uuid option"

record HTTPConfig =
  hc_ReadTimeout :: duration
  hc_ReadHeaderTimeout :: duration
  hc_WriteTimeout :: duration
  hc_IdleTimeout :: duration
  hc_ShutdownTimeout :: duration

record JWTConfig =
  jc_Secret :: string
  jc_AccessTTL :: duration
  jc_RefreshTTL :: duration

record DatabaseConfig =
  dc_Driver :: string
  dc_Host :: string
  dc_Port :: string
  dc_DBName :: string
  dc_User :: string
  dc_Password :: string
  dc_SSLMode :: string
  dc_MaxOpenConns :: int
  dc_MaxIdleConns :: int
  dc_ConnMaxLifetime :: duration

record RateLimitConfig =
  lc_RPS :: rat
  lc_Burst :: int
  lc_Backend :: string

record RedisConfig =
  rc_Enable :: bool
  rc_Addr :: string
  rc_Password :: string
  rc_DB :: int

record StorageConfig =
  stc_Driver :: string
  stc_LocalDir :: string

record DiscordConfig =
  dg_BotToken :: string
  dg_GuildID :: string

record Config =
  cf_Env :: string
  cf_Name :: string
  cf_Port :: string
  cf_LogLevel :: string
  cf_LogFormat :: string
  cf_AllowedOrigins :: "string list"
  cf_TrustedProxies :: "string list"
  cf_OperatorAllowlist :: "uuid list"
  cf_HTTP :: HTTPConfig
  cf_JWT :: JWTConfig
  cf_Database :: DatabaseConfig
  cf_Redis :: RedisConfig
  cf_HTTPClientTimeout :: duration
  cf_RateLimit :: RateLimitConfig
  cf_Storage :: StorageConfig
  cf_MetricsEnable :: bool
  cf_Discord :: DiscordConfig
  cf_MaxBodyBytes :: int
  cf_MaxMultipart :: int

section \<open>Reading the environment\<close>

type_synonym environment = "string \<Rightarrow> string"

definition getEnv :: "environment \<Rightarrow> string \<Rightarrow> string \<Rightarrow> string" where
  "getEnv env key fallback = (let value = TrimSpace (env key) in if value \<noteq> [] then value else fallback)"

definition parsed_or :: "(string \<Rightarrow> 'a option) \<Rightarrow> environment \<Rightarrow> string \<Rightarrow> 'a \<Rightarrow> 'a" where
  "parsed_or parse env key fallback =
     (let value = TrimSpace (env key) in
      if value = [] then fallback else case parse value of None \<Rightarrow> fallback | Some parsed \<Rightarrow> parsed)"

definition getDuration :: "parsers \<Rightarrow> environment \<Rightarrow> string \<Rightarrow> duration \<Rightarrow> duration" where
  "getDuration ps = parsed_or (ps_Duration ps)"

definition getInt :: "environment \<Rightarrow> string \<Rightarrow> int \<Rightarrow> int" where
  "getInt = parsed_or ParseInt64"

definition getInt64 :: "environment \<Rightarrow> string \<Rightarrow> int \<Rightarrow> int" where
  "getInt64 = parsed_or ParseInt64"

definition ParseBool :: "string \<Rightarrow> bool option" where
  "ParseBool s =
     (if s \<in> {''1'', ''t'', ''T'', ''true'', ''TRUE'', ''True''} then Some True
      else if s \<in> {''0'', ''f'', ''F'', ''false'', ''FALSE'', ''False''} then Some False else None)"

definition getBool :: "environment \<Rightarrow> string \<Rightarrow> bool \<Rightarrow> bool" where
  "getBool = parsed_or ParseBool"

definition getFloat :: "parsers \<Rightarrow> environment \<Rightarrow> string \<Rightarrow> rat \<Rightarrow> rat" where
  "getFloat ps = parsed_or (ps_Float ps)"

definition splitCSV :: "string \<Rightarrow> string list" where
  "splitCSV value = filter (\<lambda>t. t \<noteq> []) (map TrimSpace (Split CHR '','' value))"

definition parseUUIDList :: "parsers \<Rightarrow> string \<Rightarrow> uuid list" where
  "parseUUIDList ps value = List.map_filter (\<lambda>part. case ps_UUID ps part of
     Some parsed \<Rightarrow> if parsed \<noteq> NilUUID then Some parsed else None | None \<Rightarrow> None) (splitCSV value)"

section \<open>Validation\<close>

datatype config_error = SecretMissing | SecretShort | UnknownDriver string | PasswordMissing | PortMissing

definition Validate :: "Config \<Rightarrow> config_error option" where
  "Validate c =
     (if jc_Secret (cf_JWT c) = [] then Some SecretMissing
      else if length (jc_Secret (cf_JWT c)) < 32 then Some SecretShort
      else if dc_Driver (cf_Database c) \<notin> {''postgres'', ''mysql'', ''sqlite''} then Some (UnknownDriver (dc_Driver (cf_Database c)))
      else if dc_Driver (cf_Database c) \<noteq> ''sqlite'' \<and> dc_Password (cf_Database c) = [] then Some PasswordMissing
      else if cf_Port c = [] then Some PortMissing
      else None)"

definition read_config :: "parsers \<Rightarrow> environment \<Rightarrow> Config" where
  "read_config ps env = \<lparr>
     cf_Env = getEnv env ''APP_ENV'' ''local'',
     cf_Name = getEnv env ''APP_NAME'' ''go-starter-kit'',
     cf_Port = getEnv env ''APP_PORT'' ''8080'',
     cf_LogLevel = getEnv env ''APP_LOG_LEVEL'' ''info'',
     cf_LogFormat = getEnv env ''APP_LOG_FORMAT'' ''json'',
     cf_AllowedOrigins = splitCSV (getEnv env ''CORS_ALLOWED_ORIGINS'' ''http://localhost:3000''),
     cf_TrustedProxies = splitCSV (getEnv env ''TRUSTED_PROXIES'' []),
     cf_OperatorAllowlist = parseUUIDList ps (getEnv env ''OPERATOR_USER_IDS'' []),
     cf_HTTP = \<lparr>hc_ReadTimeout = getDuration ps env ''HTTP_READ_TIMEOUT'' (10 * Second),
       hc_ReadHeaderTimeout = getDuration ps env ''HTTP_READ_HEADER_TIMEOUT'' (5 * Second),
       hc_WriteTimeout = getDuration ps env ''HTTP_WRITE_TIMEOUT'' (10 * Second),
       hc_IdleTimeout = getDuration ps env ''HTTP_IDLE_TIMEOUT'' (60 * Second),
       hc_ShutdownTimeout = getDuration ps env ''HTTP_SHUTDOWN_TIMEOUT'' (10 * Second)\<rparr>,
     cf_JWT = \<lparr>jc_Secret = getEnv env ''JWT_SECRET'' [],
       jc_AccessTTL = getDuration ps env ''JWT_ACCESS_TTL'' (15 * Minute),
       jc_RefreshTTL = getDuration ps env ''JWT_REFRESH_TTL'' (30 * 24 * Hour)\<rparr>,
     cf_Database = \<lparr>dc_Driver = getEnv env ''DB_DRIVER'' ''postgres'',
       dc_Host = getEnv env ''DB_HOST'' ''localhost'',
       dc_Port = getEnv env ''DB_PORT'' ''5432'',
       dc_DBName = getEnv env ''DB_NAME'' ''starter'',
       dc_User = getEnv env ''DB_USER'' ''starter'',
       dc_Password = getEnv env ''DB_PASSWORD'' ''starter'',
       dc_SSLMode = getEnv env ''DB_SSL_MODE'' ''disable'',
       dc_MaxOpenConns = getInt env ''DB_MAX_OPEN_CONNS'' 10,
       dc_MaxIdleConns = getInt env ''DB_MAX_IDLE_CONNS'' 5,
       dc_ConnMaxLifetime = getDuration ps env ''DB_CONN_MAX_LIFETIME'' (5 * Minute)\<rparr>,
     cf_Redis = \<lparr>rc_Enable = getBool env ''REDIS_ENABLE'' False,
       rc_Addr = getEnv env ''REDIS_ADDR'' ''localhost:6379'',
       rc_Password = getEnv env ''REDIS_PASSWORD'' [],
       rc_DB = getInt env ''REDIS_DB'' 0\<rparr>,
     cf_HTTPClientTimeout = getDuration ps env ''HTTP_CLIENT_TIMEOUT'' (10 * Second),
     cf_RateLimit = \<lparr>lc_RPS = getFloat ps env ''RATE_LIMIT_RPS'' 10,
       lc_Burst = getInt env ''RATE_LIMIT_BURST'' 20,
       lc_Backend = getEnv env ''RATE_LIMIT_BACKEND'' ''local''\<rparr>,
     cf_Storage = \<lparr>stc_Driver = getEnv env ''STORAGE_DRIVER'' ''local'',
       stc_LocalDir = getEnv env ''STORAGE_LOCAL_DIR'' ''storage''\<rparr>,
     cf_MetricsEnable = getBool env ''METRICS_ENABLE'' True,
     cf_Discord = \<lparr>dg_BotToken = getEnv env ''DISCORD_BOT_TOKEN'' [],
       dg_GuildID = getEnv env ''DISCORD_GUILD_ID'' []\<rparr>,
     cf_MaxBodyBytes = getInt64 env ''MAX_BODY_BYTES'' (2 ^ 20),
     cf_MaxMultipart = getInt64 env ''MAX_MULTIPART_MEMORY'' (8 * 2 ^ 20)\<rparr>"

definition Load :: "parsers \<Rightarrow> environment \<Rightarrow> (config_error, Config) result" where
  "Load ps env = (let cfg = read_config ps env in case Validate cfg of Some e \<Rightarrow> Inl e | None \<Rightarrow> Inr cfg)"

text \<open>The connection string for the driver.\<close>

definition DSN :: "DatabaseConfig \<Rightarrow> string" where
  "DSN d =
     (if dc_Driver d = ''mysql'' then
        dc_User d @ '':'' @ dc_Password d @ ''@tcp('' @ dc_Host d @ '':'' @ dc_Port d @ '')/'' @ dc_DBName d @
        ''?charset=utf8mb4&parseTime=True&loc=Asia%2FJakarta''
      else if dc_Driver d = ''sqlite'' then (if dc_DBName d = [] then ''starter.db'' else dc_DBName d)
      else ''host='' @ dc_Host d @ '' port='' @ dc_Port d @ '' user='' @ dc_User d @ '' password='' @ dc_Password d @
        '' dbname='' @ dc_DBName d @ '' sslmode='' @ dc_SSLMode d @ '' TimeZone=Asia/Jakarta'')"

section \<open>What a loaded configuration is\<close>

lemma getEnv_nonempty [simp]: "fallback \<noteq> [] \<Longrightarrow> getEnv env key fallback \<noteq> []"
  by (simp add: getEnv_def Let_def)

lemma getEnv_empty: "getEnv env key [] = TrimSpace (env key)"
  by (simp add: getEnv_def Let_def)

lemma map_filter_mem: "y \<in> set (List.map_filter f xs) \<Longrightarrow> \<exists>x \<in> set xs. f x = Some y"
  by (induction xs) (auto simp: map_filter_simps split: option.splits)

lemma parseUUIDList_listed:
  assumes "u \<in> set (parseUUIDList ps value)"
  shows "u \<noteq> NilUUID" and "\<exists>part \<in> set (Split CHR '','' value). ps_UUID ps (TrimSpace part) = Some u"
proof -
  obtain x where x: "x \<in> set (splitCSV value)" "(case ps_UUID ps x of
     Some parsed \<Rightarrow> if parsed \<noteq> NilUUID then Some parsed else None | None \<Rightarrow> None) = Some u"
    using map_filter_mem [OF assms [unfolded parseUUIDList_def]] by blast
  then have "ps_UUID ps x = Some u" "u \<noteq> NilUUID" by (simp_all split: option.splits if_splits)
  with x(1) show "u \<noteq> NilUUID" "\<exists>part \<in> set (Split CHR '','' value). ps_UUID ps (TrimSpace part) = Some u"
    unfolding splitCSV_def by auto
qed

text \<open>
  Load succeeds exactly when the JWT secret, trimmed, has at least 32 bytes and the driver is
  one of the three; otherwise the error names the first of these that is wrong. The other two
  checks of Validate can never fail for a configuration that Load reads: the variables they look
  at have fallbacks, so a server without a database password in its environment starts with the
  password \<open>starter\<close> instead of refusing.
\<close>

theorem load_exact:
  "Load ps env =
     (let secret = TrimSpace (env ''JWT_SECRET''); driver = getEnv env ''DB_DRIVER'' ''postgres'' in
      if secret = [] then Inl SecretMissing
      else if length secret < 32 then Inl SecretShort
      else if driver \<noteq> ''postgres'' \<and> driver \<noteq> ''mysql'' \<and> driver \<noteq> ''sqlite'' then Inl (UnknownDriver driver)
      else Inr (read_config ps env)) \<and>
   dc_Password (cf_Database (read_config ps env)) =
     (if TrimSpace (env ''DB_PASSWORD'') = [] then ''starter'' else TrimSpace (env ''DB_PASSWORD''))"
proof -
  have "jc_Secret (cf_JWT (read_config ps env)) = TrimSpace (env ''JWT_SECRET'')"
    "dc_Driver (cf_Database (read_config ps env)) = getEnv env ''DB_DRIVER'' ''postgres''"
    "dc_Password (cf_Database (read_config ps env)) = getEnv env ''DB_PASSWORD'' ''starter''"
    "cf_Port (read_config ps env) = getEnv env ''APP_PORT'' ''8080''"
    by (simp_all add: read_config_def getEnv_empty)
  then have "Validate (read_config ps env) =
     (let secret = TrimSpace (env ''JWT_SECRET''); driver = getEnv env ''DB_DRIVER'' ''postgres'' in
      if secret = [] then Some SecretMissing
      else if length secret < 32 then Some SecretShort
      else if driver \<noteq> ''postgres'' \<and> driver \<noteq> ''mysql'' \<and> driver \<noteq> ''sqlite'' then Some (UnknownDriver driver)
      else None)"
    unfolding Validate_def Let_def by simp
  then show ?thesis
    by (simp add: Load_def Let_def read_config_def getEnv_def)
qed

text \<open>
  C37: The operator surfaces are closed by default. Take any environment the server starts with
  and any request through the router to an operator group, with the operators that the
  configuration lists. Unless the request carries a valid access token of a user whose id some
  entry of OPERATOR_USER_IDS parses to, it gets an error without data and changes nothing: with
  the variable unset, empty or malformed nobody gets through, and a malformed entry never lets
  anybody in.
\<close>

theorem closed_by_default:
  assumes "Load ps env = Inr cfg" and "su_operators su = cf_OperatorAllowlist cfg" and "quiet_setup core su"
    and "\<forall>claims part. ParseAccessToken (su_tokens su) (mget (cx_Header c) ''Authorization'') = Some claims \<longrightarrow>
      part \<in> set (Split CHR '','' (TrimSpace (env ''OPERATOR_USER_IDS''))) \<longrightarrow> ps_UUID ps (TrimSpace part) \<noteq> Some (cl_UserID claims)"
    and "cx_Response c = None" and "cx_Allowlist c = None"
    and "global_chain su (operator_group su pfx h) c w = (c', w')"
  shows "core w' = core w \<and> (\<exists>r. cx_Response c' = Some r \<and> 400 \<le> rs_Status r \<and> rs_Data r = None)"
proof -
  have "cfg = read_config ps env" using assms(1) by (auto simp: Load_def Let_def split: option.splits)
  then have ops: "su_operators su = parseUUIDList ps (TrimSpace (env ''OPERATOR_USER_IDS''))"
    using assms(2) by (simp add: read_config_def getEnv_empty)
  have no: "\<not> operator_token su c"
  proof
    assume "operator_token su c"
    then obtain claims where cl: "ParseAccessToken (su_tokens su) (mget (cx_Header c) ''Authorization'') = Some claims"
      "cl_UserID claims \<in> set (parseUUIDList ps (TrimSpace (env ''OPERATOR_USER_IDS'')))"
      by (auto simp: operator_token_def ops split: option.splits)
    from parseUUIDList_listed(2) [OF cl(2)] assms(4) cl(1) show False by blast
  qed
  show ?thesis
  proof (rule global_chain_cases [OF assms(3,7,5,6)])
    fix d v d' v'
    assume a: "operator_group su pfx h d v = (d', v')" "cx_Response d = None" "cx_Header d = cx_Header c"
      "cx_Allowlist d = (if 0 < length (su_operators su) then Some (su_operators su) else None)"
    have "\<not> operator_token su d" using no a(3) by (simp add: operator_token_def)
    from operator_group_core [OF assms(3) a(4) this a(1,2)]
    show "core v' = core v \<and> (\<exists>r. cx_Response d' = Some r \<and> 400 \<le> rs_Status r \<and> rs_Data r = None)" by force
  qed
qed

definition demo_env :: environment where
  "demo_env key = (if key = ''JWT_SECRET'' then ''0123456789abcdef0123456789abcdef''
     else if key = ''OPERATOR_USER_IDS'' then ''op1, not-a-uuid'' else [])"

definition demo_parsers :: parsers where
  "demo_parsers = \<lparr>ps_Duration = (\<lambda>_. None), ps_Float = (\<lambda>_. None), ps_UUID = (\<lambda>s. if s = ''op1'' then Some s else None)\<rparr>"

lemma demo_load: "Load demo_parsers demo_env = Inr (read_config demo_parsers demo_env)"
proof -
  have "Validate (read_config demo_parsers demo_env) = None" by code_simp
  then show ?thesis by (simp add: Load_def)
qed

lemma demo_entries: "list_all (\<lambda>part. ps_UUID demo_parsers (TrimSpace part) \<noteq> Some ''u2'') (Split CHR '','' (TrimSpace (demo_env ''OPERATOR_USER_IDS'')))"
  by code_simp

theorem closed_by_default_witness:
  "snd (global_chain (demo_setup\<lparr>su_operators := cf_OperatorAllowlist (read_config demo_parsers demo_env)\<rparr>)
     (operator_group (demo_setup\<lparr>su_operators := cf_OperatorAllowlist (read_config demo_parsers demo_env)\<rparr>) ''ticket'' (\<lambda>c w. (c, w + 1)))
     demo_ctx 5) = 5"
proof -
  let ?su = "demo_setup\<lparr>su_operators := cf_OperatorAllowlist (read_config demo_parsers demo_env)\<rparr>"
  let ?h = "\<lambda>c w. (c, w + 1)"
  obtain c' w' where h: "global_chain ?su (operator_group ?su ''ticket'' ?h) demo_ctx 5 = (c', w')"
    by (cases "global_chain ?su (operator_group ?su ''ticket'' ?h) demo_ctx 5")
  have q: "quiet_setup (\<lambda>w. w) ?su" by (simp add: quiet_setup_def demo_setup_def)
  have u: "su_operators ?su = cf_OperatorAllowlist (read_config demo_parsers demo_env)" by simp
  have t: "\<forall>claims part. ParseAccessToken (su_tokens ?su) (mget (cx_Header demo_ctx) ''Authorization'') = Some claims \<longrightarrow>
      part \<in> set (Split CHR '','' (TrimSpace (demo_env ''OPERATOR_USER_IDS''))) \<longrightarrow> ps_UUID demo_parsers (TrimSpace part) \<noteq> Some (cl_UserID claims)"
    using demo_entries by (auto simp: demo_setup_def ParseAccessToken_def parse_token_def list_all_iff split: option.splits if_splits)
  have n: "cx_Response demo_ctx = None" "cx_Allowlist demo_ctx = None" by (simp_all add: demo_ctx_def)
  show ?thesis using closed_by_default [OF demo_load u q t n h] h by simp
qed

end
