(* ===== verification/GoBase64.thy ===== *)
theory GoBase64
  imports GoText
begin

text \<open>
  \<open>base64.RawURLEncoding\<close> of Go's library, without padding: three bytes become four characters
  of the URL alphabet. The decoder skips line breaks, as Go's does.
\<close>

definition sextet :: "char \<Rightarrow> nat option" where
  "sextet c =
     (if is_upper c then Some (ord c - 65)
      else if is_lower c then Some (ord c - 71)
      else if is_digit c then Some (ord c + 4)
      else if c = CHR ''-'' then Some 62
      else if c = CHR ''_'' then Some 63
      else None)"

fun b64_bytes :: "nat list \<Rightarrow> string option" where
  "b64_bytes [] = Some []"
| "b64_bytes [a] = None"
| "b64_bytes [a, b] = Some [char_of (a * 4 + b div 16)]"
| "b64_bytes [a, b, c] = Some [char_of (a * 4 + b div 16), char_of (b mod 16 * 16 + c div 4)]"
| "b64_bytes (a # b # c # d # s) = map_option (\<lambda>t. char_of (a * 4 + b div 16) #
     char_of (b mod 16 * 16 + c div 4) # char_of (c mod 4 * 64 + d) # t) (b64_bytes s)"

definition RawURLDecode :: "string \<Rightarrow> string option" where
  "RawURLDecode s =
     (let cs = filter (\<lambda>c. c \<noteq> CHR 0x0A \<and> c \<noteq> CHR 0x0D) s in
      if list_all (\<lambda>c. sextet c \<noteq> None) cs then b64_bytes (map (\<lambda>c. the (sextet c)) cs) else None)"

definition sextet_char :: "nat \<Rightarrow> char" where
  "sextet_char n =
     (if n < 26 then char_of (65 + n) else if n < 52 then char_of (71 + n)
      else if n < 62 then char_of (n - 4) else if n = 62 then CHR ''-'' else CHR ''_'')"

fun b64_sextets :: "string \<Rightarrow> nat list" where
  "b64_sextets [] = []"
| "b64_sextets [x] = [ord x div 4, ord x mod 4 * 16]"
| "b64_sextets [x, y] = [ord x div 4, ord x mod 4 * 16 + ord y div 16, ord y mod 16 * 4]"
| "b64_sextets (x # y # z # s) = ord x div 4 # (ord x mod 4 * 16 + ord y div 16) #
     (ord y mod 16 * 4 + ord z div 64) # (ord z mod 64) # b64_sextets s"

definition RawURLEncode :: "string \<Rightarrow> string" where
  "RawURLEncode s = map sextet_char (b64_sextets s)"

section \<open>Round trip\<close>

lemma sextet_char_code:
  assumes "n < 64"
  shows "sextet (sextet_char n) = Some n" and "sextet_char n \<noteq> CHR 0x0A" and "sextet_char n \<noteq> CHR 0x0D"
proof -
  have o: "ord (char_of k :: char) = k" if "k < 256" for k :: nat using that by simp
  consider "n < 26" | "26 \<le> n" "n < 52" | "52 \<le> n" "n < 62" | "n = 62" | "n = 63" using assms by linarith
  then have "sextet (sextet_char n) = Some n \<and> ord (sextet_char n) \<noteq> 10 \<and> ord (sextet_char n) \<noteq> 13"
    by cases (auto simp: sextet_char_def sextet_def is_upper_def is_lower_def is_digit_def o)
  then show "sextet (sextet_char n) = Some n" "sextet_char n \<noteq> CHR 0x0A" "sextet_char n \<noteq> CHR 0x0D" by auto
qed

lemma ord_less [simp]: "ord (c :: char) < 256"
  using nat_of_char_less_256 [of c] by simp

lemma ord_div [simp]: "ord (c :: char) div 4 < 64" "ord (c :: char) div 16 < 16" "ord (c :: char) div 64 < 4"
  using ord_less [of c] by linarith+

lemma b64_sextets_range: "n \<in> set (b64_sextets s) \<Longrightarrow> n < 64"
proof -
  have sum: "a mod 4 * 16 + b < 64" if "b < 16" for a b :: nat using that mod_less_divisor [of 4 a] by linarith
  have sum2: "a mod 16 * 4 + b < 64" if "b < 4" for a b :: nat using that mod_less_divisor [of 16 a] by linarith
  show "n \<in> set (b64_sextets s) \<Longrightarrow> n < 64"
    by (induction s rule: b64_sextets.induct) (auto simp: sum sum2 sum [of 0, simplified] sum2 [of 0, simplified])
qed

lemma b64_bytes_sextets: "b64_bytes (b64_sextets s) = Some s"
proof (induction s rule: b64_sextets.induct)
  case (3 x y)
  then show ?case using ord_div [of y] by simp
next
  case (4 x y z s)
  then show ?case using ord_div [of y] ord_div [of z] by simp
qed simp_all

lemma RawURL_roundtrip: "RawURLDecode (RawURLEncode s) = Some s"
proof -
  let ?ns = "b64_sextets s"
  have r: "n < 64" if "n \<in> set ?ns" for n using that by (rule b64_sextets_range)
  have f: "filter (\<lambda>c. c \<noteq> CHR 0x0A \<and> c \<noteq> CHR 0x0D) (map sextet_char ?ns) = map sextet_char ?ns"
    using r sextet_char_code(2,3) by (intro filter_True) auto
  have "list_all (\<lambda>c. sextet c \<noteq> None) (map sextet_char ?ns)"
    using r sextet_char_code(1) by (auto simp: list_all_iff)
  moreover have "map (\<lambda>c. the (sextet c)) (map sextet_char ?ns) = ?ns"
    using r sextet_char_code(1) by (auto intro!: map_idI)
  ultimately show ?thesis by (simp add: RawURLDecode_def RawURLEncode_def f Let_def b64_bytes_sextets)
qed

lemma RawURLEncode_Nil_iff [simp]: "RawURLEncode s = [] \<longleftrightarrow> s = []"
  by (cases s rule: b64_sextets.cases) (simp_all add: RawURLEncode_def)

end
