(* ===== verification/Paging.thy ===== *)
theory Paging
  imports Http GoTime GoBase64
begin

text \<open>
  Cursors and pages of the list endpoints (infrastructure/httplib/pagination.go). A cursor is
  the creation time and the id of the last row of a page, in URL-safe base64. The time is
  printed with the layout \<open>RFC3339Nano\<close>: in UTC, with the decimals of the second that are not
  trailing zeros.
\<close>

section \<open>The time in a cursor\<close>

definition format_seconds :: "int \<Rightarrow> string" where
  "format_seconds s =
     (let r = nat (s mod 86400)
      in case civil (s div 86400 + epoch_day) of (y, m, d) \<Rightarrow>
        year_str y @ ''-'' @ p2 m @ ''-'' @ p2 d @ ''T'' @ p2 (r div 3600) @ '':'' @
        p2 (r div 60 mod 60) @ '':'' @ p2 (r mod 60))"

definition strip_zeros :: "string \<Rightarrow> string" where
  "strip_zeros s = rev (dropWhile (\<lambda>c. c = CHR ''0'') (rev s))"

definition frac9 :: "nat \<Rightarrow> string" where
  "frac9 n = (if n = 0 then [] else CHR ''.'' # strip_zeros (pad 9 (dec n)))"

definition format_nano :: "instant \<Rightarrow> string" where
  "format_nano t = format_seconds (t div Second) @ frac9 (nat (t mod Second)) @ ''Z''"

section \<open>Queries\<close>

record CursorQuery =
  cq_Limit :: int
  cq_Cursor :: string
  cq_CreatedAt :: "instant option"
  cq_ID :: string

record Query =
  qy_Page :: int
  qy_Size :: int
  qy_Offset :: int
  qy_SortBy :: string
  qy_SortOrder :: string

definition positiveInt :: "string \<Rightarrow> int \<Rightarrow> int" where
  "positiveInt value fallback =
     (case ParseInt64 value of None \<Rightarrow> fallback | Some parsed \<Rightarrow> if parsed < 1 then fallback else parsed)"

text \<open>\<open>c.Query(key)\<close>: the value in the decoded query string, empty when it is missing.\<close>

definition Query1 :: "'a ctx \<Rightarrow> string \<Rightarrow> string" where
  "Query1 c key = mget (cx_Query c) key"

definition GetCursorPaginationFromCtx :: "'a ctx \<Rightarrow> (string, CursorQuery) result" where
  "GetCursorPaginationFromCtx c =
     (let limit = positiveInt (Query1 c ''limit'') 20;
          limit = (if limit > 100 then 100 else limit);
          query = \<lparr>cq_Limit = limit, cq_Cursor = Query1 c ''cursor'', cq_CreatedAt = None, cq_ID = []\<rparr>
      in if cq_Cursor query = [] then Inr query
         else case RawURLDecode (cq_Cursor query) of
           None \<Rightarrow> Inl ''illegal base64 data''
         | Some decoded \<Rightarrow>
             let parts = Split CHR ''|'' decoded in
             if length parts \<noteq> 2 then Inl ''invalid cursor''
             else case parse_rfc3339 (parts ! 0) of
               None \<Rightarrow> Inl ''parsing time''
             | Some createdAt \<Rightarrow> Inr (query\<lparr>cq_CreatedAt := Some createdAt, cq_ID := parts ! 1\<rparr>))"

definition EncodeCursor :: "instant \<Rightarrow> string \<Rightarrow> string" where
  "EncodeCursor createdAt id1 = RawURLEncode (format_nano createdAt @ ''|'' @ id1)"

text \<open>Pages by number; no handler of the program uses them.\<close>

definition GetPaginationFromCtx :: "'a ctx \<Rightarrow> string \<Rightarrow> (string, string) gomap \<Rightarrow> Query" where
  "GetPaginationFromCtx c defaultSort allowedSorts =
     (let page = positiveInt (Query1 c ''page'') 1;
          size1 = positiveInt (Query1 c ''size'') 10;
          size1 = (if size1 > 100 then 100 else size1);
          sortBy = (case map_of allowedSorts (Query1 c ''orderBy'') of Some column \<Rightarrow> column | None \<Rightarrow> defaultSort);
          sortOrder = (if EqualFold (Query1 c ''sortOrder'') ''asc'' then ''ASC'' else ''DESC'')
      in \<lparr>qy_Page = page, qy_Size = size1, qy_Offset = wrap64 (wrap64 (page - 1) * size1), qy_SortBy = sortBy, qy_SortOrder = sortOrder\<rparr>)"

section \<open>Printing and parsing a time\<close>

lemma strip_zeros_split: "\<exists>k. s = strip_zeros s @ replicate k CHR ''0''"
proof -
  let ?z = "\<lambda>c. c = CHR ''0''"
  have "takeWhile ?z (rev s) = replicate (length (takeWhile ?z (rev s))) CHR ''0''"
    by (rule replicate_length_same [symmetric]) (auto dest: set_takeWhileD)
  then have "rev (takeWhile ?z (rev s)) = replicate (length (takeWhile ?z (rev s))) CHR ''0''"
    by (metis rev_replicate)
  moreover have "rev (dropWhile ?z (rev s)) @ rev (takeWhile ?z (rev s)) = s"
    by (metis rev_append rev_rev_ident takeWhile_dropWhile_id)
  ultimately show ?thesis unfolding strip_zeros_def by metis
qed

lemma val_strip_zeros: "val (strip_zeros s) * 10 ^ (length s - length (strip_zeros s)) = val s"
proof -
  obtain k where k: "s = strip_zeros s @ replicate k CHR ''0''" using strip_zeros_split by blast
  then have "length s = length (strip_zeros s) + k" by (metis length_append length_replicate)
  moreover have "val s = val (strip_zeros s) * 10 ^ k" by (subst k) (simp add: val_append)
  ultimately show ?thesis by simp
qed

lemma parse_frac9:
  assumes "n < 1000000000"
  shows "parse_frac (frac9 n @ ''Z'') = (int n, ''Z'')"
proof (cases "n = 0")
  case True
  then show ?thesis by (simp add: frac9_def parse_frac_def)
next
  case False
  let ?p = "pad 9 (dec n)"
  have p: "length ?p = 9" "all_digits ?p" "val ?p = n" using length_dec_le [of n 9] assms by simp_all
  obtain k where k: "?p = strip_zeros ?p @ replicate k CHR ''0''" using strip_zeros_split by blast
  have d: "all_digits (strip_zeros ?p)" using p(2) by (subst (asm) k) simp
  have ne: "strip_zeros ?p \<noteq> []"
  proof
    assume "strip_zeros ?p = []"
    then have "val ?p = 0" using val_strip_zeros [of ?p] by simp
    with p(3) False show False by simp
  qed
  then obtain e es where e: "strip_zeros ?p = e # es" by (cases "strip_zeros ?p") auto
  with d have dig: "\<forall>c \<in> set (e # es). is_digit c" by (simp add: all_digits_def)
  have Z: "\<not> is_digit CHR ''Z''" by (simp add: is_digit_def)
  have t: "takeWhile is_digit (e # es @ ''Z'') = e # es" "dropWhile is_digit (e # es @ ''Z'') = ''Z''"
    using dig Z takeWhile_append2 [of "e # es" is_digit "''Z''"] dropWhile_append2 [of "e # es" is_digit "''Z''"] by simp_all
  have l: "length (e # es) \<le> 9" using arg_cong [OF k, of length] p(1) e by simp
  have v: "val (e # es) * 10 ^ (9 - length (e # es)) = n" using val_strip_zeros [of ?p] p(1,3) e by simp
  have "int (val (e # es)) * 10 ^ (9 - length (e # es)) = int (val (e # es) * 10 ^ (9 - length (e # es)))" by simp
  then have v: "int (val (e # es)) * 10 ^ (9 - length (e # es)) = int n" unfolding v .
  show ?thesis
    using False dig l v t by (simp add: frac9_def parse_frac_def e Let_def del: takeWhile.simps dropWhile.simps)
qed

lemma format_seconds_shape:
  assumes "0 \<le> s" and "s < 253402300800"
  shows "parse_datetime (format_seconds s @ rest) = Some (s, rest)"
proof -
  define r where "r = nat (s mod 86400)"
  obtain y m d where c: "civil (s div 86400 + epoch_day) = (y, m, d)"
    by (cases "civil (s div 86400 + epoch_day)") auto
  note cv = civil_valid [OF c]
  have t: "clock_ok (s * Second)" using assms by (simp add: clock_ok_def Second_def)
  have "s * Second div Millisecond div 86400000 = s div 86400"
    by (simp add: Second_def Millisecond_def flip: zdiv_zmult2_eq)
  then have y: "0 \<le> y" "y < 10000" using year_of_clock [OF t] cv(1) by simp_all
  have r: "r < 86400" by (simp add: r_def)
  have h: "r div 3600 < 24" using r by auto
  have r3600: "r div 3600 = r div 60 div 60" by (simp flip: div_mult2_eq)
  have join: "x * 60 + b = q \<Longrightarrow> q * 60 + c = p \<Longrightarrow> x * 3600 + b * 60 + c = p" for x b c p q :: nat by simp
  have "r div 3600 * 3600 + r div 60 mod 60 * 60 + r mod 60 = r"
    unfolding r3600 by (rule join [OF div_mult_mod_eq div_mult_mod_eq])
  moreover have "int r = s mod 86400" by (simp add: r_def)
  moreover have "s div 86400 * 86400 + s mod 86400 = s" by simp
  ultimately have "(days_of y m d - epoch_day) * 86400 + int (r div 3600 * 3600 + r div 60 mod 60 * 60 + r mod 60) = s"
    using cv(6) by simp
  then show ?thesis
    using parse_datetime_format [of y m d "r div 3600" "r div 60 mod 60" "r mod 60" rest] y cv h c
    by (simp add: format_seconds_def Let_def r_def [symmetric])
qed

lemma parse_format_nano:
  assumes "clock_ok t"
  shows "parse_rfc3339 (format_nano t) = Some t"
proof -
  have s: "0 \<le> t div Second" "t div Second < 253402300800"
    using assms div_bounds [of Second t] by (auto simp: clock_ok_def Second_def)
  have n: "nat (t mod Second) < 1000000000" by (simp add: Second_def)
  have "t div Second * Second + int (nat (t mod Second)) = t" by (simp add: Second_def)
  then show ?thesis
    by (simp add: parse_rfc3339_def format_nano_def format_seconds_shape [OF s] parse_frac9 [OF n] parse_zone_def)
qed

lemma digits_no_bar: "all_digits s \<Longrightarrow> CHR ''|'' \<notin> set s"
  by (auto simp: all_digits_def is_digit_def)

lemma format_nano_no_bar: "CHR ''|'' \<notin> set (format_nano t)"
proof -
  have "CHR ''|'' \<notin> set (frac9 n)" for n
  proof (cases "n = 0")
    case False
    obtain k where k: "pad 9 (dec n) = strip_zeros (pad 9 (dec n)) @ replicate k CHR ''0''" using strip_zeros_split by blast
    have "CHR ''|'' \<notin> set (pad 9 (dec n))" by (rule digits_no_bar) simp
    then have "CHR ''|'' \<notin> set (strip_zeros (pad 9 (dec n)))" by (subst (asm) k) simp
    with False show ?thesis by (simp add: frac9_def)
  qed (simp add: frac9_def)
  moreover have "CHR ''|'' \<notin> set (format_seconds s)" for s
    by (auto simp: format_seconds_def Let_def year_str_def p2_def digits_no_bar split: prod.split)
  ultimately show ?thesis by (simp add: format_nano_def)
qed

section \<open>Cursors\<close>

lemma positiveInt_pos: "1 \<le> fallback \<Longrightarrow> 1 \<le> positiveInt value fallback"
  by (simp add: positiveInt_def split: option.split)

lemma cursor_limit: "GetCursorPaginationFromCtx c = Inr q \<Longrightarrow> 1 \<le> cq_Limit q \<and> cq_Limit q \<le> 100"
  using positiveInt_pos [of 20 "Query1 c ''limit''"]
  by (auto simp: GetCursorPaginationFromCtx_def Let_def split: if_splits option.splits)

lemma EncodeCursor_nonempty [simp]: "EncodeCursor t i \<noteq> []"
  by (simp add: EncodeCursor_def)

lemma decode_cursor:
  assumes "clock_ok t" and "CHR ''|'' \<notin> set i" and "Query1 c ''cursor'' = EncodeCursor t i"
  shows "GetCursorPaginationFromCtx c = Inr \<lparr>cq_Limit = min 100 (positiveInt (Query1 c ''limit'') 20),
     cq_Cursor = EncodeCursor t i, cq_CreatedAt = Some t, cq_ID = i\<rparr>"
proof -
  have s: "Split CHR ''|'' (format_nano t @ CHR ''|'' # i) = [format_nano t, i]"
    using format_nano_no_bar [of t] assms(2) by simp
  show ?thesis
    unfolding GetCursorPaginationFromCtx_def Let_def using assms(3) parse_format_nano [OF assms(1)] s
    by (simp add: EncodeCursor_def RawURL_roundtrip min_def)
qed

text \<open>
  Cursors round-trip. The cursor that a page ends with, sent back as it is with the next
  request, is read as exactly the creation time (to the nanosecond) and the id it was made
  from, for every time a clock reads and every id without a bar; the page size is what the
  request asks for, cut to at most 100, and 20 when the request has no positive number.
\<close>

theorem cursor_roundtrip:
  assumes "clock_ok t" and "CHR ''|'' \<notin> set i" and "Query1 c ''cursor'' = EncodeCursor t i"
  shows "GetCursorPaginationFromCtx c = Inr \<lparr>cq_Limit = min 100 (positiveInt (Query1 c ''limit'') 20),
     cq_Cursor = EncodeCursor t i, cq_CreatedAt = Some t, cq_ID = i\<rparr>"
    and "1 \<le> min 100 (positiveInt (Query1 c ''limit'') 20)"
  using decode_cursor [OF assms] positiveInt_pos [of 20 "Query1 c ''limit''"] by simp_all

theorem cursor_roundtrip_witness:
  "GetCursorPaginationFromCtx (demo_ctx\<lparr>cx_Query := [(''limit'', ''5''), (''cursor'', EncodeCursor 1700000000123000000 ''u7'')]\<rparr>) =
     Inr \<lparr>cq_Limit = 5, cq_Cursor = EncodeCursor 1700000000123000000 ''u7'', cq_CreatedAt = Some 1700000000123000000, cq_ID = ''u7''\<rparr>"
proof -
  have p: "positiveInt ''5'' 20 = 5" by (simp add: positiveInt_def ParseInt64_digits is_digit_def digit_val_def)
  let ?c = "demo_ctx\<lparr>cx_Query := [(''limit'', ''5''), (''cursor'', EncodeCursor 1700000000123000000 ''u7'')]\<rparr>"
  have "clock_ok 1700000000123000000" by (simp add: clock_ok_def Second_def)
  moreover have "CHR ''|'' \<notin> set ''u7''" by simp
  moreover have "Query1 ?c ''cursor'' = EncodeCursor 1700000000123000000 ''u7''" by (simp add: Query1_def mget_def)
  ultimately show ?thesis using cursor_roundtrip(1) [of 1700000000123000000 "''u7''" ?c] p by (simp add: Query1_def mget_def)
qed

end
