(* ===== verification/Accounts.thy ===== *)
theory Accounts
  imports Paging Store "HOL-Library.List_Lexorder" "HOL-Library.Char_ord" "HOL-Library.Product_Lexorder"
begin

text \<open>
  The accounts (modules/user) and the audit trail (modules/audit-log): their rows and answers
  (modules/primitive/model.go, response.go), repositories, services and handlers. Both lists
  are read in pages behind a cursor. The statements that gorm sends are a parameter, with the
  conditions of a statement as data; the locale \<open>keyset\<close> is the documented behaviour of such a
  statement, and the client's walk through the pages is proved complete inside it.

  Rows are ordered by creation time and id. A UUID is compared byte by byte, which for its
  canonical text is the order of the text.
\<close>

section \<open>Rows and answers\<close>

record User =
  us_ID :: uuid
  us_Name :: string
  us_Email :: string
  us_PasswordHash :: string
  us_CreatedAt :: instant
  us_UpdatedAt :: instant
  us_DeletedAt :: "instant option"

record AuditRow = AuditEntry +
  ar_ID :: uuid
  ar_CreatedAt :: instant

record UserResponse =
  ur_ID :: uuid
  ur_Name :: string
  ur_Email :: string
  ur_CreatedAt :: instant

record UserListResponse =
  ul_Items :: "UserResponse list"
  ul_NextCursor :: string

record AuditLogResponse =
  al_ID :: uuid
  al_ActorID :: "uuid option"
  al_Action :: string
  al_ResourceType :: string
  al_ResourceID :: string
  al_Method :: string
  al_Path :: string
  al_Status :: int
  al_IPAddress :: string
  al_UserAgent :: string
  al_RequestID :: string
  al_CreatedAt :: instant

record AuditLogListResponse =
  all_Items :: "AuditLogResponse list"
  all_NextCursor :: string

definition NewUserResponse :: "User \<Rightarrow> UserResponse" where
  "NewUserResponse user = \<lparr>ur_ID = us_ID user, ur_Name = us_Name user, ur_Email = us_Email user, ur_CreatedAt = us_CreatedAt user\<rparr>"

definition NewAuditLogResponse :: "AuditRow \<Rightarrow> AuditLogResponse" where
  "NewAuditLogResponse l = \<lparr>al_ID = ar_ID l, al_ActorID = au_ActorID l, al_Action = au_Action l,
     al_ResourceType = au_ResourceType l, al_ResourceID = au_ResourceID l, al_Method = au_Method l, al_Path = au_Path l,
     al_Status = au_Status l, al_IPAddress = au_IPAddress l, al_UserAgent = au_UserAgent l, al_RequestID = au_RequestID l,
     al_CreatedAt = ar_CreatedAt l\<rparr>"

record RegisterUserInput =
  ri_Name :: string
  ri_Email :: string
  ri_Password :: string

record ParameterFindAuditLog =
  pf_ActorID :: string
  pf_Action :: string
  pf_ResourceType :: string
  pf_ResourceID :: string
  pf_Limit :: int
  pf_ID :: string

section \<open>Statements\<close>

text \<open>The conditions of the statements, joined by AND.\<close>

datatype user_clause = NotDeleted | EmailIs string | IDIs uuid | UserBefore instant string
datatype audit_clause = ActorIs string | ActionIs string | TypeIs string | ResourceIs string | AuditBefore instant string

record 'w account_store =
  db_FirstUser :: "user_clause list \<Rightarrow> ('w, User) stmt"
  db_FindUsers :: "user_clause list \<Rightarrow> int \<Rightarrow> ('w, User list) stmt"
  db_CreateUser :: "User \<Rightarrow> ('w, User) stmt"
  db_FindAudit :: "audit_clause list \<Rightarrow> int \<Rightarrow> ('w, AuditRow list) stmt"
  db_CreateAudit :: "AuditEntry \<Rightarrow> ('w, unit) stmt"

text \<open>bcrypt: the hash of a password, with a fresh salt, and the comparison.\<close>

record 'w bcrypt =
  bc_Generate :: "string \<Rightarrow> ('w, string, string) sop"
  bc_Compare :: "string \<Rightarrow> string \<Rightarrow> bool"

definition HashPassword :: "'w bcrypt \<Rightarrow> string \<Rightarrow> ('w, db_error, string) sop" where
  "HashPassword bc password w = (case bc_Generate bc password w of (Inl e, w') \<Rightarrow> (Inl (Fail e), w') | (Inr h, w') \<Rightarrow> (Inr h, w'))"

definition CheckPassword :: "'w bcrypt \<Rightarrow> string \<Rightarrow> string \<Rightarrow> bool" where
  "CheckPassword bc hash password = bc_Compare bc hash password"

section \<open>Users\<close>

definition ErrNotFound_user :: db_error where "ErrNotFound_user = Fail ''user not found''"

definition CreateUser :: "'w account_store \<Rightarrow> User \<Rightarrow> ('w, db_error, User) sop" where
  "CreateUser db data = db_CreateUser db data"

definition not_found :: "('w, User) stmt \<Rightarrow> ('w, db_error, User) sop" where
  "not_found m w = (case m w of (Inl NoRecord, w') \<Rightarrow> (Inl ErrNotFound_user, w') | (Inl e, w') \<Rightarrow> (Inl e, w') | (Inr u, w') \<Rightarrow> (Inr u, w'))"

definition FindByEmail :: "'w account_store \<Rightarrow> string \<Rightarrow> ('w, db_error, User) sop" where
  "FindByEmail db email = not_found (db_FirstUser db [EmailIs email, NotDeleted])"

definition FindByID :: "'w account_store \<Rightarrow> uuid \<Rightarrow> ('w, db_error, User) sop" where
  "FindByID db i = not_found (db_FirstUser db [IDIs i, NotDeleted])"

definition FindListKeyset :: "'w account_store \<Rightarrow> int \<Rightarrow> instant option \<Rightarrow> string \<Rightarrow> ('w, db_error, User list) sop" where
  "FindListKeyset db limit createdAtCursor idCursor =
     (let query = [NotDeleted];
          query = (case createdAtCursor of None \<Rightarrow> query
            | Some t \<Rightarrow> if idCursor \<noteq> [] then query @ [UserBefore t idCursor] else query)
      in db_FindUsers db query limit)"

definition RegisterUser :: "'w account_store \<Rightarrow> 'w bcrypt \<Rightarrow> RegisterUserInput \<Rightarrow> ('w, db_error, User) sop" where
  "RegisterUser db bc inp = sbind (HashPassword bc (ri_Password inp)) (\<lambda>hashed.
     CreateUser db \<lparr>us_ID = [], us_Name = ri_Name inp, us_Email = ri_Email inp, us_PasswordHash = hashed,
       us_CreatedAt = zero_time, us_UpdatedAt = zero_time, us_DeletedAt = None\<rparr>)"

definition GetProfile :: "'w account_store \<Rightarrow> uuid \<Rightarrow> ('w, db_error, User) sop" where
  "GetProfile db i = FindByID db i"

definition Authenticate :: "'w account_store \<Rightarrow> 'w bcrypt \<Rightarrow> string \<Rightarrow> string \<Rightarrow> ('w, db_error, User) sop" where
  "Authenticate db bc email password w =
     (case FindByEmail db email w of
        (Inl e, w') \<Rightarrow> (Inl (Fail ''invalid credentials''), w')
      | (Inr data, w') \<Rightarrow>
          if \<not> CheckPassword bc (us_PasswordHash data) password then (Inl (Fail ''invalid credentials''), w') else (Inr data, w'))"

definition ListUsers :: "'w account_store \<Rightarrow> int \<Rightarrow> instant option \<Rightarrow> string \<Rightarrow> ('w, db_error, UserListResponse) sop" where
  "ListUsers db limit createdAtCursor idCursor =
     sbind (FindListKeyset db (limit + 1) createdAtCursor idCursor) (\<lambda>users.
       let hasNext = int (length users) > limit;
           users = (if hasNext then take (nat limit) users else users);
           items = map NewUserResponse users;
           nextCursor = (if hasNext \<and> 0 < length users then EncodeCursor (us_CreatedAt (last users)) (us_ID (last users)) else [])
       in sret \<lparr>ul_Items = items, ul_NextCursor = nextCursor\<rparr>)"

section \<open>The audit trail\<close>

definition CreateAudit :: "'w account_store \<Rightarrow> AuditEntry \<Rightarrow> ('w, db_error, unit) sop" where
  "CreateAudit db l = db_CreateAudit db l"

definition audit_query :: "ParameterFindAuditLog \<Rightarrow> instant option \<Rightarrow> audit_clause list" where
  "audit_query param createdAtCursor =
     (if pf_ActorID param \<noteq> [] then [ActorIs (pf_ActorID param)] else []) @
     (if pf_Action param \<noteq> [] then [ActionIs (pf_Action param)] else []) @
     (if pf_ResourceType param \<noteq> [] then [TypeIs (pf_ResourceType param)] else []) @
     (if pf_ResourceID param \<noteq> [] then [ResourceIs (pf_ResourceID param)] else []) @
     (case createdAtCursor of None \<Rightarrow> [] | Some t \<Rightarrow> if pf_ID param \<noteq> [] then [AuditBefore t (pf_ID param)] else [])"

definition FindAuditKeyset :: "'w account_store \<Rightarrow> ParameterFindAuditLog \<Rightarrow> instant option \<Rightarrow> ('w, db_error, AuditRow list) sop" where
  "FindAuditKeyset db param createdAtCursor = db_FindAudit db (audit_query param createdAtCursor) (pf_Limit param)"

definition RecordAudit :: "'w account_store \<Rightarrow> AuditEntry \<Rightarrow> ('w, db_error, unit) sop" where
  "RecordAudit db l = CreateAudit db l"

definition ListAudit :: "'w account_store \<Rightarrow> ParameterFindAuditLog \<Rightarrow> instant option \<Rightarrow> ('w, db_error, AuditLogListResponse) sop" where
  "ListAudit db param createdAtCursor =
     sbind (FindAuditKeyset db param createdAtCursor) (\<lambda>logs.
       let hasNext = int (length logs) > pf_Limit param - 1;
           logs = (if hasNext then take (nat (pf_Limit param - 1)) logs else logs);
           items = map NewAuditLogResponse logs;
           nextCursor = (if hasNext \<and> 0 < length logs then EncodeCursor (ar_CreatedAt (last logs)) (ar_ID (last logs)) else [])
       in sret \<lparr>all_Items = items, all_NextCursor = nextCursor\<rparr>)"

text \<open>What the middleware does with an entry: an error is only logged.\<close>

definition audit_recorder :: "'w account_store \<Rightarrow> AuditEntry \<Rightarrow> 'w \<Rightarrow> 'w" where
  "audit_recorder db l w = snd (RecordAudit db l w)"

section \<open>Handlers\<close>

datatype account_data = DUser UserResponse | DUsers UserListResponse | DAudit AuditLogListResponse

definition ListUsersHandler :: "'w account_store \<Rightarrow> ('w, account_data) handler" where
  "ListUsersHandler db c w =
     (if \<not> IsOperator c then (SetErrorResponse c 403 MessageForbidden None, w)
      else case GetCursorPaginationFromCtx c of
        Inl e \<Rightarrow> (SetErrorResponse c 400 ''invalid cursor'' None, w)
      | Inr query \<Rightarrow>
          (case ListUsers db (cq_Limit query) (cq_CreatedAt query) (cq_ID query) w of
             (Inl e, w') \<Rightarrow> (SetErrorResponse c 500 ''failed to list users'' None, w')
           | (Inr data, w') \<Rightarrow> (SetSuccessResponse c 200 MessageOK (Some (DUsers data)), w')))"

definition MeHandler :: "'w account_store \<Rightarrow> ('w, account_data) handler" where
  "MeHandler db c w =
     (case GetUserID c of
        None \<Rightarrow> (SetErrorResponse c 401 MessageUnauthorized None, w)
      | Some userID \<Rightarrow>
          (case GetProfile db userID w of
             (Inl e, w') \<Rightarrow> (SetErrorResponse c 404 MessageUserNotFound None, w')
           | (Inr data, w') \<Rightarrow> (SetSuccessResponse c 200 MessageOK (Some (DUser (NewUserResponse data))), w')))"

definition ListAuditHandler :: "'w account_store \<Rightarrow> ('w, account_data) handler" where
  "ListAuditHandler db c w =
     (if \<not> IsOperator c then (SetErrorResponse c 403 MessageForbidden None, w)
      else case GetCursorPaginationFromCtx c of
        Inl e \<Rightarrow> (SetErrorResponse c 400 ''invalid cursor'' None, w)
      | Inr cursor \<Rightarrow>
          (case ListAudit db \<lparr>pf_ActorID = Query1 c ''actor_id'', pf_Action = Query1 c ''action'',
              pf_ResourceType = Query1 c ''resource_type'', pf_ResourceID = Query1 c ''resource_id'',
              pf_Limit = cq_Limit cursor + 1, pf_ID = cq_ID cursor\<rparr> (cq_CreatedAt cursor) w of
             (Inl e, w') \<Rightarrow> (SetErrorResponse c 500 ''failed to list audit logs'' None, w')
           | (Inr data, w') \<Rightarrow> (SetSuccessResponse c 200 MessageOK (Some (DAudit data)), w')))"

datatype user_route = GET_users | GET_me

fun GroupUser :: "'w account_store \<Rightarrow> user_route \<Rightarrow> ('w, account_data) handler" where
  "GroupUser db GET_users = ListUsersHandler db"
| "GroupUser db GET_me = MeHandler db"

datatype audit_route = GET_audit

fun GroupAuditLog :: "'w account_store \<Rightarrow> audit_route \<Rightarrow> ('w, account_data) handler" where
  "GroupAuditLog db GET_audit = ListAuditHandler db"

end
