(* ===== verification/AccountPages.thy ===== *)
theory AccountPages
  imports Accounts "HOL-Library.Code_Target_Numeral"
begin

text \<open>
  What a client gets that reads the list of accounts or the audit trail page by page. The
  locale \<open>keyset\<close> states what a keyset statement returns, proves what one page holds and that
  following the cursors gives every row once; it is interpreted on the tables of the migrations.
\<close>

section \<open>Canonical UUIDs\<close>

definition is_hex :: "char \<Rightarrow> bool" where
  "is_hex c \<longleftrightarrow> is_digit c \<or> (97 \<le> ord c \<and> ord c \<le> 102)"

definition is_uuid :: "string \<Rightarrow> bool" where
  "is_uuid s \<longleftrightarrow> length s = 36 \<and>
     list_all (\<lambda>(i, c). if i \<in> {8, 13, 18, 23} then c = CHR ''-'' else is_hex c) (enumerate 0 s)"

lemma is_uuid_no_bar:
  assumes "is_uuid s"
  shows "CHR ''|'' \<notin> set s" and "s \<noteq> []"
proof -
  show "s \<noteq> []" using assms by (auto simp: is_uuid_def)
  show "CHR ''|'' \<notin> set s"
  proof
    assume "CHR ''|'' \<in> set s"
    then obtain i where i: "i < length s" "s ! i = CHR ''|''" by (auto simp: in_set_conv_nth)
    then have "(i, CHR ''|'') \<in> set (enumerate 0 s)" by (auto simp: in_set_enumerate_eq)
    with assms show False by (auto simp: is_uuid_def list_all_iff is_hex_def is_digit_def split: if_splits)
  qed
qed

section \<open>A client that follows the cursors\<close>

definition page_of :: "('d \<Rightarrow> ('i list \<times> string) option) \<Rightarrow> 'd ctx \<Rightarrow> int + 'i list \<times> string" where
  "page_of items c = (case cx_Response c of None \<Rightarrow> Inl 0
     | Some r \<Rightarrow> (case Option.bind (rs_Data r) items of None \<Rightarrow> Inl (rs_Status r)
         | Some p \<Rightarrow> if rs_Status r = 200 then Inr p else Inl (rs_Status r)))"

fun walk :: "('w, 'd) handler \<Rightarrow> (string \<Rightarrow> 'd ctx) \<Rightarrow> ('d \<Rightarrow> ('i list \<times> string) option) \<Rightarrow> nat \<Rightarrow> string \<Rightarrow> 'w \<Rightarrow> (int + 'i list) option \<times> 'w" where
  "walk h req items 0 cur w = (None, w)"
| "walk h req items (Suc n) cur w =
     (case h (req cur) w of (c', w') \<Rightarrow>
       (case page_of items c' of
          Inl e \<Rightarrow> (Some (Inl e), w')
        | Inr (xs, nxt) \<Rightarrow>
            if nxt = [] then (Some (Inr xs), w')
            else (case walk h req items n nxt w' of
              (Some (Inr ys), w2) \<Rightarrow> (Some (Inr (xs @ ys)), w2) | (q, w2) \<Rightarrow> (q, w2))))"

text \<open>The cursor of a position in the list.\<close>

fun cursor_text :: "(instant \<times> uuid) option \<Rightarrow> string" where
  "cursor_text None = []"
| "cursor_text (Some (t, i)) = EncodeCursor t i"

definition key_ok :: "instant \<times> uuid \<Rightarrow> bool" where
  "key_ok k \<longleftrightarrow> clock_ok (fst k) \<and> is_uuid (snd k)"

lemma read_cursor:
  assumes "case cur of None \<Rightarrow> True | Some k \<Rightarrow> key_ok k" and "Query1 c ''cursor'' = cursor_text cur"
  shows "\<exists>q. GetCursorPaginationFromCtx c = Inr q \<and> cq_Limit q = min 100 (positiveInt (Query1 c ''limit'') 20) \<and>
    (case cur of None \<Rightarrow> cq_CreatedAt q = None \<and> cq_ID q = [] | Some (t, i) \<Rightarrow> cq_CreatedAt q = Some t \<and> cq_ID q = i \<and> i \<noteq> [])"
proof (cases cur)
  case None
  with assms(2) show ?thesis by (simp add: GetCursorPaginationFromCtx_def Let_def min_def)
next
  case (Some k)
  obtain t i where k: "k = (t, i)" by (cases k)
  with Some assms have "clock_ok t" "is_uuid i" "Query1 c ''cursor'' = EncodeCursor t i" by (simp_all add: key_ok_def)
  then show ?thesis using decode_cursor [of t i c] is_uuid_no_bar [of i] Some k by simp
qed

section \<open>Keyset statements\<close>

definition desc :: "('r \<Rightarrow> instant \<times> uuid) \<Rightarrow> 'r list \<Rightarrow> 'r list" where
  "desc key rs = rev (sort_key key rs)"

definition later :: "('r \<Rightarrow> instant \<times> uuid) \<Rightarrow> (instant \<times> uuid) option \<Rightarrow> 'r list \<Rightarrow> 'r list" where
  "later key cur rs = (case cur of None \<Rightarrow> rs | Some k \<Rightarrow> filter (\<lambda>x. key x < k) rs)"

definition before_of :: "(instant \<Rightarrow> uuid \<Rightarrow> 'c) \<Rightarrow> (instant \<times> uuid) option \<Rightarrow> 'c list" where
  "before_of before cur = (case cur of None \<Rightarrow> [] | Some (t, i) \<Rightarrow> [before t i])"

lemma sorted_desc_unique:
  assumes "mset ys = mset zs" and "sorted_wrt (\<lambda>a b. key b \<le> key a) ys" and "distinct (map key zs)"
  shows "ys = desc key zs"
proof -
  have s: "sorted (map key (rev ys))"
    using assms(2) by (simp add: sorted_wrt_rev sorted_wrt_map flip: rev_map)
  have d: "distinct (map key ys)" using assms(1,3) by (metis mset_map mset_eq_imp_distinct_iff)
  have e: "set ys = set zs" using assms(1) by (metis set_mset_mset)
  have "rev ys = sort_key key zs"
  proof (rule map_sorted_distinct_set_unique [of key])
    show "inj_on key (set (rev ys) \<union> set (sort_key key zs))" using assms(3) e by (simp add: distinct_map)
    show "distinct (map key (rev ys))" using d by (simp flip: rev_map)
    show "distinct (map key (sort_key key zs))"
      using assms(3) by (metis mset_map mset_sort mset_eq_imp_distinct_iff)
  qed (use s e in simp_all)
  then show ?thesis unfolding desc_def by (metis rev_rev_ident)
qed

lemma desc_strict: "distinct (map key rs) \<Longrightarrow> sorted_wrt (\<lambda>a b. key b < key a) (desc key rs)"
proof -
  assume d: "distinct (map key rs)"
  have "distinct (map key (sort_key key rs))" using d by (metis mset_map mset_sort mset_eq_imp_distinct_iff)
  then have "sorted_wrt (<) (map key (sort_key key rs))" by (simp add: strict_sorted_iff)
  then show ?thesis by (simp add: desc_def sorted_wrt_rev sorted_wrt_map)
qed

lemma filter_desc: "distinct (map key rs) \<Longrightarrow> desc key (filter P rs) = filter P (desc key rs)"
  by (simp add: desc_def rev_filter flip: filter_sort)

lemma strict_tail:
  fixes key :: "'r \<Rightarrow> instant \<times> uuid"
  assumes "sorted_wrt (\<lambda>a b. key b < key a) R" and "k < length R"
  shows "filter (\<lambda>x. key x < key (R ! k)) R = drop (Suc k) R"
  using assms
proof (induction R arbitrary: k)
  case (Cons a R)
  then show ?case
  proof (cases k)
    case 0
    with Cons.prems show ?thesis by (auto intro!: filter_True)
  next
    case (Suc m)
    with Cons show ?thesis by (auto dest!: bspec [of "set R" _ "R ! m"])
  qed
qed simp

lemma later_next:
  fixes key :: "'r \<Rightarrow> instant \<times> uuid"
  assumes "sorted_wrt (\<lambda>a b. key b < key a) L" and "k < length (later key cur L)"
  shows "later key (Some (key (later key cur L ! k))) L = drop (Suc k) (later key cur L)"
proof -
  let ?R = "later key cur L"
  have s: "sorted_wrt (\<lambda>a b. key b < key a) ?R" using assms(1) by (auto simp: later_def sorted_wrt_filter split: option.split)
  have "?R ! k \<in> set ?R" using assms(2) by simp
  then have "filter (\<lambda>x. key x < key (?R ! k)) L = filter (\<lambda>x. key x < key (?R ! k)) ?R"
    by (auto simp: later_def intro!: filter_cong split: option.split)
  with strict_tail [OF s assms(2)] show ?thesis by (simp add: later_def [of key "Some _"])
qed

locale keyset =
  fixes find :: "'c list \<Rightarrow> int \<Rightarrow> ('w, 'r list) stmt" and rows :: "'w \<Rightarrow> 'r list"
    and key :: "'r \<Rightarrow> instant \<times> uuid" and holds :: "'c \<Rightarrow> 'r \<Rightarrow> bool" and cok :: "'c \<Rightarrow> bool"
    and before :: "instant \<Rightarrow> uuid \<Rightarrow> 'c"
  assumes find: "\<And>cl n w r w'. find cl n w = (r, w') \<Longrightarrow> list_all cok cl \<Longrightarrow> 0 \<le> n \<Longrightarrow> rows w' = rows w \<and>
      (case r of Inl _ \<Rightarrow> True
       | Inr xs \<Rightarrow> \<exists>ys. mset ys = mset (filter (\<lambda>x. list_all (\<lambda>c. holds c x) cl) (rows w)) \<and>
           sorted_wrt (\<lambda>a b. key b \<le> key a) ys \<and> xs = take (nat n) ys)"
    and before: "\<And>t i x. holds (before t i) x \<longleftrightarrow> key x < (t, i)"
    and castable: "\<And>t i. is_uuid i \<Longrightarrow> cok (before t i)"
begin

definition listed :: "'c list \<Rightarrow> 'w \<Rightarrow> 'r list" where
  "listed conds w = desc key (filter (\<lambda>x. list_all (\<lambda>c. holds c x) conds) (rows w))"

definition fails :: bool where
  "fails \<longleftrightarrow> (\<exists>cl n v e v'. list_all cok cl \<and> 0 \<le> n \<and> find cl n v = (Inl e, v'))"

lemma page:
  assumes "find (conds @ before_of before cur) n w = (r, w')" and "list_all cok conds" and "0 \<le> n"
    and "distinct (map key (rows w))" and "case cur of None \<Rightarrow> True | Some k \<Rightarrow> key_ok k"
  shows "rows w' = rows w \<and> (case r of Inl _ \<Rightarrow> fails | Inr xs \<Rightarrow> xs = take (nat n) (later key cur (listed conds w)))"
proof -
  have c: "list_all cok (conds @ before_of before cur)"
    using assms(2,5) castable by (auto simp: before_of_def key_ok_def split: option.splits)
  have f: "filter (\<lambda>x. list_all (\<lambda>c. holds c x) (conds @ before_of before cur)) (rows w) =
      later key cur (filter (\<lambda>x. list_all (\<lambda>c. holds c x) conds) (rows w))"
    by (auto simp: before_of_def later_def before conj_commute intro!: filter_cong split: option.split)
  have d: "distinct (map key (filter P (rows w)))" for P using assms(4) by (simp add: distinct_map_filter)
  have l: "desc key (later key cur (filter (\<lambda>x. list_all (\<lambda>c. holds c x) conds) (rows w))) = later key cur (listed conds w)"
    using filter_desc [OF d] by (auto simp: later_def listed_def split: option.split)
  have d2: "distinct (map key (later key cur (filter (\<lambda>x. list_all (\<lambda>c. holds c x) conds) (rows w))))"
    unfolding f [symmetric] by (rule d)
  show ?thesis
  proof (cases r)
    case (Inl e)
    then have "find (conds @ before_of before cur) n w = (Inl e, w')" using assms(1) by simp
    with assms(3) c have fails unfolding fails_def by blast
    with Inl find [OF assms(1) c assms(3)] show ?thesis by simp
  next
    case (Inr xs)
    with find [OF assms(1) c assms(3), unfolded f] obtain ys where y: "rows w' = rows w"
      "mset ys = mset (later key cur (filter (\<lambda>x. list_all (\<lambda>c. holds c x) conds) (rows w)))"
      "sorted_wrt (\<lambda>a b. key b \<le> key a) ys" "xs = take (nat n) ys" by auto
    with sorted_desc_unique [OF y(2,3) d2] l Inr show ?thesis by simp
  qed
qed

text \<open>One answer of a list handler: at most \<open>psize\<close> rows and the cursor of the last one, if there are more.\<close>

definition answers :: "('r \<Rightarrow> 'i) \<Rightarrow> nat \<Rightarrow> 'r list \<Rightarrow> int + 'i list \<times> string \<Rightarrow> bool" where
  "answers item psize R p \<longleftrightarrow> (p = Inl 500 \<and> fails) \<or>
     p = Inr (map item (take psize R), if psize < length R then cursor_text (Some (key (R ! (psize - 1)))) else [])"

lemma walk_complete:
  assumes step: "\<And>cur v c' v'. h (req (cursor_text cur)) v = (c', v') \<Longrightarrow> rows v = rows w0 \<Longrightarrow>
      (case cur of None \<Rightarrow> True | Some k \<Rightarrow> key_ok k) \<Longrightarrow>
      rows v' = rows v \<and> answers item psize (later key cur (listed conds v)) (page_of items c')"
    and "0 < psize" and d: "distinct (map key (rows w0))" and k: "list_all (\<lambda>x. key_ok (key x)) (rows w0)"
    and "rows w = rows w0" and "case cur of None \<Rightarrow> True | Some k \<Rightarrow> key_ok k"
    and "length (later key cur (listed conds w)) < fuel"
  shows "\<exists>r w'. walk h req items fuel (cursor_text cur) w = (Some r, w') \<and>
    ((r = Inl 500 \<and> fails) \<or> r = Inr (map item (later key cur (listed conds w))))"
  using assms(5-7)
proof (induction fuel arbitrary: cur w)
  case (Suc n)
  let ?R = "later key cur (listed conds w)"
  obtain c' w' where h: "h (req (cursor_text cur)) w = (c', w')" by (cases "h (req (cursor_text cur)) w")
  have st: "rows w' = rows w" "answers item psize ?R (page_of items c')" using step [OF h Suc.prems(1,2)] by simp_all
  have eq: "listed conds w' = listed conds w" using st(1) by (simp add: listed_def)
  have strict: "sorted_wrt (\<lambda>a b. key b < key a) (listed conds w)"
    unfolding listed_def using d Suc.prems(1) by (intro desc_strict) (simp add: distinct_map_filter)
  show ?case
  proof (cases "page_of items c'")
    case (Inl e)
    with st(2) h show ?thesis by (auto simp: answers_def)
  next
    case (Inr p)
    show ?thesis
    proof (cases "psize < length ?R")
      case False
      with st(2) h Inr show ?thesis by (auto simp: answers_def)
    next
      case True
      let ?k = "key (?R ! (psize - 1))"
      have "?R ! (psize - 1) \<in> set ?R" using True by (intro nth_mem) simp
      then have "?R ! (psize - 1) \<in> set (rows w0)"
        using Suc.prems(1) by (auto simp: later_def listed_def desc_def split: option.splits)
      then have ko: "key_ok ?k" using k by (simp add: list_all_iff)
      have nxt: "later key (Some ?k) (listed conds w) = drop psize ?R"
        using later_next [OF strict, of "psize - 1" cur] True \<open>0 < psize\<close> by simp
      have p: "p = (map item (take psize ?R), cursor_text (Some ?k))" using st(2) Inr True by (simp add: answers_def)
      have ne: "cursor_text (Some ?k) \<noteq> []" by (cases ?k) simp
      have "\<exists>r w2. walk h req items n (cursor_text (Some ?k)) w' = (Some r, w2) \<and>
          ((r = Inl 500 \<and> fails) \<or> r = Inr (map item (later key (Some ?k) (listed conds w'))))"
      proof (rule Suc.IH)
        show "length (later key (Some ?k) (listed conds w')) < n"
          unfolding eq nxt using Suc.prems(3) True \<open>0 < psize\<close> by simp
      qed (use Suc.prems(1) st(1) ko in simp_all)
      then obtain r w2 where w2: "walk h req items n (cursor_text (Some ?k)) w' = (Some r, w2)"
        "(r = Inl 500 \<and> fails) \<or> r = Inr (map item (drop psize ?R))" unfolding eq nxt by blast
      have "map item (take psize ?R) @ map item (drop psize ?R) = map item ?R" by (simp flip: map_append)
      with w2 h Inr p ne show ?thesis by (auto simp del: cursor_text.simps)
    qed
  qed
qed simp

end

section \<open>The two lists\<close>

definition user_key :: "User \<Rightarrow> instant \<times> uuid" where
  "user_key u = (us_CreatedAt u, us_ID u)"

definition audit_key :: "AuditRow \<Rightarrow> instant \<times> uuid" where
  "audit_key l = (ar_CreatedAt l, ar_ID l)"

fun user_holds :: "user_clause \<Rightarrow> User \<Rightarrow> bool" where
  "user_holds NotDeleted u = (us_DeletedAt u = None)"
| "user_holds (EmailIs e) u = (us_Email u = e)"
| "user_holds (IDIs i) u = (us_ID u = i)"
| "user_holds (UserBefore t i) u = (user_key u < (t, i))"

fun audit_holds :: "audit_clause \<Rightarrow> AuditRow \<Rightarrow> bool" where
  "audit_holds (ActorIs i) l = (au_ActorID l = Some i)"
| "audit_holds (ActionIs s) l = (au_Action l = s)"
| "audit_holds (TypeIs s) l = (au_ResourceType l = s)"
| "audit_holds (ResourceIs s) l = (au_ResourceID l = s)"
| "audit_holds (AuditBefore t i) l = (audit_key l < (t, i))"

text \<open>A value that is compared with a column of type uuid must be one; the others always pass.\<close>

fun user_cok :: "user_clause \<Rightarrow> bool" where
  "user_cok (IDIs i) = is_uuid i"
| "user_cok (UserBefore t i) = is_uuid i"
| "user_cok c = True"

fun audit_cok :: "audit_clause \<Rightarrow> bool" where
  "audit_cok (ActorIs i) = is_uuid i"
| "audit_cok (AuditBefore t i) = is_uuid i"
| "audit_cok c = True"

fun user_items :: "account_data \<Rightarrow> (UserResponse list \<times> string) option" where
  "user_items (DUsers l) = Some (ul_Items l, ul_NextCursor l)"
| "user_items _ = None"

fun audit_items :: "account_data \<Rightarrow> (AuditLogResponse list \<times> string) option" where
  "audit_items (DAudit l) = Some (all_Items l, all_NextCursor l)"
| "audit_items _ = None"

text \<open>The requests of a client: the page size, the cursor, and further parameters.\<close>

definition list_request :: "'d ctx \<Rightarrow> string \<Rightarrow> (string, string) gomap \<Rightarrow> string \<Rightarrow> 'd ctx" where
  "list_request c0 size1 fs cur = c0\<lparr>cx_Query := (''limit'', size1) # (''cursor'', cur) # fs, cx_Response := None\<rparr>"

lemma list_request_simps [simp]:
  "IsOperator (list_request c0 size1 fs cur) = IsOperator c0" "cx_Response (list_request c0 size1 fs cur) = None"
  "Query1 (list_request c0 size1 fs cur) ''limit'' = size1" "Query1 (list_request c0 size1 fs cur) ''cursor'' = cur"
  "k \<noteq> ''limit'' \<Longrightarrow> k \<noteq> ''cursor'' \<Longrightarrow> Query1 (list_request c0 size1 fs cur) k = mget fs k"
  by (simp_all add: list_request_def IsOperator_def GetUserID_def Query1_def mget_def split: option.split)

definition page_size :: "string \<Rightarrow> nat" where
  "page_size size1 = nat (min 100 (positiveInt size1 20))"

lemma page_size_pos: "0 < page_size size1"
  using positiveInt_pos [of 20 size1] by (simp add: page_size_def)

lemma page_size_int: "min 100 (positiveInt size1 20) = int (page_size size1)"
  using positiveInt_pos [of 20 size1] by (simp add: page_size_def)

lemma user_query: "FindListKeyset db n (map_option fst cur) (case cur of None \<Rightarrow> [] | Some k \<Rightarrow> snd k) =
    db_FindUsers db ([NotDeleted] @ before_of UserBefore cur) n" if "case cur of None \<Rightarrow> True | Some k \<Rightarrow> snd k \<noteq> []"
  using that by (auto simp: FindListKeyset_def before_of_def Let_def split: option.split prod.split)

lemma take_page:
  assumes "xs = take (Suc n) R" and "0 < n"
  shows "(if n < length xs then take n xs else xs) = take n R" and "n < length xs \<longleftrightarrow> n < length R"
    and "n < length R \<Longrightarrow> last (take n R) = R ! (n - 1)"
proof -
  show "(if n < length xs then take n xs else xs) = take n R" "n < length xs \<longleftrightarrow> n < length R"
    using assms by (auto simp: min_def)
  show "n < length R \<Longrightarrow> last (take n R) = R ! (n - 1)" using assms(2) by (subst last_conv_nth) (auto simp: min_def)
qed

lemma users_step:
  assumes K: "keyset (db_FindUsers db) users user_key user_holds user_cok UserBefore"
    and op: "IsOperator c0" and d: "distinct (map user_key (users v))"
    and h: "ListUsersHandler db (list_request c0 size1 fs (cursor_text cur)) v = (c', v')"
    and k: "case cur of None \<Rightarrow> True | Some k \<Rightarrow> key_ok k"
  shows "users v' = users v \<and> keyset.answers (db_FindUsers db) user_key user_cok NewUserResponse (page_size size1)
    (later user_key cur (keyset.listed users user_key user_holds [NotDeleted] v)) (page_of user_items c')"
proof -
  let ?c = "list_request c0 size1 fs (cursor_text cur)"
  let ?R = "later user_key cur (keyset.listed users user_key user_holds [NotDeleted] v)"
  let ?n = "page_size size1"
  obtain q where q: "GetCursorPaginationFromCtx ?c = Inr q" "cq_Limit q = int ?n"
    "cq_CreatedAt q = map_option fst cur" "cq_ID q = (case cur of None \<Rightarrow> [] | Some k \<Rightarrow> snd k)"
    "case cur of None \<Rightarrow> True | Some k \<Rightarrow> snd k \<noteq> []"
    using read_cursor [OF k, of ?c] by (cases cur) (auto simp: page_size_int)
  obtain r w' where f: "db_FindUsers db ([NotDeleted] @ before_of UserBefore cur) (int ?n + 1) v = (r, w')"
    by (cases "db_FindUsers db ([NotDeleted] @ before_of UserBefore cur) (int ?n + 1) v")
  have l: "FindListKeyset db (cq_Limit q + 1) (cq_CreatedAt q) (cq_ID q) v = (r, w')"
    unfolding q(2-4) user_query [OF q(5)] by (rule f)
  note pg = keyset.page [OF K f _ _ d k]
  show ?thesis
  proof (cases r)
    case (Inl e)
    then have "c' = SetErrorResponse ?c 500 ''failed to list users'' None" "v' = w'"
      using h op q(1) l by (simp_all add: ListUsersHandler_def ListUsers_def sbind_def)
    with pg Inl show ?thesis
      by (simp add: keyset.answers_def [OF K] SetErrorResponse_def JSON_def page_of_def)
  next
    case (Inr xs)
    have xs: "xs = take (Suc ?n) ?R" "users w' = users v" using pg Inr by (simp_all add: nat_add_distrib)
    note tp = take_page [OF xs(1) page_size_pos]
    have e: "(if ?n < length xs then EncodeCursor (us_CreatedAt (last (take ?n ?R))) (us_ID (last (take ?n ?R))) else []) =
        (if ?n < length ?R then cursor_text (Some (user_key (?R ! (?n - 1)))) else [])"
      using tp(2,3) by (auto simp: user_key_def)
    have ne: "?n < length xs \<Longrightarrow> take ?n ?R \<noteq> []" using page_size_pos [of size1] tp(2) by auto
    have "ListUsers db (cq_Limit q) (cq_CreatedAt q) (cq_ID q) v =
        (Inr \<lparr>ul_Items = map NewUserResponse (take ?n ?R), ul_NextCursor = (if ?n < length ?R then cursor_text (Some (user_key (?R ! (?n - 1)))) else [])\<rparr>, w')"
      unfolding e [symmetric] using l Inr tp(1) ne q(2) by (auto simp: ListUsers_def sbind_def Let_def split: if_splits)
    then have "page_of user_items c' = Inr (map NewUserResponse (take ?n ?R), if ?n < length ?R then cursor_text (Some (user_key (?R ! (?n - 1)))) else [])" "v' = w'"
      using h op q(1) by (auto simp: ListUsersHandler_def SetSuccessResponse_def JSON_def page_of_def)
    with xs(2) show ?thesis by (simp add: keyset.answers_def [OF K])
  qed
qed

definition audit_conds :: "(string, string) gomap \<Rightarrow> audit_clause list" where
  "audit_conds fs = audit_query \<lparr>pf_ActorID = mget fs ''actor_id'', pf_Action = mget fs ''action'',
     pf_ResourceType = mget fs ''resource_type'', pf_ResourceID = mget fs ''resource_id'', pf_Limit = 0, pf_ID = []\<rparr> None"

lemma audit_query_split:
  assumes "case cur of None \<Rightarrow> True | Some k \<Rightarrow> snd k \<noteq> []"
  shows "audit_query \<lparr>pf_ActorID = mget fs ''actor_id'', pf_Action = mget fs ''action'', pf_ResourceType = mget fs ''resource_type'',
     pf_ResourceID = mget fs ''resource_id'', pf_Limit = n, pf_ID = (case cur of None \<Rightarrow> [] | Some k \<Rightarrow> snd k)\<rparr> (map_option fst cur) =
     audit_conds fs @ before_of AuditBefore cur"
  using assms by (auto simp: audit_query_def audit_conds_def before_of_def split: option.split prod.split)

lemma audit_step:
  assumes K: "keyset (db_FindAudit db) trail audit_key audit_holds audit_cok AuditBefore"
    and op: "IsOperator c0" and d: "distinct (map audit_key (trail v))" and ca: "list_all audit_cok (audit_conds fs)"
    and h: "ListAuditHandler db (list_request c0 size1 fs (cursor_text cur)) v = (c', v')"
    and k: "case cur of None \<Rightarrow> True | Some k \<Rightarrow> key_ok k"
  shows "trail v' = trail v \<and> keyset.answers (db_FindAudit db) audit_key audit_cok NewAuditLogResponse (page_size size1)
    (later audit_key cur (keyset.listed trail audit_key audit_holds (audit_conds fs) v)) (page_of audit_items c')"
proof -
  let ?c = "list_request c0 size1 fs (cursor_text cur)"
  let ?R = "later audit_key cur (keyset.listed trail audit_key audit_holds (audit_conds fs) v)"
  let ?n = "page_size size1"
  obtain q where q: "GetCursorPaginationFromCtx ?c = Inr q" "cq_Limit q = int ?n"
    "cq_CreatedAt q = map_option fst cur" "cq_ID q = (case cur of None \<Rightarrow> [] | Some k \<Rightarrow> snd k)"
    "case cur of None \<Rightarrow> True | Some k \<Rightarrow> snd k \<noteq> []"
    using read_cursor [OF k, of ?c] by (cases cur) (auto simp: page_size_int)
  let ?p = "\<lparr>pf_ActorID = mget fs ''actor_id'', pf_Action = mget fs ''action'', pf_ResourceType = mget fs ''resource_type'',
     pf_ResourceID = mget fs ''resource_id'', pf_Limit = int ?n + 1, pf_ID = (case cur of None \<Rightarrow> [] | Some k \<Rightarrow> snd k)\<rparr>"
  obtain r w' where f: "db_FindAudit db (audit_conds fs @ before_of AuditBefore cur) (int ?n + 1) v = (r, w')"
    by (cases "db_FindAudit db (audit_conds fs @ before_of AuditBefore cur) (int ?n + 1) v")
  have l: "FindAuditKeyset db ?p (map_option fst cur) v = (r, w')"
    using f by (simp add: FindAuditKeyset_def audit_query_split [OF q(5)])
  have hq: "ListAuditHandler db ?c v = (case ListAudit db ?p (map_option fst cur) v of
      (Inl e, w') \<Rightarrow> (SetErrorResponse ?c 500 ''failed to list audit logs'' None, w')
    | (Inr data, w') \<Rightarrow> (SetSuccessResponse ?c 200 MessageOK (Some (DAudit data)), w'))"
    using op by (simp add: ListAuditHandler_def q)
  note pg = keyset.page [OF K f ca _ d k]
  show ?thesis
  proof (cases r)
    case (Inl e)
    then have "c' = SetErrorResponse ?c 500 ''failed to list audit logs'' None" "v' = w'"
      using h l by (simp_all add: hq ListAudit_def sbind_def)
    with pg Inl show ?thesis
      by (simp add: keyset.answers_def [OF K] SetErrorResponse_def JSON_def page_of_def)
  next
    case (Inr xs)
    have xs: "xs = take (Suc ?n) ?R" "trail w' = trail v" using pg Inr by (simp_all add: nat_add_distrib)
    note tp = take_page [OF xs(1) page_size_pos]
    have e: "(if ?n < length xs then EncodeCursor (ar_CreatedAt (last (take ?n ?R))) (ar_ID (last (take ?n ?R))) else []) =
        (if ?n < length ?R then cursor_text (Some (audit_key (?R ! (?n - 1)))) else [])"
      using tp(2,3) by (auto simp: audit_key_def)
    have ne: "?n < length xs \<Longrightarrow> take ?n ?R \<noteq> []" using page_size_pos [of size1] tp(2) by auto
    have "ListAudit db ?p (map_option fst cur) v =
        (Inr \<lparr>all_Items = map NewAuditLogResponse (take ?n ?R), all_NextCursor = (if ?n < length ?R then cursor_text (Some (audit_key (?R ! (?n - 1)))) else [])\<rparr>, w')"
      unfolding e [symmetric] using l Inr tp(1) ne by (auto simp: ListAudit_def sbind_def Let_def split: if_splits)
    then have "page_of audit_items c' = Inr (map NewAuditLogResponse (take ?n ?R), if ?n < length ?R then cursor_text (Some (audit_key (?R ! (?n - 1)))) else [])" "v' = w'"
      using h by (auto simp: hq SetSuccessResponse_def JSON_def page_of_def)
    with xs(2) show ?thesis by (simp add: keyset.answers_def [OF K])
  qed
qed

lemma listed_length:
  assumes "keyset fnd rows key holds cok before"
  shows "length (keyset.listed rows key holds conds w) \<le> length (rows w)"
  by (simp add: keyset.listed_def [OF assms] desc_def)

section \<open>Tables\<close>

text \<open>The two tables with their unique indexes, and a plan of which statements fail.\<close>

record acct =
  at_Users :: "User list"
  at_Audit :: "AuditRow list"
  at_Faults :: "bool list"
  at_Clock :: instant
  at_Fresh :: "uuid list"

definition astmt :: "(acct, 'a) stmt \<Rightarrow> (acct, 'a) stmt" where
  "astmt f w = (case at_Faults w of
     True # fs \<Rightarrow> (Inl (Fail ''connection lost''), w\<lparr>at_Faults := fs\<rparr>)
   | False # fs \<Rightarrow> f (w\<lparr>at_Faults := fs\<rparr>)
   | [] \<Rightarrow> f w)"

definition tab_find :: "(acct \<Rightarrow> 'r list) \<Rightarrow> ('r \<Rightarrow> instant \<times> uuid) \<Rightarrow> ('c \<Rightarrow> 'r \<Rightarrow> bool) \<Rightarrow> ('c \<Rightarrow> bool) \<Rightarrow> 'c list \<Rightarrow> int \<Rightarrow> (acct, 'r list) stmt" where
  "tab_find rows key holds cok cl n = astmt (\<lambda>w.
     if list_all cok cl then (Inr (take (nat n) (desc key (filter (\<lambda>x. list_all (\<lambda>c. holds c x) cl) (rows w)))), w)
     else (Inl (Fail ''invalid input syntax for type uuid''), w))"

definition tab_first :: "user_clause list \<Rightarrow> (acct, User) stmt" where
  "tab_first cl = astmt (\<lambda>w. (case find (\<lambda>u. list_all (\<lambda>c. user_holds c u) cl) (at_Users w) of None \<Rightarrow> Inl NoRecord | Some u \<Rightarrow> Inr u, w))"

definition fresh_uuid :: "(uuid \<Rightarrow> acct \<Rightarrow> acct \<Rightarrow> (db_error, 'a) result \<times> acct) \<Rightarrow> (acct, 'a) stmt" where
  "fresh_uuid f = astmt (\<lambda>w. (case at_Fresh w of [] \<Rightarrow> (Inl (Fail ''no id''), w) | i # ids \<Rightarrow> f i w (w\<lparr>at_Fresh := ids\<rparr>)))"

definition tab_create_user :: "User \<Rightarrow> (acct, User) stmt" where
  "tab_create_user u = fresh_uuid (\<lambda>i w0 w.
     if list_ex (\<lambda>x. us_DeletedAt x = None \<and> map lower_char (us_Email x) = map lower_char (us_Email u)) (at_Users w)
     then (Inl (Fail ''duplicate key''), w0)
     else let row = u\<lparr>us_ID := i, us_CreatedAt := at_Clock w, us_UpdatedAt := at_Clock w\<rparr>
       in (Inr row, w\<lparr>at_Users := at_Users w @ [row]\<rparr>))"

definition tab_create_audit :: "AuditEntry \<Rightarrow> (acct, unit) stmt" where
  "tab_create_audit l = fresh_uuid (\<lambda>i w0 w.
     (Inr (), w\<lparr>at_Audit := at_Audit w @ [AuditEntry.extend l \<lparr>ar_ID = i, ar_CreatedAt = at_Clock w\<rparr>]\<rparr>))"

definition acct_store :: "acct account_store" where
  "acct_store = \<lparr>db_FirstUser = tab_first, db_FindUsers = tab_find at_Users user_key user_holds user_cok,
     db_CreateUser = tab_create_user, db_FindAudit = tab_find at_Audit audit_key audit_holds audit_cok,
     db_CreateAudit = tab_create_audit\<rparr>"

lemma astmt_cases:
  assumes "astmt f w = (r, w')"
  obtains (fault) fs where "r = Inl (Fail ''connection lost'')" "w' = w\<lparr>at_Faults := fs\<rparr>"
    | (run) fs where "f (w\<lparr>at_Faults := fs\<rparr>) = (r, w')"
proof (cases "at_Faults w")
  case Nil
  then have "f w = (r, w')" using assms by (simp add: astmt_def)
  moreover have "w\<lparr>at_Faults := at_Faults w\<rparr> = w" by simp
  ultimately show thesis using run [of "at_Faults w"] by (simp only:)
next
  case (Cons b fs)
  with assms show thesis by (cases b) (auto simp: astmt_def intro: fault run)
qed

lemma desc_sorted: "sorted_wrt (\<lambda>a b. key b \<le> key a) (desc key rs)"
  using sorted_sort_key [of key rs] by (simp add: desc_def sorted_wrt_rev sorted_wrt_map)

lemma tab_find_law:
  assumes "tab_find rows key holds cok cl n w = (r, w')" and "list_all cok cl"
    and "\<And>w fs. rows (w\<lparr>at_Faults := fs\<rparr>) = rows w"
  shows "rows w' = rows w \<and> (case r of Inl _ \<Rightarrow> True
    | Inr xs \<Rightarrow> \<exists>ys. mset ys = mset (filter (\<lambda>x. list_all (\<lambda>c. holds c x) cl) (rows w)) \<and>
        sorted_wrt (\<lambda>a b. key b \<le> key a) ys \<and> xs = take (nat n) ys)"
  using assms(1) unfolding tab_find_def
proof (cases rule: astmt_cases)
  case (fault fs)
  then show ?thesis using assms(3) by simp
next
  case (run fs)
  let ?ys = "desc key (filter (\<lambda>x. list_all (\<lambda>c. holds c x) cl) (rows w))"
  have "r = Inr (take (nat n) ?ys)" "w' = w\<lparr>at_Faults := fs\<rparr>" using run assms(2,3) by simp_all
  moreover have "mset ?ys = mset (filter (\<lambda>x. list_all (\<lambda>c. holds c x) cl) (rows w))" by (simp add: desc_def)
  ultimately show ?thesis using desc_sorted assms(3) by fastforce
qed

interpretation users: keyset "tab_find at_Users user_key user_holds user_cok" at_Users user_key user_holds user_cok UserBefore
  by unfold_locales (erule tab_find_law, assumption, simp, simp_all)

interpretation trail: keyset "tab_find at_Audit audit_key audit_holds audit_cok" at_Audit audit_key audit_holds audit_cok AuditBefore
  by unfold_locales (erule tab_find_law, assumption, simp, simp_all)

section \<open>Complete lists\<close>


text \<open>
  Paging through the audit trail is complete in the same sense, for every combination of
  the filters (actor, action, resource type, resource id): the operator gets exactly the entries
  that match the filters, each once, newest first, or the status 500 because a statement failed.
  The actor, where one is given, is a UUID in its canonical form.
\<close>

theorem audit_pages_complete:
  assumes "keyset (db_FindAudit db) trail audit_key audit_holds audit_cok AuditBefore" and "IsOperator c0"
    and "distinct (map audit_key (trail w))" and "list_all (\<lambda>l. key_ok (audit_key l)) (trail w)"
    and "mget fs ''actor_id'' \<noteq> [] \<longrightarrow> is_uuid (mget fs ''actor_id'')"
  shows "\<exists>r w'. walk (ListAuditHandler db) (list_request c0 size1 fs) audit_items (Suc (length (trail w))) [] w = (Some r, w') \<and>
    (r = Inr (map NewAuditLogResponse (desc audit_key (filter (\<lambda>l.
         (mget fs ''actor_id'' \<noteq> [] \<longrightarrow> au_ActorID l = Some (mget fs ''actor_id'')) \<and>
         (mget fs ''action'' \<noteq> [] \<longrightarrow> au_Action l = mget fs ''action'') \<and>
         (mget fs ''resource_type'' \<noteq> [] \<longrightarrow> au_ResourceType l = mget fs ''resource_type'') \<and>
         (mget fs ''resource_id'' \<noteq> [] \<longrightarrow> au_ResourceID l = mget fs ''resource_id'')) (trail w)))) \<or>
     r = Inl 500 \<and> (\<exists>cl n v e v'. list_all audit_cok cl \<and> 0 \<le> n \<and> db_FindAudit db cl n v = (Inl e, v')))"
proof -
  let ?L = "keyset.listed trail audit_key audit_holds (audit_conds fs) w"
  have ca: "list_all audit_cok (audit_conds fs)" using assms(5) by (simp add: audit_conds_def audit_query_def)
  have "list_all (\<lambda>c. audit_holds c l) (audit_conds fs) \<longleftrightarrow>
         (mget fs ''actor_id'' \<noteq> [] \<longrightarrow> au_ActorID l = Some (mget fs ''actor_id'')) \<and>
         (mget fs ''action'' \<noteq> [] \<longrightarrow> au_Action l = mget fs ''action'') \<and>
         (mget fs ''resource_type'' \<noteq> [] \<longrightarrow> au_ResourceType l = mget fs ''resource_type'') \<and>
         (mget fs ''resource_id'' \<noteq> [] \<longrightarrow> au_ResourceID l = mget fs ''resource_id'')" for l
    by (simp add: audit_conds_def audit_query_def)
  then have l: "later audit_key None ?L = desc audit_key (filter (\<lambda>l.
         (mget fs ''actor_id'' \<noteq> [] \<longrightarrow> au_ActorID l = Some (mget fs ''actor_id'')) \<and>
         (mget fs ''action'' \<noteq> [] \<longrightarrow> au_Action l = mget fs ''action'') \<and>
         (mget fs ''resource_type'' \<noteq> [] \<longrightarrow> au_ResourceType l = mget fs ''resource_type'') \<and>
         (mget fs ''resource_id'' \<noteq> [] \<longrightarrow> au_ResourceID l = mget fs ''resource_id'')) (trail w))"
    by (simp only: keyset.listed_def [OF assms(1)] later_def option.case)
  have len: "length (later audit_key None ?L) < Suc (length (trail w))"
    using listed_length [OF assms(1)] by (simp add: later_def less_Suc_eq_le)
  have step: "trail v' = trail v \<and> keyset.answers (db_FindAudit db) audit_key audit_cok NewAuditLogResponse (page_size size1)
      (later audit_key cur (keyset.listed trail audit_key audit_holds (audit_conds fs) v)) (page_of audit_items c')"
    if "ListAuditHandler db (list_request c0 size1 fs (cursor_text cur)) v = (c', v')" "trail v = trail w"
      "case cur of None \<Rightarrow> True | Some k \<Rightarrow> key_ok k" for cur v c' v'
    using that assms(3) by (intro audit_step [OF assms(1,2) _ ca that(1,3)]) simp
  have "\<exists>r w'. walk (ListAuditHandler db) (list_request c0 size1 fs) audit_items (Suc (length (trail w))) (cursor_text None) w = (Some r, w') \<and>
    ((r = Inl 500 \<and> keyset.fails (db_FindAudit db) audit_cok) \<or> r = Inr (map NewAuditLogResponse (later audit_key None ?L)))"
  proof (rule keyset.walk_complete [OF assms(1) _ page_size_pos [of size1] assms(3,4) refl _ len])
    fix cur v c' v'
    assume "ListAuditHandler db (list_request c0 size1 fs (cursor_text cur)) v = (c', v')" "trail v = trail w"
      "case cur of None \<Rightarrow> True | Some k \<Rightarrow> key_ok k"
    then show "trail v' = trail v \<and> keyset.answers (db_FindAudit db) audit_key audit_cok NewAuditLogResponse (page_size size1)
      (later audit_key cur (keyset.listed trail audit_key audit_holds (audit_conds fs) v)) (page_of audit_items c')" by (rule step)
  qed simp
  then obtain r w' where r: "walk (ListAuditHandler db) (list_request c0 size1 fs) audit_items (Suc (length (trail w))) [] w = (Some r, w')"
    "r = Inl 500 \<and> keyset.fails (db_FindAudit db) audit_cok \<or> r = Inr (map NewAuditLogResponse (later audit_key None ?L))"
    unfolding cursor_text.simps(1) by blast
  show ?thesis
    by (rule exI [of _ r], rule exI [of _ w'], rule conjI [OF r(1)])
      (use r(2) [unfolded l keyset.fails_def [OF assms(1)]] in blast)
qed

section \<open>Who may list\<close>

text \<open>
  The user directory and the audit trail are closed to everybody but operators, though
  their routes are not mounted behind the operator middleware: whatever statements, limiter and
  recorder there are, a request without a valid access token of a configured operator gets an
  error without data, and the handler sends no statement (the state that handlers change stays
  as it was).
\<close>

theorem directory_closed:
  assumes "quiet_setup core su" and "\<not> operator_token su c" and "cx_Response c = None" and "cx_Allowlist c = None"
    and "h = GroupUser db GET_users \<or> h = GroupAuditLog db GET_audit"
    and "global_chain su (user_group su pfx h) c w = (c', w')"
  shows "core w' = core w \<and> (\<exists>r. cx_Response c' = Some r \<and> 400 \<le> rs_Status r \<and> rs_Data r = None)"
proof (rule global_chain_cases [OF assms(1,6,3,4)])
  fix d v d' v'
  assume a: "user_group su pfx h d v = (d', v')" "cx_Response d = None" "cx_Header d = cx_Header c"
    "cx_Allowlist d = (if 0 < length (su_operators su) then Some (su_operators su) else None)"
  show "core v' = core v \<and> (\<exists>r. cx_Response d' = Some r \<and> 400 \<le> rs_Status r \<and> rs_Data r = None)"
  proof (cases "ParseAccessToken (su_tokens su) (mget (cx_Header d) ''Authorization'')")
    case None
    with a(1,2) show ?thesis by (auto simp: user_group_def AuthMiddleware_def SetErrorResponse_def JSON_def)
  next
    case (Some claims)
    let ?d = "d\<lparr>cx_UserID := Some (cl_UserID claims)\<rparr>"
    obtain ok v1 where l: "su_allow su (pfx @ '':'' @ clientKey ?d) v = (ok, v1)"
      by (cases "su_allow su (pfx @ '':'' @ clientKey ?d) v")
    have q: "core v1 = core v" using assms(1) l by (auto simp: quiet_setup_def dest!: spec [of _ "pfx @ '':'' @ clientKey ?d"])
        (metis snd_conv)
    have "\<not> IsOperator ?d"
      using assms(2) a(3,4) Some by (auto simp: IsOperator_def GetUserID_def operator_token_def)
    with assms(5) have "h ?d v1 = (SetErrorResponse ?d 403 MessageForbidden None, v1)"
      by (auto simp: ListUsersHandler_def ListAuditHandler_def)
    with a(1,2) Some l q show ?thesis
      by (cases ok) (auto simp: user_group_def AuthMiddleware_def RateLimiterMiddlewareWithPrefix_def SetErrorResponse_def JSON_def)
  qed
qed

section \<open>An example\<close>

definition demo_user :: "nat \<Rightarrow> instant \<Rightarrow> bool \<Rightarrow> User" where
  "demo_user n t gone = \<lparr>us_ID = ''00000000-0000-4000-8000-00000000000'' @ dec n, us_Name = ''u'' @ dec n,
     us_Email = ''u'' @ dec n @ ''@example.com'', us_PasswordHash = ''h'', us_CreatedAt = t, us_UpdatedAt = t,
     us_DeletedAt = (if gone then Some t else None)\<rparr>"

definition demo_acct :: acct where
  "demo_acct = \<lparr>at_Users = [demo_user 1 1700000000000000000 False, demo_user 2 1700000000000000000 False,
       demo_user 3 1700000005500000000 False, demo_user 4 1700000009000000000 True],
     at_Audit = [AuditEntry.extend (audit_entry demo_ctx) \<lparr>ar_ID = ''00000000-0000-4000-8000-00000000000a'', ar_CreatedAt = 1700000000000000000\<rparr>],
     at_Faults = [], at_Clock = 1700000010000000000, at_Fresh = []\<rparr>"

definition demo_operator :: "account_data ctx" where
  "demo_operator = \<lparr>cx_Method = ''GET'', cx_Path = ''/api/v1/user'', cx_Route = ''/api/v1/user'', cx_RawQuery = [],
     cx_Query = [], cx_Param = [], cx_Header = [], cx_ClientIP = ''10.0.0.1'', cx_UserAgent = [],
     cx_BodyLimit = None, cx_RequestID = None, cx_UserID = Some ''op'', cx_Allowlist = Some [''op''], cx_OutHeader = [],
     cx_Response = None, cx_Panicked = False\<rparr>"

lemma demo_users_walk:
  "map_option (map_sum (\<lambda>e. e) (map ur_Name)) (fst (walk (ListUsersHandler acct_store) (list_request demo_operator ''2'' []) user_items 5 [] demo_acct)) =
     Some (Inr [''u3'', ''u2'', ''u1''])"
  by code_simp

lemma demo_keys: "distinct (map user_key (at_Users demo_acct))" "list_all (\<lambda>u. key_ok (user_key u)) (at_Users demo_acct)"
  "distinct (map audit_key (at_Audit demo_acct))" "list_all (\<lambda>l. key_ok (audit_key l)) (at_Audit demo_acct)"
  by code_simp+

lemma demo_newest: "desc user_key (filter (\<lambda>u. us_DeletedAt u = None) (at_Users demo_acct)) =
    [demo_user 3 1700000005500000000 False, demo_user 2 1700000000000000000 False, demo_user 1 1700000000000000000 False]"
  by code_simp

lemma acct_store_sel [simp]: "db_FindUsers acct_store = tab_find at_Users user_key user_holds user_cok"
  "db_FindAudit acct_store = tab_find at_Audit audit_key audit_holds audit_cok" "db_CreateAudit acct_store = tab_create_audit"
  by (simp_all add: acct_store_def)


lemma demo_audit_walk:
  "map_option (map_sum (\<lambda>e. e) (map al_Action)) (fst (walk (ListAuditHandler acct_store)
     (list_request demo_operator ''1'' [(''action'', ''read'')]) audit_items 2 [] demo_acct)) = Some (Inr [''read''])"
  by code_simp

theorem audit_pages_complete_witness:
  "\<exists>w'. walk (ListAuditHandler acct_store) (list_request demo_operator ''1'' [(''action'', ''read'')]) audit_items 2 [] demo_acct =
     (Some (Inr (map NewAuditLogResponse (at_Audit demo_acct))), w')"
proof -
  let ?fs = "[(''action'', ''read'')]"
  have K: "keyset (db_FindAudit acct_store) at_Audit audit_key audit_holds audit_cok AuditBefore"
    using trail.keyset_axioms by simp
  have op: "IsOperator demo_operator" by code_simp
  have len: "Suc (length (at_Audit demo_acct)) = 2" by (simp add: demo_acct_def)
  have a: "mget ?fs ''actor_id'' \<noteq> [] \<longrightarrow> is_uuid (mget ?fs ''actor_id'')" by (simp add: mget_def)
  have f: "desc audit_key (filter (\<lambda>l. (mget ?fs ''actor_id'' \<noteq> [] \<longrightarrow> au_ActorID l = Some (mget ?fs ''actor_id'')) \<and>
         (mget ?fs ''action'' \<noteq> [] \<longrightarrow> au_Action l = mget ?fs ''action'') \<and>
         (mget ?fs ''resource_type'' \<noteq> [] \<longrightarrow> au_ResourceType l = mget ?fs ''resource_type'') \<and>
         (mget ?fs ''resource_id'' \<noteq> [] \<longrightarrow> au_ResourceID l = mget ?fs ''resource_id'')) (at_Audit demo_acct)) = at_Audit demo_acct"
    by code_simp
  from audit_pages_complete [OF K op demo_keys(3,4) a, of "''1''"] obtain r w' where
    r: "walk (ListAuditHandler acct_store) (list_request demo_operator ''1'' ?fs) audit_items 2 [] demo_acct = (Some r, w')"
      "r = Inr (map NewAuditLogResponse (at_Audit demo_acct)) \<or> r = Inl 500"
    unfolding len f by blast
  have "r \<noteq> Inl 500" using demo_audit_walk unfolding r(1) by auto
  with r show ?thesis by blast
qed

definition demo_wiring :: "acct wiring" where
  "demo_wiring = \<lparr>su_fresh = ''r'', su_maxBody = 10, su_allow = (\<lambda>k w. (True, w)), su_recorder = Some (audit_recorder acct_store),
     su_operators = [''op''], su_tokens = \<lparr>ts_verify = (\<lambda>t. Some \<lparr>cl_UserID = ''u2'', cl_Subject = ''access''\<rparr>), ts_hmac = (\<lambda>t. True)\<rparr>\<rparr>"

lemma recorder_users: "at_Users (audit_recorder acct_store l w) = at_Users w"
proof -
  obtain r w' where "tab_create_audit l w = (r, w')" by (cases "tab_create_audit l w")
  moreover from this have "at_Users w' = at_Users w"
    unfolding tab_create_audit_def fresh_uuid_def by (elim astmt_cases) (auto split: list.splits)
  ultimately show ?thesis by (simp add: audit_recorder_def RecordAudit_def CreateAudit_def)
qed

theorem directory_closed_witness:
  "at_Users (snd (global_chain demo_wiring (user_group demo_wiring ''user'' (GroupUser acct_store GET_users))
     (demo_operator\<lparr>cx_Header := [(''Authorization'', ''Bearer t'')], cx_UserID := None, cx_Allowlist := None\<rparr>) demo_acct)) = at_Users demo_acct"
proof -
  let ?c = "demo_operator\<lparr>cx_Header := [(''Authorization'', ''Bearer t'')], cx_UserID := None, cx_Allowlist := None\<rparr>"
  let ?h = "GroupUser acct_store GET_users"
  obtain c' w' where h: "global_chain demo_wiring (user_group demo_wiring ''user'' ?h) ?c demo_acct = (c', w')"
    by (cases "global_chain demo_wiring (user_group demo_wiring ''user'' ?h) ?c demo_acct")
  have q: "quiet_setup at_Users demo_wiring" by (simp add: quiet_setup_def demo_wiring_def recorder_users)
  have t: "\<not> operator_token demo_wiring ?c"
    by (auto simp: operator_token_def demo_wiring_def ParseAccessToken_def parse_token_def split: option.split)
  have n: "cx_Response ?c = None" "cx_Allowlist ?c = None" by (simp_all add: demo_operator_def)
  have "?h = GroupUser acct_store GET_users \<or> ?h = GroupAuditLog acct_store GET_audit" by simp
  from directory_closed [OF q t n this h] h show ?thesis by simp
qed

end
