(* ===== verification/Storage.thy ===== *)
theory Storage
  imports Store AccountPages
begin

text \<open>
  Stored uploads (infrastructure/storage, modules/upload). The file system, the clock of the
  request context and the fresh names are parameters; the path functions of \<open>path/filepath\<close>
  are modelled for Unix. Of \<open>http.DetectContentType\<close> only the three types matter that the
  service lets through; their signatures exclude each other and all others.
\<close>

section \<open>Paths\<close>

fun cstep :: "bool \<Rightarrow> string list \<Rightarrow> string \<Rightarrow> string list" where
  "cstep rooted st c =
     (if c = [] \<or> c = ''.'' then st
      else if c = ''..'' then
        (case st of [] \<Rightarrow> if rooted then [] else [''..''] | t # ts \<Rightarrow> if t = ''..'' then ''..'' # st else ts)
      else c # st)"

definition clean_comps :: "bool \<Rightarrow> string list \<Rightarrow> string list" where
  "clean_comps rooted cs = rev (foldl (cstep rooted) [] cs)"

definition IsAbs :: "string \<Rightarrow> bool" where
  "IsAbs p \<longleftrightarrow> HasPrefix p ''/''"

definition Clean :: "string \<Rightarrow> string" where
  "Clean p = (let cs = clean_comps (IsAbs p) (Split CHR ''/'' p) in
     if IsAbs p then CHR ''/'' # Join cs ''/'' else if cs = [] then ''.'' else Join cs ''/'')"

definition Join2 :: "string \<Rightarrow> string \<Rightarrow> string" where
  "Join2 a b = (if a \<noteq> [] then Clean (a @ ''/'' @ b) else if b \<noteq> [] then Clean b else [])"

definition Base :: "string \<Rightarrow> string" where
  "Base p = (if p = [] then ''.'' else
     let q = rev (dropWhile (\<lambda>c. c = CHR ''/'') (rev p)) in
     if q = [] then ''/'' else last (Split CHR ''/'' q))"

section \<open>Storage\<close>

record 'w filesys =
  fs_Getwd :: "'w \<Rightarrow> (string, string) result"
  fs_MkdirAll :: "string \<Rightarrow> ('w, string, unit) sop"
  fs_CreateExcl :: "string \<Rightarrow> ('w, string, unit) sop"
  fs_Write :: "string \<Rightarrow> string \<Rightarrow> ('w, string, unit) sop"
  fs_NewID :: "'w \<Rightarrow> string \<times> 'w"
  fs_CtxErr :: "'w \<Rightarrow> string option"

definition Abs :: "'w filesys \<Rightarrow> string \<Rightarrow> 'w \<Rightarrow> (string, string) result" where
  "Abs fs p w = (if IsAbs p then Inr (Clean p) else rbind (fs_Getwd fs w) (\<lambda>wd. Inr (Join2 wd p)))"

definition safeDirectory :: "'w filesys \<Rightarrow> string \<Rightarrow> string \<Rightarrow> 'w \<Rightarrow> (string, string) result" where
  "safeDirectory fs sroot directory w =
     rbind (Abs fs sroot w) (\<lambda>root.
       let cleanDirectory = Clean directory in
       if cleanDirectory = ''.'' \<or> IsAbs cleanDirectory \<or> HasPrefix cleanDirectory ''../'' \<or> cleanDirectory = ''..''
       then Inl ''invalid storage directory''
       else rbind (Abs fs (Join2 root cleanDirectory) w) (\<lambda>cleanDir.
         if cleanDir \<noteq> root \<and> \<not> HasPrefix cleanDir (root @ ''/'') then Inl ''invalid storage directory''
         else Inr cleanDir))"

definition alnum_rune :: "nat \<Rightarrow> bool" where
  "alnum_rune r \<longleftrightarrow> (97 \<le> r \<and> r \<le> 122) \<or> (65 \<le> r \<and> r \<le> 90) \<or> (48 \<le> r \<and> r \<le> 57)"

definition safeExtension :: "string \<Rightarrow> bool" where
  "safeExtension extension \<longleftrightarrow>
     HasPrefix extension ''.'' \<and> CHR 0x2F \<notin> set extension \<and> CHR 0x5C \<notin> set extension \<and>
     list_all alnum_rune (runes (tl extension)) \<and> 1 < length extension"

definition SaveFile :: "'w filesys \<Rightarrow> string \<Rightarrow> string \<Rightarrow> string \<Rightarrow> string \<Rightarrow> ('w, string, string) sop" where
  "SaveFile fs sroot directory extension reader w0 =
     (let extension = (if extension = [] then ''.bin'' else extension) in
      if \<not> safeExtension extension then (Inl ''invalid storage extension'', w0)
      else case safeDirectory fs sroot directory w0 of
        Inl e \<Rightarrow> (Inl e, w0)
      | Inr dir \<Rightarrow>
          sbind (fs_MkdirAll fs dir) (\<lambda>_.
          sbind (\<lambda>w. case fs_NewID fs w of (i, w') \<Rightarrow> (Inr (Join2 dir (i @ extension)), w')) (\<lambda>path.
          sbind (fs_CreateExcl fs path) (\<lambda>_.
          sbind (fs_Write fs path reader) (\<lambda>_ w.
            (case fs_CtxErr fs w of None \<Rightarrow> Inr path | Some e \<Rightarrow> Inl e, w))))) w0)"

section \<open>Uploads\<close>

record UploadedFile =
  uf_ID :: uuid
  uf_OwnerID :: uuid
  uf_Original :: string
  uf_Path :: string
  uf_Size :: int
  uf_ContentType :: string
  uf_CreatedAt :: instant
  uf_UpdatedAt :: instant

record UploadedFileResponse =
  fr_ID :: uuid
  fr_Original :: string
  fr_Size :: int
  fr_ContentType :: string
  fr_CreatedAt :: instant

definition NewUploadedFileResponse :: "UploadedFile \<Rightarrow> UploadedFileResponse" where
  "NewUploadedFileResponse f = \<lparr>fr_ID = uf_ID f, fr_Original = uf_Original f, fr_Size = uf_Size f,
     fr_ContentType = uf_ContentType f, fr_CreatedAt = uf_CreatedAt f\<rparr>"

text \<open>A part of a multipart form: the file name and size of its header, and its bytes, if it opens.\<close>

record FileHeader =
  fh_Filename :: string
  fh_Size :: int
  fh_Open :: "(string, string) result"

record 'w upload_store =
  up_Create :: "UploadedFile \<Rightarrow> ('w, UploadedFile) stmt"
  up_First :: "string \<Rightarrow> ('w, UploadedFile) stmt"

definition CreateUpload :: "'w upload_store \<Rightarrow> UploadedFile \<Rightarrow> ('w, db_error, UploadedFile) sop" where
  "CreateUpload db f = up_Create db f"

definition FindUpload :: "'w upload_store \<Rightarrow> string \<Rightarrow> ('w, db_error, UploadedFile) sop" where
  "FindUpload db i = up_First db i"

definition JPEG_SIG :: string where "JPEG_SIG = [CHR 0xFF, CHR 0xD8, CHR 0xFF]"
definition PNG_SIG :: string where "PNG_SIG = CHR 0x89 # ''PNG'' @ [CHR 0x0D, CHR 0x0A, CHR 0x1A, CHR 0x0A]"

definition DetectContentType :: "string \<Rightarrow> string" where
  "DetectContentType data =
     (if HasPrefix data ''%PDF-'' then ''application/pdf''
      else if HasPrefix data JPEG_SIG then ''image/jpeg''
      else if HasPrefix data PNG_SIG then ''image/png''
      else ''application/octet-stream'')"

definition allowedContentType :: "string \<Rightarrow> bool" where
  "allowedContentType contentType \<longleftrightarrow>
     contentType = ''image/jpeg'' \<or> contentType = ''image/png'' \<or> contentType = ''application/pdf''"

definition extensionForContentType :: "string \<Rightarrow> string" where
  "extensionForContentType contentType =
     (if contentType = ''image/jpeg'' then ''.jpg'' else if contentType = ''image/png'' then ''.png''
      else if contentType = ''application/pdf'' then ''.pdf'' else ''.bin'')"

fun db_text :: "db_error \<Rightarrow> string" where
  "db_text NoRecord = ''record not found''"
| "db_text (Fail s) = s"

record 'w upload_service =
  ups_repository :: "'w upload_store"
  ups_files :: "'w filesys"
  ups_root :: string
  ups_maxBytes :: int

text \<open>The row as the service hands it to the repository.\<close>

definition upload_row :: "uuid \<Rightarrow> FileHeader \<Rightarrow> string \<Rightarrow> string \<Rightarrow> UploadedFile" where
  "upload_row ownerID header path contentType =
     \<lparr>uf_ID = [], uf_OwnerID = ownerID, uf_Original = Base (fh_Filename header), uf_Path = path, uf_Size = fh_Size header,
      uf_ContentType = contentType, uf_CreatedAt = zero_time, uf_UpdatedAt = zero_time\<rparr>"

definition Upload :: "'w upload_service \<Rightarrow> uuid \<Rightarrow> FileHeader option \<Rightarrow> ('w, string, UploadedFile) sop" where
  "Upload s ownerID header w =
     (case header of
        None \<Rightarrow> (Inl ''file is required'', w)
      | Some header \<Rightarrow>
          if 0 < ups_maxBytes s \<and> ups_maxBytes s < fh_Size header then (Inl ''file too large'', w)
          else case fh_Open header of
            Inl e \<Rightarrow> (Inl e, w)
          | Inr file \<Rightarrow>
              let contentType = DetectContentType (take 512 file) in
              if \<not> allowedContentType contentType then (Inl ''unsupported file type'', w)
              else case SaveFile (ups_files s) (ups_root s) ownerID (extensionForContentType contentType) file w of
                (Inl e, w') \<Rightarrow> (Inl e, w')
              | (Inr path, w') \<Rightarrow>
                  (case CreateUpload (ups_repository s) (upload_row ownerID header path contentType) w' of
                     (Inl e, w2) \<Rightarrow> (Inl (db_text e), w2) | (Inr f, w2) \<Rightarrow> (Inr f, w2)))"

definition GetUpload :: "'w upload_service \<Rightarrow> string \<Rightarrow> ('w, db_error, UploadedFile) sop" where
  "GetUpload s i = FindUpload (ups_repository s) i"

text \<open>\<open>form\<close> is what \<open>c.FormFile("file")\<close> gives.\<close>

definition UploadHandler :: "'w upload_service \<Rightarrow> (string, FileHeader) result \<Rightarrow> ('w, UploadedFileResponse) handler" where
  "UploadHandler s form c w =
     (case GetUserID c of
        None \<Rightarrow> (SetErrorResponse c 401 ''unauthorized'' None, w)
      | Some userID \<Rightarrow>
          (case form of
             Inl e \<Rightarrow> (SetErrorResponse c 400 ''file is required'' None, w)
           | Inr file \<Rightarrow>
               (case Upload s userID (Some file) w of
                  (Inl e, w') \<Rightarrow> (SetErrorResponse c 400 e None, w')
                | (Inr data, w') \<Rightarrow> (SetCreatedResponse c ''uploaded'' (Some (NewUploadedFileResponse data)), w'))))"

datatype upload_route = POST_upload "(string, FileHeader) result"

fun GroupUpload :: "'w upload_service \<Rightarrow> upload_route \<Rightarrow> ('w, UploadedFileResponse) handler" where
  "GroupUpload s (POST_upload form) = UploadHandler s form"

section \<open>Clean paths\<close>

definition good :: "string \<Rightarrow> bool" where
  "good c \<longleftrightarrow> c \<noteq> [] \<and> c \<noteq> ''.'' \<and> c \<noteq> ''..'' \<and> CHR ''/'' \<notin> set c"

text \<open>The absolute path with these components.\<close>

definition abs_path :: "string list \<Rightarrow> string" where
  "abs_path cs = CHR ''/'' # Join cs ''/''"

lemma Split_sep: "Split d (a @ d # b) = Split d a @ Split d b"
  by (induction a) (auto split: list.split simp: neq_Nil_conv)

lemma Split_Join: "cs \<noteq> [] \<Longrightarrow> list_all (\<lambda>c. d \<notin> set c) cs \<Longrightarrow> Split d (Join cs [d]) = cs"
proof (induction cs rule: induct_list012)
  case (3 a b cs)
  then show ?case by (simp add: Join_Cons del: Join.simps)
qed simp_all

lemma cstep_good: "list_all good cs \<Longrightarrow> foldl (cstep rooted) st cs = rev cs @ st"
  by (induction cs arbitrary: st) (simp_all add: good_def)

lemma rooted_comps:
  assumes "list_all good st" and "list_all (\<lambda>c. CHR ''/'' \<notin> set c) cs"
  shows "list_all good (foldl (cstep True) st cs)"
  using assms by (induction cs arbitrary: st) (auto simp: good_def split: list.splits)

lemma split_no_slash: "list_all (\<lambda>c. CHR ''/'' \<notin> set c) (Split CHR ''/'' p)"
  by (auto simp: list_all_iff dest: Split_parts)

lemma Clean_abs: "IsAbs p \<Longrightarrow> \<exists>cs. Clean p = abs_path cs \<and> list_all good cs"
  using rooted_comps [of "[]" "Split CHR ''/'' p"] split_no_slash [of p]
  by (auto simp: Clean_def Let_def abs_path_def clean_comps_def list_all_iff)

text \<open>The dots of a relative path lead.\<close>

lemma relative_comps:
  assumes "list_all (\<lambda>c. CHR ''/'' \<notin> set c) cs" and "list_all good gs"
  shows "\<exists>hs n. foldl (cstep False) (gs @ replicate k ''..'') cs = hs @ replicate n ''..'' \<and> list_all good hs"
  using assms
proof (induction cs arbitrary: gs k)
  case (Cons c cs)
  have s: "\<exists>gs' k'. cstep False (gs @ replicate k ''..'') c = gs' @ replicate k' ''..'' \<and> list_all good gs'"
  proof (cases "c = ''..''")
    case True
    show ?thesis
    proof (cases gs)
      case Nil
      have "cstep False (replicate k ''..'') c = replicate (Suc k) ''..''" using True by (cases k) simp_all
      with Nil show ?thesis by (intro exI [of _ "[]"] exI [of _ "Suc k"]) simp
    next
      case (Cons t ts)
      with True Cons.prems(2) have "cstep False (gs @ replicate k ''..'') c = ts @ replicate k ''..''" "list_all good ts"
        by (auto simp: good_def list_all_iff)
      then show ?thesis by blast
    qed
  next
    case False
    show ?thesis
    proof (cases "c = [] \<or> c = ''.''")
      case True
      then show ?thesis using Cons.prems(2) by (intro exI [of _ gs] exI [of _ k]) simp
    next
      case nd: False
      then have "good c" using False Cons.prems(1) by (simp add: good_def)
      then show ?thesis using nd False Cons.prems(2) by (intro exI [of _ "c # gs"] exI [of _ k]) simp
    qed
  qed
  then obtain gs' k' where "cstep False (gs @ replicate k ''..'') c = gs' @ replicate k' ''..''" "list_all good gs'" by blast
  with Cons.IH [of gs' k'] Cons.prems(1) show ?case by (simp del: cstep.simps)
qed auto

lemma cstep_skip: "list_all (\<lambda>c. c = [] \<or> good c) cs \<Longrightarrow> foldl (cstep rooted) st cs = rev (filter (\<lambda>c. c \<noteq> []) cs) @ st"
  by (induction cs arbitrary: st) (auto simp: good_def)

lemma Clean_comps:
  assumes "IsAbs p" and "list_all (\<lambda>c. c = [] \<or> good c) (Split CHR ''/'' p)"
  shows "Clean p = abs_path (filter (\<lambda>c. c \<noteq> []) (Split CHR ''/'' p))"
  using assms by (simp add: Clean_def clean_comps_def cstep_skip abs_path_def)

lemma split_abs_path: "list_all good cs \<Longrightarrow> Split CHR ''/'' (abs_path cs) = [] # (if cs = [] then [[]] else cs)"
  using Split_Join [of cs "CHR ''/''"] by (auto simp: abs_path_def list_all_iff good_def)

lemma good_nonempty [simp]: "list_all good cs \<Longrightarrow> filter (\<lambda>c. c \<noteq> []) cs = cs"
  by (auto simp: list_all_iff good_def intro!: filter_True)

lemma list_all_skip: "list_all good cs \<Longrightarrow> list_all (\<lambda>c. c = [] \<or> good c) cs"
  by (simp add: list_all_iff)

lemma IsAbs_abs_path [simp]: "IsAbs (abs_path cs)" "IsAbs (abs_path cs @ p)"
  by (simp_all add: IsAbs_def abs_path_def HasPrefix_iff)

lemma Clean_abs_path: "list_all good cs \<Longrightarrow> Clean (abs_path cs) = abs_path cs"
  by (subst Clean_comps) (auto simp: split_abs_path list_all_skip)

lemma Join_abs_path:
  assumes "list_all good cs" and "list_all good ds" and "ds \<noteq> []"
  shows "Join2 (abs_path cs) (Join ds ''/'') = abs_path (cs @ ds)"
proof -
  have sl: "Split CHR ''/'' (Join ds ''/'') = ds"
    using Split_Join [of ds "CHR ''/''"] assms(2,3) by (auto simp: list_all_iff good_def)
  have "Split CHR ''/'' (abs_path cs @ CHR ''/'' # Join ds ''/'') = [] # (if cs = [] then [[]] else cs) @ ds"
    using split_abs_path [OF assms(1)] sl by (simp add: Split_sep)
  then have f: "filter (\<lambda>c. c \<noteq> []) (Split CHR ''/'' (abs_path cs @ CHR ''/'' # Join ds ''/'')) = cs @ ds"
    and a: "list_all (\<lambda>c. c = [] \<or> good c) (Split CHR ''/'' (abs_path cs @ CHR ''/'' # Join ds ''/''))"
    using assms by (simp_all add: list_all_skip)
  have "abs_path cs \<noteq> []" by (simp add: abs_path_def)
  then have "Join2 (abs_path cs) (Join ds ''/'') = Clean (abs_path cs @ CHR ''/'' # Join ds ''/'')"
    by (simp add: Join2_def)
  also have "\<dots> = abs_path (cs @ ds)" unfolding f [symmetric] by (rule Clean_comps [OF IsAbs_abs_path(2) a])
  finally show ?thesis .
qed

section \<open>Where files go\<close>

lemma Abs_abs:
  assumes "Abs fs p w = Inr q" and "\<forall>wd. fs_Getwd fs w = Inr wd \<longrightarrow> IsAbs wd"
  shows "\<exists>cs. q = abs_path cs \<and> list_all good cs"
proof (cases "IsAbs p")
  case True
  with assms(1) Clean_abs [OF True] show ?thesis by (auto simp: Abs_def)
next
  case False
  with assms obtain wd where wd: "IsAbs wd" "q = Join2 wd p" by (auto simp: Abs_def rbind_Inr_iff)
  then have "IsAbs (wd @ ''/'' @ p)" "wd \<noteq> []" by (auto simp: IsAbs_def HasPrefix_iff)
  with wd(2) Clean_abs show ?thesis by (simp add: Join2_def)
qed

lemma Clean_relative:
  assumes "\<not> IsAbs (Clean d)" and "Clean d \<noteq> ''.''" and "\<not> HasPrefix (Clean d) ''../''" and "Clean d \<noteq> ''..''"
  shows "\<exists>ds. Clean d = Join ds ''/'' \<and> ds \<noteq> [] \<and> list_all good ds"
proof -
  have a: "\<not> IsAbs d" using assms(1) by (auto simp: Clean_def IsAbs_def Let_def HasPrefix_iff)
  obtain hs n where h: "foldl (cstep False) [] (Split CHR ''/'' d) = hs @ replicate n ''..''" "list_all good hs"
    using relative_comps [OF split_no_slash [of d], of "[]" 0] by auto
  have c: "clean_comps False (Split CHR ''/'' d) = replicate n ''..'' @ rev hs"
    by (simp add: clean_comps_def h(1))
  have cl: "Clean d = (if n = 0 \<and> hs = [] then ''.'' else Join (replicate n ''..'' @ rev hs) ''/'')"
    using a by (auto simp: Clean_def c Let_def)
  have "n = 0"
  proof (rule ccontr)
    assume "n \<noteq> 0"
    then obtain m where m: "n = Suc m" by (cases n) auto
    show False
    proof (cases "replicate m ''..'' @ rev hs = []")
      case True
      with cl m assms(4) show False by simp
    next
      case False
      with cl m have "Clean d = ''..'' @ ''/'' @ Join (replicate m ''..'' @ rev hs) ''/''" by (simp add: Join_Cons del: Join.simps)
      with assms(3) show False by (simp add: HasPrefix_iff)
    qed
  qed
  with cl assms(2) h(2) show ?thesis by (intro exI [of _ "rev hs"]) (auto split: if_splits)
qed

lemma safeDirectory_inside:
  assumes "safeDirectory fs sroot directory w = Inr dir" and "\<forall>wd. fs_Getwd fs w = Inr wd \<longrightarrow> IsAbs wd"
  shows "\<exists>rc ds. Abs fs sroot w = Inr (abs_path rc) \<and> list_all good (rc @ ds) \<and> ds \<noteq> [] \<and> dir = abs_path (rc @ ds) \<and> Clean directory = Join ds ''/''"
proof -
  obtain root where root: "Abs fs sroot w = Inr root" using assms(1) by (auto simp: safeDirectory_def rbind_Inr_iff)
  obtain rc where rc: "root = abs_path rc" "list_all good rc" using Abs_abs [OF root assms(2)] by blast
  have cd: "\<not> IsAbs (Clean directory)" "Clean directory \<noteq> ''.''" "\<not> HasPrefix (Clean directory) ''../''" "Clean directory \<noteq> ''..''"
    and ab: "Abs fs (Join2 root (Clean directory)) w = Inr dir"
    using assms(1) root by (auto simp: safeDirectory_def rbind_Inr_iff Let_def split: if_splits)
  obtain ds where ds: "Clean directory = Join ds ''/''" "ds \<noteq> []" "list_all good ds" using Clean_relative [OF cd] by blast
  have "Join2 root (Clean directory) = abs_path (rc @ ds)" unfolding rc(1) ds(1) by (rule Join_abs_path [OF rc(2) ds(3,2)])
  with ab rc ds have "dir = abs_path (rc @ ds)" by (simp add: Abs_def Clean_abs_path)
  with root rc ds show ?thesis by auto
qed

lemma uuid_no_slash:
  assumes "is_uuid i"
  shows "CHR ''/'' \<notin> set i"
proof
  assume "CHR ''/'' \<in> set i"
  then obtain k where k: "k < length i" "i ! k = CHR ''/''" by (auto simp: in_set_conv_nth)
  then have "(k, CHR ''/'') \<in> set (enumerate 0 i)" by (auto simp: in_set_enumerate_eq)
  with assms show False by (auto simp: is_uuid_def list_all_iff is_hex_def is_digit_def split: if_splits)
qed

lemma long_good: "36 \<le> length s \<Longrightarrow> good s \<longleftrightarrow> CHR ''/'' \<notin> set s"
  by (auto simp: good_def)

lemma uuid_good: "is_uuid u \<Longrightarrow> good u"
  using uuid_no_slash [of u] by (simp add: long_good is_uuid_def)

lemma safeExtension_good: "safeExtension e \<Longrightarrow> is_uuid i \<Longrightarrow> good (i @ e)"
  using uuid_no_slash [of i] by (subst long_good) (simp_all add: is_uuid_def safeExtension_def)

locale files =
  fixes fs :: "'w filesys" and disk :: "'w \<Rightarrow> string \<Rightarrow> string option"
  assumes Getwd: "\<And>w wd. fs_Getwd fs w = Inr wd \<Longrightarrow> IsAbs wd"
    and MkdirAll: "\<And>d w r w'. fs_MkdirAll fs d w = (r, w') \<Longrightarrow> disk w' = disk w"
    and CreateExcl: "\<And>p w r w'. fs_CreateExcl fs p w = (r, w') \<Longrightarrow>
      (case r of Inr _ \<Rightarrow> disk w p = None \<and> disk w' = (disk w)(p \<mapsto> []) | Inl _ \<Rightarrow> disk w' = disk w)"
    and Write: "\<And>p x w r w'. fs_Write fs p x w = (r, w') \<Longrightarrow>
      (\<exists>part. disk w' = (disk w)(p \<mapsto> part) \<and> (ok r \<longrightarrow> part = x))"
    and NewID: "\<And>w i w'. fs_NewID fs w = (i, w') \<Longrightarrow> is_uuid i \<and> disk w' = disk w"
begin

lemma SaveFile_disk:
  assumes "SaveFile fs sroot directory extension reader w = (r, w')"
  shows "(disk w' = disk w \<and> \<not> ok r) \<or>
    (\<exists>rc ds n e part. Abs fs sroot w = Inr (abs_path rc) \<and> list_all good (rc @ ds @ [n @ e]) \<and> ds \<noteq> [] \<and>
       Clean directory = Join ds ''/'' \<and> is_uuid n \<and> e = (if extension = [] then ''.bin'' else extension) \<and> safeExtension e \<and>
       disk w (abs_path (rc @ ds @ [n @ e])) = None \<and> disk w' = (disk w)(abs_path (rc @ ds @ [n @ e]) \<mapsto> part) \<and>
       (\<forall>p. r = Inr p \<longrightarrow> p = abs_path (rc @ ds @ [n @ e]) \<and> part = reader))"
proof -
  let ?e = "if extension = [] then ''.bin'' else extension"
  show ?thesis
  proof (cases "safeExtension ?e")
    case False
    with assms show ?thesis by (auto simp: SaveFile_def Let_def split: if_splits)
  next
    case ext: True
    show ?thesis
    proof (cases "safeDirectory fs sroot directory w")
      case (Inl e)
      with assms ext have "r = Inl e \<and> w' = w" by (simp add: SaveFile_def Let_def del: if_split)
      then show ?thesis by simp
    next
      case (Inr dir)
      obtain rc ds where d: "Abs fs sroot w = Inr (abs_path rc)" "list_all good (rc @ ds)" "ds \<noteq> []" "dir = abs_path (rc @ ds)"
        "Clean directory = Join ds ''/''"
        using safeDirectory_inside [OF Inr] Getwd by blast
      obtain r1 w1 where m: "fs_MkdirAll fs dir w = (r1, w1)" by (cases "fs_MkdirAll fs dir w")
      have d1: "disk w1 = disk w" by (rule MkdirAll [OF m])
      obtain n w2 where n: "fs_NewID fs w1 = (n, w2)" by (cases "fs_NewID fs w1")
      have d2: "is_uuid n" "disk w2 = disk w" using NewID [OF n] d1 by simp_all
      have g: "good (n @ ?e)" by (rule safeExtension_good [OF ext d2(1)])
      let ?p = "abs_path (rc @ ds @ [n @ ?e])"
      have p: "Join2 dir (n @ ?e) = ?p"
        unfolding d(4) using Join_abs_path [of "rc @ ds" "[n @ ?e]"] d(2) g by simp
      obtain r3 w3 where c: "fs_CreateExcl fs ?p w2 = (r3, w3)" by (cases "fs_CreateExcl fs ?p w2")
      obtain r4 w4 where wr: "fs_Write fs ?p reader w3 = (r4, w4)" by (cases "fs_Write fs ?p reader w3")
      have run: "(r, w') = (case r1 of Inl e \<Rightarrow> (Inl e, w1) | Inr _ \<Rightarrow> (case r3 of Inl e \<Rightarrow> (Inl e, w3) | Inr _ \<Rightarrow>
          (case r4 of Inl e \<Rightarrow> (Inl e, w4) | Inr _ \<Rightarrow> (case fs_CtxErr fs w4 of None \<Rightarrow> Inr ?p | Some e \<Rightarrow> Inl e, w4))))"
        using assms ext Inr m n p c wr by (auto simp: SaveFile_def Let_def sbind_def split: sum.splits)
      show ?thesis
      proof (cases "(\<exists>e. r1 = Inl e) \<or> (\<exists>e. r3 = Inl e)")
        case True
        with run d1 d2 CreateExcl [OF c] show ?thesis by (auto split: sum.splits)
      next
        case False
        then obtain u v where "r1 = Inr u" "r3 = Inr v" by (meson sum.exhaust_sel)
        moreover from this CreateExcl [OF c] d2 have d3: "disk w ?p = None" "disk w3 = (disk w)(?p \<mapsto> [])" by simp_all
        moreover obtain part where part: "disk w4 = (disk w3)(?p \<mapsto> part)" "ok r4 \<longrightarrow> part = reader" using Write [OF wr] by blast
        ultimately have "w' = w4" "\<forall>q. r = Inr q \<longrightarrow> q = ?p \<and> part = reader"
          using run by (auto simp: ok_def split: sum.splits option.splits)
        then show ?thesis using d g d2(1) ext d3 part(1)
          by (intro disjI2 exI [of _ rc] exI [of _ ds] exI [of _ n] exI [of _ ?e] exI [of _ part]) simp
      qed
    qed
  qed
qed

end

text \<open>
  C19: Stored files stay inside the storage directory. Whatever directory name, extension and
  content Save is called with, and whatever call to the file system fails: either the disk is
  as it was and an error is returned, or exactly one file is new, and no file that was there is
  touched. The new file lies at least one directory below the root of the storage, its path has
  no component that is empty, a dot or two dots, and its name is a fresh UUID with an extension
  of letters and digits. The path is returned only when the file holds the whole content. The
  only thing assumed of the file system is what its calls are documented to do.
\<close>

theorem storage_confined:
  assumes "files fs disk" and "SaveFile fs sroot directory extension reader w = (r, w')"
  shows "(disk w' = disk w \<and> \<not> ok r) \<or>
    (\<exists>rc ds n e part. Abs fs sroot w = Inr (abs_path rc) \<and> list_all good (rc @ ds @ [n @ e]) \<and> ds \<noteq> [] \<and>
       Clean directory = Join ds ''/'' \<and> is_uuid n \<and> e = (if extension = [] then ''.bin'' else extension) \<and> safeExtension e \<and>
       disk w (abs_path (rc @ ds @ [n @ e])) = None \<and> disk w' = (disk w)(abs_path (rc @ ds @ [n @ e]) \<mapsto> part) \<and>
       (\<forall>p. r = Inr p \<longrightarrow> p = abs_path (rc @ ds @ [n @ e]) \<and> part = reader))"
  by (rule files.SaveFile_disk [OF assms])

lemma Clean_good: "good u \<Longrightarrow> Clean u = u"
  by (auto simp: Clean_def IsAbs_def HasPrefix_iff good_def Let_def clean_comps_def)

lemma Upload_parts:
  assumes "Upload s u (Some h) w = (r, w')"
  shows "((\<exists>e. r = Inl e) \<and> w' = w) \<or>
    (\<exists>content r2 w2. fh_Open h = Inr content \<and> (0 < ups_maxBytes s \<longrightarrow> fh_Size h \<le> ups_maxBytes s) \<and>
       allowedContentType (DetectContentType (take 512 content)) \<and>
       SaveFile (ups_files s) (ups_root s) u (extensionForContentType (DetectContentType (take 512 content))) content w = (r2, w2) \<and>
       (case r2 of Inl e \<Rightarrow> r = Inl e \<and> w' = w2
        | Inr path \<Rightarrow> (\<exists>q. up_Create (ups_repository s) (upload_row u h path (DetectContentType (take 512 content))) w2 = (q, w') \<and>
            r = (case q of Inl e \<Rightarrow> Inl (db_text e) | Inr f \<Rightarrow> Inr f))))"
proof (cases "fh_Open h")
  case (Inl e)
  with assms show ?thesis by (auto simp: Upload_def split: if_splits)
next
  case (Inr content)
  let ?t = "DetectContentType (take 512 content)"
  obtain r2 w2 where sv: "SaveFile (ups_files s) (ups_root s) u (extensionForContentType ?t) content w = (r2, w2)"
    by (cases "SaveFile (ups_files s) (ups_root s) u (extensionForContentType ?t) content w")
  show ?thesis
  proof (cases "(0 < ups_maxBytes s \<and> ups_maxBytes s < fh_Size h) \<or> \<not> allowedContentType ?t")
    case True
    with assms Inr show ?thesis by (auto simp: Upload_def split: if_splits)
  next
    case False
    with assms Inr sv have "(r, w') = (case r2 of Inl e \<Rightarrow> (Inl e, w2) | Inr path \<Rightarrow>
        (case up_Create (ups_repository s) (upload_row u h path ?t) w2 of (Inl e, w2) \<Rightarrow> (Inl (db_text e), w2) | (Inr f, w2) \<Rightarrow> (Inr f, w2)))"
      by (cases r2) (auto simp: Upload_def CreateUpload_def Let_def split: sum.splits prod.splits)
    then have "case r2 of Inl e \<Rightarrow> r = Inl e \<and> w' = w2
        | Inr path \<Rightarrow> (\<exists>q. up_Create (ups_repository s) (upload_row u h path ?t) w2 = (q, w') \<and>
            r = (case q of Inl e \<Rightarrow> Inl (db_text e) | Inr f \<Rightarrow> Inr f))"
      by (auto split: sum.splits prod.splits)
    with Inr sv False show ?thesis by auto
  qed
qed

context files
begin

lemma SaveFile_user:
  assumes "SaveFile fs sroot u e content w = (r, w')" and "is_uuid u" and "e \<noteq> []"
  shows "(\<forall>p x. disk w p = Some x \<longrightarrow> disk w' p = Some x) \<and>
    (\<forall>path. r = Inr path \<longrightarrow> (\<exists>rc n. Abs fs sroot w = Inr (abs_path rc) \<and> is_uuid n \<and> path = abs_path (rc @ [u, n @ e]) \<and>
       disk w' = (disk w)(path \<mapsto> content)))"
  using SaveFile_disk [OF assms(1)]
proof
  assume "disk w' = disk w \<and> \<not> ok r"
  then show ?thesis by auto
next
  assume "\<exists>rc ds n e' part. Abs fs sroot w = Inr (abs_path rc) \<and> list_all good (rc @ ds @ [n @ e']) \<and> ds \<noteq> [] \<and>
       Clean u = Join ds ''/'' \<and> is_uuid n \<and> e' = (if e = [] then ''.bin'' else e) \<and> safeExtension e' \<and>
       disk w (abs_path (rc @ ds @ [n @ e'])) = None \<and> disk w' = (disk w)(abs_path (rc @ ds @ [n @ e']) \<mapsto> part) \<and>
       (\<forall>p. r = Inr p \<longrightarrow> p = abs_path (rc @ ds @ [n @ e']) \<and> part = content)"
  then obtain rc ds n part where d: "Abs fs sroot w = Inr (abs_path rc)" "list_all good (rc @ ds @ [n @ e])" "ds \<noteq> []"
    "Clean u = Join ds ''/''" "is_uuid n" "disk w (abs_path (rc @ ds @ [n @ e])) = None"
    "disk w' = (disk w)(abs_path (rc @ ds @ [n @ e]) \<mapsto> part)" "\<forall>p. r = Inr p \<longrightarrow> p = abs_path (rc @ ds @ [n @ e]) \<and> part = content"
    using assms(3) by auto
  have "Split CHR ''/'' u = ds"
    using d(2-4) Clean_good [OF uuid_good [OF assms(2)]] Split_Join [of ds "CHR ''/''"] by (auto simp: list_all_iff good_def)
  moreover have "Split CHR ''/'' u = [u]" using uuid_good [OF assms(2)] by (simp add: good_def)
  ultimately have "ds = [u]" by simp
  with d show ?thesis by auto
qed

end

text \<open>
  C35: An upload that is answered with 201 is stored: the file is one of the three allowed types
  by its first bytes and within the size limit; below the root, in the directory named by the
  user and under a fresh name with the extension of its type, lies exactly what was sent; and the
  row that was inserted holds that path, the owner, the type and the size. The answer is made of
  what the insertion gave back and leaves the path out. In all other cases the answer is the error 400.
  No upload changes a file that is already there.
\<close>

theorem upload_stored:
  assumes "files (ups_files s) disk" and "\<forall>f v. disk (snd (up_Create (ups_repository s) f v)) = disk v"
    and "UploadHandler s form c w = (c', w')" and "cx_Response c = None" and "GetUserID c = Some u" and "is_uuid u"
  shows "(\<forall>p x. disk w p = Some x \<longrightarrow> disk w' p = Some x) \<and>
    ((\<exists>e. c' = SetErrorResponse c 400 e None) \<or>
     (\<exists>header content rc n f w2. form = Inr header \<and> fh_Open header = Inr content \<and>
        c' = SetCreatedResponse c ''uploaded'' (Some (NewUploadedFileResponse f)) \<and>
        (0 < ups_maxBytes s \<longrightarrow> fh_Size header \<le> ups_maxBytes s) \<and> allowedContentType (DetectContentType (take 512 content)) \<and>
        Abs (ups_files s) (ups_root s) w = Inr (abs_path rc) \<and> is_uuid n \<and>
        (let t = DetectContentType (take 512 content); path = abs_path (rc @ [u, n @ extensionForContentType t]) in
           disk w' = (disk w)(path \<mapsto> content) \<and>
           up_Create (ups_repository s) (upload_row u header path t) w2 = (Inr f, w'))))"
proof (cases form)
  case (Inl e)
  with assms(3,5) show ?thesis by (auto simp: UploadHandler_def)
next
  case (Inr header)
  obtain r w1 where up: "Upload s u (Some header) w = (r, w1)" by (cases "Upload s u (Some header) w")
  have c': "w' = w1" "c' = (case r of Inl e \<Rightarrow> SetErrorResponse c 400 e None | Inr f \<Rightarrow> SetCreatedResponse c ''uploaded'' (Some (NewUploadedFileResponse f)))"
    using assms(3,5) Inr up by (auto simp: UploadHandler_def split: sum.splits)
  have ext: "extensionForContentType t \<noteq> []" for t by (simp add: extensionForContentType_def)
  have row: "disk v' = disk v" if "up_Create (ups_repository s) f v = (q, v')" for f v q v' using assms(2) that by (metis snd_conv)
  from Upload_parts [OF up] show ?thesis
  proof
    assume "(\<exists>e. r = Inl e) \<and> w1 = w"
    with c' show ?thesis by auto
  next
    assume "\<exists>content r2 w2. fh_Open header = Inr content \<and> (0 < ups_maxBytes s \<longrightarrow> fh_Size header \<le> ups_maxBytes s) \<and>
       allowedContentType (DetectContentType (take 512 content)) \<and>
       SaveFile (ups_files s) (ups_root s) u (extensionForContentType (DetectContentType (take 512 content))) content w = (r2, w2) \<and>
       (case r2 of Inl e \<Rightarrow> r = Inl e \<and> w1 = w2
        | Inr path \<Rightarrow> (\<exists>q. up_Create (ups_repository s) (upload_row u header path (DetectContentType (take 512 content))) w2 = (q, w1) \<and>
            r = (case q of Inl e \<Rightarrow> Inl (db_text e) | Inr f \<Rightarrow> Inr f)))"
    then obtain content r2 w2 where p: "fh_Open header = Inr content" "0 < ups_maxBytes s \<longrightarrow> fh_Size header \<le> ups_maxBytes s"
      "allowedContentType (DetectContentType (take 512 content))"
      "SaveFile (ups_files s) (ups_root s) u (extensionForContentType (DetectContentType (take 512 content))) content w = (r2, w2)"
      "case r2 of Inl e \<Rightarrow> r = Inl e \<and> w1 = w2
        | Inr path \<Rightarrow> (\<exists>q. up_Create (ups_repository s) (upload_row u header path (DetectContentType (take 512 content))) w2 = (q, w1) \<and>
            r = (case q of Inl e \<Rightarrow> Inl (db_text e) | Inr f \<Rightarrow> Inr f))" by auto
    note sv = files.SaveFile_user [OF assms(1) p(4) assms(6) ext]
    show ?thesis
    proof (cases r2)
      case (Inl e)
      with p(5) sv c' show ?thesis by auto
    next
      case (Inr path)
      with p(5) obtain q where q: "up_Create (ups_repository s) (upload_row u header path (DetectContentType (take 512 content))) w2 = (q, w1)"
        "r = (case q of Inl e \<Rightarrow> Inl (db_text e) | Inr f \<Rightarrow> Inr f)" by auto
      with row [OF q(1)] sv Inr p(1-3) c' \<open>form = Inr header\<close> show ?thesis by (cases q) (auto simp: Let_def)
    qed
  qed
qed

section \<open>A disk\<close>

record disk_world =
  dk_Files :: "(string, string) gomap"
  dk_Rows :: "UploadedFile list"
  dk_Faults :: "bool list"
  dk_Next :: nat

definition disk_op :: "(disk_world \<Rightarrow> (string, 'a) result \<times> disk_world) \<Rightarrow> (disk_world \<Rightarrow> (string, 'a) result \<times> disk_world) \<Rightarrow> (disk_world, string, 'a) sop" where
  "disk_op bad f w = (case dk_Faults w of [] \<Rightarrow> f w | b # fs \<Rightarrow> (if b then bad else f) (w\<lparr>dk_Faults := fs\<rparr>))"

definition mem_fs :: "disk_world filesys" where
  "mem_fs = \<lparr>fs_Getwd = (\<lambda>w. Inr ''/srv/app''),
     fs_MkdirAll = (\<lambda>d. disk_op (sfail ''permission denied'') (sret ())),
     fs_CreateExcl = (\<lambda>p. disk_op (sfail ''permission denied'')
       (\<lambda>w. if p \<in> set (map fst (dk_Files w)) then (Inl ''file exists'', w) else (Inr (), w\<lparr>dk_Files := mput (dk_Files w) p []\<rparr>))),
     fs_Write = (\<lambda>p x. disk_op (\<lambda>w. (Inl ''no space left on device'', w\<lparr>dk_Files := mput (dk_Files w) p (take 1 x)\<rparr>))
       (\<lambda>w. (Inr (), w\<lparr>dk_Files := mput (dk_Files w) p x\<rparr>))),
     fs_NewID = (\<lambda>w. (''00000000-0000-4000-8000-'' @ pad 12 (dec (dk_Next w mod 10 ^ 12)), w\<lparr>dk_Next := Suc (dk_Next w)\<rparr>)),
     fs_CtxErr = (\<lambda>w. None)\<rparr>"

lemma uuid_of_number: "n < 10 ^ 12 \<Longrightarrow> is_uuid (''00000000-0000-4000-8000-'' @ pad 12 (dec n))"
proof -
  assume n: "n < 10 ^ 12"
  have "length (pad 12 (dec n)) = 12" using length_dec_le [OF n] by simp
  moreover have "all_digits (pad 12 (dec n))" by simp
  then have "list_all is_hex (pad 12 (dec n))" by (simp add: all_digits_def list_all_iff is_hex_def)
  moreover have "length s = 12 \<Longrightarrow> list_all is_hex s \<Longrightarrow> is_uuid (''00000000-0000-4000-8000-'' @ s)" for s
    by (auto simp: is_uuid_def numeral_eq_Suc length_Suc_conv is_hex_def is_digit_def)
  ultimately show ?thesis by blast
qed

interpretation disk: files mem_fs "\<lambda>w. map_of (dk_Files w)"
proof (unfold_locales, goal_cases)
  case (1 w wd)
  then have "wd = ''/srv/app''" by (simp add: mem_fs_def)
  then show ?case by (simp add: IsAbs_def HasPrefix_iff)
next
  case (2 d w r w')
  then show ?case by (auto simp: mem_fs_def disk_op_def split: list.splits if_splits)
next
  case (3 p w r w')
  then show ?case by (auto simp: mem_fs_def disk_op_def map_of_eq_None_iff split: list.splits if_splits)
next
  case (4 p x w r w')
  then show ?case by (auto simp: mem_fs_def disk_op_def split: list.splits if_splits)
next
  case (5 w i w')
  then show ?case using uuid_of_number [of "dk_Next w mod 10 ^ 12"] by (auto simp: mem_fs_def)
qed

definition demo_disk :: disk_world where
  "demo_disk = \<lparr>dk_Files = [(''/srv/app/main'', ''x'')], dk_Rows = [], dk_Faults = [], dk_Next = 7\<rparr>"

definition demo_owner :: uuid where
  "demo_owner = ''11111111-1111-4111-8111-111111111111''"

lemma demo_save: "fst (SaveFile mem_fs ''storage'' demo_owner ''.png'' ''data'' demo_disk) =
    Inr (''/srv/app/storage/'' @ demo_owner @ ''/00000000-0000-4000-8000-000000000007.png'')"
  by code_simp

theorem storage_confined_witness:
  "map_of (dk_Files (snd (SaveFile mem_fs ''storage'' demo_owner ''.png'' ''data'' demo_disk)))
     (''/srv/app/storage/'' @ demo_owner @ ''/00000000-0000-4000-8000-000000000007.png'') = Some ''data''"
proof -
  obtain r w' where s: "SaveFile mem_fs ''storage'' demo_owner ''.png'' ''data'' demo_disk = (r, w')"
    by (cases "SaveFile mem_fs ''storage'' demo_owner ''.png'' ''data'' demo_disk")
  have "r = Inr (''/srv/app/storage/'' @ demo_owner @ ''/00000000-0000-4000-8000-000000000007.png'')" using demo_save s by simp
  with storage_confined [OF disk.files_axioms s] s show ?thesis by auto
qed

definition demo_uploads :: "disk_world upload_service" where
  "demo_uploads = \<lparr>ups_repository = \<lparr>up_Create = (\<lambda>f w. (Inr f, w\<lparr>dk_Rows := dk_Rows w @ [f]\<rparr>)),
       up_First = (\<lambda>i w. (case find (\<lambda>f. uf_ID f = i) (dk_Rows w) of None \<Rightarrow> Inl NoRecord | Some f \<Rightarrow> Inr f, w))\<rparr>,
     ups_files = mem_fs, ups_root = ''storage'', ups_maxBytes = 1024\<rparr>"

definition demo_upload_ctx :: "UploadedFileResponse ctx" where
  "demo_upload_ctx = \<lparr>cx_Method = ''POST'', cx_Path = ''/api/v1/uploads'', cx_Route = ''/api/v1/uploads'', cx_RawQuery = [],
     cx_Query = [], cx_Param = [], cx_Header = [], cx_ClientIP = ''10.0.0.1'', cx_UserAgent = [],
     cx_BodyLimit = None, cx_RequestID = None, cx_UserID = Some demo_owner, cx_Allowlist = None, cx_OutHeader = [],
     cx_Response = None, cx_Panicked = False\<rparr>"

definition demo_form :: "(string, FileHeader) result" where
  "demo_form = Inr \<lparr>fh_Filename = ''evidence.png'', fh_Size = 9, fh_Open = Inr (PNG_SIG @ ''!'')\<rparr>"

lemma demo_upload: "status_of (fst (UploadHandler demo_uploads demo_form demo_upload_ctx demo_disk)) = 201" "is_uuid demo_owner"
  by code_simp+

theorem upload_stored_witness:
  "\<exists>n. is_uuid n \<and> (\<exists>rc. map_of (dk_Files (snd (UploadHandler demo_uploads demo_form demo_upload_ctx demo_disk)))
     (abs_path (rc @ [demo_owner, n @ ''.png''])) = Some (PNG_SIG @ ''!''))"
proof -
  obtain c' w' where h: "UploadHandler demo_uploads demo_form demo_upload_ctx demo_disk = (c', w')"
    by (cases "UploadHandler demo_uploads demo_form demo_upload_ctx demo_disk")
  have f: "files (ups_files demo_uploads) (\<lambda>w. map_of (dk_Files w))" using disk.files_axioms by (simp add: demo_uploads_def)
  have k: "\<forall>f v. map_of (dk_Files (snd (up_Create (ups_repository demo_uploads) f v))) = map_of (dk_Files v)"
    by (simp add: demo_uploads_def)
  have n: "cx_Response demo_upload_ctx = None" "GetUserID demo_upload_ctx = Some demo_owner"
    by (simp_all add: demo_upload_ctx_def GetUserID_def)
  have st: "status_of c' = 201" using demo_upload(1) h by simp
  have e: "status_of (SetErrorResponse demo_upload_ctx 400 m None) = 400" for m
    using n(1) by (simp add: status_of_def SetErrorResponse_def JSON_def)
  have ext: "fh_Open header = Inr content \<Longrightarrow> demo_form = Inr header \<Longrightarrow> content = PNG_SIG @ ''!''" for header content
    by (auto simp: demo_form_def)
  have t: "extensionForContentType (DetectContentType (take 512 (PNG_SIG @ ''!''))) = ''.png''" by code_simp
  from upload_stored [OF f k h n demo_upload(2)] st e obtain header content rc i where
    u: "demo_form = Inr header" "fh_Open header = Inr content" "is_uuid i"
      "map_of (dk_Files w') = (map_of (dk_Files demo_disk))
        (abs_path (rc @ [demo_owner, i @ extensionForContentType (DetectContentType (take 512 content))]) \<mapsto> content)"
    by (auto simp: Let_def)
  have "map_of (dk_Files w') (abs_path (rc @ [demo_owner, i @ ''.png''])) = Some (PNG_SIG @ ''!'')"
    using u(4) unfolding ext [OF u(2,1)] t by simp
  with u(3) h show ?thesis by auto
qed

end
