(* ===== verification/Auth.thy ===== *)
theory Auth
  imports Accounts
begin

text \<open>
  Sign-in (modules/auth, utils/password.go and the issuing half of infrastructure/jwt): login,
  rotation of refresh tokens, logout. The statements on users and refresh tokens, bcrypt, the
  token library, SHA-256, the validator and the clock are parameters. A refresh token is stored
  as the hexadecimal SHA-256 of its text and is good for one refresh.

  Besides the service as the code has it, the theory cuts every call into the single statements
  it sends, so that calls which run at the same time can be interleaved.
\<close>

section \<open>Data\<close>

record RefreshToken =
  rt_ID :: uuid
  rt_UserID :: uuid
  rt_TokenHash :: string
  rt_ExpiresAt :: instant
  rt_RevokedAt :: "instant option"
  rt_CreatedAt :: instant
  rt_UpdatedAt :: instant

record TokenPair =
  tp_AccessToken :: string
  tp_RefreshToken :: string
  tp_ExpiresAt :: int

record LoginResponse =
  lr_AccessToken :: string
  lr_RefreshToken :: string
  lr_ExpiresAt :: int

record RegisterUserRequest =
  rq_Name :: string
  rq_Email :: string
  rq_Password :: string

record LoginRequest =
  lq_Email :: string
  lq_Password :: string

record RefreshTokenRequest =
  fq_RefreshToken :: string

record LogoutRequest =
  oq_RefreshToken :: string
  oq_RevokeAll :: bool

section \<open>Issuing tokens\<close>

text \<open>The claims that are signed, in the order of the code.\<close>

record SignedClaims =
  sc_UserID :: uuid
  sc_Subject :: string
  sc_ExpiresAt :: instant
  sc_IssuedAt :: instant
  sc_ID :: uuid

record 'w jwt_service =
  jw_accessTTL :: duration
  jw_refreshTTL :: duration
  jw_Now :: "'w \<Rightarrow> instant"
  jw_NewID :: "'w \<Rightarrow> uuid \<times> 'w"
  jw_Signed :: "SignedClaims \<Rightarrow> (string, string) result"

text \<open>\<open>jwt.NewNumericDate\<close> cuts a time to whole seconds.\<close>

definition NumericDate :: "instant \<Rightarrow> instant" where
  "NumericDate t = t div Second * Second"

definition sign :: "'w jwt_service \<Rightarrow> uuid \<Rightarrow> instant \<Rightarrow> string \<Rightarrow> ('w, db_error, string) sop" where
  "sign js userID expiresAt subject w =
     (case jw_NewID js w of (fresh, w') \<Rightarrow>
        (case jw_Signed js \<lparr>sc_UserID = userID, sc_Subject = subject, sc_ExpiresAt = NumericDate expiresAt,
            sc_IssuedAt = NumericDate (jw_Now js w'), sc_ID = fresh\<rparr> of
           Inl e \<Rightarrow> (Inl (Fail e), w') | Inr s \<Rightarrow> (Inr s, w')))"

definition GeneratePair :: "'w jwt_service \<Rightarrow> uuid \<Rightarrow> ('w, db_error, TokenPair) sop" where
  "GeneratePair js userID w0 =
     (let accessExpires = jw_Now js w0 + jw_accessTTL js in
      sbind (sign js userID accessExpires ''access'') (\<lambda>access.
      sbind (\<lambda>w. sign js userID (jw_Now js w + jw_refreshTTL js) ''refresh'' w) (\<lambda>refresh.
      sret \<lparr>tp_AccessToken = access, tp_RefreshToken = refresh, tp_ExpiresAt = accessExpires div Second\<rparr>)) w0)"

definition RefreshTTL :: "'w jwt_service \<Rightarrow> duration" where
  "RefreshTTL js = jw_refreshTTL js"

section \<open>The repository\<close>

record 'w auth_store =
  as_FirstUser :: "string \<Rightarrow> ('w, User) stmt"
  as_CreateToken :: "RefreshToken \<Rightarrow> ('w, unit) stmt"
  as_FirstToken :: "string \<Rightarrow> ('w, RefreshToken) stmt"
  as_RevokeToken :: "string \<Rightarrow> ('w, int) stmt"
  as_RevokeUser :: "uuid \<Rightarrow> ('w, unit) stmt"

definition ErrInvalidCredential :: db_error where
  "ErrInvalidCredential = Fail ''invalid credentials''"

definition FindUserByEmail :: "'w auth_store \<Rightarrow> string \<Rightarrow> ('w, db_error, User) sop" where
  "FindUserByEmail st email w =
     (case as_FirstUser st email w of
        (Inl NoRecord, w') \<Rightarrow> (Inl ErrInvalidCredential, w') | (Inl e, w') \<Rightarrow> (Inl e, w') | (Inr u, w') \<Rightarrow> (Inr u, w'))"

definition SaveRefreshToken :: "'w auth_store \<Rightarrow> RefreshToken \<Rightarrow> ('w, db_error, unit) sop" where
  "SaveRefreshToken st token = as_CreateToken st token"

definition FindRefreshToken :: "'w auth_store \<Rightarrow> string \<Rightarrow> ('w, db_error, RefreshToken) sop" where
  "FindRefreshToken st tokenHash = as_FirstToken st tokenHash"

definition RevokeRefreshToken :: "'w auth_store \<Rightarrow> string \<Rightarrow> ('w, db_error, bool) sop" where
  "RevokeRefreshToken st tokenHash = sbind (as_RevokeToken st tokenHash) (\<lambda>rowsAffected. sret (rowsAffected = 1))"

definition RevokeRefreshTokensByUserID :: "'w auth_store \<Rightarrow> uuid \<Rightarrow> ('w, db_error, unit) sop" where
  "RevokeRefreshTokensByUserID st userID = as_RevokeUser st userID"

section \<open>The service\<close>

record 'w auth_service =
  sv_repository :: "'w auth_store"
  sv_users :: "'w account_store"
  sv_bcrypt :: "'w bcrypt"
  sv_token :: "'w jwt_service"
  sv_parse :: token_service
  sv_sha256 :: "string \<Rightarrow> string"

definition hex_digit :: "nat \<Rightarrow> char" where
  "hex_digit n = (if n < 10 then digit n else char_of (87 + n))"

definition EncodeToString :: "string \<Rightarrow> string" where
  "EncodeToString s = concat (map (\<lambda>c. [hex_digit (ord c div 16), hex_digit (ord c mod 16)]) s)"

definition hashToken :: "'w auth_service \<Rightarrow> string \<Rightarrow> string" where
  "hashToken s token = EncodeToString (sv_sha256 s token)"

definition NewLoginResponse :: "string \<Rightarrow> string \<Rightarrow> int \<Rightarrow> LoginResponse" where
  "NewLoginResponse accessToken refreshToken expiresAt =
     \<lparr>lr_AccessToken = accessToken, lr_RefreshToken = refreshToken, lr_ExpiresAt = expiresAt\<rparr>"

definition Register :: "'w auth_service \<Rightarrow> RegisterUserInput \<Rightarrow> ('w, db_error, User) sop" where
  "Register s inp = RegisterUser (sv_users s) (sv_bcrypt s) inp"

text \<open>The last part of login and refresh: a new pair, whose refresh token is stored.\<close>

definition token_row :: "'w auth_service \<Rightarrow> uuid \<Rightarrow> TokenPair \<Rightarrow> 'w \<Rightarrow> RefreshToken" where
  "token_row s userID tokens w = \<lparr>rt_ID = [], rt_UserID = userID, rt_TokenHash = hashToken s (tp_RefreshToken tokens),
     rt_ExpiresAt = jw_Now (sv_token s) w + RefreshTTL (sv_token s), rt_RevokedAt = None, rt_CreatedAt = zero_time, rt_UpdatedAt = zero_time\<rparr>"

definition save_pair :: "'w auth_service \<Rightarrow> uuid \<Rightarrow> TokenPair \<Rightarrow> ('w, db_error, LoginResponse) sop" where
  "save_pair s userID tokens =
     sbind (\<lambda>w. SaveRefreshToken (sv_repository s) (token_row s userID tokens w) w) (\<lambda>_.
     sret (NewLoginResponse (tp_AccessToken tokens) (tp_RefreshToken tokens) (tp_ExpiresAt tokens)))"

definition issue :: "'w auth_service \<Rightarrow> uuid \<Rightarrow> ('w, db_error, LoginResponse) sop" where
  "issue s userID = sbind (GeneratePair (sv_token s) userID) (save_pair s userID)"

definition Login :: "'w auth_service \<Rightarrow> LoginRequest \<Rightarrow> ('w, db_error, LoginResponse) sop" where
  "Login s request =
     sbind (FindUserByEmail (sv_repository s) (lq_Email request)) (\<lambda>data.
       if \<not> CheckPassword (sv_bcrypt s) (us_PasswordHash data) (lq_Password request) then sfail ErrInvalidCredential
       else issue s (us_ID data))"

definition invalid_token :: db_error where "invalid_token = Fail ''invalid token''"

definition Refresh :: "'w auth_service \<Rightarrow> RefreshTokenRequest \<Rightarrow> ('w, db_error, LoginResponse) sop" where
  "Refresh s request =
     (case ParseRefreshToken (sv_parse s) (fq_RefreshToken request) of
        None \<Rightarrow> sfail invalid_token
      | Some claims \<Rightarrow>
          let tokenHash = hashToken s (fq_RefreshToken request) in
          sbind (FindRefreshToken (sv_repository s) tokenHash) (\<lambda>_.
          sbind (RevokeRefreshToken (sv_repository s) tokenHash) (\<lambda>revoked.
            if \<not> revoked then sfail ErrInvalidCredential
            else issue s (cl_UserID claims))))"

definition Logout :: "'w auth_service \<Rightarrow> LogoutRequest \<Rightarrow> ('w, db_error, unit) sop" where
  "Logout s request =
     (case ParseRefreshToken (sv_parse s) (oq_RefreshToken request) of
        None \<Rightarrow> sfail invalid_token
      | Some claims \<Rightarrow>
          if oq_RevokeAll request then RevokeRefreshTokensByUserID (sv_repository s) (cl_UserID claims)
          else sbind (RevokeRefreshToken (sv_repository s) (hashToken s (oq_RefreshToken request))) (\<lambda>_. sret ()))"

section \<open>Handlers\<close>

datatype auth_data = DAccount UserResponse | DLogin LoginResponse

text \<open>The body is \<open>None\<close> when it does not decode; a validator gives the text of its error.\<close>

record validators =
  va_Register :: "RegisterUserRequest \<Rightarrow> string option"
  va_Login :: "LoginRequest \<Rightarrow> string option"
  va_Refresh :: "RefreshTokenRequest \<Rightarrow> string option"
  va_Logout :: "LogoutRequest \<Rightarrow> string option"

definition RegisterHandler :: "'w auth_service \<Rightarrow> validators \<Rightarrow> RegisterUserRequest option \<Rightarrow> ('w, auth_data) handler" where
  "RegisterHandler s va js c w =
     (case js of None \<Rightarrow> (SetErrorResponse c 400 MessageInvalidBody None, w)
      | Some req \<Rightarrow>
        (case va_Register va req of Some e \<Rightarrow> (SetErrorResponse c 400 MessageValidationFailed (Some e), w)
         | None \<Rightarrow>
           (case Register s \<lparr>ri_Name = rq_Name req, ri_Email = rq_Email req, ri_Password = rq_Password req\<rparr> w of
              (Inl e, w') \<Rightarrow> (SetErrorResponse c 409 ''register failed'' None, w')
            | (Inr data, w') \<Rightarrow> (SetCreatedResponse c MessageRegistered (Some (DAccount (NewUserResponse data))), w'))))"

definition LoginHandler :: "'w auth_service \<Rightarrow> validators \<Rightarrow> LoginRequest option \<Rightarrow> ('w, auth_data) handler" where
  "LoginHandler s va js c w =
     (case js of None \<Rightarrow> (SetErrorResponse c 400 MessageInvalidBody None, w)
      | Some req \<Rightarrow>
        (case va_Login va req of Some e \<Rightarrow> (SetErrorResponse c 400 MessageValidationFailed (Some e), w)
         | None \<Rightarrow>
           (case Login s req w of
              (Inl e, w') \<Rightarrow> (SetErrorResponse c 401 MessageInvalidCredential None, w')
            | (Inr data, w') \<Rightarrow> (SetSuccessResponse c 200 MessageLoginSuccess (Some (DLogin data)), w'))))"

definition RefreshHandler :: "'w auth_service \<Rightarrow> validators \<Rightarrow> RefreshTokenRequest option \<Rightarrow> ('w, auth_data) handler" where
  "RefreshHandler s va js c w =
     (case js of None \<Rightarrow> (SetErrorResponse c 400 MessageInvalidBody None, w)
      | Some req \<Rightarrow>
        (case va_Refresh va req of Some e \<Rightarrow> (SetErrorResponse c 400 MessageValidationFailed (Some e), w)
         | None \<Rightarrow>
           (case Refresh s req w of
              (Inl e, w') \<Rightarrow> (SetErrorResponse c 401 MessageUnauthorized None, w')
            | (Inr data, w') \<Rightarrow> (SetSuccessResponse c 200 MessageRefreshSuccess (Some (DLogin data)), w'))))"

definition LogoutHandler :: "'w auth_service \<Rightarrow> validators \<Rightarrow> LogoutRequest option \<Rightarrow> ('w, auth_data) handler" where
  "LogoutHandler s va js c w =
     (case js of None \<Rightarrow> (SetErrorResponse c 400 MessageInvalidBody None, w)
      | Some req \<Rightarrow>
        (case va_Logout va req of Some e \<Rightarrow> (SetErrorResponse c 400 MessageValidationFailed (Some e), w)
         | None \<Rightarrow>
           (case Logout s req w of
              (Inl e, w') \<Rightarrow> (SetErrorResponse c 401 MessageUnauthorized None, w')
            | (Inr _, w') \<Rightarrow> (SetSuccessResponse c 200 MessageLogoutSuccess None, w'))))"

datatype auth_route = POST_register "RegisterUserRequest option" | POST_login "LoginRequest option"
  | POST_refresh "RefreshTokenRequest option" | POST_logout "LogoutRequest option"

fun GroupAuth :: "'w auth_service \<Rightarrow> validators \<Rightarrow> auth_route \<Rightarrow> ('w, auth_data) handler" where
  "GroupAuth s va (POST_register js) = RegisterHandler s va js"
| "GroupAuth s va (POST_login js) = LoginHandler s va js"
| "GroupAuth s va (POST_refresh js) = RefreshHandler s va js"
| "GroupAuth s va (POST_logout js) = LogoutHandler s va js"

end
