(* ===== verification/TicketRepo.thy ===== *)
theory TicketRepo
  imports Store
begin

text \<open>
  The ticket repository (modules/ticket/repository.go) over a store of statements, and the
  interface it provides to the service: \<open>repo\<close> is the Go interface \<open>RepositoryInterface\<close>, the
  locale \<open>ticket_repo\<close> is its contract in terms of the stored records, the outgoing ledger
  and the sequence counter, and \<open>gorm_repo\<close> provides it over every lawful store.
\<close>

definition wrap :: "db_error \<Rightarrow> ticket_error" where
  "wrap e = (case e of NoRecord \<Rightarrow> DbError ''record not found'' | Fail s \<Rightarrow> DbError s)"

definition db :: "('w, 'a) stmt \<Rightarrow> ('w, ticket_error, 'a) sop" where
  "db m w = (case m w of (Inl e, w') \<Rightarrow> (Inl (wrap e), w') | (Inr x, w') \<Rightarrow> (Inr x, w'))"

text \<open>\<open>db.Transaction(f)\<close>: commit when \<open>f\<close> returns nil, roll back when it returns an error.\<close>

definition Transaction :: "'w store \<Rightarrow> ('w, ticket_error, 'a) sop \<Rightarrow> ('w, ticket_error, 'a) sop" where
  "Transaction st f w =
     (case db (st_Begin st) w of
        (Inl e, w1) \<Rightarrow> (Inl e, w1)
      | (Inr _, w1) \<Rightarrow>
          (case f w1 of
             (Inl e, w2) \<Rightarrow> (Inl e, snd (st_Rollback st w2))
           | (Inr x, w2) \<Rightarrow>
               (case db (st_Commit st) w2 of
                  (Inl e, w3) \<Rightarrow> (Inl e, w3)
                | (Inr _, w3) \<Rightarrow> (Inr x, w3))))"

section \<open>The operations\<close>

definition bump_counter :: "'w store \<Rightarrow> instant \<Rightarrow> TicketCounter \<Rightarrow> ('w, ticket_error, int) sop" where
  "bump_counter st now counter =
     (let c = counter\<lparr>tc_Seq := tc_Seq counter + 1, tc_UpdatedAt := now\<rparr> in
      sbind (db (st_SaveCounter st c)) (\<lambda>_. sret (tc_Seq c)))"

definition NextSeq :: "'w store \<Rightarrow> instant \<Rightarrow> ('w, ticket_error, int) sop" where
  "NextSeq st now = Transaction st (\<lambda>w.
     case st_FirstCounter st w of
       (Inr counter, w1) \<Rightarrow> bump_counter st now counter w1
     | (Inl NoRecord, w1) \<Rightarrow>
         (let counter = \<lparr>tc_ID = 1, tc_Seq = 0, tc_UpdatedAt = now\<rparr> in
          sbind (db (st_CreateCounter st counter)) (\<lambda>_. bump_counter st now counter) w1)
     | (Inl e, w1) \<Rightarrow> (Inl (wrap e), w1))"

definition with_key :: "Ticket \<Rightarrow> Ticket \<Rightarrow> Ticket" where
  "with_key row existing = row\<lparr>tk_ID := tk_ID existing, tk_Seq := tk_Seq existing, tk_CreatedAt := tk_CreatedAt existing\<rparr>"

definition Save :: "'w store \<Rightarrow> Record \<Rightarrow> ('w, ticket_error, unit) sop" where
  "Save st rec w =
     (let row = toModel rec in
      case st_First st (\<lambda>t. tk_PublicID t = r_ID rec) w of
        (Inl NoRecord, w1) \<Rightarrow> db (st_Create st row) w1
      | (Inl e, w1) \<Rightarrow> (Inl (wrap e), w1)
      | (Inr existing, w1) \<Rightarrow> db (st_Save st (with_key row existing)) w1)"

definition find_by :: "'w store \<Rightarrow> (Ticket \<Rightarrow> bool) \<Rightarrow> ('w, ticket_error, Record) sop" where
  "find_by st P w =
     (case st_First st P w of
        (Inl NoRecord, w1) \<Rightarrow> (Inl ErrNotFound, w1)
      | (Inl e, w1) \<Rightarrow> (Inl (wrap e), w1)
      | (Inr row, w1) \<Rightarrow> (Inr (fromModel row), w1))"

definition FindByPublicID :: "'w store \<Rightarrow> string \<Rightarrow> ('w, ticket_error, Record) sop" where
  "FindByPublicID st publicID = find_by st (\<lambda>t. tk_PublicID t = publicID)"

definition FindByThreadID :: "'w store \<Rightarrow> string \<Rightarrow> ('w, ticket_error, Record) sop" where
  "FindByThreadID st threadID = find_by st (\<lambda>t. tk_ThreadID t = threadID)"

definition ListOpen :: "'w store \<Rightarrow> ('w, ticket_error, Record list) sop" where
  "ListOpen st = sbind (db (st_Find st (\<lambda>t. tk_Status t \<noteq> ''closed'') tk_OpenedAt))
     (\<lambda>rows. sret (map fromModel rows))"

definition ListByOpener :: "'w store \<Rightarrow> string \<Rightarrow> ('w, ticket_error, Record list) sop" where
  "ListByOpener st openerID = sbind (db (st_Find st (\<lambda>t. tk_OpenerID t = openerID) (\<lambda>t. - tk_OpenedAt t)))
     (\<lambda>rows. sret (map fromModel rows))"

definition ListOutgoingBySeller :: "'w store \<Rightarrow> string \<Rightarrow> ('w, ticket_error, OutgoingMutation list) sop" where
  "ListOutgoingBySeller st sellerID = db (st_FindOut st (\<lambda>x. om_SellerID x = sellerID) (\<lambda>x. - om_PaidAt x))"

definition OutgoingExists :: "'w store \<Rightarrow> string \<Rightarrow> ('w, ticket_error, bool) sop" where
  "OutgoingExists st reference = sbind (db (st_CountOut st (\<lambda>x. om_Reference x = reference)))
     (\<lambda>count. sret (0 < count))"

definition SavePayment :: "'w store \<Rightarrow> Record \<Rightarrow> OutgoingMutation \<Rightarrow> ('w, ticket_error, unit) sop" where
  "SavePayment st rec outgoing = Transaction st (sbind
     (\<lambda>w. let row = toModel rec in
        case st_First st (\<lambda>t. tk_PublicID t = r_ID rec) w of
          (Inl NoRecord, w1) \<Rightarrow> db (st_Create st row) w1
        | (Inl e, w1) \<Rightarrow> (Inl (wrap e), w1)
        | (Inr existing, w1) \<Rightarrow> db (st_Save st (with_key row existing)) w1)
     (\<lambda>_. db (st_CreateOut st outgoing)))"

record Snapshot =
  sn_OpenTickets :: int
  sn_Tickets :: "(string, int) gomap"
  sn_Payments :: int
  sn_Totals :: "(string, int) gomap"

definition count_of :: "(string, int) gomap \<Rightarrow> string \<Rightarrow> int" where
  "count_of m k = (case map_of m k of None \<Rightarrow> 0 | Some n \<Rightarrow> n)"

definition snap_ticket :: "Snapshot \<Rightarrow> Ticket \<Rightarrow> Snapshot" where
  "snap_ticket s row = s\<lparr>sn_Tickets := mput (sn_Tickets s) (tk_Status row) (count_of (sn_Tickets s) (tk_Status row) + 1),
     sn_OpenTickets := sn_OpenTickets s + (if tk_Status row \<noteq> ''closed'' then 1 else 0)\<rparr>"

definition snap_payment :: "Snapshot \<Rightarrow> OutgoingMutation \<Rightarrow> Snapshot" where
  "snap_payment s row = s\<lparr>sn_Payments := sn_Payments s + 1,
     sn_Totals := mput (sn_Totals s) (om_Currency row) (wrap64 (count_of (sn_Totals s) (om_Currency row) + om_AmountMinor row))\<rparr>"

definition TakeSnapshot :: "'w store \<Rightarrow> ('w, ticket_error, Snapshot) sop" where
  "TakeSnapshot st = sbind (db (st_Find st (\<lambda>_. True) (\<lambda>_. 0))) (\<lambda>tickets.
     sbind (db (st_FindOut st (\<lambda>_. True) (\<lambda>_. 0))) (\<lambda>payments.
       sret (foldl snap_payment (foldl snap_ticket
         \<lparr>sn_OpenTickets = 0, sn_Tickets = [], sn_Payments = 0, sn_Totals = []\<rparr> tickets) payments)))"

section \<open>The interface\<close>

record 'w repo =
  rp_NextSeq :: "('w, ticket_error, int) sop"
  rp_Save :: "Record \<Rightarrow> ('w, ticket_error, unit) sop"
  rp_FindByPublicID :: "string \<Rightarrow> ('w, ticket_error, Record) sop"
  rp_FindByThreadID :: "string \<Rightarrow> ('w, ticket_error, Record) sop"
  rp_ListOpen :: "('w, ticket_error, Record list) sop"
  rp_ListByOpener :: "string \<Rightarrow> ('w, ticket_error, Record list) sop"
  rp_ListOutgoingBySeller :: "string \<Rightarrow> ('w, ticket_error, OutgoingMutation list) sop"
  rp_OutgoingExists :: "string \<Rightarrow> ('w, ticket_error, bool) sop"
  rp_SavePayment :: "Record \<Rightarrow> OutgoingMutation \<Rightarrow> ('w, ticket_error, unit) sop"
  rp_Snapshot :: "('w, ticket_error, Snapshot) sop"

definition gorm_repo :: "'w store \<Rightarrow> instant \<Rightarrow> 'w repo" where
  "gorm_repo st now = \<lparr>rp_NextSeq = NextSeq st now, rp_Save = Save st, rp_FindByPublicID = FindByPublicID st,
     rp_FindByThreadID = FindByThreadID st, rp_ListOpen = ListOpen st, rp_ListByOpener = ListByOpener st,
     rp_ListOutgoingBySeller = ListOutgoingBySeller st, rp_OutgoingExists = OutgoingExists st,
     rp_SavePayment = SavePayment st, rp_Snapshot = TakeSnapshot st\<rparr>"

definition upsert :: "Record \<Rightarrow> Record list \<Rightarrow> Record list" where
  "upsert rec rs = (if \<exists>r \<in> set rs. r_ID r = r_ID rec then map (\<lambda>r. if r_ID r = r_ID rec then rec else r) rs
     else rs @ [rec])"

locale ticket_repo =
  fixes rp :: "'w repo" and recs :: "'w \<Rightarrow> Record list" and ledger :: "'w \<Rightarrow> OutgoingMutation list"
    and seqno :: "'w \<Rightarrow> int" and good :: "'w \<Rightarrow> bool"
  assumes unique: "\<And>w. good w \<Longrightarrow> distinct (map r_ID (recs w)) \<and> unique_outs (ledger w) \<and> 0 \<le> seqno w"
    and NextSeq: "\<And>w r w'. good w \<Longrightarrow> rp_NextSeq rp w = (r, w') \<Longrightarrow> good w' \<and> recs w' = recs w \<and>
      ledger w' = ledger w \<and> seqno w \<le> seqno w' \<and>
      (case r of Inl _ \<Rightarrow> True | Inr n \<Rightarrow> n = seqno w + 1 \<and> seqno w' = n \<and> n < 2 ^ 31)"
    and Save: "\<And>rec w r w'. good w \<Longrightarrow> storable rec \<Longrightarrow> rp_Save rp rec w = (r, w') \<Longrightarrow> good w' \<and>
      ledger w' = ledger w \<and> seqno w' = seqno w \<and>
      recs w' = (case r of Inl _ \<Rightarrow> recs w | Inr _ \<Rightarrow> upsert rec (recs w))"
    and FindByPublicID: "\<And>i w r w'. good w \<Longrightarrow> rp_FindByPublicID rp i w = (r, w') \<Longrightarrow> good w' \<and> recs w' = recs w \<and>
      ledger w' = ledger w \<and> seqno w' = seqno w \<and>
      (case r of Inr rec \<Rightarrow> rec \<in> set (recs w) \<and> r_ID rec = i | Inl _ \<Rightarrow> True)"
    and ListOpen: "\<And>w r w'. good w \<Longrightarrow> rp_ListOpen rp w = (r, w') \<Longrightarrow> good w' \<and> recs w' = recs w \<and>
      ledger w' = ledger w \<and> seqno w' = seqno w \<and>
      (case r of Inr rs \<Rightarrow> mset rs = mset (filter (\<lambda>r. \<not> Closed r) (recs w)) | Inl _ \<Rightarrow> True)"
    and ListByOpener: "\<And>i w r w'. good w \<Longrightarrow> rp_ListByOpener rp i w = (r, w') \<Longrightarrow> good w' \<and> recs w' = recs w \<and>
      ledger w' = ledger w \<and> seqno w' = seqno w \<and>
      (case r of Inr rs \<Rightarrow> mset rs = mset (filter (\<lambda>r. r_OpenerID r = i) (recs w)) | Inl _ \<Rightarrow> True)"
    and OutgoingExists: "\<And>ref w r w'. good w \<Longrightarrow> rp_OutgoingExists rp ref w = (r, w') \<Longrightarrow> good w' \<and>
      recs w' = recs w \<and> ledger w' = ledger w \<and> seqno w' = seqno w \<and>
      (case r of Inr b \<Rightarrow> b \<longleftrightarrow> ref \<in> set (map om_Reference (ledger w)) | Inl _ \<Rightarrow> True)"
    and SavePayment: "\<And>rec x w r w'. good w \<Longrightarrow> storable rec \<Longrightarrow> rp_SavePayment rp rec x w = (r, w') \<Longrightarrow>
      good w' \<and> seqno w' = seqno w \<and>
      (let unchanged = (recs w' = recs w \<and> ledger w' = ledger w);
           written = (recs w' = upsert rec (recs w) \<and> (\<exists>row. same_out row x \<and> ledger w' = ledger w @ [row]))
       in case r of Inr _ \<Rightarrow> written | Inl _ \<Rightarrow> unchanged \<or> written)"


section \<open>The repository over a lawful store keeps the contract\<close>

definition seq_of :: "tables \<Rightarrow> int" where
  "seq_of tb = (case tb_Counters tb of [] \<Rightarrow> 0 | c # _ \<Rightarrow> tc_Seq c)"

definition desk_ok :: "tables \<Rightarrow> bool" where
  "desk_ok tb \<longleftrightarrow> tables_ok tb \<and> 0 \<le> seq_of tb"

definition records_of :: "tables \<Rightarrow> Record list" where
  "records_of tb = map fromModel (tb_Tickets tb)"

lemma db_result: "db m w = (r, w') \<longleftrightarrow> (\<exists>q. m w = (q, w') \<and> r = map_sum wrap id q)"
  by (auto simp: db_def split: prod.splits sum.splits)

lemma upsert_new: "\<forall>r \<in> set rs. r_ID r \<noteq> r_ID rec \<Longrightarrow> upsert rec rs = rs @ [rec]"
  by (auto simp: upsert_def)

lemma upsert_ids: "set (map r_ID (upsert rec rs)) = insert (r_ID rec) (set (map r_ID rs))"
  by (auto simp: upsert_def)

lemma upsert_distinct: "distinct (map r_ID rs) \<Longrightarrow> distinct (map r_ID (upsert rec rs))"
proof -
  assume d: "distinct (map r_ID rs)"
  have "map r_ID (map (\<lambda>r. if r_ID r = r_ID rec then rec else r) rs) = map r_ID rs" by simp
  with d show ?thesis by (auto simp: upsert_def simp del: map_map)
qed

lemma records_appended:
  assumes "storable rec" and "same_ticket row (toModel rec)" and "\<forall>t \<in> set ts. tk_PublicID t \<noteq> r_ID rec"
  shows "map fromModel (ts @ [row]) = upsert rec (map fromModel ts)"
  using assms same_ticketD(1) [OF assms(2)] model_roundtrip by (subst upsert_new) auto

lemma records_replaced:
  assumes "storable rec" and "same_ticket row (toModel rec)" and "unique_tickets ts"
    and "x \<in> set ts" and "tk_PublicID x = r_ID rec" and "tk_ID row = tk_ID x"
  shows "map fromModel (save_row row ts) = upsert rec (map fromModel ts)"
proof -
  have r: "fromModel row = rec" using same_ticketD(1) [OF assms(2)] model_roundtrip [OF assms(1)] by simp
  have "tk_ID t = tk_ID row \<longleftrightarrow> tk_PublicID t = r_ID rec" if "t \<in> set ts" for t
    using assms(3-6) that by (auto simp: unique_tickets_def distinct_map inj_on_def)
  with r have "map fromModel (save_row row ts) = map (\<lambda>r. if r_ID r = r_ID rec then rec else r) (map fromModel ts)"
    by (auto simp: save_row_def)
  moreover have "\<exists>r \<in> set (map fromModel ts). r_ID r = r_ID rec" using assms(4,5) by auto
  ultimately show ?thesis by (simp add: upsert_def)
qed

context store_laws
begin

lemma Transaction_cases:
  assumes "Transaction st f w = (r, w')"
    and "\<forall>w1 q w2. saved w1 = tabs w \<longrightarrow> f w1 = (q, w2) \<longrightarrow> saved w2 = tabs w"
  obtains (failed) e where "r = Inl e" "tabs w' = tabs w"
    | (body) w1 x w2 where "tabs w1 = tabs w" "saved w1 = tabs w" "f w1 = (Inr x, w2)" "tabs w' = tabs w2"
        "case r of Inl _ \<Rightarrow> True | Inr y \<Rightarrow> y = x"
proof -
  obtain p w1 where p: "st_Begin st w = (p, w1)" by (cases "st_Begin st w")
  note b1 = Begin [OF p]
  show thesis
  proof (cases p)
    case (Inl e)
    with assms(1) p b1 show thesis by (auto simp: Transaction_def db_def intro!: failed)
  next
    case (Inr u)
    with p have b: "db (st_Begin st) w = (Inr u, w1)" by (simp add: db_def)
    from Inr b1 have w1: "tabs w1 = tabs w" "saved w1 = tabs w" by auto
    obtain q w2 where f: "f w1 = (q, w2)" by (cases "f w1")
    have s2: "saved w2 = tabs w" using assms(2) w1(2) f by blast
    show thesis
    proof (cases q)
      case (Inl e)
      then have "r = Inl e" "w' = snd (st_Rollback st w2)" using assms(1) b f by (auto simp: Transaction_def)
      then show thesis using Rollback [of w2] s2 failed by (metis prod.collapse)
    next
      case Inr2: (Inr x)
      obtain k w3 where k: "st_Commit st w2 = (k, w3)" by (cases "st_Commit st w2")
      with assms(1) b f Inr2 have r: "w' = w3" "r = (case k of Inl e \<Rightarrow> Inl (wrap e) | Inr _ \<Rightarrow> Inr x)"
        by (auto simp: Transaction_def db_def split: sum.splits)
      from Commit [OF k] s2 r show thesis
        using body [OF w1 f [unfolded Inr2]] failed by (cases k) auto
    qed
  qed
qed

lemma Save_law:
  assumes "unique_tickets (tb_Tickets (tabs w))" and "storable rec" and "Save st rec w = (r, w')"
  shows "saved w' = saved w \<and> (case r of Inl _ \<Rightarrow> tabs w' = tabs w
    | Inr _ \<Rightarrow> records_of (tabs w') = upsert rec (records_of (tabs w)) \<and> unique_tickets (tb_Tickets (tabs w')) \<and>
        tb_Outs (tabs w') = tb_Outs (tabs w) \<and> tb_Counters (tabs w') = tb_Counters (tabs w))"
proof -
  obtain q w1 where q: "st_First st (\<lambda>t. tk_PublicID t = r_ID rec) w = (q, w1)"
    by (cases "st_First st (\<lambda>t. tk_PublicID t = r_ID rec) w")
  note f = First [OF q]
  show ?thesis
  proof (cases q)
    case (Inl e)
    show ?thesis
    proof (cases e)
      case NoRecord
      with Inl q assms(3) have "db (st_Create st (toModel rec)) w1 = (r, w')" by (simp add: Save_def Let_def)
      then obtain p where p: "st_Create st (toModel rec) w1 = (p, w')" "r = map_sum wrap id p" by (auto simp: db_result)
      show ?thesis
      proof (cases p)
        case (Inr u)
        with Create [OF p(1)] f Inl NoRecord assms(1) p(2) show ?thesis
          using records_appended [OF assms(2)] by (auto simp: records_of_def)
      qed (use Create [OF p(1)] f p(2) in \<open>simp\<close>)
    qed (use Inl q assms(3) f in \<open>auto simp: Save_def Let_def\<close>)
  next
    case (Inr x)
    with q assms(3) have "db (st_Save st (with_key (toModel rec) x)) w1 = (r, w')" by (simp add: Save_def Let_def)
    then obtain p where p: "st_Save st (with_key (toModel rec) x) w1 = (p, w')" "r = map_sum wrap id p" by (auto simp: db_result)
    have x: "x \<in> set (tb_Tickets (tabs w))" "tk_PublicID x = r_ID rec" "tabs w1 = tabs w" "saved w1 = saved w"
      using f Inr by auto
    have k: "tk_ID (with_key (toModel rec) x) = tk_ID x" by (simp add: with_key_def)
    have s: "same_ticket row (with_key (toModel rec) x) = same_ticket row (toModel rec)" for row
      by (simp add: with_key_def same_ticket_def)
    have "\<exists>y \<in> set (tb_Tickets (tabs w1)). tk_ID y = tk_ID (with_key (toModel rec) x)" using x k by auto
    note l = Save [OF p(1) this]
    show ?thesis
    proof (cases p)
      case (Inr u)
      with l x obtain row where row: "same_ticket row (toModel rec)" "tk_ID row = tk_ID x"
        "tabs w' = (tabs w)\<lparr>tb_Tickets := save_row row (tb_Tickets (tabs w))\<rparr>"
        "unique_tickets (save_row row (tb_Tickets (tabs w)))" "saved w' = saved w"
        using assms(1) by (auto simp: k s)
      then show ?thesis
        using records_replaced [OF assms(2) row(1) assms(1) x(1,2) row(2)] Inr p(2) by (simp add: records_of_def)
    qed (use l x p(2) in \<open>simp\<close>)
  qed
qed

lemmas Transaction_E = Transaction_cases [consumes 2, case_names failed body]

lemma SavePayment_law:
  assumes "tables_ok (tabs w)" and "storable rec" and "SavePayment st rec x w = (r, w')"
  shows "tables_ok (tabs w') \<and> tb_Counters (tabs w') = tb_Counters (tabs w) \<and>
    (let unchanged = (tabs w' = tabs w);
         written = (records_of (tabs w') = upsert rec (records_of (tabs w)) \<and>
           (\<exists>row. same_out row x \<and> tb_Outs (tabs w') = tb_Outs (tabs w) @ [row]))
     in case r of Inr _ \<Rightarrow> written | Inl _ \<Rightarrow> unchanged \<or> written)"
proof -
  let ?f = "sbind (Save st rec) (\<lambda>_. db (st_CreateOut st x))"
  have e: "SavePayment st rec x = Transaction st ?f"
    by (simp add: SavePayment_def Save_def [abs_def])
  have u: "unique_tickets (tb_Tickets (tabs w))" using assms(1) by (simp add: tables_ok_def)
  have unchanged: ?thesis if "r = Inl err" "tabs w' = tabs w" for err
    using that assms(1) by (simp add: Let_def)
  have out: "saved w2 = saved w1 \<and> (case q of Inl _ \<Rightarrow> tabs w2 = tabs w1
       | Inr _ \<Rightarrow> \<exists>row. same_out row x \<and> tabs w2 = (tabs w1)\<lparr>tb_Outs := tb_Outs (tabs w1) @ [row]\<rparr> \<and>
           (unique_outs (tb_Outs (tabs w1)) \<longrightarrow> unique_outs (tb_Outs (tabs w1) @ [row])))"
    if d: "db (st_CreateOut st x) w1 = (q, w2)" for w1 q w2
  proof -
    obtain p where p: "st_CreateOut st x w1 = (p, w2)" "q = map_sum wrap id p"
      using d by (auto simp: db_result)
    from CreateOut [OF p(1)] show ?thesis by (cases p) (simp_all add: p(2))
  qed
  have keep: "saved w2 = saved w1" if "Save st rec w1 = (q, w2)" for w1 q w2
    using that First [of "\<lambda>t. tk_PublicID t = r_ID rec" w1]
    by (fastforce simp: Save_def Let_def db_result with_key_def split: prod.splits sum.splits db_error.splits
        dest: Create Save)
  have inner: "saved w2 = tabs w" if "saved w1 = tabs w" "?f w1 = (q, w2)" for w1 q w2
    using that(2)
  proof (cases rule: sbind_cases)
    case (step y w3)
    then show ?thesis using keep [OF step(1)] out [OF step(2)] that(1) by simp
  qed (use keep that(1) in simp)
  then have i: "\<forall>w1 q w2. saved w1 = tabs w \<longrightarrow> ?f w1 = (q, w2) \<longrightarrow> saved w2 = tabs w" by blast
  from assms(3) [unfolded e] i show ?thesis
  proof (cases rule: Transaction_E)
    case (body w1 y w2)
    then obtain w3 where s: "Save st rec w1 = (Inr (), w3)" "db (st_CreateOut st x) w3 = (Inr y, w2)"
      by (auto simp: sbind_Inr_iff)
    have "unique_tickets (tb_Tickets (tabs w1))" using u body(1) by simp
    from Save_law [OF this assms(2) s(1)] out [OF s(2)] body assms(1)
    show ?thesis by (auto simp: tables_ok_def records_of_def Let_def split: sum.splits)
  qed (rule unchanged)
qed

lemma bump_law:
  assumes "bump_counter st now c w = (r, w')"
  shows "saved w' = saved w \<and> (case r of Inl _ \<Rightarrow> True
    | Inr n \<Rightarrow> n = tc_Seq c + 1 \<and> n < 2 ^ 31 \<and> (length (tb_Counters (tabs w)) = 1 \<longrightarrow>
        (\<exists>c'. tc_Seq c' = n \<and> tabs w' = (tabs w)\<lparr>tb_Counters := [c']\<rparr>)))"
proof -
  let ?c = "c\<lparr>tc_Seq := tc_Seq c + 1, tc_UpdatedAt := now\<rparr>"
  obtain q where q: "st_SaveCounter st ?c w = (q, w')" "r = map_sum wrap (\<lambda>_. tc_Seq c + 1) q"
    using assms by (auto simp: bump_counter_def Let_def sbind_def db_def split: prod.splits sum.splits)
  from SaveCounter [OF q(1)] show ?thesis by (cases q) (auto simp: q(2) intro!: exI [of _ ?c])
qed

definition next_body :: "instant \<Rightarrow> ('w, ticket_error, int) sop" where
  "next_body now w = (case st_FirstCounter st w of
       (Inr counter, w1) \<Rightarrow> bump_counter st now counter w1
     | (Inl NoRecord, w1) \<Rightarrow>
         (let counter = \<lparr>tc_ID = 1, tc_Seq = 0, tc_UpdatedAt = now\<rparr> in
          sbind (db (st_CreateCounter st counter)) (\<lambda>_. bump_counter st now counter) w1)
     | (Inl e, w1) \<Rightarrow> (Inl (wrap e), w1))"

lemma next_body_law:
  assumes "next_body now w = (r, w')" and "length (tb_Counters (tabs w)) \<le> 1"
  shows "saved w' = saved w \<and> (case r of Inl _ \<Rightarrow> True
    | Inr n \<Rightarrow> n = seq_of (tabs w) + 1 \<and> n < 2 ^ 31 \<and>
        (\<exists>c. tc_Seq c = n \<and> tabs w' = (tabs w)\<lparr>tb_Counters := [c]\<rparr>))"
proof -
  obtain q w1 where q: "st_FirstCounter st w = (q, w1)" by (cases "st_FirstCounter st w")
  note f = FirstCounter [OF q]
  consider (some) c where "q = Inr c" | (none) "q = Inl NoRecord" | (err) e where "q = Inl (Fail e)"
    by (metis db_error.exhaust sum.exhaust)
  then show ?thesis
  proof cases
    case some
    then have b: "bump_counter st now c w1 = (r, w')" using assms(1) q by (simp add: next_body_def)
    have "tb_Counters (tabs w) = [c]" using some f assms(2) by (cases "tb_Counters (tabs w)") auto
    with bump_law [OF b] f show ?thesis by (auto simp: seq_of_def split: sum.splits)
  next
    case none
    let ?c = "\<lparr>tc_ID = 1, tc_Seq = 0, tc_UpdatedAt = now\<rparr>"
    obtain p w2 where p: "st_CreateCounter st ?c w1 = (p, w2)" by (cases "st_CreateCounter st ?c w1")
    note l = CreateCounter [OF p]
    have e: "tb_Counters (tabs w) = []" using f none by simp
    show ?thesis
    proof (cases p)
      case (Inl x)
      with p none q assms(1) l f show ?thesis by (auto simp: next_body_def Let_def sbind_def db_def)
    next
      case (Inr x)
      with p none q assms(1) have b: "bump_counter st now ?c w2 = (r, w')"
        by (simp add: next_body_def Let_def sbind_def db_def)
      have "tabs w2 = (tabs w)\<lparr>tb_Counters := [?c]\<rparr>" "saved w2 = saved w" using l f e Inr by auto
      with bump_law [OF b] e show ?thesis by (auto simp: seq_of_def split: sum.splits)
    qed
  next
    case err
    with q assms(1) f show ?thesis by (auto simp: next_body_def)
  qed
qed

lemma NextSeq_law:
  assumes "desk_ok (tabs w)" and "NextSeq st now w = (r, w')"
  shows "desk_ok (tabs w') \<and> tb_Tickets (tabs w') = tb_Tickets (tabs w) \<and> tb_Outs (tabs w') = tb_Outs (tabs w) \<and>
    seq_of (tabs w) \<le> seq_of (tabs w') \<and>
    (case r of Inl _ \<Rightarrow> True | Inr n \<Rightarrow> n = seq_of (tabs w) + 1 \<and> seq_of (tabs w') = n \<and> n < 2 ^ 31)"
proof -
  have e: "NextSeq st now = Transaction st (next_body now)"
    by (simp add: NextSeq_def next_body_def [abs_def])
  obtain T where T: "tabs w = T" by simp
  have inner: "saved w2 = T" if "saved w1 = T" "next_body now w1 = (q, w2)" for w1 q w2
  proof -
    obtain q1 w3 where q: "st_FirstCounter st w1 = (q1, w3)" by (cases "st_FirstCounter st w1")
    have b: "saved w5 = saved w4" if "bump_counter st now c w4 = (p, w5)" for c w4 p w5
      using bump_law [OF that] by simp
    have c: "saved w5 = saved w4" if "sbind (db (st_CreateCounter st c)) (\<lambda>_. bump_counter st now c) w4 = (p, w5)" for c w4 p w5
      using that
    proof (cases rule: sbind_cases)
      case (fail e)
      then show ?thesis using CreateCounter [of c w4] by (auto simp: db_result)
    next
      case (step x w6)
      then show ?thesis using CreateCounter [of c w4] b [OF step(2)] by (auto simp: db_result)
    qed
    show ?thesis
      using that q FirstCounter [OF q] b c
      by (auto simp: next_body_def Let_def split: sum.splits db_error.splits)
  qed
  have len: "length (tb_Counters T) \<le> 1" using assms(1) T by (simp add: desk_ok_def tables_ok_def)
  from inner T have i: "\<forall>w1 q w2. saved w1 = tabs w \<longrightarrow> next_body now w1 = (q, w2) \<longrightarrow> saved w2 = tabs w" by blast
  from assms(2) [unfolded e] i show ?thesis
  proof (cases rule: Transaction_E)
    case (failed x)
    with assms(1) show ?thesis by simp
  next
    case (body w1 n w2)
    from next_body_law [OF body(3)] len T body(1)
    obtain c where "n = seq_of T + 1" "n < 2 ^ 31" "tc_Seq c = n" "tabs w2 = T\<lparr>tb_Counters := [c]\<rparr>" by auto
    with body(4,5) assms(1) T show ?thesis
      by (auto simp: desk_ok_def tables_ok_def seq_of_def split: sum.splits list.splits)
  qed
qed

lemma find_by_law:
  assumes "find_by st P w = (r, w')"
  shows "tabs w' = tabs w \<and> (case r of Inr rec \<Rightarrow> \<exists>t \<in> set (tb_Tickets (tabs w)). P t \<and> rec = fromModel t | Inl _ \<Rightarrow> True)"
proof -
  obtain q w1 where q: "st_First st P w = (q, w1)" by (cases "st_First st P w")
  with assms First [OF q] show ?thesis
    by (auto simp: find_by_def split: sum.splits db_error.splits)
qed

lemma list_law:
  assumes "sbind (db (st_Find st P key)) (\<lambda>rows. sret (map fromModel rows)) w = (r, w')"
  shows "tabs w' = tabs w \<and> (case r of Inr rs \<Rightarrow> mset rs = mset (map fromModel (filter P (tb_Tickets (tabs w)))) | Inl _ \<Rightarrow> True)"
proof -
  obtain q where q: "st_Find st P key w = (q, w')" "r = map_sum wrap (map fromModel) q"
    using assms by (auto simp: sbind_def db_def split: prod.splits sum.splits)
  from Find [OF q(1)] show ?thesis by (cases q) (auto simp: q(2))
qed

lemma OutgoingExists_law:
  assumes "OutgoingExists st ref w = (r, w')"
  shows "tabs w' = tabs w \<and> (case r of Inr b \<Rightarrow> b \<longleftrightarrow> ref \<in> set (map om_Reference (tb_Outs (tabs w))) | Inl _ \<Rightarrow> True)"
proof -
  obtain q where q: "st_CountOut st (\<lambda>x. om_Reference x = ref) w = (q, w')" "r = map_sum wrap (\<lambda>n. 0 < n) q"
    using assms by (auto simp: OutgoingExists_def sbind_def db_def split: prod.splits sum.splits)
  from CountOut [OF q(1)] show ?thesis
    by (cases q) (auto simp: q(2) filter_empty_conv length_greater_0_conv simp del: length_greater_0_conv)
qed

lemma gorm_laws:
  "ticket_repo (gorm_repo st now) (\<lambda>w. records_of (tabs w)) (\<lambda>w. tb_Outs (tabs w)) (\<lambda>w. seq_of (tabs w)) (\<lambda>w. desk_ok (tabs w))"
proof (rule ticket_repo.intro)
  fix w assume "desk_ok (tabs w)"
  then show "distinct (map r_ID (records_of (tabs w))) \<and> unique_outs (tb_Outs (tabs w)) \<and> 0 \<le> seq_of (tabs w)"
    by (simp add: desk_ok_def tables_ok_def unique_tickets_def records_of_def comp_def)
next
  fix w r w' assume "desk_ok (tabs w)" "rp_NextSeq (gorm_repo st now) w = (r, w')"
  then show "desk_ok (tabs w') \<and> records_of (tabs w') = records_of (tabs w) \<and> tb_Outs (tabs w') = tb_Outs (tabs w) \<and>
    seq_of (tabs w) \<le> seq_of (tabs w') \<and>
    (case r of Inl _ \<Rightarrow> True | Inr n \<Rightarrow> n = seq_of (tabs w) + 1 \<and> seq_of (tabs w') = n \<and> n < 2 ^ 31)"
    using NextSeq_law [of w now r w'] by (simp add: gorm_repo_def records_of_def)
next
  fix rec w r w' assume a: "desk_ok (tabs w)" "storable rec" "rp_Save (gorm_repo st now) rec w = (r, w')"
  then have "unique_tickets (tb_Tickets (tabs w))" "Save st rec w = (r, w')"
    by (simp_all add: gorm_repo_def desk_ok_def tables_ok_def)
  from Save_law [OF this(1) a(2) this(2)] a(1)
  show "desk_ok (tabs w') \<and> tb_Outs (tabs w') = tb_Outs (tabs w) \<and> seq_of (tabs w') = seq_of (tabs w) \<and>
      records_of (tabs w') = (case r of Inl _ \<Rightarrow> records_of (tabs w) | Inr _ \<Rightarrow> upsert rec (records_of (tabs w)))"
    by (cases r) (simp_all add: desk_ok_def tables_ok_def seq_of_def)
next
  fix i w r w' assume a: "desk_ok (tabs w)" "rp_FindByPublicID (gorm_repo st now) i w = (r, w')"
  then have "find_by st (\<lambda>t. tk_PublicID t = i) w = (r, w')" by (simp add: gorm_repo_def FindByPublicID_def)
  from find_by_law [OF this] a(1)
  show "desk_ok (tabs w') \<and> records_of (tabs w') = records_of (tabs w) \<and> tb_Outs (tabs w') = tb_Outs (tabs w) \<and>
      seq_of (tabs w') = seq_of (tabs w) \<and>
      (case r of Inr rec \<Rightarrow> rec \<in> set (records_of (tabs w)) \<and> r_ID rec = i | Inl _ \<Rightarrow> True)"
    by (cases r) (auto simp: records_of_def)
next
  fix w r w' assume a: "desk_ok (tabs w)" "rp_ListOpen (gorm_repo st now) w = (r, w')"
  then have "sbind (db (st_Find st (\<lambda>t. tk_Status t \<noteq> ''closed'') tk_OpenedAt)) (\<lambda>rows. sret (map fromModel rows)) w = (r, w')"
    by (simp add: gorm_repo_def ListOpen_def)
  from list_law [OF this] a(1)
  show "desk_ok (tabs w') \<and> records_of (tabs w') = records_of (tabs w) \<and> tb_Outs (tabs w') = tb_Outs (tabs w) \<and>
      seq_of (tabs w') = seq_of (tabs w) \<and>
      (case r of Inr rs \<Rightarrow> mset rs = mset (filter (\<lambda>r. \<not> Closed r) (records_of (tabs w))) | Inl _ \<Rightarrow> True)"
    by (cases r) (simp_all add: records_of_def filter_map comp_def Closed_def)
next
  fix i w r w' assume a: "desk_ok (tabs w)" "rp_ListByOpener (gorm_repo st now) i w = (r, w')"
  then have "sbind (db (st_Find st (\<lambda>t. tk_OpenerID t = i) (\<lambda>t. - tk_OpenedAt t))) (\<lambda>rows. sret (map fromModel rows)) w = (r, w')"
    by (simp add: gorm_repo_def ListByOpener_def)
  from list_law [OF this] a(1)
  show "desk_ok (tabs w') \<and> records_of (tabs w') = records_of (tabs w) \<and> tb_Outs (tabs w') = tb_Outs (tabs w) \<and>
      seq_of (tabs w') = seq_of (tabs w) \<and>
      (case r of Inr rs \<Rightarrow> mset rs = mset (filter (\<lambda>r. r_OpenerID r = i) (records_of (tabs w))) | Inl _ \<Rightarrow> True)"
    by (cases r) (simp_all add: records_of_def filter_map comp_def)
next
  fix ref w r w' assume a: "desk_ok (tabs w)" "rp_OutgoingExists (gorm_repo st now) ref w = (r, w')"
  then have "OutgoingExists st ref w = (r, w')" by (simp add: gorm_repo_def)
  from OutgoingExists_law [OF this] a(1)
  show "desk_ok (tabs w') \<and> records_of (tabs w') = records_of (tabs w) \<and> tb_Outs (tabs w') = tb_Outs (tabs w) \<and>
      seq_of (tabs w') = seq_of (tabs w) \<and>
      (case r of Inr b \<Rightarrow> b \<longleftrightarrow> ref \<in> set (map om_Reference (tb_Outs (tabs w))) | Inl _ \<Rightarrow> True)"
    by (cases r) simp_all
next
  fix rec x w r w' assume a: "desk_ok (tabs w)" "storable rec" "rp_SavePayment (gorm_repo st now) rec x w = (r, w')"
  then have "tables_ok (tabs w)" "SavePayment st rec x w = (r, w')" by (simp_all add: gorm_repo_def desk_ok_def)
  from SavePayment_law [OF this(1) a(2) this(2)] a(1)
  show "desk_ok (tabs w') \<and> seq_of (tabs w') = seq_of (tabs w) \<and>
      (let unchanged = (records_of (tabs w') = records_of (tabs w) \<and> tb_Outs (tabs w') = tb_Outs (tabs w));
           written = (records_of (tabs w') = upsert rec (records_of (tabs w)) \<and>
             (\<exists>row. same_out row x \<and> tb_Outs (tabs w') = tb_Outs (tabs w) @ [row]))
       in case r of Inr _ \<Rightarrow> written | Inl _ \<Rightarrow> unchanged \<or> written)"
    by (cases r) (auto simp: desk_ok_def seq_of_def Let_def)
qed

end

text \<open>The repository of the program over the tables of Store.\<close>

interpretation desk: ticket_repo "gorm_repo pg_store now" "\<lambda>w. records_of (pg_Tabs w)" "\<lambda>w. tb_Outs (pg_Tabs w)"
    "\<lambda>w. seq_of (pg_Tabs w)" "\<lambda>w. desk_ok (pg_Tabs w)" for now
  by (rule pg.gorm_laws)


section \<open>Payments are atomic\<close>

lemma same_out_reference: "same_out row x \<Longrightarrow> om_Reference row = om_Reference x \<and> om_PublicID row = om_PublicID x \<and>
    om_AmountMinor row = om_AmountMinor x \<and> om_TicketID row = om_TicketID x \<and> om_SellerID row = om_SellerID x \<and>
    om_Currency row = om_Currency x \<and> om_By row = om_By x \<and> om_PaidAt row = om_PaidAt x"
  by (cases row; cases x) (simp add: same_out_def)

text \<open>
  C5: A payment is written as a whole or not at all. Whatever statements of the transaction
  fail, the tables after \<open>SavePayment\<close> hold either exactly what they held before, or the new
  ticket record together with its row in the outgoing ledger; when it reports success both are
  there, and the unique indexes (one row for each payment reference) still hold.
\<close>

theorem payment_atomic:
  assumes "desk_ok (pg_Tabs w)" and "storable rec" and "SavePayment pg_store rec x w = (r, w')"
  shows "desk_ok (pg_Tabs w') \<and>
    ((\<exists>e. r = Inl e) \<and> records_of (pg_Tabs w') = records_of (pg_Tabs w) \<and> tb_Outs (pg_Tabs w') = tb_Outs (pg_Tabs w) \<or>
     records_of (pg_Tabs w') = upsert rec (records_of (pg_Tabs w)) \<and>
     (\<exists>row. same_out row x \<and> tb_Outs (pg_Tabs w') = tb_Outs (pg_Tabs w) @ [row]))"
  using desk.SavePayment [OF assms(1,2), of undefined x r w'] assms(3)
  by (cases r) (auto simp: gorm_repo_def Let_def)

definition empty_pg :: "bool list \<Rightarrow> pg" where
  "empty_pg faults = \<lparr>pg_Tabs = \<lparr>tb_Tickets = [], tb_Outs = [], tb_Counters = []\<rparr>,
     pg_Saved = \<lparr>tb_Tickets = [], tb_Outs = [], tb_Counters = []\<rparr>, pg_Faults = faults, pg_Clock = 0\<rparr>"

definition sample_out :: OutgoingMutation where
  "sample_out = \<lparr>om_ID = 0, om_PublicID = ''OUT-1'', om_TicketID = ''T-1'', om_SellerID = ''42'', om_AmountMinor = 500,
     om_Currency = ''USD'', om_Reference = ''PAY-7'', om_By = ''7'', om_PaidAt = 0, om_CreatedAt = 0\<rparr>"

lemma empty_desk: "desk_ok (pg_Tabs (empty_pg fs))"
  by (simp add: empty_pg_def desk_ok_def tables_ok_def unique_tickets_def unique_outs_def seq_of_def)

text \<open>The fourth statement of the transaction is the insertion of the ledger row; here it fails.\<close>

theorem payment_atomic_witness:
  "\<exists>r w'. SavePayment pg_store (sample ''general'' ''support-v1'' ''open'') sample_out
     (empty_pg [False, False, False, True]) = (r, w') \<and> desk_ok (pg_Tabs w') \<and>
     length (records_of (pg_Tabs w')) = length (tb_Outs (pg_Tabs w'))"
proof -
  let ?w = "empty_pg [False, False, False, True]" and ?rec = "sample ''general'' ''support-v1'' ''open''"
  obtain r w' where s: "SavePayment pg_store ?rec sample_out ?w = (r, w')"
    by (cases "SavePayment pg_store ?rec sample_out ?w")
  have e: "records_of (pg_Tabs ?w) = []" "tb_Outs (pg_Tabs ?w) = []" by (simp_all add: empty_pg_def records_of_def)
  from payment_atomic [OF empty_desk storable_sample s] s show ?thesis
    unfolding e by (auto simp: upsert_def)
qed

section \<open>The snapshot\<close>

lemma count_of_mput [simp]: "count_of (mput m k v) k' = (if k' = k then v else count_of m k')"
  by (simp add: count_of_def)

lemma snap_tickets: "foldl snap_ticket s ts = s' \<Longrightarrow>
    sn_OpenTickets s' = sn_OpenTickets s + int (length (filter (\<lambda>t. tk_Status t \<noteq> ''closed'') ts)) \<and>
    count_of (sn_Tickets s') st = count_of (sn_Tickets s) st + int (length (filter (\<lambda>t. tk_Status t = st) ts)) \<and>
    sn_Payments s' = sn_Payments s \<and> sn_Totals s' = sn_Totals s"
  by (induction ts arbitrary: s) (auto simp: snap_ticket_def)

lemma wrap64_add: "wrap64 (wrap64 a + b) = wrap64 (a + b)"
proof -
  have "((a + 2 ^ 63) mod 2 ^ 64 - 2 ^ 63 + b + 2 ^ 63) mod 2 ^ 64 = ((a + 2 ^ 63) mod 2 ^ 64 + b) mod (2 ^ 64 :: int)"
    by (simp add: algebra_simps)
  also have "\<dots> = (a + 2 ^ 63 + b) mod 2 ^ 64" by (rule mod_add_left_eq)
  finally show ?thesis by (simp add: wrap64_def algebra_simps)
qed

lemma snap_payments: "foldl snap_payment s os = s' \<Longrightarrow>
    sn_OpenTickets s' = sn_OpenTickets s \<and> sn_Tickets s' = sn_Tickets s \<and>
    sn_Payments s' = sn_Payments s + int (length os) \<and>
    (wrap64 (count_of (sn_Totals s) c) = count_of (sn_Totals s) c \<longrightarrow>
     count_of (sn_Totals s') c = wrap64 (count_of (sn_Totals s) c +
       sum_list (map om_AmountMinor (filter (\<lambda>x. om_Currency x = c) os))))"
proof (induction os arbitrary: s)
  case (Cons x os)
  have w: "wrap64 (wrap64 n) = wrap64 n" for n using wrap64_add [of n 0] by simp
  from Cons.IH [of "snap_payment s x"] Cons.prems show ?case
    by (cases "om_Currency x = c") (auto simp: snap_payment_def wrap64_add w add.assoc)
qed auto

lemma mset_sum_filter: "mset xs = mset ys \<Longrightarrow> sum_list (map f (filter P xs)) = sum_list (map f (filter P ys))"
  for f :: "'a \<Rightarrow> int"
  by (metis mset_filter mset_map sum_mset_sum_list)

lemma mset_length_filter: "mset xs = mset ys \<Longrightarrow> length (filter P xs) = length (filter P ys)"
  by (metis mset_filter size_mset)

text \<open>
  The operations snapshot counts right. When it returns, the number of open tickets, the
  count for each status, the number of payments and the total for each currency are those of
  the tables; the totals are added as 64-bit integers and wrap around.
\<close>

theorem snapshot_exact:
  assumes "TakeSnapshot pg_store w = (Inr s, w')"
  shows "sn_OpenTickets s = int (length (filter (\<lambda>r. \<not> Closed r) (records_of (pg_Tabs w)))) \<and>
    count_of (sn_Tickets s) st = int (length (filter (\<lambda>r. r_Status r = st) (records_of (pg_Tabs w)))) \<and>
    sn_Payments s = int (length (tb_Outs (pg_Tabs w))) \<and>
    count_of (sn_Totals s) c =
      wrap64 (sum_list (map om_AmountMinor (filter (\<lambda>x. om_Currency x = c) (tb_Outs (pg_Tabs w)))))"
proof -
  let ?z = "\<lparr>sn_OpenTickets = 0, sn_Tickets = [], sn_Payments = 0, sn_Totals = []\<rparr>"
  obtain ts w1 os where q: "db (st_Find pg_store (\<lambda>_. True) (\<lambda>_. 0)) w = (Inr ts, w1)"
    "db (st_FindOut pg_store (\<lambda>_. True) (\<lambda>_. 0)) w1 = (Inr os, w')"
    "s = foldl snap_payment (foldl snap_ticket ?z ts) os"
    using assms by (auto simp: TakeSnapshot_def sbind_Inr_iff)
  then have p: "st_Find pg_store (\<lambda>_. True) (\<lambda>_. 0) w = (Inr ts, w1)"
    "st_FindOut pg_store (\<lambda>_. True) (\<lambda>_. 0) w1 = (Inr os, w')"
    by (auto simp: db_def split: prod.splits sum.splits)
  have m: "mset ts = mset (tb_Tickets (pg_Tabs w))" "mset os = mset (tb_Outs (pg_Tabs w))"
    using pg.Find [OF p(1)] pg.FindOut [OF p(2)] by auto
  define s1 where "s1 = foldl snap_ticket ?z ts"
  have t: "sn_OpenTickets s1 = int (length (filter (\<lambda>t. tk_Status t \<noteq> ''closed'') ts))"
    "count_of (sn_Tickets s1) st = int (length (filter (\<lambda>t. tk_Status t = st) ts))" "sn_Payments s1 = 0" "sn_Totals s1 = []"
    using snap_tickets [OF s1_def [symmetric], of st] by (simp_all add: count_of_def)
  have u: "sn_OpenTickets s = sn_OpenTickets s1" "sn_Tickets s = sn_Tickets s1" "sn_Payments s = int (length os)"
    "count_of (sn_Totals s) c = wrap64 (sum_list (map om_AmountMinor (filter (\<lambda>x. om_Currency x = c) os)))"
    using snap_payments [of s1 os s c] t(3,4) q(3) by (simp_all add: s1_def count_of_def wrap64_def)
  show ?thesis
    using t(1,2) u mset_sum_filter [OF m(2)] mset_length_filter [OF m(1)] mset_eq_length [OF m(2)]
    by (simp add: records_of_def filter_map comp_def Closed_def)
qed

theorem snapshot_exact_witness:
  "\<exists>s. fst (TakeSnapshot pg_store (empty_pg [])) = Inr s \<and> sn_OpenTickets s = 0 \<and> sn_Payments s = 0"
proof -
  obtain s w' where s: "TakeSnapshot pg_store (empty_pg []) = (Inr s, w')"
    by (simp add: TakeSnapshot_def sbind_def db_def pg_store_def pg_find_def pg_find_out_def stmt_def empty_pg_def)
  then show ?thesis using snapshot_exact [OF s] by (simp add: empty_pg_def records_of_def)
qed

end
