(* ===== verification/Membership.thy ===== *)
theory Membership
  imports GoText "HOL-Library.Multiset"
begin

text \<open>
  The membership rules of modules/membership: the role catalogue and the tier of a member
  (roles.go), and the decisions on verification, on the approval of sellers, on ticket
  administration and on the roles members may pick for themselves (verify.go). A list of
  role names that may be nil is a \<open>string list option\<close>: nil is \<open>None\<close> and means that the
  caller could not read the roles.

  \<open>MemberRoles\<close> is a Go map, and two functions range over it. Their models take the map as
  the list of its entries in the order the range visits them; \<open>MemberTier_order\<close> and
  \<open>ExclusiveGrant_order\<close> show that no order changes the outcome.
\<close>

section \<open>The role catalogue (roles.go)\<close>

type_synonym roles = "string list option"

definition TierUser :: string where "TierUser = ''user''"
definition TierBuyer :: string where "TierBuyer = ''buyer''"
definition TierSeller :: string where "TierSeller = ''seller''"
definition TierNone :: string where "TierNone = ''none''"
definition TierConflict :: string where "TierConflict = ''conflict''"
definition RoleUser :: string where "RoleUser = ''User''"
definition RoleBuyer :: string where "RoleBuyer = ''Buyer''"
definition RoleSeller :: string where "RoleSeller = ''Seller''"

definition MemberRoles :: "(string, string) gomap" where
  "MemberRoles = [(TierUser, RoleUser), (TierBuyer, RoleBuyer), (TierSeller, RoleSeller)]"

definition MemberRoleNames :: "string list" where
  "MemberRoleNames = [RoleUser, RoleBuyer, RoleSeller]"

definition RestrictionRoles :: "string list" where
  "RestrictionRoles = [''Under Review'', ''Suspended'', ''Blacklisted'']"

definition LegacyMemberRoles :: "string list" where
  "LegacyMemberRoles = [''New Member'', ''Verified Seller'', ''Provisional Seller'', ''Verified Buyer'']"

record PickerChoice =
  pc_Key :: string
  pc_Role :: string
  pc_Label :: string
  pc_Emoji :: string

definition pick :: "string \<Rightarrow> string \<Rightarrow> string \<Rightarrow> string \<Rightarrow> PickerChoice" where
  "pick k r l e = \<lparr>pc_Key = k, pc_Role = r, pc_Label = l, pc_Emoji = e\<rparr>"

definition LanguageChoices :: "PickerChoice list" where
  "LanguageChoices = [
     pick ''en'' ''English'' ''English''
       [CHR 0xF0, CHR 0x9F, CHR 0x87, CHR 0xAC, CHR 0xF0, CHR 0x9F, CHR 0x87, CHR 0xA7],
     pick ''id'' ''Bahasa Indonesia'' ''Bahasa Indonesia''
       [CHR 0xF0, CHR 0x9F, CHR 0x87, CHR 0xAE, CHR 0xF0, CHR 0x9F, CHR 0x87, CHR 0xA9],
     pick ''ms'' ''Bahasa Melayu'' ''Bahasa Melayu''
       [CHR 0xF0, CHR 0x9F, CHR 0x87, CHR 0xB2, CHR 0xF0, CHR 0x9F, CHR 0x87, CHR 0xBE],
     pick ''fil'' ''Filipino'' ''Filipino''
       [CHR 0xF0, CHR 0x9F, CHR 0x87, CHR 0xB5, CHR 0xF0, CHR 0x9F, CHR 0x87, CHR 0xAD],
     pick ''th'' ''Thai'' [CHR 0xE0, CHR 0xB9, CHR 0x84, CHR 0xE0, CHR 0xB8, CHR 0x97, CHR 0xE0, CHR 0xB8, CHR 0xA2]
       [CHR 0xF0, CHR 0x9F, CHR 0x87, CHR 0xB9, CHR 0xF0, CHR 0x9F, CHR 0x87, CHR 0xAD],
     pick ''vi'' ''Vietnamese'' (''Ti'' @ [CHR 0xE1, CHR 0xBA, CHR 0xBF] @ ''ng Vi'' @ [CHR 0xE1, CHR 0xBB, CHR 0x87] @ ''t'')
       [CHR 0xF0, CHR 0x9F, CHR 0x87, CHR 0xBB, CHR 0xF0, CHR 0x9F, CHR 0x87, CHR 0xB3],
     pick ''hi'' ''Hindi'' [CHR 0xE0, CHR 0xA4, CHR 0xB9, CHR 0xE0, CHR 0xA4, CHR 0xBF, CHR 0xE0, CHR 0xA4, CHR 0xA8, CHR 0xE0, CHR 0xA5, CHR 0x8D, CHR 0xE0, CHR 0xA4, CHR 0xA6, CHR 0xE0, CHR 0xA5, CHR 0x80]
       [CHR 0xF0, CHR 0x9F, CHR 0x87, CHR 0xAE, CHR 0xF0, CHR 0x9F, CHR 0x87, CHR 0xB3],
     pick ''bn'' ''Bengali'' [CHR 0xE0, CHR 0xA6, CHR 0xAC, CHR 0xE0, CHR 0xA6, CHR 0xBE, CHR 0xE0, CHR 0xA6, CHR 0x82, CHR 0xE0, CHR 0xA6, CHR 0xB2, CHR 0xE0, CHR 0xA6, CHR 0xBE]
       [CHR 0xF0, CHR 0x9F, CHR 0x87, CHR 0xA7, CHR 0xF0, CHR 0x9F, CHR 0x87, CHR 0xA9],
     pick ''zh'' ''Chinese'' [CHR 0xE4, CHR 0xB8, CHR 0xAD, CHR 0xE6, CHR 0x96, CHR 0x87]
       [CHR 0xF0, CHR 0x9F, CHR 0x87, CHR 0xA8, CHR 0xF0, CHR 0x9F, CHR 0x87, CHR 0xB3],
     pick ''ja'' ''Japanese'' [CHR 0xE6, CHR 0x97, CHR 0xA5, CHR 0xE6, CHR 0x9C, CHR 0xAC, CHR 0xE8, CHR 0xAA, CHR 0x9E]
       [CHR 0xF0, CHR 0x9F, CHR 0x87, CHR 0xAF, CHR 0xF0, CHR 0x9F, CHR 0x87, CHR 0xB5],
     pick ''ko'' ''Korean'' [CHR 0xED, CHR 0x95, CHR 0x9C, CHR 0xEA, CHR 0xB5, CHR 0xAD, CHR 0xEC, CHR 0x96, CHR 0xB4]
       [CHR 0xF0, CHR 0x9F, CHR 0x87, CHR 0xB0, CHR 0xF0, CHR 0x9F, CHR 0x87, CHR 0xB7]]"

definition RegionChoices :: "PickerChoice list" where
  "RegionChoices = [
     pick ''ID'' ''Indonesia'' ''Indonesia''
       [CHR 0xF0, CHR 0x9F, CHR 0x87, CHR 0xAE, CHR 0xF0, CHR 0x9F, CHR 0x87, CHR 0xA9],
     pick ''MY'' ''Malaysia'' ''Malaysia''
       [CHR 0xF0, CHR 0x9F, CHR 0x87, CHR 0xB2, CHR 0xF0, CHR 0x9F, CHR 0x87, CHR 0xBE],
     pick ''SG'' ''Singapore'' ''Singapore''
       [CHR 0xF0, CHR 0x9F, CHR 0x87, CHR 0xB8, CHR 0xF0, CHR 0x9F, CHR 0x87, CHR 0xAC],
     pick ''PH'' ''Philippines'' ''Philippines''
       [CHR 0xF0, CHR 0x9F, CHR 0x87, CHR 0xB5, CHR 0xF0, CHR 0x9F, CHR 0x87, CHR 0xAD],
     pick ''TH'' ''Thailand'' ''Thailand''
       [CHR 0xF0, CHR 0x9F, CHR 0x87, CHR 0xB9, CHR 0xF0, CHR 0x9F, CHR 0x87, CHR 0xAD],
     pick ''VN'' ''Vietnam'' ''Vietnam''
       [CHR 0xF0, CHR 0x9F, CHR 0x87, CHR 0xBB, CHR 0xF0, CHR 0x9F, CHR 0x87, CHR 0xB3],
     pick ''SA'' ''South Asia'' ''South Asia''
       [CHR 0xF0, CHR 0x9F, CHR 0x8C, CHR 0x8F],
     pick ''CN'' ''Greater China'' ''Greater China''
       [CHR 0xF0, CHR 0x9F, CHR 0x8C, CHR 0x8F],
     pick ''JP'' ''Japan'' ''Japan''
       [CHR 0xF0, CHR 0x9F, CHR 0x87, CHR 0xAF, CHR 0xF0, CHR 0x9F, CHR 0x87, CHR 0xB5],
     pick ''KR'' ''South Korea'' ''South Korea''
       [CHR 0xF0, CHR 0x9F, CHR 0x87, CHR 0xB0, CHR 0xF0, CHR 0x9F, CHR 0x87, CHR 0xB7]]"

definition PickableRoles :: "string list" where
  "PickableRoles = [
     ''English'', ''Bahasa Indonesia'', ''Bahasa Melayu'', ''Filipino'', ''Thai'',
     ''Vietnamese'', ''Hindi'', ''Bengali'', ''Chinese'', ''Japanese'', ''Korean'',
     ''Indonesia'', ''Malaysia'', ''Singapore'', ''Philippines'', ''Thailand'', ''Vietnam'',
     ''South Asia'', ''Greater China'', ''Japan'', ''South Korea'']"

definition NeverSelfAssignable :: "string list" where
  "NeverSelfAssignable = [
     ''Server Owner'', ''Platform Administrator'', ''Operations Lead'',
     ''Intermediary Lead'', ''Intermediary'', ''Dispute & Compliance'',
     ''Security & Fraud'', ''Finance & Risk'', ''Support & Verification'',
     ''Regional & Translation'', ''Moderator'', ''Developer'',
     RoleUser, RoleBuyer, RoleSeller,
     ''Verified Seller'', ''Provisional Seller'', ''Verified Buyer'',
     ''Under Review'', ''Suspended'', ''Blacklisted'']"

lemmas role_names [tables] = TierUser_def TierBuyer_def TierSeller_def TierNone_def TierConflict_def
  RoleUser_def RoleBuyer_def RoleSeller_def

lemmas role_tables [tables] = MemberRoles_def MemberRoleNames_def RestrictionRoles_def
  LegacyMemberRoles_def

text \<open>The loop of \<open>MemberTier\<close>: \<open>None\<close> is its early return on a legacy role.\<close>

fun tier_scan :: "(string, string) gomap \<Rightarrow> string list \<Rightarrow> string list \<Rightarrow> string list option" where
  "tier_scan mr tiers [] = Some tiers"
| "tier_scan mr tiers (n # ns) =
     (if n \<in> set LegacyMemberRoles then None
      else tier_scan mr (tiers @ map fst (filter (\<lambda>p. n = snd p) mr)) ns)"

definition MemberTier_over :: "(string, string) gomap \<Rightarrow> roles \<Rightarrow> string" where
  "MemberTier_over mr roleNames =
     (case roleNames of
        None \<Rightarrow> TierConflict
      | Some ns \<Rightarrow>
          (case tier_scan mr [] ns of
             None \<Rightarrow> TierConflict
           | Some tiers \<Rightarrow>
               if 1 < length tiers then TierConflict
               else if length tiers = 1 then tiers ! 0
               else TierNone))"

definition MemberTier :: "roles \<Rightarrow> string" where
  "MemberTier = MemberTier_over MemberRoles"

text \<open>Ranging over a nil slice visits nothing.\<close>

definition names :: "roles \<Rightarrow> string list" where
  "names rs = (case rs of None \<Rightarrow> [] | Some ns \<Rightarrow> ns)"

definition Restricted :: "roles \<Rightarrow> bool" where
  "Restricted roleNames \<longleftrightarrow> (\<exists>n \<in> set (names roleNames). n \<in> set RestrictionRoles)"

definition IsPickable :: "string \<Rightarrow> bool" where
  "IsPickable role \<longleftrightarrow> role \<in> set PickableRoles"

definition IsNeverSelfAssignable :: "string \<Rightarrow> bool" where
  "IsNeverSelfAssignable role \<longleftrightarrow> role \<in> set NeverSelfAssignable"

definition EligibleTicketApplicant :: "string \<Rightarrow> roles \<Rightarrow> bool" where
  "EligibleTicketApplicant ticketType roleNames =
     (let gated = ticketType = ''withdraw'' \<or> ticketType = ''seller-verification'' \<or>
                  ticketType = ''campaign'' \<or> ticketType = ''affiliate'' in
      if \<not> gated then True
      else if Restricted roleNames then False
      else let tier = MemberTier roleNames in
        if ticketType = ''withdraw'' then tier = TierSeller
        else if ticketType = ''seller-verification'' then tier = TierBuyer
        else tier = TierBuyer \<or> tier = TierSeller)"

definition ExclusiveGrant_over ::
  "(string, string) gomap \<Rightarrow> string list \<Rightarrow> string \<Rightarrow> (string \<times> string list) option" where
  "ExclusiveGrant_over mr current target =
     (case map_of mr target of
        None \<Rightarrow> None
      | Some label \<Rightarrow>
          Some (label, concat (map (\<lambda>(key, name).
             if key = target then [] else map (\<lambda>have. name) (filter (\<lambda>h. h = name) current)) mr)))"

text \<open>\<open>(add, remove, true)\<close> is \<open>Some (add, remove)\<close>.\<close>

definition ExclusiveGrant :: "string list \<Rightarrow> string \<Rightarrow> (string \<times> string list) option" where
  "ExclusiveGrant = ExclusiveGrant_over MemberRoles"

section \<open>Decisions (verify.go)\<close>

definition YoungAccountDays :: int where "YoungAccountDays = 7"
definition VerifyButtonID :: string where "VerifyButtonID = ''verify:accept''"

record VerifyDecision =
  vd_Action :: string
  vd_Reason :: string
  vd_Audit :: string
  vd_AddRole :: string
  vd_RemoveRole :: string
  vd_FlagYoungAccount :: bool

definition decision :: "string \<Rightarrow> string \<Rightarrow> string \<Rightarrow> VerifyDecision" where
  "decision action reason audit = \<lparr>vd_Action = action, vd_Reason = reason, vd_Audit = audit,
     vd_AddRole = [], vd_RemoveRole = [], vd_FlagYoungAccount = False\<rparr>"

definition DecideVerification :: "roles \<Rightarrow> int \<Rightarrow> bool \<Rightarrow> bool \<Rightarrow> VerifyDecision" where
  "DecideVerification roleNames accountAgeDays verifiedExists verifiedAssignable =
     (case roleNames of
        None \<Rightarrow> decision ''refuse'' ''Your member roles need an admin review.'' ''verify.refused_roles''
      | Some ns \<Rightarrow>
          (case find (\<lambda>b. b \<in> set ns) [''Suspended'', ''Blacklisted''] of
             Some blocked \<Rightarrow> decision ''refuse''
               (''Your account is currently **'' @ blocked @ ''**. Marketplace access is unavailable until that is resolved. Open a ticket if you believe this is a mistake.'')
               ''verify.refused_restricted''
           | None \<Rightarrow>
               if ''Under Review'' \<in> set ns then decision ''refuse''
                 ''Your account is **Under Review**. An admin is looking at it; please respond in your existing ticket rather than re-verifying.''
                 ''verify.refused_under_review''
               else let tier = MemberTier roleNames in
               if tier = TierConflict then decision ''refuse''
                 ''Your member roles need an admin review before verification.'' ''verify.refused_roles''
               else if RoleBuyer \<in> set ns \<or> RoleSeller \<in> set ns then decision ''already''
                 ''You already have marketplace access. Your current member tier is unchanged.'' []
               else if \<not> verifiedExists then decision ''error''
                 ''Marketplace access is not configured yet. Please tell an admin.'' ''verify.misconfigured_missing_role''
               else if \<not> verifiedAssignable then decision ''error''
                 ''Marketplace access cannot complete because of a role-hierarchy problem. Please contact an admin.''
                 ''verify.misconfigured_hierarchy''
               else \<lparr>vd_Action = ''verify'', vd_Reason = [], vd_Audit = ''verify.granted'', vd_AddRole = RoleBuyer,
                 vd_RemoveRole = (if RoleUser \<in> set ns then RoleUser else []),
                 vd_FlagYoungAccount = accountAgeDays < YoungAccountDays\<rparr>))"

definition DecideSellerApproval :: "roles \<Rightarrow> bool \<times> string" where
  "DecideSellerApproval roleNames =
     (if Restricted roleNames
      then (False, ''Membership is restricted. An admin must review it before promotion.'')
      else let tier = MemberTier roleNames in
        if tier = TierSeller then (True, ''already'')
        else if tier = TierBuyer then (True, [])
        else if tier = TierConflict
        then (False, ''Conflicting member tiers need reconciliation before promotion.'')
        else (False, ''Seller approval requires a current Buyer. Verify first.''))"

definition IsTicketAdmin :: "string \<Rightarrow> string \<Rightarrow> bool \<Rightarrow> bool \<Rightarrow> bool" where
  "IsTicketAdmin memberID ownerID isBot hasAdministrator =
     (if memberID = [] \<or> isBot then False else memberID = ownerID \<or> hasAdministrator)"

text \<open>The loops over the choices assign on every hit: the last matching entry wins.\<close>

definition choice_role :: "PickerChoice list \<Rightarrow> string \<Rightarrow> string" where
  "choice_role cs k = foldl (\<lambda>role c. if pc_Key c = k then pc_Role c else role) [] cs"

definition ResolvePickedRole :: "string \<Rightarrow> string option" where
  "ResolvePickedRole customID =
     (let parts = Split CHR '':'' customID in
      if length parts \<noteq> 3 \<or> parts ! 0 \<noteq> ''rolepick'' then None
      else if parts ! 1 \<noteq> ''lang'' \<and> parts ! 1 \<noteq> ''region'' then None
      else let role = choice_role (if parts ! 1 = ''lang'' then LanguageChoices else RegionChoices) (parts ! 2) in
        if role = [] \<or> \<not> IsPickable role \<or> IsNeverSelfAssignable role then None else Some role)"

section \<open>The tier of a member\<close>

definition tier_of :: "string \<Rightarrow> string" where
  "tier_of n = (if n = RoleUser then TierUser else if n = RoleBuyer then TierBuyer else TierSeller)"

definition legacy :: "string list \<Rightarrow> bool" where
  "legacy ns \<longleftrightarrow> (\<exists>n \<in> set ns. n \<in> set LegacyMemberRoles)"

definition tier_roles :: "string list \<Rightarrow> string list" where
  "tier_roles ns = filter (\<lambda>n. n \<in> set MemberRoleNames) ns"

lemma tier_roles_simps [simp]:
  "tier_roles [] = []"
  "tier_roles (n # ns) = (if n \<in> set MemberRoleNames then n # tier_roles ns else tier_roles ns)"
  "tier_roles (ns @ ms) = tier_roles ns @ tier_roles ms"
  by (simp_all add: tier_roles_def)

lemma legacy_simps [simp]:
  "\<not> legacy []" "legacy (n # ns) \<longleftrightarrow> n \<in> set LegacyMemberRoles \<or> legacy ns"
  "legacy (ns @ ms) \<longleftrightarrow> legacy ns \<or> legacy ms"
  by (auto simp: legacy_def)

lemma tier_scan_eq: "tier_scan mr ts ns =
    (if legacy ns then None else Some (ts @ concat (map (\<lambda>n. map fst (filter (\<lambda>p. n = snd p) mr)) ns)))"
  by (induction ns arbitrary: ts) auto

text \<open>Each role name is the label of at most one tier, in whatever order the map is visited.\<close>

lemma role_key_order:
  assumes "mset mr = mset MemberRoles"
  shows "map fst (filter (\<lambda>p. n = snd p) mr) = (if n \<in> set MemberRoleNames then [tier_of n] else [])"
proof -
  have "mset (map fst (filter (\<lambda>p. n = snd p) mr)) = mset (map fst (filter (\<lambda>p. n = snd p) MemberRoles))"
    using assms by simp
  also have "\<dots> = mset (if n \<in> set MemberRoleNames then [tier_of n] else [])"
    by (simp add: tables tier_of_def)
  finally show ?thesis
    by (cases "n \<in> set MemberRoleNames") (simp_all del: mset_map mset_filter)
qed

lemma tier_keys_order:
  assumes "mset mr = mset MemberRoles"
  shows "concat (map (\<lambda>n. map fst (filter (\<lambda>p. n = snd p) mr)) ns) = map tier_of (tier_roles ns)"
  by (induction ns) (auto simp: role_key_order [OF assms])

lemma MemberTier_Some: "MemberTier (Some ns) =
    (if legacy ns then TierConflict else case tier_roles ns of [] \<Rightarrow> TierNone | [n] \<Rightarrow> tier_of n | _ \<Rightarrow> TierConflict)"
  by (simp add: MemberTier_def MemberTier_over_def tier_scan_eq tier_keys_order split: list.split)

lemma MemberTier_None [simp]: "MemberTier None = TierConflict"
  by (simp add: MemberTier_def MemberTier_over_def)

lemma MemberTier_order: "mset mr = mset MemberRoles \<Longrightarrow> MemberTier_over mr = MemberTier"
  by (rule ext) (simp add: MemberTier_def MemberTier_over_def tier_scan_eq tier_keys_order split: option.split)

lemma tier_of_neq [simp]: "tier_of n \<noteq> TierConflict" "tier_of n \<noteq> TierNone"
  by (simp_all add: tier_of_def tables)

lemma tier_of_eq: "n \<in> set MemberRoleNames \<Longrightarrow>
    (tier_of n = TierUser \<longleftrightarrow> n = RoleUser) \<and> (tier_of n = TierBuyer \<longleftrightarrow> n = RoleBuyer) \<and>
    (tier_of n = TierSeller \<longleftrightarrow> n = RoleSeller)"
  by (auto simp: tier_of_def tables)

lemma tier_roles_Cons: "tier_roles ns = n # ms \<Longrightarrow> n \<in> set MemberRoleNames \<and> n \<in> set ns"
  using list.set_intros(1) [of n ms] by (auto simp: tier_roles_def simp flip: filter_set dest!: arg_cong [of _ _ set])

text \<open>What a tier tells of the roles.\<close>

lemma MemberTier_singleton: "MemberTier (Some ns) \<in> {TierUser, TierBuyer, TierSeller} \<Longrightarrow>
    \<not> legacy ns \<and> (\<exists>n. tier_roles ns = [n] \<and> MemberTier (Some ns) = tier_of n)"
  by (auto simp: MemberTier_Some tables split: list.splits if_splits)

section \<open>Exclusive tiers\<close>

text \<open>
  What the bot does with the answer of \<open>ExclusiveGrant\<close> (\<open>exclusiveTier\<close> in
  modules/discordbot/members.go): it takes the roles of \<open>remove\<close> away and adds \<open>add\<close>; a
  member holds a role once.
\<close>

definition apply_grant :: "string list \<Rightarrow> string \<times> string list \<Rightarrow> string list" where
  "apply_grant current g = filter (\<lambda>r. r \<notin> set (snd g) \<and> r \<noteq> fst g) current @ [fst g]"

lemma MemberRoles_iff: "(k, n) \<in> set MemberRoles \<longleftrightarrow> n \<in> set MemberRoleNames \<and> k = tier_of n"
  by (simp add: tables tier_of_def) blast

lemma tier_of_inj: "n \<in> set MemberRoleNames \<Longrightarrow> m \<in> set MemberRoleNames \<Longrightarrow> tier_of n = tier_of m \<longleftrightarrow> n = m"
  using tier_of_eq [of n] tier_of_eq [of m] by (simp add: MemberRoleNames_def) metis

lemma tier_label: "map_of MemberRoles target = Some add \<Longrightarrow> add \<in> set MemberRoleNames \<and> tier_of add = target"
  by (auto simp: tables tier_of_def split: if_splits)

lemma removed_set: "set (concat (map (\<lambda>(key, name).
    if key = target then [] else map (\<lambda>have. name) (filter (\<lambda>h. h = name) current)) mr)) =
    {n \<in> set current. \<exists>k. (k, n) \<in> set mr \<and> k \<noteq> target}"
  by (induction mr) auto

lemma ExclusiveGrant_remove:
  assumes "mset mr = mset MemberRoles" and "ExclusiveGrant_over mr current target = Some (add, remove)"
  shows "set remove = {n \<in> set current. n \<in> set MemberRoleNames \<and> n \<noteq> add} \<and> map_of MemberRoles target = Some add"
proof -
  have s: "set mr = set MemberRoles" using assms(1) by (rule mset_eq_setD)
  have "mset (map fst mr) = mset (map fst MemberRoles)" using assms(1) by simp
  then have "distinct (map fst mr)" by (rule mset_eq_imp_distinct_iff [THEN iffD2]) (simp add: tables)
  moreover have "distinct (map fst MemberRoles)" by (simp add: tables)
  ultimately have m: "map_of mr = map_of MemberRoles" using s by (simp only: map_of_inject_set)
  from assms(2) have t: "map_of MemberRoles target = Some add"
    by (auto simp: ExclusiveGrant_over_def m split: option.splits)
  then have "set remove = {n \<in> set current. \<exists>k. (k, n) \<in> set mr \<and> k \<noteq> target}"
    using assms(2) by (auto simp only: ExclusiveGrant_over_def m removed_set option.case option.inject prod.inject)
  also have "\<dots> = {n \<in> set current. n \<in> set MemberRoleNames \<and> n \<noteq> add}"
    using tier_label [OF t] by (auto simp: s MemberRoles_iff tier_of_inj)
  finally show ?thesis using t by simp
qed

lemma ExclusiveGrant_order:
  assumes "mset mr = mset MemberRoles" and "ExclusiveGrant_over mr current target = Some (a, r)"
    and "ExclusiveGrant current target = Some (a', r')"
  shows "a = a' \<and> set r = set r'"
  using ExclusiveGrant_remove [OF assms(1,2)] ExclusiveGrant_remove [OF refl, of current target a' r']
    assms(3) by (auto simp: ExclusiveGrant_def)

lemma legacy_not_tier: "n \<in> set MemberRoleNames \<Longrightarrow> n \<notin> set LegacyMemberRoles"
  by (auto simp: tables)

lemma apply_grant_tier:
  assumes "ExclusiveGrant current target = Some g" and "\<not> legacy current"
  shows "MemberTier (Some (apply_grant current g)) = target"
proof -
  obtain add remove where g: "g = (add, remove)" by (cases g)
  note r = ExclusiveGrant_remove [OF refl, of current target add remove]
  have add: "add \<in> set MemberRoleNames" "tier_of add = target" and
    rm: "set remove = {n \<in> set current. n \<in> set MemberRoleNames \<and> n \<noteq> add}"
    using r tier_label assms(1) by (auto simp: g ExclusiveGrant_def)
  have "tier_roles (filter (\<lambda>r. r \<notin> set remove \<and> r \<noteq> add) current) = []"
    by (auto simp: tier_roles_def rm filter_empty_conv)
  moreover have "\<not> legacy (filter (\<lambda>r. r \<notin> set remove \<and> r \<noteq> add) current)"
    using assms(2) by (auto simp: legacy_def)
  ultimately show ?thesis
    using add legacy_not_tier by (simp add: apply_grant_def g MemberTier_Some)
qed

text \<open>
  Granting a tier is exclusive. For every order in which the map of tiers is visited, if
  \<open>ExclusiveGrant\<close> answers for a member without legacy roles, then after the answer has been
  applied the member has exactly the target tier, and every role that is not a tier role is
  as before.
\<close>

theorem exclusive_grant_tier:
  assumes "mset mr = mset MemberRoles" and "ExclusiveGrant_over mr current target = Some g"
    and "\<not> legacy current"
  shows "MemberTier (Some (apply_grant current g)) = target \<and>
    (\<forall>r. r \<notin> set MemberRoleNames \<longrightarrow> (r \<in> set (apply_grant current g) \<longleftrightarrow> r \<in> set current))"
proof -
  obtain a r where g: "g = (a, r)" by (cases g)
  note e = ExclusiveGrant_remove [OF assms(1), of current target a r]
  obtain r' where x: "ExclusiveGrant current target = Some (a, r')"
    using e assms(2) by (auto simp: g ExclusiveGrant_def ExclusiveGrant_over_def)
  have "set r = set r'" using ExclusiveGrant_order assms(1,2) x by (auto simp: g)
  then have "apply_grant current g = apply_grant current (a, r')" by (simp add: apply_grant_def g)
  moreover have "a \<in> set MemberRoleNames" "set r \<subseteq> set MemberRoleNames"
    using e assms(2) tier_label by (auto simp: g)
  ultimately show ?thesis
    using apply_grant_tier [OF x assms(3)] \<open>set r = set r'\<close> by (auto simp: apply_grant_def g)
qed

theorem exclusive_grant_tier_witness:
  "MemberTier (Some (apply_grant [''User'', ''Japan'', ''Seller''] (''Buyer'', [''Seller'', ''User'']))) = ''buyer''"
  using exclusive_grant_tier [of "rev MemberRoles" "[''User'', ''Japan'', ''Seller'']" "''buyer''"
    "(''Buyer'', [''Seller'', ''User''])"]
  by (simp add: ExclusiveGrant_over_def tables)

section \<open>Eligibility and verification\<close>

text \<open>The single tier role of a member in good standing.\<close>

definition sole_tier :: "roles \<Rightarrow> string \<Rightarrow> bool" where
  "sole_tier rs n \<longleftrightarrow> (\<exists>ns. rs = Some ns \<and> \<not> legacy ns \<and> tier_roles ns = [n])"

lemma sole_tier_names: "sole_tier rs n \<Longrightarrow> n \<in> set MemberRoleNames"
  by (auto simp: sole_tier_def dest: tier_roles_Cons)

lemma MemberTier_iff:
  "MemberTier rs = TierUser \<longleftrightarrow> sole_tier rs RoleUser"
  "MemberTier rs = TierBuyer \<longleftrightarrow> sole_tier rs RoleBuyer"
  "MemberTier rs = TierSeller \<longleftrightarrow> sole_tier rs RoleSeller"
proof -
  have neq: "TierConflict \<noteq> TierUser" "TierConflict \<noteq> TierBuyer" "TierConflict \<noteq> TierSeller"
    "TierNone \<noteq> TierUser" "TierNone \<noteq> TierBuyer" "TierNone \<noteq> TierSeller"
    by (simp_all add: tables)
  show "MemberTier rs = TierUser \<longleftrightarrow> sole_tier rs RoleUser"
    "MemberTier rs = TierBuyer \<longleftrightarrow> sole_tier rs RoleBuyer"
    "MemberTier rs = TierSeller \<longleftrightarrow> sole_tier rs RoleSeller"
    by (cases rs; auto simp: neq MemberTier_Some sole_tier_def tier_of_eq
        dest!: tier_roles_Cons split: list.split if_splits)+
qed

definition gated :: "string list" where
  "gated = [''withdraw'', ''seller-verification'', ''campaign'', ''affiliate'']"

text \<open>
  A gated ticket may be opened exactly by an unrestricted member whose roles are readable,
  hold no legacy role and hold one tier role: Seller for a withdrawal, Buyer for the seller
  verification, either for a campaign or an affiliate application. Every other ticket type is
  open to everyone.
\<close>

theorem eligible_applicant:
  "EligibleTicketApplicant ty rs =
     (if ty \<in> set gated
      then \<not> Restricted rs \<and>
        (\<exists>n \<in> (if ty = ''withdraw'' then {RoleSeller} else if ty = ''seller-verification'' then {RoleBuyer}
               else {RoleBuyer, RoleSeller}). sole_tier rs n)
      else True)"
  by (simp add: EligibleTicketApplicant_def gated_def Let_def MemberTier_iff)

lemma decision_action [simp]: "vd_Action (decision a r u) = a"
  by (simp add: decision_def)

lemma tier_roles_cases: "\<not> legacy ns \<Longrightarrow> MemberTier (Some ns) \<noteq> TierConflict \<Longrightarrow>
    RoleBuyer \<notin> set ns \<Longrightarrow> RoleSeller \<notin> set ns \<Longrightarrow> tier_roles ns = [] \<or> tier_roles ns = [RoleUser]"
  by (cases "tier_roles ns" rule: list.exhaust)
    (auto simp: MemberTier_Some MemberRoleNames_def split: list.splits dest!: tier_roles_Cons)

lemma tier_roles_mem: "n \<in> set MemberRoleNames \<Longrightarrow> n \<in> set (tier_roles ns) \<longleftrightarrow> n \<in> set ns"
  by (simp add: tier_roles_def)

lemma no_conflict_not_legacy: "MemberTier (Some ns) \<noteq> TierConflict \<Longrightarrow> \<not> legacy ns"
  by (auto simp: MemberTier_Some)

lemma verification_cond:
  "vd_Action (DecideVerification rs age exists assignable) = ''verify'' \<longleftrightarrow>
     exists \<and> assignable \<and> \<not> Restricted rs \<and>
     (\<exists>ns. rs = Some ns \<and> \<not> legacy ns \<and> (tier_roles ns = [] \<or> tier_roles ns = [RoleUser]))"
  (is "?l \<longleftrightarrow> ?r")
proof (cases rs)
  case None
  then show ?thesis by (simp add: DecideVerification_def)
next
  case (Some ns)
  have n: "RoleBuyer \<in> set MemberRoleNames" "RoleSeller \<in> set MemberRoleNames" by (simp_all add: MemberRoleNames_def)
  have res: "Restricted rs \<longleftrightarrow> ''Suspended'' \<in> set ns \<or> ''Blacklisted'' \<in> set ns \<or> ''Under Review'' \<in> set ns"
    by (auto simp: Restricted_def Some names_def RestrictionRoles_def)
  have "?l \<longleftrightarrow> exists \<and> assignable \<and> \<not> Restricted rs \<and> MemberTier rs \<noteq> TierConflict \<and>
      RoleBuyer \<notin> set ns \<and> RoleSeller \<notin> set ns"
    by (auto simp: DecideVerification_def Some res [unfolded Some] Let_def)
  also have "\<dots> \<longleftrightarrow> ?r"
  proof -
    have "MemberTier rs \<noteq> TierConflict \<and> RoleBuyer \<notin> set ns \<and> RoleSeller \<notin> set ns \<longleftrightarrow>
        \<not> legacy ns \<and> (tier_roles ns = [] \<or> tier_roles ns = [RoleUser])" (is "?a \<longleftrightarrow> ?b")
    proof
      assume ?a
      then show ?b using tier_roles_cases no_conflict_not_legacy by (auto simp: Some)
    next
      assume b: ?b
      then have "RoleBuyer \<notin> set (tier_roles ns)" "RoleSeller \<notin> set (tier_roles ns)"
        by (auto simp: role_names)
      moreover have "MemberTier rs \<noteq> TierConflict"
        using b by (auto simp: Some MemberTier_Some) (simp add: tables)
      ultimately show ?a using n tier_roles_mem by blast
    qed
    then show ?thesis by (auto simp: Some)
  qed
  finally show ?thesis .
qed

text \<open>
  Verification succeeds exactly when the Buyer role exists and can be assigned and the
  member's roles are readable, unrestricted, without a legacy role and without a tier above
  User.
\<close>

theorem verification_iff:
  "vd_Action (DecideVerification rs age exists assignable) = ''verify'' \<longleftrightarrow>
     exists \<and> assignable \<and> \<not> Restricted rs \<and>
     (\<exists>ns. rs = Some ns \<and> \<not> legacy ns \<and> (tier_roles ns = [] \<or> tier_roles ns = [RoleUser]))"
  by (rule verification_cond)

text \<open>
  A successful verification makes a Buyer and nothing more: after the decision's role
  change the member has exactly the tier buyer.
\<close>

theorem verification_grants_buyer:
  assumes "DecideVerification (Some ns) age exists assignable = d" and "vd_Action d = ''verify''"
  shows "MemberTier (Some (apply_grant ns (vd_AddRole d, [vd_RemoveRole d]))) = TierBuyer \<and>
     vd_FlagYoungAccount d = (age < 7)"
proof -
  have v: "\<not> legacy ns" "tier_roles ns = [] \<or> tier_roles ns = [RoleUser]"
    using assms verification_cond [of "Some ns" age exists assignable] by auto
  have d: "vd_AddRole d = RoleBuyer" "vd_RemoveRole d = (if RoleUser \<in> set ns then RoleUser else [])"
    "vd_FlagYoungAccount d = (age < 7)"
    using assms by (auto simp: DecideVerification_def decision_def Let_def YoungAccountDays_def
        split: option.splits if_splits)
  have u: "set (tier_roles ns) \<subseteq> {RoleUser}" using v(2) by auto
  let ?rest = "filter (\<lambda>r. r \<notin> set [vd_RemoveRole d] \<and> r \<noteq> RoleBuyer) ns"
  have "n \<notin> set MemberRoleNames" if "n \<in> set ?rest" for n
  proof
    assume n: "n \<in> set MemberRoleNames"
    with that u have "n = RoleUser" by (auto simp: tier_roles_def)
    with that d(2) show False by auto
  qed
  then have "tier_roles ?rest = []" by (simp only: tier_roles_def filter_empty_conv) blast
  moreover have "\<not> legacy ?rest" using v(1) by (auto simp: legacy_def)
  moreover have "RoleBuyer \<in> set MemberRoleNames" "tier_of RoleBuyer = TierBuyer"
    "RoleBuyer \<notin> set LegacyMemberRoles"
    by (simp_all add: tables tier_of_def)
  ultimately show ?thesis using d(1,3) by (simp add: apply_grant_def MemberTier_Some)
qed

theorem verification_grants_buyer_witness:
  "MemberTier (Some (apply_grant [''User'', ''Japan''] (''Buyer'', [''User'']))) = ''buyer''"
proof -
  have d: "DecideVerification (Some [''User'', ''Japan'']) 3 True True =
      \<lparr>vd_Action = ''verify'', vd_Reason = [], vd_Audit = ''verify.granted'', vd_AddRole = ''Buyer'',
        vd_RemoveRole = ''User'', vd_FlagYoungAccount = True\<rparr>"
    by code_simp
  show ?thesis using verification_grants_buyer [OF d] by (simp add: TierBuyer_def)
qed

lemma seller_approval_iff: "fst (DecideSellerApproval rs) \<longleftrightarrow>
    \<not> Restricted rs \<and> (sole_tier rs RoleBuyer \<or> sole_tier rs RoleSeller)"
  by (auto simp: DecideSellerApproval_def Let_def MemberTier_iff)

section \<open>Roles members pick for themselves\<close>

lemma choice_role_in: "choice_role cs k = r \<Longrightarrow> r \<noteq> [] \<Longrightarrow> \<exists>c \<in> set cs. pc_Key c = k \<and> pc_Role c = r"
  unfolding choice_role_def by (induction cs arbitrary: r rule: rev_induct) (auto split: if_splits)

lemma Split3:
  assumes "length (Split d s) = 3"
  shows "s = Split d s ! 0 @ d # Split d s ! 1 @ d # Split d s ! 2"
proof -
  obtain a b c where "Split d s = [a, b, c]" using assms by (auto simp: numeral_eq_Suc length_Suc_conv)
  then show ?thesis using Join_Split [of d s] by simp
qed

text \<open>
  A member can give himself exactly the language and region roles: a custom id resolves to
  a role if and only if it names a choice of one of the two pickers, and no role that can be
  picked is on the list of roles that are never self-assignable.
\<close>

theorem picked_role_iff:
  "(ResolvePickedRole cid = Some role \<longleftrightarrow>
     (\<exists>c \<in> set LanguageChoices. cid = ''rolepick:lang:'' @ pc_Key c \<and> role = pc_Role c) \<or>
     (\<exists>c \<in> set RegionChoices. cid = ''rolepick:region:'' @ pc_Key c \<and> role = pc_Role c)) \<and>
   set PickableRoles \<inter> set NeverSelfAssignable = {}"
proof -
  have lang: "\<forall>c \<in> set LanguageChoices. ResolvePickedRole (''rolepick:lang:'' @ pc_Key c) = Some (pc_Role c)"
    and reg: "\<forall>c \<in> set RegionChoices. ResolvePickedRole (''rolepick:region:'' @ pc_Key c) = Some (pc_Role c)"
    and safe: "set PickableRoles \<inter> set NeverSelfAssignable = {}"
    by code_simp+
  moreover have "(\<exists>c \<in> set LanguageChoices. cid = ''rolepick:lang:'' @ pc_Key c \<and> role = pc_Role c) \<or>
     (\<exists>c \<in> set RegionChoices. cid = ''rolepick:region:'' @ pc_Key c \<and> role = pc_Role c)"
    if r: "ResolvePickedRole cid = Some role"
  proof -
    let ?p = "Split CHR '':'' cid"
    have p: "length ?p = 3" "?p ! 0 = ''rolepick''" "?p ! 1 = ''lang'' \<or> ?p ! 1 = ''region''"
      "role \<noteq> []" "role = choice_role (if ?p ! 1 = ''lang'' then LanguageChoices else RegionChoices) (?p ! 2)"
      using r by (auto simp: ResolvePickedRole_def Let_def split: if_splits)
    have c: "cid = ''rolepick:'' @ ?p ! 1 @ CHR '':'' # ?p ! 2" using Split3 [OF p(1)] p(2) by simp
    from p(3) show ?thesis
    proof
      assume k: "?p ! 1 = ''lang''"
      with p(4,5) choice_role_in [of LanguageChoices "?p ! 2" role]
      obtain x where "x \<in> set LanguageChoices" "pc_Key x = ?p ! 2" "pc_Role x = role" by auto
      then show ?thesis using c k by (intro disjI1 bexI [of _ x]) simp_all
    next
      assume k: "?p ! 1 = ''region''"
      with p(4,5) choice_role_in [of RegionChoices "?p ! 2" role]
      obtain x where "x \<in> set RegionChoices" "pc_Key x = ?p ! 2" "pc_Role x = role" by auto
      then show ?thesis using c k by (intro disjI2 bexI [of _ x]) simp_all
    qed
  qed
  moreover have "ResolvePickedRole cid = Some role"
    if "(\<exists>c \<in> set LanguageChoices. cid = ''rolepick:lang:'' @ pc_Key c \<and> role = pc_Role c) \<or>
     (\<exists>c \<in> set RegionChoices. cid = ''rolepick:region:'' @ pc_Key c \<and> role = pc_Role c)"
    using that lang reg by auto
  ultimately show ?thesis by argo
qed

end
