(* ===== verification/MemberService.thy ===== *)
theory MemberService
  imports Store Membership Http
begin

text \<open>
  The stored members of the guild: the table guild_members, its repository, the service over
  it (modules/membership/service.go) and the HTTP handlers (modules/membership/handler.go).
  As for the tickets, the statements gorm sends are a parameter, the record \<open>mstore\<close>, with their
  documented behaviour in the locale \<open>member_laws\<close>; \<open>tab_store\<close> is a table with the unique index
  of the migration in which they hold. What the service and the bot rely on is the contract
  \<open>member_repo\<close>: a map from Discord ids to what is stored of a member.
\<close>

section \<open>Rows\<close>

record GuildMember =
  gm_ID :: nat
  gm_DiscordID :: string
  gm_Username :: string
  gm_Tier :: string
  gm_AccountAgeDays :: int
  gm_Restricted :: bool
  gm_CreatedAt :: instant
  gm_UpdatedAt :: instant

record info =
  in_Username :: string
  in_Tier :: string
  in_Age :: int
  in_Restricted :: bool

definition info_of :: "GuildMember \<Rightarrow> info" where
  "info_of m = \<lparr>in_Username = gm_Username m, in_Tier = gm_Tier m, in_Age = gm_AccountAgeDays m, in_Restricted = gm_Restricted m\<rparr>"

definition member_map :: "GuildMember list \<Rightarrow> string \<Rightarrow> info option" where
  "member_map ms = map_of (map (\<lambda>m. (gm_DiscordID m, info_of m)) ms)"

section \<open>The repository\<close>

record 'w mstore =
  ms_First :: "string \<Rightarrow> ('w, GuildMember) stmt"
  ms_Create :: "GuildMember \<Rightarrow> ('w, GuildMember) stmt"
  ms_Save :: "GuildMember \<Rightarrow> ('w, GuildMember) stmt"
  ms_Delete :: "string \<Rightarrow> ('w, unit) stmt"
  ms_Find :: "(GuildMember \<Rightarrow> instant) \<Rightarrow> ('w, GuildMember list) stmt"

definition UpsertRow :: "'w mstore \<Rightarrow> instant \<Rightarrow> GuildMember \<Rightarrow> ('w, db_error, GuildMember) sop" where
  "UpsertRow st now member w =
     (case ms_First st (gm_DiscordID member) w of
        (Inl NoRecord, w1) \<Rightarrow> ms_Create st member w1
      | (Inl e, w1) \<Rightarrow> (Inl e, w1)
      | (Inr existing, w1) \<Rightarrow> ms_Save st (existing\<lparr>gm_Username := gm_Username member, gm_Tier := gm_Tier member,
          gm_AccountAgeDays := gm_AccountAgeDays member, gm_Restricted := gm_Restricted member, gm_UpdatedAt := now\<rparr>) w1)"

definition DeleteRow :: "'w mstore \<Rightarrow> string \<Rightarrow> ('w, db_error, unit) sop" where
  "DeleteRow st discordID = ms_Delete st discordID"

definition ListRows :: "'w mstore \<Rightarrow> ('w, db_error, GuildMember list) sop" where
  "ListRows st = ms_Find st gm_CreatedAt"

definition FindByDiscordID :: "'w mstore \<Rightarrow> string \<Rightarrow> ('w, db_error, GuildMember) sop" where
  "FindByDiscordID st discordID = ms_First st discordID"

record ServerSnapshot =
  ss_Members :: int
  ss_Tiers :: "(string, int) gomap"
  ss_Restricted :: int

definition snap_member :: "ServerSnapshot \<Rightarrow> GuildMember \<Rightarrow> ServerSnapshot" where
  "snap_member s m = s\<lparr>ss_Tiers := mput (ss_Tiers s) (gm_Tier m) ((case map_of (ss_Tiers s) (gm_Tier m) of None \<Rightarrow> 0 | Some n \<Rightarrow> n) + 1),
     ss_Restricted := ss_Restricted s + (if gm_Restricted m then 1 else 0)\<rparr>"

definition SnapshotRows :: "'w mstore \<Rightarrow> ('w, db_error, ServerSnapshot) sop" where
  "SnapshotRows st = sbind (ms_Find st (\<lambda>_. 0)) (\<lambda>members.
     sret (foldl snap_member \<lparr>ss_Members = int (length members), ss_Tiers = [], ss_Restricted = 0\<rparr> members))"

record 'w mrepo =
  mr_Upsert :: "GuildMember \<Rightarrow> ('w, db_error, GuildMember) sop"
  mr_Delete :: "string \<Rightarrow> ('w, db_error, unit) sop"
  mr_Find :: "string \<Rightarrow> ('w, db_error, GuildMember) sop"
  mr_List :: "('w, db_error, GuildMember list) sop"
  mr_Snapshot :: "('w, db_error, ServerSnapshot) sop"

definition member_repo_of :: "'w mstore \<Rightarrow> instant \<Rightarrow> 'w mrepo" where
  "member_repo_of st now = \<lparr>mr_Upsert = UpsertRow st now, mr_Delete = DeleteRow st, mr_Find = FindByDiscordID st,
     mr_List = ListRows st, mr_Snapshot = SnapshotRows st\<rparr>"

section \<open>The service\<close>

definition new_row :: "string \<Rightarrow> string \<Rightarrow> string \<Rightarrow> int \<Rightarrow> bool \<Rightarrow> GuildMember" where
  "new_row discordID username tier ageDays restricted =
     \<lparr>gm_ID = 0, gm_DiscordID = discordID, gm_Username = username, gm_Tier = tier, gm_AccountAgeDays = ageDays,
      gm_Restricted = restricted, gm_CreatedAt = zero_time, gm_UpdatedAt = zero_time\<rparr>"

definition Upsert :: "'w mrepo \<Rightarrow> string \<Rightarrow> string \<Rightarrow> string \<Rightarrow> int \<Rightarrow> bool \<Rightarrow> ('w, db_error, GuildMember) sop" where
  "Upsert mp discordID username tier ageDays restricted =
     mr_Upsert mp (new_row discordID username (if tier = [] then TierNone else tier) ageDays restricted)"

definition DeleteMember :: "'w mrepo \<Rightarrow> string \<Rightarrow> ('w, db_error, unit) sop" where
  "DeleteMember mp discordID = mr_Delete mp discordID"

definition ListMembers :: "'w mrepo \<Rightarrow> ('w, db_error, GuildMember list) sop" where
  "ListMembers mp = mr_List mp"

definition FindMember :: "'w mrepo \<Rightarrow> string \<Rightarrow> ('w, db_error, GuildMember) sop" where
  "FindMember mp discordID = mr_Find mp discordID"

definition Verify :: "'w mrepo \<Rightarrow> string \<Rightarrow> roles \<Rightarrow> int \<Rightarrow> ('w, db_error, VerifyDecision) sop" where
  "Verify mp discordID rs ageDays =
     (let verdict = DecideVerification rs ageDays True True in
      if vd_Action verdict \<noteq> ''verify'' \<and> vd_Action verdict \<noteq> ''already'' then sret verdict
      else let tier = MemberTier rs;
               tier = (if vd_Action verdict = ''verify'' then TierBuyer else tier)
        in sbind (Upsert mp discordID [] tier ageDays (Restricted rs)) (\<lambda>_. sret verdict))"

definition MemberSnapshot :: "'w mrepo \<Rightarrow> ('w, db_error, ServerSnapshot) sop" where
  "MemberSnapshot mp = mr_Snapshot mp"

section \<open>The HTTP handlers\<close>

record verifyRequest =
  vr_DiscordID :: string
  vr_Roles :: roles
  vr_AccountAgeDays :: int

datatype member_data = MDecision VerifyDecision | MMember GuildMember

definition VerifyHandler :: "'w mrepo \<Rightarrow> verifyRequest option \<Rightarrow> ('w, member_data) handler" where
  "VerifyHandler mp js c w =
     (case js of
        None \<Rightarrow> (SetErrorResponse c 400 MessageInvalidBody None, w)
      | Some req \<Rightarrow>
          if vr_DiscordID req = [] then (SetErrorResponse c 400 MessageInvalidBody None, w)
          else (case Verify mp (vr_DiscordID req) (vr_Roles req) (vr_AccountAgeDays req) w of
             (Inl e, w') \<Rightarrow> (SetErrorResponse c 500 ''verify failed'' None, w')
           | (Inr verdict, w') \<Rightarrow> (SetSuccessResponse c 200 MessageOK (Some (MDecision verdict)), w')))"

definition GetMemberHandler :: "'w mrepo \<Rightarrow> ('w, member_data) handler" where
  "GetMemberHandler mp c w =
     (case FindMember mp (mget (cx_Param c) ''discord_id'') w of
        (Inl e, w') \<Rightarrow> (SetErrorResponse c 404 ''member not found'' None, w')
      | (Inr member1, w') \<Rightarrow> (SetSuccessResponse c 200 MessageOK (Some (MMember member1)), w'))"

datatype member_route = POST_verify "verifyRequest option" | GET_member

fun GroupMembership :: "'w mrepo \<Rightarrow> member_route \<Rightarrow> ('w, member_data) handler" where
  "GroupMembership mp (POST_verify js) = VerifyHandler mp js"
| "GroupMembership mp GET_member = GetMemberHandler mp"

section \<open>The statements\<close>

definition rows_ok :: "GuildMember list \<Rightarrow> bool" where
  "rows_ok ms \<longleftrightarrow> distinct (map gm_ID ms) \<and> distinct (map gm_DiscordID ms)"

definition save_member :: "GuildMember \<Rightarrow> GuildMember list \<Rightarrow> GuildMember list" where
  "save_member row ms = map (\<lambda>m. if gm_ID m = gm_ID row then row else m) ms"

definition same_member :: "GuildMember \<Rightarrow> GuildMember \<Rightarrow> bool" where
  "same_member a b \<longleftrightarrow> gm_DiscordID a = gm_DiscordID b \<and> info_of a = info_of b"

locale member_laws =
  fixes st :: "'w mstore" and mrows :: "'w \<Rightarrow> GuildMember list"
  assumes First: "\<And>i w r w'. ms_First st i w = (r, w') \<Longrightarrow> mrows w' = mrows w \<and>
      (case r of Inr m \<Rightarrow> m \<in> set (mrows w) \<and> gm_DiscordID m = i
       | Inl NoRecord \<Rightarrow> i \<notin> set (map gm_DiscordID (mrows w)) | Inl (Fail _) \<Rightarrow> True)"
    and Create: "\<And>m w r w'. ms_Create st m w = (r, w') \<Longrightarrow>
      (case r of Inl _ \<Rightarrow> mrows w' = mrows w
       | Inr row \<Rightarrow> same_member row m \<and> mrows w' = mrows w @ [row] \<and> (rows_ok (mrows w) \<longrightarrow> rows_ok (mrows w')))"
    and Save: "\<And>m w r w'. ms_Save st m w = (r, w') \<Longrightarrow> \<exists>x \<in> set (mrows w). gm_ID x = gm_ID m \<Longrightarrow>
      (case r of Inl _ \<Rightarrow> mrows w' = mrows w
       | Inr row \<Rightarrow> same_member row m \<and> gm_ID row = gm_ID m \<and> mrows w' = save_member row (mrows w) \<and>
           (rows_ok (mrows w) \<longrightarrow> rows_ok (mrows w')))"
    and Delete: "\<And>i w r w'. ms_Delete st i w = (r, w') \<Longrightarrow>
      (case r of Inl _ \<Rightarrow> mrows w' = mrows w | Inr _ \<Rightarrow> mrows w' = filter (\<lambda>m. gm_DiscordID m \<noteq> i) (mrows w))"
    and Find: "\<And>key w r w'. ms_Find st key w = (r, w') \<Longrightarrow> mrows w' = mrows w \<and>
      (case r of Inl _ \<Rightarrow> True | Inr ms \<Rightarrow> mset ms = mset (mrows w) \<and> sorted (map key ms))"

text \<open>The contract of the repository.\<close>

locale member_repo =
  fixes mp :: "'w mrepo" and members :: "'w \<Rightarrow> string \<Rightarrow> info option" and good :: "'w \<Rightarrow> bool"
  assumes Upsert: "\<And>m w r w'. good w \<Longrightarrow> mr_Upsert mp m w = (r, w') \<Longrightarrow> good w' \<and>
      members w' = (case r of Inl _ \<Rightarrow> members w | Inr _ \<Rightarrow> (members w)(gm_DiscordID m \<mapsto> info_of m))"
    and Delete: "\<And>i w r w'. good w \<Longrightarrow> mr_Delete mp i w = (r, w') \<Longrightarrow> good w' \<and>
      members w' = (case r of Inl _ \<Rightarrow> members w | Inr _ \<Rightarrow> (members w)(i := None))"
    and Find: "\<And>i w r w'. good w \<Longrightarrow> mr_Find mp i w = (r, w') \<Longrightarrow> good w' \<and> members w' = members w \<and>
      (case r of Inr m \<Rightarrow> gm_DiscordID m = i \<and> members w i = Some (info_of m)
       | Inl NoRecord \<Rightarrow> members w i = None | Inl (Fail _) \<Rightarrow> True)"
    and List: "\<And>w r w'. good w \<Longrightarrow> mr_List mp w = (r, w') \<Longrightarrow> good w' \<and> members w' = members w \<and>
      (case r of Inl _ \<Rightarrow> True | Inr ms \<Rightarrow> distinct (map gm_DiscordID ms) \<and> member_map ms = members w)"
    and Snapshot: "\<And>w r w'. good w \<Longrightarrow> mr_Snapshot mp w = (r, w') \<Longrightarrow> good w' \<and> members w' = members w \<and>
      (case r of Inl _ \<Rightarrow> True | Inr s \<Rightarrow> ss_Members s = int (card (dom (members w))) \<and>
         ss_Restricted s = int (card {i. \<exists>x. members w i = Some x \<and> in_Restricted x}))"

section \<open>The repository keeps the contract\<close>

lemma member_map_Some: "distinct (map gm_DiscordID ms) \<Longrightarrow> member_map ms i = Some x \<longleftrightarrow> (\<exists>m \<in> set ms. gm_DiscordID m = i \<and> info_of m = x)"
  by (auto simp: member_map_def map_of_eq_Some_iff comp_def image_iff)

lemma member_map_None: "member_map ms i = None \<longleftrightarrow> i \<notin> set (map gm_DiscordID ms)"
  by (auto simp: member_map_def map_of_eq_None_iff image_iff)

lemma member_map_mset:
  assumes "mset ms = mset ns" and "distinct (map gm_DiscordID ns)"
  shows "distinct (map gm_DiscordID ms) \<and> member_map ms = member_map ns"
proof -
  have d: "distinct (map gm_DiscordID ms)" using assms by (metis mset_map mset_eq_imp_distinct_iff)
  have "set ms = set ns" using assms(1) by (metis set_mset_mset)
  then have "member_map ms i = Some x \<longleftrightarrow> member_map ns i = Some x" for i x
    by (simp add: member_map_Some d assms(2))
  then have "member_map ms i = member_map ns i" for i by (metis not_Some_eq)
  with d show ?thesis by auto
qed

lemma member_map_append: "gm_DiscordID row \<notin> set (map gm_DiscordID ms) \<Longrightarrow> member_map (ms @ [row]) = (member_map ms)(gm_DiscordID row \<mapsto> info_of row)"
proof -
  assume a: "gm_DiscordID row \<notin> set (map gm_DiscordID ms)"
  then have "map_of (map (\<lambda>m. (gm_DiscordID m, info_of m)) ms) (gm_DiscordID row) = None" by (simp add: map_of_eq_None_iff image_iff)
  then show ?thesis by (auto simp: member_map_def fun_eq_iff map_add_def split: option.split)
qed

lemma member_map_filter: "member_map (filter (\<lambda>m. gm_DiscordID m \<noteq> i) ms) = (member_map ms)(i := None)"
  by (induction ms) (auto simp: member_map_def fun_eq_iff)

lemma member_map_save:
  assumes "rows_ok ms" and "x \<in> set ms" and "gm_ID x = gm_ID row" and "gm_DiscordID x = gm_DiscordID row"
  shows "member_map (save_member row ms) = (member_map ms)(gm_DiscordID row \<mapsto> info_of row)"
proof -
  have inj: "inj_on gm_ID (set ms)" "inj_on gm_DiscordID (set ms)" using assms(1) by (simp_all add: rows_ok_def distinct_map)
  have "gm_ID m = gm_ID row \<longleftrightarrow> gm_DiscordID m = gm_DiscordID row" if "m \<in> set ms" for m
    using inj_on_eq_iff [OF inj(1) that assms(2)] inj_on_eq_iff [OF inj(2) that assms(2)] assms(3,4) by simp
  then have eq: "save_member row ms = map (\<lambda>m. if gm_DiscordID m = gm_DiscordID row then row else m) ms"
    unfolding save_member_def by (intro map_cong refl) simp
  have "member_map (map (\<lambda>m. if gm_DiscordID m = gm_DiscordID row then row else m) ms) i =
      (if i = gm_DiscordID row \<and> i \<in> set (map gm_DiscordID ms) then Some (info_of row) else member_map ms i)" for i
    by (induction ms) (auto simp: member_map_def)
  moreover have "gm_DiscordID row \<in> set (map gm_DiscordID ms)" using assms(2,4) by (metis image_eqI set_map)
  ultimately show ?thesis unfolding eq by (auto simp: fun_eq_iff)
qed

lemma same_lengths: "mset ms = mset ns \<Longrightarrow> length ms = length ns \<and> length (filter P ms) = length (filter P ns)"
  by (metis mset_filter size_mset)

lemma foldl_snap_member: "ss_Members (foldl snap_member s ms) = ss_Members s \<and>
    ss_Restricted (foldl snap_member s ms) = ss_Restricted s + int (length (filter gm_Restricted ms))"
  by (induction ms arbitrary: s) (auto simp: snap_member_def)

context member_laws
begin

lemma UpsertRow_law:
  assumes "rows_ok (mrows w)" and "UpsertRow st now m w = (r, w')"
  shows "rows_ok (mrows w') \<and>
    member_map (mrows w') = (case r of Inl _ \<Rightarrow> member_map (mrows w) | Inr _ \<Rightarrow> (member_map (mrows w))(gm_DiscordID m \<mapsto> info_of m))"
proof -
  obtain q w1 where f: "ms_First st (gm_DiscordID m) w = (q, w1)" by (cases "ms_First st (gm_DiscordID m) w")
  note first = First [OF f]
  show ?thesis
  proof (cases q)
    case (Inl e)
    show ?thesis
    proof (cases e)
      case NoRecord
      then have c: "ms_Create st m w1 = (r, w')" using assms(2) f Inl by (simp add: UpsertRow_def)
      from Create [OF c] first Inl NoRecord assms(1) show ?thesis
        by (cases r) (auto simp: member_map_append same_member_def)
    next
      case (Fail t)
      then show ?thesis using assms f Inl first by (auto simp: UpsertRow_def)
    qed
  next
    case (Inr x)
    define row where "row = x\<lparr>gm_Username := gm_Username m, gm_Tier := gm_Tier m,
          gm_AccountAgeDays := gm_AccountAgeDays m, gm_Restricted := gm_Restricted m, gm_UpdatedAt := now\<rparr>"
    have row: "gm_ID row = gm_ID x" "gm_DiscordID row = gm_DiscordID m" "info_of row = info_of m" and x: "x \<in> set (mrows w1)" "gm_DiscordID x = gm_DiscordID m"
      using first Inr by (auto simp: row_def info_of_def)
    have s: "ms_Save st row w1 = (r, w')" using assms(2) f Inr by (simp add: UpsertRow_def row_def)
    have ex: "\<exists>y \<in> set (mrows w1). gm_ID y = gm_ID row" using x row by auto
    from Save [OF s ex] show ?thesis
    proof (cases r)
      case (Inl e)
      then show ?thesis using Save [OF s ex] first assms(1) by auto
    next
      case r: (Inr row')
      have sv: "gm_DiscordID row' = gm_DiscordID m" "info_of row' = info_of m" "gm_ID x = gm_ID row'"
          "mrows w' = save_member row' (mrows w1)" "rows_ok (mrows w')"
        using Save [OF s ex] r row first assms(1) by (auto simp: same_member_def)
      have "rows_ok (mrows w1)" "gm_DiscordID x = gm_DiscordID row'" using first assms(1) x sv by auto
      from member_map_save [OF this(1) x(1) sv(3) this(2)] sv r first show ?thesis by simp
    qed
  qed
qed

lemma member_repo_laws:
  "member_repo (member_repo_of st now) (\<lambda>w. member_map (mrows w)) (\<lambda>w. rows_ok (mrows w))"
proof (rule member_repo.intro)
  fix m w r w' assume "rows_ok (mrows w)" "mr_Upsert (member_repo_of st now) m w = (r, w')"
  then show "rows_ok (mrows w') \<and> member_map (mrows w') =
      (case r of Inl _ \<Rightarrow> member_map (mrows w) | Inr _ \<Rightarrow> (member_map (mrows w))(gm_DiscordID m \<mapsto> info_of m))"
    using UpsertRow_law by (simp add: member_repo_of_def)
next
  fix i w r w' assume a: "rows_ok (mrows w)" "mr_Delete (member_repo_of st now) i w = (r, w')"
  then have "ms_Delete st i w = (r, w')" by (simp add: member_repo_of_def DeleteRow_def)
  from Delete [OF this] a(1) show "rows_ok (mrows w') \<and> member_map (mrows w') =
      (case r of Inl _ \<Rightarrow> member_map (mrows w) | Inr _ \<Rightarrow> (member_map (mrows w))(i := None))"
    by (cases r) (auto simp: member_map_filter rows_ok_def distinct_map_filter)
next
  fix i w r w' assume a: "rows_ok (mrows w)" "mr_Find (member_repo_of st now) i w = (r, w')"
  then have "ms_First st i w = (r, w')" by (simp add: member_repo_of_def FindByDiscordID_def)
  from First [OF this] a(1) show "rows_ok (mrows w') \<and> member_map (mrows w') = member_map (mrows w) \<and>
      (case r of Inr m \<Rightarrow> gm_DiscordID m = i \<and> member_map (mrows w) i = Some (info_of m)
       | Inl NoRecord \<Rightarrow> member_map (mrows w) i = None | Inl (Fail _) \<Rightarrow> True)"
    by (auto simp: member_map_Some member_map_None rows_ok_def split: sum.splits db_error.splits)
next
  fix w r w' assume a: "rows_ok (mrows w)" "mr_List (member_repo_of st now) w = (r, w')"
  then have "ms_Find st gm_CreatedAt w = (r, w')" by (simp add: member_repo_of_def ListRows_def)
  note f = Find [OF this]
  have d: "distinct (map gm_DiscordID (mrows w))" using a(1) by (simp add: rows_ok_def)
  have "case r of Inl _ \<Rightarrow> True | Inr ms \<Rightarrow> distinct (map gm_DiscordID ms) \<and> member_map ms = member_map (mrows w)"
  proof (cases r)
    case (Inr ms)
    with f have "mset ms = mset (mrows w)" by simp
    from member_map_mset [OF this d] Inr show ?thesis by simp
  qed simp
  with f a(1) show "rows_ok (mrows w') \<and> member_map (mrows w') = member_map (mrows w) \<and>
      (case r of Inl _ \<Rightarrow> True | Inr ms \<Rightarrow> distinct (map gm_DiscordID ms) \<and> member_map ms = member_map (mrows w))"
    by simp
next
  fix w r w' assume a: "rows_ok (mrows w)" "mr_Snapshot (member_repo_of st now) w = (r, w')"
  then obtain q where q: "ms_Find st (\<lambda>_. 0) w = (q, w')"
    "r = map_sum id (\<lambda>ms. foldl snap_member \<lparr>ss_Members = int (length ms), ss_Tiers = [], ss_Restricted = 0\<rparr> ms) q"
    by (auto simp: member_repo_of_def SnapshotRows_def sbind_def split: prod.splits sum.splits)
  have d: "distinct (map gm_DiscordID (mrows w))" using a(1) by (simp add: rows_ok_def)
  have dm: "dom (member_map (mrows w)) = set (map gm_DiscordID (mrows w))"
    by (auto simp: dom_def member_map_Some [OF d] image_iff)
  have "{i. \<exists>x. member_map (mrows w) i = Some x \<and> in_Restricted x} = set (map gm_DiscordID (filter gm_Restricted (mrows w)))"
    by (auto simp: member_map_Some [OF d] image_iff info_of_def)
  then have res: "card {i. \<exists>x. member_map (mrows w) i = Some x \<and> in_Restricted x} = length (filter gm_Restricted (mrows w))"
    using distinct_card [OF distinct_map_filter [OF d]] by simp
  have len: "card (dom (member_map (mrows w))) = length (mrows w)" unfolding dm using distinct_card [OF d] by simp
  have c: "case q of Inl _ \<Rightarrow> True | Inr ms \<Rightarrow> length ms = length (mrows w) \<and>
      length (filter gm_Restricted ms) = length (filter gm_Restricted (mrows w))"
  proof (cases q)
    case (Inr ms)
    with Find [OF q(1)] have "mset ms = mset (mrows w)" by simp
    from same_lengths [OF this] Inr show ?thesis by simp
  qed simp
  have m: "mrows w' = mrows w" using Find [OF q(1)] by simp
  show "rows_ok (mrows w') \<and> member_map (mrows w') = member_map (mrows w) \<and>
      (case r of Inl _ \<Rightarrow> True | Inr s \<Rightarrow> ss_Members s = int (card (dom (member_map (mrows w)))) \<and>
         ss_Restricted s = int (card {i. \<exists>x. member_map (mrows w) i = Some x \<and> in_Restricted x}))"
    using c a(1) unfolding len res m q(2) by (cases q) (simp_all add: foldl_snap_member)
qed

end

section \<open>A table in which the laws hold\<close>

record guild_tab =
  gt_Rows :: "GuildMember list"
  gt_Faults :: "bool list"
  gt_Clock :: instant

definition tstmt :: "(guild_tab, 'a) stmt \<Rightarrow> (guild_tab, 'a) stmt" where
  "tstmt f w = (case gt_Faults w of
     True # fs \<Rightarrow> (Inl (Fail ''connection lost''), w\<lparr>gt_Faults := fs\<rparr>)
   | False # fs \<Rightarrow> f (w\<lparr>gt_Faults := fs\<rparr>)
   | [] \<Rightarrow> f w)"

definition integer_ok :: "int \<Rightarrow> bool" where
  "integer_ok n \<longleftrightarrow> - (2 ^ 31) \<le> n \<and> n < 2 ^ 31"

definition tab_first :: "string \<Rightarrow> (guild_tab, GuildMember) stmt" where
  "tab_first i = tstmt (\<lambda>w. (case find (\<lambda>m. gm_DiscordID m = i) (gt_Rows w) of None \<Rightarrow> Inl NoRecord | Some m \<Rightarrow> Inr m, w))"

definition tab_create :: "GuildMember \<Rightarrow> (guild_tab, GuildMember) stmt" where
  "tab_create m = tstmt (\<lambda>w.
     let row = m\<lparr>gm_ID := fresh_id (map gm_ID (gt_Rows w)), gm_CreatedAt := gt_Clock w, gm_UpdatedAt := gt_Clock w\<rparr>
     in if gm_DiscordID m \<in> set (map gm_DiscordID (gt_Rows w)) then (Inl (Fail ''duplicate key''), w)
        else if \<not> integer_ok (gm_AccountAgeDays m) then (Inl (Fail ''integer out of range''), w)
        else (Inr row, w\<lparr>gt_Rows := gt_Rows w @ [row]\<rparr>))"

definition tab_save :: "GuildMember \<Rightarrow> (guild_tab, GuildMember) stmt" where
  "tab_save m = tstmt (\<lambda>w.
     let row = m\<lparr>gm_UpdatedAt := gt_Clock w\<rparr>
     in if gm_DiscordID m \<in> set (map gm_DiscordID (filter (\<lambda>r. gm_ID r \<noteq> gm_ID m) (gt_Rows w))) then (Inl (Fail ''duplicate key''), w)
        else if \<not> integer_ok (gm_AccountAgeDays m) then (Inl (Fail ''integer out of range''), w)
        else (Inr row, w\<lparr>gt_Rows := save_member row (gt_Rows w)\<rparr>))"

definition tab_delete :: "string \<Rightarrow> (guild_tab, unit) stmt" where
  "tab_delete i = tstmt (\<lambda>w. (Inr (), w\<lparr>gt_Rows := filter (\<lambda>m. gm_DiscordID m \<noteq> i) (gt_Rows w)\<rparr>))"

definition tab_find :: "(GuildMember \<Rightarrow> instant) \<Rightarrow> (guild_tab, GuildMember list) stmt" where
  "tab_find key = tstmt (\<lambda>w. (Inr (sort_key key (gt_Rows w)), w))"

definition tab_store :: "guild_tab mstore" where
  "tab_store = \<lparr>ms_First = tab_first, ms_Create = tab_create, ms_Save = tab_save, ms_Delete = tab_delete, ms_Find = tab_find\<rparr>"

lemma tstmt_cases:
  assumes "tstmt f w = (r, w')"
  obtains (fault) fs where "r = Inl (Fail ''connection lost'')" "w' = w\<lparr>gt_Faults := fs\<rparr>"
    | (run) fs where "f (w\<lparr>gt_Faults := fs\<rparr>) = (r, w')"
proof (cases "gt_Faults w")
  case Nil
  then have "f w = (r, w')" using assms by (simp add: tstmt_def)
  moreover have "w\<lparr>gt_Faults := gt_Faults w\<rparr> = w" by simp
  ultimately show thesis using run [of "gt_Faults w"] by (simp only:)
next
  case (Cons b fs)
  with assms show thesis by (cases b) (auto simp: tstmt_def intro: fault run)
qed

lemma save_member_keys: "map gm_ID (save_member row ms) = map gm_ID ms"
  by (induction ms) (auto simp: save_member_def)

lemma save_member_ok:
  assumes "rows_ok ms" and "gm_DiscordID row \<notin> set (map gm_DiscordID (filter (\<lambda>r. gm_ID r \<noteq> gm_ID row) ms))"
  shows "rows_ok (save_member row ms)"
proof -
  have "distinct (map gm_DiscordID (save_member row ms))"
    using assms
  proof (induction ms)
    case (Cons m ms)
    have fresh: "gm_ID x \<noteq> gm_ID row" if "gm_ID m = gm_ID row" and "x \<in> set ms" for x
    proof -
      have "gm_ID row \<notin> gm_ID ` set ms" using Cons.prems(1) that(1) by (simp add: rows_ok_def)
      then show ?thesis using that(2) by (metis imageI)
    qed
    have keep: "save_member row ms = ms" if "gm_ID m = gm_ID row"
      using fresh [OF that] unfolding save_member_def by (intro map_idI) simp
    show ?case
    proof (cases "gm_ID m = gm_ID row")
      case True
      then have "filter (\<lambda>r. gm_ID r \<noteq> gm_ID row) ms = ms"
        using fresh by (simp add: filter_id_conv)
      with True keep Cons.prems show ?thesis by (auto simp: save_member_def rows_ok_def)
    next
      case False
      have "set (map gm_DiscordID (save_member row ms)) \<subseteq> insert (gm_DiscordID row) (set (map gm_DiscordID ms))"
        by (auto simp: save_member_def)
      moreover have "gm_DiscordID m \<notin> insert (gm_DiscordID row) (set (map gm_DiscordID ms))"
        using Cons.prems False by (auto simp: rows_ok_def)
      ultimately have "gm_DiscordID m \<notin> set (map gm_DiscordID (save_member row ms))" by blast
      with False Cons show ?thesis by (auto simp: save_member_def rows_ok_def)
    qed
  qed (simp add: save_member_def)
  then show ?thesis using assms(1) by (simp add: rows_ok_def save_member_keys)
qed

interpretation guild: member_laws tab_store gt_Rows
proof
  fix i w r w' assume "ms_First tab_store i w = (r, w')"
  then have "tab_first i w = (r, w')" by (simp add: tab_store_def)
  then show "gt_Rows w' = gt_Rows w \<and> (case r of Inr m \<Rightarrow> m \<in> set (gt_Rows w) \<and> gm_DiscordID m = i
       | Inl NoRecord \<Rightarrow> i \<notin> set (map gm_DiscordID (gt_Rows w)) | Inl (Fail _) \<Rightarrow> True)"
    unfolding tab_first_def
    by (cases rule: tstmt_cases) (auto split: option.splits dest: find_SomeD simp: find_None_iff)
next
  fix m w r w' assume "ms_Create tab_store m w = (r, w')"
  then have "tab_create m w = (r, w')" by (simp add: tab_store_def)
  then show "case r of Inl _ \<Rightarrow> gt_Rows w' = gt_Rows w
       | Inr row \<Rightarrow> same_member row m \<and> gt_Rows w' = gt_Rows w @ [row] \<and> (rows_ok (gt_Rows w) \<longrightarrow> rows_ok (gt_Rows w'))"
    unfolding tab_create_def
    by (cases rule: tstmt_cases) (auto simp: Let_def same_member_def info_of_def rows_ok_def split: if_splits)
next
  fix m w r w' assume "ms_Save tab_store m w = (r, w')" and ex: "\<exists>x \<in> set (gt_Rows w). gm_ID x = gm_ID m"
  then have "tab_save m w = (r, w')" by (simp add: tab_store_def)
  then show "case r of Inl _ \<Rightarrow> gt_Rows w' = gt_Rows w
       | Inr row \<Rightarrow> same_member row m \<and> gm_ID row = gm_ID m \<and> gt_Rows w' = save_member row (gt_Rows w) \<and>
           (rows_ok (gt_Rows w) \<longrightarrow> rows_ok (gt_Rows w'))"
    unfolding tab_save_def
  proof (cases rule: tstmt_cases)
    case (fault fs)
    then show ?thesis by simp
  next
    case (run fs)
    then show ?thesis
      using save_member_ok [of "gt_Rows w" "m\<lparr>gm_UpdatedAt := gt_Clock w\<rparr>"]
      by (auto simp: Let_def same_member_def info_of_def split: if_splits)
  qed
next
  fix i w r w' assume "ms_Delete tab_store i w = (r, w')"
  then have "tab_delete i w = (r, w')" by (simp add: tab_store_def)
  then show "case r of Inl _ \<Rightarrow> gt_Rows w' = gt_Rows w | Inr _ \<Rightarrow> gt_Rows w' = filter (\<lambda>m. gm_DiscordID m \<noteq> i) (gt_Rows w)"
    unfolding tab_delete_def by (cases rule: tstmt_cases) auto
next
  fix key w r w' assume "ms_Find tab_store key w = (r, w')"
  then have "tab_find key w = (r, w')" by (simp add: tab_store_def)
  then show "gt_Rows w' = gt_Rows w \<and> (case r of Inl _ \<Rightarrow> True | Inr ms \<Rightarrow> mset ms = mset (gt_Rows w) \<and> sorted (map key ms))"
    unfolding tab_find_def by (cases rule: tstmt_cases) auto
qed

interpretation roster: member_repo "member_repo_of tab_store now" "\<lambda>w. member_map (gt_Rows w)" "\<lambda>w. rows_ok (gt_Rows w)" for now
  by (rule guild.member_repo_laws)

section \<open>What a verification stores\<close>

lemma action_unrestricted:
  assumes "vd_Action (DecideVerification rs age exists assignable) \<in> {''verify'', ''already''}"
  shows "\<not> Restricted rs"
  using assms by (cases rs) (auto simp: DecideVerification_def Restricted_def names_def RestrictionRoles_def decision_def Let_def
    find_None_iff split: if_splits option.splits)

lemma already_tier:
  assumes "vd_Action (DecideVerification rs age exists assignable) = ''already''"
  shows "MemberTier rs \<in> {TierBuyer, TierSeller}"
proof (cases rs)
  case (Some ns)
  with assms have t: "MemberTier rs \<noteq> TierConflict" "RoleBuyer \<in> set ns \<or> RoleSeller \<in> set ns"
    by (auto simp: DecideVerification_def decision_def Let_def split: if_splits option.splits)
  have n: "RoleBuyer \<in> set MemberRoleNames" "RoleSeller \<in> set MemberRoleNames" by (simp_all add: MemberRoleNames_def)
  have "RoleBuyer \<in> set (tier_roles ns) \<or> RoleSeller \<in> set (tier_roles ns)" using t(2) n tier_roles_mem by blast
  moreover have "\<not> legacy ns" using t(1) no_conflict_not_legacy Some by blast
  ultimately have "tier_roles ns = [RoleBuyer] \<or> tier_roles ns = [RoleSeller]"
    using t(1) by (cases "tier_roles ns" rule: list.exhaust) (auto simp: Some MemberTier_Some split: list.splits)
  then show ?thesis using \<open>\<not> legacy ns\<close> n by (auto simp: Some MemberTier_Some tier_of_eq)
qed (use assms in \<open>simp add: DecideVerification_def decision_def\<close>)

context member_repo
begin

lemma Upsert_map:
  assumes "good w" and "Upsert mp i name tier age restricted w = (r, w')" and "tier \<noteq> []"
  shows "good w' \<and> members w' = (case r of Inl _ \<Rightarrow> members w
    | Inr _ \<Rightarrow> (members w)(i \<mapsto> \<lparr>in_Username = name, in_Tier = tier, in_Age = age, in_Restricted = restricted\<rparr>))"
proof -
  have "mr_Upsert mp (new_row i name tier age restricted) w = (r, w')" using assms(2,3) by (simp add: MemberService.Upsert_def)
  from Upsert [OF assms(1) this] show ?thesis by (cases r) (simp_all add: new_row_def info_of_def)
qed

lemma Verify_map:
  assumes "good w" and "Verify mp i rs age w = (r, w')"
  shows "good w' \<and>
    (let act = vd_Action (DecideVerification rs age True True) in
     if act \<noteq> ''verify'' \<and> act \<noteq> ''already'' then members w' = members w
     else members w' = (case r of Inl _ \<Rightarrow> members w
       | Inr _ \<Rightarrow> (members w)(i \<mapsto> \<lparr>in_Username = [], in_Tier = (if act = ''verify'' then TierBuyer else MemberTier rs), in_Age = age,
           in_Restricted = False\<rparr>)))"
proof -
  define act where "act = vd_Action (DecideVerification rs age True True)"
  show ?thesis
  proof (cases "act \<noteq> ''verify'' \<and> act \<noteq> ''already''")
    case True
    with assms show ?thesis by (auto simp: Verify_def act_def Let_def)
  next
    case False
    define tier where "tier = (if act = ''verify'' then TierBuyer else MemberTier rs)"
    have "tier \<noteq> []" using False already_tier [of rs age True True] by (auto simp: tier_def act_def tables)
    moreover obtain q where q: "Upsert mp i [] tier age (Restricted rs) w = (q, w')"
      "r = map_sum id (\<lambda>_. DecideVerification rs age True True) q"
      using assms(2) False unfolding Verify_def act_def [symmetric] Let_def tier_def [symmetric]
      by (auto simp: sbind_def split: prod.splits sum.splits)
    moreover have "\<not> Restricted rs" using False action_unrestricted unfolding act_def by blast
    ultimately show ?thesis using Upsert_map [OF assms(1) q(1)] False
      unfolding act_def [symmetric] by (cases q) (auto simp: Let_def tier_def)
  qed
qed

end

text \<open>
  C27: What a verification stores. A request that is refused, or whose statement fails, changes
  nothing. Otherwise exactly the row of that member is written: unrestricted, with the age from
  the request, and with tier buyer after a new verification or the tier of the roles (buyer or
  seller) for a member who was verified before. The row always has an empty name afterwards,
  also when a name was stored.
\<close>

theorem verify_stores:
  assumes "rows_ok (gt_Rows w)" and "Verify (member_repo_of tab_store now) i rs age w = (r, w')"
  shows "let act = vd_Action (DecideVerification rs age True True); old = member_map (gt_Rows w); new = member_map (gt_Rows w') in
    rows_ok (gt_Rows w') \<and>
    (if act = ''verify'' \<or> act = ''already'' then
       (case r of Inl _ \<Rightarrow> new = old
        | Inr _ \<Rightarrow> \<exists>t. new = old(i \<mapsto> \<lparr>in_Username = [], in_Tier = t, in_Age = age, in_Restricted = False\<rparr>) \<and>
            (if act = ''verify'' then t = TierBuyer else t = MemberTier rs \<and> t \<in> {TierBuyer, TierSeller}))
     else new = old)"
  using roster.Verify_map [OF assms] already_tier [of rs age True True]
  by (cases r) (auto simp: Let_def)

definition sample_row :: GuildMember where
  "sample_row = \<lparr>gm_ID = 1, gm_DiscordID = ''42'', gm_Username = ''budi'', gm_Tier = ''buyer'', gm_AccountAgeDays = 12,
     gm_Restricted = False, gm_CreatedAt = 0, gm_UpdatedAt = 0\<rparr>"

definition sample_tab :: guild_tab where
  "sample_tab = \<lparr>gt_Rows = [sample_row], gt_Faults = [], gt_Clock = 0\<rparr>"

theorem verify_stores_witness:
  "member_map (gt_Rows (snd (Verify (member_repo_of tab_store 0) ''42'' None 12 sample_tab))) = member_map (gt_Rows sample_tab)"
proof -
  obtain r w' where v: "Verify (member_repo_of tab_store 0) ''42'' None 12 sample_tab = (r, w')"
    by (cases "Verify (member_repo_of tab_store 0) ''42'' None 12 sample_tab")
  have "rows_ok (gt_Rows sample_tab)" by (simp add: rows_ok_def sample_tab_def)
  from verify_stores [OF this v] v show ?thesis by (simp add: Let_def DecideVerification_def decision_def)
qed

end
