(* ===== verification/Boot.thy ===== *)
theory Boot
  imports Config Storage Auth TicketRepo MemberService
begin

text \<open>
  Start-up: the database connection (infrastructure/database), the Redis connection
  (infrastructure/redis), the wiring of the services (boot/boot.go) and the lock that keeps
  two bot processes apart (modules/discordbot/lock.go). The drivers, gorm and the Redis client
  are parameters; what the services send through a gorm handle is the record \<open>gorm_api\<close>. The
  metrics goroutine and the logger are left out.
\<close>

section \<open>Database\<close>

record ('c, 'g, 'w) sql_lib =
  sl_Open :: "string \<Rightarrow> string \<Rightarrow> ('w, string, 'c) sop"
  sl_SetPool :: "'c \<Rightarrow> int \<Rightarrow> int \<Rightarrow> duration \<Rightarrow> 'w \<Rightarrow> 'w"
  sl_Ping :: "'c \<Rightarrow> duration \<Rightarrow> ('w, string, unit) sop"
  sl_Close :: "'c \<Rightarrow> ('w, string, unit) sop"
  gl_Open :: "string \<Rightarrow> 'c \<Rightarrow> ('w, string, 'g) sop"
  gl_OpenSQLite :: "string \<Rightarrow> ('w, string, 'g) sop"
  gl_DB :: "'g \<Rightarrow> ('w, string, 'c) sop"
  gl_Exec :: "'g \<Rightarrow> string \<Rightarrow> ('w, string, unit) sop"

record ('c, 'g) HandlerDatabase =
  hd_DB :: 'g
  hd_sql :: 'c

text \<open>\<open>_ = db.Close()\<close> on the way out with an error.\<close>

definition failing_close :: "('w, string, unit) sop \<Rightarrow> string \<Rightarrow> ('w, string, 'a) sop" where
  "failing_close close e w = (Inl e, snd (close w))"

definition applyPoolConfig :: "('c, 'g, 'w) sql_lib \<Rightarrow> 'c \<Rightarrow> DatabaseConfig \<Rightarrow> 'w \<Rightarrow> 'w" where
  "applyPoolConfig lib sqlDB cfg = sl_SetPool lib sqlDB (dc_MaxOpenConns cfg) (dc_MaxIdleConns cfg) (dc_ConnMaxLifetime cfg)"

definition ping :: "('c, 'g, 'w) sql_lib \<Rightarrow> 'c \<Rightarrow> ('w, string, unit) sop" where
  "ping lib sqlDB = sl_Ping lib sqlDB (5 * Second)"

text \<open>\<open>newPostgres\<close> and \<open>newMySQL\<close>, which differ in the driver only.\<close>

definition newServer :: "string \<Rightarrow> ('c, 'g, 'w) sql_lib \<Rightarrow> DatabaseConfig \<Rightarrow> ('w, string, ('c, 'g) HandlerDatabase) sop" where
  "newServer driver lib cfg =
     sbind (sl_Open lib driver (DSN cfg)) (\<lambda>sqlDB w.
       (case ping lib sqlDB (applyPoolConfig lib sqlDB cfg w) of
          (Inl e, w1) \<Rightarrow> failing_close (sl_Close lib sqlDB) e w1
        | (Inr _, w1) \<Rightarrow>
            (case gl_Open lib driver sqlDB w1 of
               (Inl e, w2) \<Rightarrow> failing_close (sl_Close lib sqlDB) e w2
             | (Inr gdb, w2) \<Rightarrow> (Inr \<lparr>hd_DB = gdb, hd_sql = sqlDB\<rparr>, w2))))"

definition newPostgres :: "('c, 'g, 'w) sql_lib \<Rightarrow> DatabaseConfig \<Rightarrow> ('w, string, ('c, 'g) HandlerDatabase) sop" where
  "newPostgres = newServer ''postgres''"

definition newMySQL :: "('c, 'g, 'w) sql_lib \<Rightarrow> DatabaseConfig \<Rightarrow> ('w, string, ('c, 'g) HandlerDatabase) sop" where
  "newMySQL = newServer ''mysql''"

definition newSQLite :: "('c, 'g, 'w) sql_lib \<Rightarrow> DatabaseConfig \<Rightarrow> ('w, string, ('c, 'g) HandlerDatabase) sop" where
  "newSQLite lib cfg =
     sbind (gl_OpenSQLite lib (DSN cfg)) (\<lambda>gdb.
     sbind (gl_DB lib gdb) (\<lambda>sqlDB w.
       (case gl_Exec lib gdb ''PRAGMA journal_mode=WAL'' (sl_SetPool lib sqlDB 1 1 0 w) of
          (Inl e, w1) \<Rightarrow> failing_close (sl_Close lib sqlDB) e w1
        | (Inr _, w1) \<Rightarrow>
            (case gl_Exec lib gdb ''PRAGMA foreign_keys=ON'' w1 of
               (Inl e, w2) \<Rightarrow> failing_close (sl_Close lib sqlDB) e w2
             | (Inr _, w2) \<Rightarrow> (Inr \<lparr>hd_DB = gdb, hd_sql = sqlDB\<rparr>, w2)))))"

definition NewDatabase :: "('c, 'g, 'w) sql_lib \<Rightarrow> DatabaseConfig \<Rightarrow> ('w, string, ('c, 'g) HandlerDatabase) sop" where
  "NewDatabase lib cfg =
     (if dc_Driver cfg = ''postgres'' then newPostgres lib cfg
      else if dc_Driver cfg = ''mysql'' then newMySQL lib cfg
      else if dc_Driver cfg = ''sqlite'' then newSQLite lib cfg
      else sfail (''unsupported database driver: '' @ dc_Driver cfg))"

definition CloseDatabase :: "('c, 'g, 'w) sql_lib \<Rightarrow> ('c, 'g) HandlerDatabase option \<Rightarrow> ('w, string, unit) sop" where
  "CloseDatabase lib h = (case h of None \<Rightarrow> sret () | Some h \<Rightarrow> sl_Close lib (hd_sql h))"

section \<open>Redis\<close>

record ('r, 'w) redis_lib =
  rl_NewClient :: "string \<Rightarrow> string \<Rightarrow> int \<Rightarrow> 'w \<Rightarrow> 'r \<times> 'w"
  rl_Ping :: "'r \<Rightarrow> duration \<Rightarrow> ('w, string, unit) sop"
  rl_Close :: "'r \<Rightarrow> ('w, string, unit) sop"
  rl_Commands :: "'r \<Rightarrow> 'w redis_client"

definition NewRedisClient :: "('r, 'w) redis_lib \<Rightarrow> RedisConfig \<Rightarrow> ('w, string, 'r) sop" where
  "NewRedisClient lib cfg w =
     (case rl_NewClient lib (rc_Addr cfg) (rc_Password cfg) (rc_DB cfg) w of (client, w1) \<Rightarrow>
        (case rl_Ping lib client (3 * Second) w1 of
           (Inl e, w2) \<Rightarrow> failing_close (rl_Close lib client) e w2
         | (Inr _, w2) \<Rightarrow> (Inr client, w2)))"

definition CloseRedis :: "('r, 'w) redis_lib \<Rightarrow> 'r option \<Rightarrow> ('w, string, unit) sop" where
  "CloseRedis lib c = (case c of None \<Rightarrow> sret () | Some client \<Rightarrow> rl_Close lib client)"

section \<open>Wiring\<close>

text \<open>The statements of the repositories over one gorm handle.\<close>

record 'w gorm_api =
  ga_accounts :: "'w account_store"
  ga_auth :: "'w auth_store"
  ga_uploads :: "'w upload_store"
  ga_tickets :: "'w store"
  ga_members :: "'w mstore"
  ga_ping :: "('w, string, unit) sop"

datatype ('b, 'w) rate_limiter = LocalLimiter "'b LocalRateLimiter" | RedisLimiter "'w RedisRateLimiter"

text \<open>The process environment of the services: libraries that need no connection.\<close>

record 'w process_libs =
  pl_bcrypt :: "'w bcrypt"
  pl_Now :: "'w \<Rightarrow> instant"
  pl_NewID :: "'w \<Rightarrow> uuid \<times> 'w"
  pl_Signed :: "string \<Rightarrow> SignedClaims \<Rightarrow> (string, string) result"
  pl_Parsed :: "string \<Rightarrow> token_service"
  pl_sha256 :: "string \<Rightarrow> string"
  pl_files :: "'w filesys"

record ('b, 'w) HandlerSetup =
  hs_Config :: Config
  hs_Limiter :: "('b, 'w) rate_limiter"
  hs_Token :: "'w jwt_service"
  hs_Auth :: "'w auth_service"
  hs_Accounts :: "'w account_store"
  hs_Health :: "'w health_service"
  hs_Upload :: "'w upload_service"
  hs_Tickets :: "instant \<Rightarrow> 'w repo"
  hs_Members :: "instant \<Rightarrow> 'w mrepo"

definition NewTokenService :: "'w process_libs \<Rightarrow> string \<Rightarrow> duration \<Rightarrow> duration \<Rightarrow> 'w jwt_service" where
  "NewTokenService pl secret accessTTL refreshTTL =
     \<lparr>jw_accessTTL = accessTTL, jw_refreshTTL = refreshTTL, jw_Now = pl_Now pl, jw_NewID = pl_NewID pl, jw_Signed = pl_Signed pl secret\<rparr>"

text \<open>\<open>int(x)\<close> of a float.\<close>

definition int_of_float :: "rat \<Rightarrow> int" where
  "int_of_float x = (if 0 \<le> x then \<lfloor>x\<rfloor> else \<lceil>x\<rceil>)"

definition choose_limiter :: "Config \<Rightarrow> ('r, 'w) redis_lib \<Rightarrow> 'r option \<Rightarrow> ('b, 'w) rate_limiter" where
  "choose_limiter cfg rlib redisClient =
     (case redisClient of
        Some client \<Rightarrow>
          if lc_Backend (cf_RateLimit cfg) = ''redis''
          then RedisLimiter (NewRedisRateLimiter (Some (rl_Commands rlib client)) (int_of_float (lc_RPS (cf_RateLimit cfg))) Second)
          else LocalLimiter (NewLocalRateLimiter (lc_RPS (cf_RateLimit cfg)) (lc_Burst (cf_RateLimit cfg)))
      | None \<Rightarrow> LocalLimiter (NewLocalRateLimiter (lc_RPS (cf_RateLimit cfg)) (lc_Burst (cf_RateLimit cfg))))"

definition wire :: "'w process_libs \<Rightarrow> Config \<Rightarrow> ('b, 'w) rate_limiter \<Rightarrow> 'w gorm_api \<Rightarrow> ('b, 'w) HandlerSetup" where
  "wire pl cfg limiter ga =
     (let tokenService = NewTokenService pl (jc_Secret (cf_JWT cfg)) (jc_AccessTTL (cf_JWT cfg)) (jc_RefreshTTL (cf_JWT cfg)) in
      \<lparr>hs_Config = cfg, hs_Limiter = limiter, hs_Token = tokenService,
       hs_Auth = \<lparr>sv_repository = ga_auth ga, sv_users = ga_accounts ga, sv_bcrypt = pl_bcrypt pl, sv_token = tokenService,
         sv_parse = pl_Parsed pl (jc_Secret (cf_JWT cfg)), sv_sha256 = pl_sha256 pl\<rparr>,
       hs_Accounts = ga_accounts ga, hs_Health = \<lparr>hs_Ping = ga_ping ga, hs_gateway = None\<rparr>,
       hs_Upload = \<lparr>ups_repository = ga_uploads ga, ups_files = pl_files pl, ups_root = stc_LocalDir (cf_Storage cfg), ups_maxBytes = cf_MaxBodyBytes cfg\<rparr>,
       hs_Tickets = gorm_repo (ga_tickets ga), hs_Members = member_repo_of (ga_members ga)\<rparr>)"

text \<open>The result carries the handles that \<open>cleanup\<close> closes.\<close>

definition MakeHandler :: "('c, 'g, 'w) sql_lib \<Rightarrow> ('r, 'w) redis_lib \<Rightarrow> 'w process_libs \<Rightarrow> ('g \<Rightarrow> 'w gorm_api) \<Rightarrow> Config \<Rightarrow>
    ('w, string, ('b, 'w) HandlerSetup \<times> 'r option \<times> ('c, 'g) HandlerDatabase) sop" where
  "MakeHandler slib rlib pl api cfg =
     sbind (NewDatabase slib (cf_Database cfg)) (\<lambda>gdb w.
       (case (if rc_Enable (cf_Redis cfg) then sbind (NewRedisClient rlib (cf_Redis cfg)) (\<lambda>c. sret (Some c)) w else sret None w) of
          (Inl e, w1) \<Rightarrow> failing_close (CloseDatabase slib (Some gdb)) e w1
        | (Inr redisClient, w1) \<Rightarrow>
            (Inr (wire pl cfg (choose_limiter cfg rlib redisClient) (api (hd_DB gdb)), redisClient, gdb), w1)))"

definition cleanup :: "('c, 'g, 'w) sql_lib \<Rightarrow> ('r, 'w) redis_lib \<Rightarrow> 'r option \<Rightarrow> ('c, 'g) HandlerDatabase \<Rightarrow> 'w \<Rightarrow> 'w" where
  "cleanup slib rlib redisClient gdb w =
     (let w1 = snd (CloseRedis rlib redisClient w) in snd (CloseDatabase slib (Some gdb) w1))"

section \<open>The process lock\<close>

record ('f, 'w) lock_lib =
  kl_MkdirAll :: "string \<Rightarrow> ('w, string, unit) sop"
  kl_Open :: "string \<Rightarrow> ('w, string, 'f) sop"
  kl_Flock :: "'f \<Rightarrow> 'w \<Rightarrow> (bool \<times> string) option \<times> 'w"
  kl_Unlock :: "'f \<Rightarrow> 'w \<Rightarrow> 'w"
  kl_Close :: "'f \<Rightarrow> 'w \<Rightarrow> 'w"
  kl_Record :: "'f \<Rightarrow> 'w \<Rightarrow> 'w"

record 'f processLock =
  pk_path :: string
  pk_file :: 'f

text \<open>
  \<open>kl_Flock\<close> is the non-blocking exclusive lock; its error says whether somebody else holds
  it. Writing the record (kind, process id, time) into the file ignores every error.
\<close>

definition acquireBotLock :: "('f, 'w) lock_lib \<Rightarrow> string \<Rightarrow> ('w, string, 'f processLock) sop" where
  "acquireBotLock lib dir =
     sbind (kl_MkdirAll lib dir) (\<lambda>_.
       let path = Join2 dir ''bot.lock'' in
       sbind (kl_Open lib path) (\<lambda>f w.
         (case kl_Flock lib f w of
            (Some (held, e), w1) \<Rightarrow>
              (Inl (if held then ''another bot process already holds bot.lock'' else e), kl_Close lib f w1)
          | (None, w1) \<Rightarrow> (Inr \<lparr>pk_path = path, pk_file = f\<rparr>, kl_Record lib f w1))))"

definition release :: "('f, 'w) lock_lib \<Rightarrow> 'f processLock option \<Rightarrow> 'w \<Rightarrow> 'w" where
  "release lib l w = (case l of None \<Rightarrow> w | Some l \<Rightarrow> kl_Close lib (pk_file l) (kl_Unlock lib (pk_file l) w))"

section \<open>Connections\<close>

locale connections =
  fixes slib :: "('c, 'g, 'w) sql_lib" and rlib :: "('r, 'w) redis_lib"
    and opened :: "'w \<Rightarrow> 'c set" and clients :: "'w \<Rightarrow> 'r set" and conn :: "'g \<Rightarrow> 'c"
  assumes Open: "\<And>d n w r w'. sl_Open slib d n w = (r, w') \<Longrightarrow> clients w' = clients w \<and>
      (case r of Inr c \<Rightarrow> c \<notin> opened w \<and> opened w' = insert c (opened w) | Inl _ \<Rightarrow> opened w' = opened w)"
    and SetPool: "\<And>c a b d w. opened (sl_SetPool slib c a b d w) = opened w \<and> clients (sl_SetPool slib c a b d w) = clients w"
    and Ping: "\<And>c d w r w'. sl_Ping slib c d w = (r, w') \<Longrightarrow> opened w' = opened w \<and> clients w' = clients w"
    and Close: "\<And>c w. opened (snd (sl_Close slib c w)) = opened w - {c} \<and> clients (snd (sl_Close slib c w)) = clients w"
    and GormOpen: "\<And>d c w r w'. gl_Open slib d c w = (r, w') \<Longrightarrow> opened w' = opened w \<and> clients w' = clients w"
    and OpenSQLite: "\<And>n w r w'. gl_OpenSQLite slib n w = (r, w') \<Longrightarrow> clients w' = clients w \<and>
      (case r of Inr g \<Rightarrow> conn g \<notin> opened w \<and> opened w' = insert (conn g) (opened w) | Inl _ \<Rightarrow> opened w' = opened w)"
    and DB: "\<And>g w r w'. gl_DB slib g w = (r, w') \<Longrightarrow> r = Inr (conn g) \<and> opened w' = opened w \<and> clients w' = clients w"
    and Exec: "\<And>g q w r w'. gl_Exec slib g q w = (r, w') \<Longrightarrow> opened w' = opened w \<and> clients w' = clients w"
    and NewClient: "\<And>a p n w c w'. rl_NewClient rlib a p n w = (c, w') \<Longrightarrow>
      opened w' = opened w \<and> c \<notin> clients w \<and> clients w' = insert c (clients w)"
    and RedisPing: "\<And>c d w r w'. rl_Ping rlib c d w = (r, w') \<Longrightarrow> opened w' = opened w \<and> clients w' = clients w"
    and RedisClose: "\<And>c w. clients (snd (rl_Close rlib c w)) = clients w - {c} \<and> opened (snd (rl_Close rlib c w)) = opened w"
begin

lemma newServer_open:
  assumes "newServer driver slib cfg w = (r, w')"
  shows "clients w' = clients w \<and> (case r of Inl e \<Rightarrow> opened w' = opened w
    | Inr h \<Rightarrow> hd_sql h \<notin> opened w \<and> opened w' = insert (hd_sql h) (opened w))"
proof -
  obtain q w1 where o: "sl_Open slib driver (DSN cfg) w = (q, w1)" by (cases "sl_Open slib driver (DSN cfg) w")
  show ?thesis
  proof (cases q)
    case (Inl e)
    with assms o Open [OF o] show ?thesis by (auto simp: newServer_def sbind_def)
  next
    case (Inr c)
    let ?w2 = "applyPoolConfig slib c cfg w1"
    obtain p w3 where p: "ping slib c ?w2 = (p, w3)" by (cases "ping slib c ?w2")
    obtain g w4 where g: "gl_Open slib driver c w3 = (g, w4)" by (cases "gl_Open slib driver c w3")
    have k: "opened w3 = insert c (opened w)" "clients w3 = clients w" "c \<notin> opened w"
      using Open [OF o] Inr Ping [OF p [unfolded ping_def]] SetPool by (simp_all add: applyPoolConfig_def)
    with assms o Inr p g GormOpen [OF g] Close show ?thesis
      by (cases p; cases g) (auto simp: newServer_def sbind_def failing_close_def)
  qed
qed

lemma newSQLite_open:
  assumes "newSQLite slib cfg w = (r, w')"
  shows "clients w' = clients w \<and> (case r of Inl e \<Rightarrow> opened w' = opened w
    | Inr h \<Rightarrow> hd_sql h \<notin> opened w \<and> opened w' = insert (hd_sql h) (opened w))"
proof -
  obtain q w1 where o: "gl_OpenSQLite slib (DSN cfg) w = (q, w1)" by (cases "gl_OpenSQLite slib (DSN cfg) w")
  show ?thesis
  proof (cases q)
    case (Inl e)
    with assms o OpenSQLite [OF o] show ?thesis by (auto simp: newSQLite_def sbind_def)
  next
    case (Inr g)
    obtain d w2 where d: "gl_DB slib g w1 = (d, w2)" by (cases "gl_DB slib g w1")
    have dc: "d = Inr (conn g)" using DB [OF d] by simp
    let ?w3 = "sl_SetPool slib (conn g) 1 1 0 w2"
    obtain a w4 where a: "gl_Exec slib g ''PRAGMA journal_mode=WAL'' ?w3 = (a, w4)" by (cases "gl_Exec slib g ''PRAGMA journal_mode=WAL'' ?w3")
    obtain b w5 where b: "gl_Exec slib g ''PRAGMA foreign_keys=ON'' w4 = (b, w5)" by (cases "gl_Exec slib g ''PRAGMA foreign_keys=ON'' w4")
    have k: "opened w4 = insert (conn g) (opened w)" "clients w4 = clients w" "conn g \<notin> opened w"
      using OpenSQLite [OF o] Inr DB [OF d] Exec [OF a] SetPool by simp_all
    have eq: "(r, w') = (case a of Inl e \<Rightarrow> (Inl e, snd (sl_Close slib (conn g) w4)) | Inr _ \<Rightarrow>
        (case b of Inl e \<Rightarrow> (Inl e, snd (sl_Close slib (conn g) w5)) | Inr _ \<Rightarrow> (Inr \<lparr>hd_DB = g, hd_sql = conn g\<rparr>, w5)))"
      using assms by (simp add: newSQLite_def sbind_def failing_close_def o Inr d dc a b split: sum.splits)
    with k Exec [OF b] Close show ?thesis by (auto split: sum.splits)
  qed
qed

lemma NewDatabase_open:
  "NewDatabase slib cfg w = (r, w') \<Longrightarrow> clients w' = clients w \<and> (case r of Inl e \<Rightarrow> opened w' = opened w
    | Inr h \<Rightarrow> hd_sql h \<notin> opened w \<and> opened w' = insert (hd_sql h) (opened w))"
  by (auto simp: NewDatabase_def newPostgres_def newMySQL_def dest!: newServer_open newSQLite_open split: if_splits)

lemma NewRedisClient_open:
  "NewRedisClient rlib cfg w = (r, w') \<Longrightarrow> opened w' = opened w \<and> (case r of Inl e \<Rightarrow> clients w' = clients w
    | Inr c \<Rightarrow> c \<notin> clients w \<and> clients w' = insert c (clients w))"
  using RedisClose by (auto simp: NewRedisClient_def failing_close_def dest!: NewClient RedisPing split: prod.splits sum.splits)

lemma cleanup_closes:
  "opened (cleanup slib rlib rc h v) = opened v - {hd_sql h} \<and>
   clients (cleanup slib rlib rc h v) = (case rc of None \<Rightarrow> clients v | Some c \<Rightarrow> clients v - {c})"
  using Close RedisClose by (auto simp: cleanup_def CloseDatabase_def CloseRedis_def Let_def split: option.split)

lemma MakeHandler_conns:
  assumes "MakeHandler slib rlib pl api cfg w = (r, w')"
  shows "case r of
      Inl e \<Rightarrow> opened w' = opened w \<and> clients w' = clients w
    | Inr (hs, rc, h) \<Rightarrow> hd_sql h \<notin> opened w \<and> opened w' = insert (hd_sql h) (opened w) \<and> (rc \<noteq> None) = rc_Enable (cf_Redis cfg) \<and>
        opened (cleanup slib rlib rc h w') = opened w \<and> clients (cleanup slib rlib rc h w') = clients w"
proof -
  obtain q w1 where d: "NewDatabase slib (cf_Database cfg) w = (q, w1)" by (cases "NewDatabase slib (cf_Database cfg) w")
  note nd = NewDatabase_open [OF d]
  have close: "opened (snd (sl_Close slib c v)) = opened v - {c}" "clients (snd (sl_Close slib c v)) = clients v" for c v
    using Close by blast+
  show ?thesis
  proof (cases q)
    case (Inl e)
    with assms d nd show ?thesis by (auto simp: MakeHandler_def sbind_def)
  next
    case (Inr h)
    show ?thesis
    proof (cases "rc_Enable (cf_Redis cfg)")
      case False
      with assms d Inr nd cleanup_closes show ?thesis
        by (auto simp: MakeHandler_def sbind_def)
    next
      case True
      obtain p w2 where p: "NewRedisClient rlib (cf_Redis cfg) w1 = (p, w2)" by (cases "NewRedisClient rlib (cf_Redis cfg) w1")
      note nr = NewRedisClient_open [OF p]
      show ?thesis
      proof (cases p)
        case (Inl e)
        with assms d Inr True p have "r = Inl e" "w' = snd (sl_Close slib (hd_sql h) w2)"
          by (simp_all add: MakeHandler_def sbind_def failing_close_def CloseDatabase_def)
        with nd nr Inl Inr close show ?thesis by auto
      next
        case ok: (Inr c)
        with assms d Inr True p nd nr cleanup_closes show ?thesis
          by (auto simp: MakeHandler_def sbind_def)
      qed
    qed
  qed
qed

end


section \<open>Connections by number\<close>

record conn_world =
  cw_Open :: "nat list"
  cw_Clients :: "nat list"
  cw_Next :: nat
  cw_Faults :: "bool list"

definition conn_op :: "(conn_world \<Rightarrow> (string, 'a) result \<times> conn_world) \<Rightarrow> (conn_world, string, 'a) sop" where
  "conn_op f w = (case cw_Faults w of [] \<Rightarrow> f w
     | b # fs \<Rightarrow> if b then (Inl ''connection refused'', w\<lparr>cw_Faults := fs\<rparr>) else f (w\<lparr>cw_Faults := fs\<rparr>))"

definition fresh_conn :: "conn_world \<Rightarrow> nat" where
  "fresh_conn w = fresh_id (cw_Next w # cw_Open w @ cw_Clients w)"

definition num_sql :: "(nat, nat, conn_world) sql_lib" where
  "num_sql = \<lparr>sl_Open = (\<lambda>d n. conn_op (\<lambda>w. (Inr (fresh_conn w), w\<lparr>cw_Open := fresh_conn w # cw_Open w\<rparr>))),
     sl_SetPool = (\<lambda>c a b d w. w), sl_Ping = (\<lambda>c d. conn_op (sret ())),
     sl_Close = (\<lambda>c w. (Inr (), w\<lparr>cw_Open := removeAll c (cw_Open w)\<rparr>)), gl_Open = (\<lambda>d c. conn_op (sret c)),
     gl_OpenSQLite = (\<lambda>n. conn_op (\<lambda>w. (Inr (fresh_conn w), w\<lparr>cw_Open := fresh_conn w # cw_Open w\<rparr>))),
     gl_DB = (\<lambda>g. sret g), gl_Exec = (\<lambda>g q. conn_op (sret ()))\<rparr>"

definition num_redis :: "(nat, conn_world) redis_lib" where
  "num_redis = \<lparr>rl_NewClient = (\<lambda>a p n w. (fresh_conn w, w\<lparr>cw_Clients := fresh_conn w # cw_Clients w\<rparr>)),
     rl_Ping = (\<lambda>c d. conn_op (sret ())), rl_Close = (\<lambda>c w. (Inr (), w\<lparr>cw_Clients := removeAll c (cw_Clients w)\<rparr>)),
     rl_Commands = (\<lambda>c. \<lparr>rd_Incr = (\<lambda>k. conn_op (sret 1)), rd_Expire = (\<lambda>k d. conn_op (sret ()))\<rparr>)\<rparr>"

lemma fresh_conn_new: "fresh_conn w \<notin> set (cw_Open w)" "fresh_conn w \<notin> set (cw_Clients w)"
  using fresh_id_new [of "fresh_conn w" "cw_Next w # cw_Open w @ cw_Clients w"] by (auto simp: fresh_conn_def)

lemma conn_op_cases:
  assumes "conn_op f w = (r, w')"
  obtains (fault) fs where "r = Inl ''connection refused''" "w' = w\<lparr>cw_Faults := fs\<rparr>"
    | (run) fs where "f (w\<lparr>cw_Faults := fs\<rparr>) = (r, w')"
proof (cases "cw_Faults w")
  case Nil
  then have "f w = (r, w')" using assms by (simp add: conn_op_def)
  moreover have "w\<lparr>cw_Faults := cw_Faults w\<rparr> = w" by simp
  ultimately show thesis using run [of "cw_Faults w"] by (simp only:)
next
  case (Cons b fs)
  with assms show thesis by (cases b) (auto simp: conn_op_def intro: fault run)
qed

lemma fresh_conn_faults [simp]: "fresh_conn (w\<lparr>cw_Faults := fs\<rparr>) = fresh_conn w"
  by (simp add: fresh_conn_def)

interpretation nums: connections num_sql num_redis "\<lambda>w. set (cw_Open w)" "\<lambda>w. set (cw_Clients w)" "\<lambda>g. g"
  by unfold_locales
    (auto simp: num_sql_def num_redis_def fresh_conn_new elim!: conn_op_cases)

definition num_api :: "nat \<Rightarrow> conn_world gorm_api" where
  "num_api g = \<lparr>ga_accounts = \<lparr>db_FirstUser = (\<lambda>cl. sfail NoRecord), db_FindUsers = (\<lambda>cl n. sret []), db_CreateUser = sret,
       db_FindAudit = (\<lambda>cl n. sret []), db_CreateAudit = (\<lambda>l. sret ())\<rparr>,
     ga_auth = \<lparr>as_FirstUser = (\<lambda>e. sfail NoRecord), as_CreateToken = (\<lambda>t. sret ()), as_FirstToken = (\<lambda>h. sfail NoRecord),
       as_RevokeToken = (\<lambda>h. sret 0), as_RevokeUser = (\<lambda>u. sret ())\<rparr>,
     ga_uploads = \<lparr>up_Create = sret, up_First = (\<lambda>i. sfail NoRecord)\<rparr>,
     ga_tickets = \<lparr>st_First = (\<lambda>P. sfail NoRecord), st_Create = (\<lambda>t. sret ()), st_Save = (\<lambda>t. sret ()), st_Find = (\<lambda>P key. sret []),
       st_FirstCounter = sfail NoRecord, st_CreateCounter = (\<lambda>c. sret ()), st_SaveCounter = (\<lambda>c. sret ()), st_FindOut = (\<lambda>P key. sret []),
       st_CountOut = (\<lambda>P. sret 0), st_CreateOut = (\<lambda>x. sret ()), st_Begin = sret (), st_Commit = sret (), st_Rollback = sret ()\<rparr>,
     ga_members = \<lparr>ms_First = (\<lambda>i. sfail NoRecord), ms_Create = sret, ms_Save = sret, ms_Delete = (\<lambda>i. sret ()), ms_Find = (\<lambda>key. sret [])\<rparr>,
     ga_ping = conn_op (sret ())\<rparr>"

definition num_libs :: "conn_world process_libs" where
  "num_libs = \<lparr>pl_bcrypt = \<lparr>bc_Generate = (\<lambda>p. sret p), bc_Compare = (=)\<rparr>, pl_Now = (\<lambda>w. 0), pl_NewID = (\<lambda>w. ([], w)),
     pl_Signed = (\<lambda>s c. Inr s), pl_Parsed = (\<lambda>s. \<lparr>ts_verify = (\<lambda>t. None), ts_hmac = (\<lambda>t. True)\<rparr>), pl_sha256 = (\<lambda>t. t),
     pl_files = \<lparr>fs_Getwd = (\<lambda>w. Inr ''/srv''), fs_MkdirAll = (\<lambda>d. sret ()), fs_CreateExcl = (\<lambda>p. sret ()),
       fs_Write = (\<lambda>p x. sret ()), fs_NewID = (\<lambda>w. ([], w)), fs_CtxErr = (\<lambda>w. None)\<rparr>\<rparr>"


end
