(* ===== verification/Lifecycle.thy ===== *)
theory Lifecycle
  imports Withdrawal
begin

text \<open>
  The life of one ticket: the records that creation and any sequence of the record operations
  (record.go, withdrawal.go) can produce, as a step relation, and what holds of all of them.
  A step is one successful operation by an admin who is not the opener (the service checks
  this before every operation), at a clock reading, with text in valid UTF-8.
\<close>

datatype command =
    DoClaim
  | DoHandoff string string
  | DoResolve string
  | DoMove string
  | DoApprove
  | DoPay string "Record list"
  | DoSeller string string

fun run :: "command \<Rightarrow> string \<Rightarrow> instant \<Rightarrow> Record \<Rightarrow> Record tres" where
  "run DoClaim a now rec = Claim rec a now"
| "run (DoHandoff target reason) a now rec = Handoff rec a target reason now"
| "run (DoResolve note) a now rec = SetResolution rec a note now"
| "run (DoMove dst) a now rec = Transition rec a dst now"
| "run DoApprove a now rec = ApproveWithdrawal rec a (format_milli now)"
| "run (DoPay reference others) a now rec = RecordWithdrawalPayment rec a (format_milli now) reference others"
| "run (DoSeller reason mem) a now rec = ApproveSeller rec a reason mem now"

fun utf8_input :: "command \<Rightarrow> bool" where
  "utf8_input (DoHandoff target reason) = valid_utf8 reason"
| "utf8_input (DoResolve note) = valid_utf8 note"
| "utf8_input (DoSeller reason mem) = valid_utf8 reason"
| "utf8_input _ = True"

definition created :: "Record \<Rightarrow> bool" where
  "created rec \<longleftrightarrow> (\<exists>i ty code region opener tag thread data wd now.
     rec = NewRecord i ty code region (WorkflowForType ty) opener tag thread data wd now \<and>
     TypeByKey ty \<noteq> None \<and> clock_ok now \<and>
     (case wd of None \<Rightarrow> ty \<noteq> ''withdraw''
      | Some w \<Rightarrow> ty = ''withdraw'' \<and> withdrawal_ok w \<and> wd_Approval w = None \<and> wd_Outgoing w = None))"

inductive tstep :: "Record \<Rightarrow> Record \<Rightarrow> bool" where
  tstep: "run c a now rec = Inr rec' \<Longrightarrow> a \<noteq> [] \<Longrightarrow> a \<noteq> r_OpenerID rec \<Longrightarrow> clock_ok now \<Longrightarrow>
    utf8_input c \<Longrightarrow> tstep rec rec'"

inductive_cases tstepE: "tstep rec rec'"

inductive reachable :: "Record \<Rightarrow> bool" where
  init: "created rec \<Longrightarrow> reachable rec"
| step: "reachable rec \<Longrightarrow> tstep rec rec' \<Longrightarrow> reachable rec'"

section \<open>One step\<close>

text \<open>The part of a record that no operation changes.\<close>

definition identity :: "Record \<Rightarrow> string list \<times> (string, string) gomap" where
  "identity rec = ([r_ID rec, r_Type rec, r_Code rec, r_Region rec, r_Workflow rec, r_OpenerID rec,
     r_OpenerTag rec, r_ThreadID rec, r_OpenedAt rec, r_SummaryMsgID rec], r_Data rec)"

definition outgoing :: "Record \<Rightarrow> OutgoingPayment option" where
  "outgoing rec = Option.bind (r_Withdrawal rec) wd_Outgoing"

lemma run_frame:
  assumes "run c a now rec = Inr rec'"
  shows "identity rec' = identity rec"
    and "\<exists>e. r_History rec' = r_History rec @ [e] \<and> ev_By e = a \<and> ev_At e = format_milli now \<and>
      (ev_Event e = ''withdraw.paid'' \<longleftrightarrow> outgoing rec = None \<and> outgoing rec' \<noteq> None)"
proof -
  show "identity rec' = identity rec"
    using assms by (cases c) (auto simp: all_ops_Inr identity_def)
  have neq: "event at (''status:'' @ s) b \<noteq> x" if "ev_Event x = ''withdraw.paid''" for at s b x
    using that by (auto simp: event_def)
  show "\<exists>e. r_History rec' = r_History rec @ [e] \<and> ev_By e = a \<and> ev_At e = format_milli now \<and>
      (ev_Event e = ''withdraw.paid'' \<longleftrightarrow> outgoing rec = None \<and> outgoing rec' \<noteq> None)"
    using assms by (cases c) (auto simp: all_ops_Inr outgoing_def event_def)
qed

text \<open>
  C12: The history of a ticket only grows. Every operation that succeeds keeps the whole
  history and adds one event, signed by the acting admin and stamped with the time of the
  operation, and it leaves the identity of the ticket (id, type, code, region, workflow,
  opener, thread, opening time, form data) untouched.
\<close>

theorem history_append_only:
  assumes "run c a now rec = Inr rec'"
  shows "(\<exists>e. r_History rec' = r_History rec @ [e] \<and> ev_By e = a \<and> ev_At e = format_milli now) \<and>
    identity rec' = identity rec"
  using run_frame [OF assms] by blast

lemma sample_claim: "run DoClaim ''7'' 1700000000000000000 (sample ''general'' ''support-v1'' ''open'') =
    Inr ((sample ''general'' ''support-v1'' ''open'')\<lparr>r_AssignedTo := Some ''7'',
      r_History := r_History (sample ''general'' ''support-v1'' ''open'') @ [event (format_milli 1700000000000000000) ''claimed'' ''7'']\<rparr>)"
  by (simp add: Claim_Inr)

theorem history_append_only_witness:
  "\<exists>rec'. Claim (sample ''general'' ''support-v1'' ''open'') ''7'' 1700000000000000000 = Inr rec' \<and>
     (\<exists>e. r_History rec' = r_History (sample ''general'' ''support-v1'' ''open'') @ [e] \<and> ev_By e = ''7'')"
  using history_append_only [OF sample_claim] sample_claim by auto

section \<open>The invariant\<close>

definition status_known :: "Record \<Rightarrow> bool" where
  "status_known rec \<longleftrightarrow> (\<exists>w. WorkflowForTicket (r_Type rec) (r_Workflow rec) (r_Status rec) = Some w \<and>
     r_Status rec \<in> set (keys w))"

definition closed_ok :: "Record \<Rightarrow> bool" where
  "closed_ok rec \<longleftrightarrow> (if Closed rec then resolved rec \<and> r_ClosedAt rec \<noteq> [] else r_ClosedAt rec = [])"

definition money_ok :: "Record \<Rightarrow> bool" where
  "money_ok rec \<longleftrightarrow>
     (r_Withdrawal rec \<noteq> None \<longleftrightarrow> r_Type rec = ''withdraw'') \<and>
     (r_Type rec = ''withdraw'' \<longrightarrow> r_Workflow rec = WorkflowWithdrawal) \<and>
     (\<forall>wd. r_Withdrawal rec = Some wd \<longrightarrow> withdrawal_ok wd \<and> wd_SellerID wd = r_OpenerID rec \<and>
       (\<forall>out. wd_Outgoing wd = Some out \<longrightarrow>
          out = outgoing_of rec wd (op_Reference out) (op_By out) (op_At out) \<and>
          ref_ok (op_Reference out) \<and> op_By out \<noteq> r_OpenerID rec)) \<and>
     (outgoing rec \<noteq> None \<longrightarrow> r_Status rec = ''paid'' \<or> r_Status rec = ''closed'') \<and>
     (r_Status rec = ''paid'' \<longrightarrow> outgoing rec \<noteq> None)"

definition paid_events :: "Record \<Rightarrow> Event list" where
  "paid_events rec = filter (\<lambda>e. ev_Event e = ''withdraw.paid'') (r_History rec)"

definition history_ok :: "Record \<Rightarrow> bool" where
  "history_ok rec \<longleftrightarrow>
     (\<exists>e es. r_History rec = e # es \<and> ev_Event e = ''created'' \<and> ev_By e = r_OpenerID rec \<and>
       (\<forall>x \<in> set es. ev_By x \<noteq> r_OpenerID rec)) \<and>
     length (paid_events rec) = (if outgoing rec = None then 0 else 1)"

definition ticket_inv :: "Record \<Rightarrow> bool" where
  "ticket_inv rec \<longleftrightarrow> status_known rec \<and> closed_ok rec \<and> money_ok rec \<and> history_ok rec"

lemma WorkflowForTicket_type: "TypeByKey ty = Some t \<Longrightarrow>
    \<exists>w. WorkflowForTicket ty (WorkflowForType ty) st = Some w \<and> well_formed w \<and> wf_ID w = ty_Workflow t"
proof -
  assume t: "TypeByKey ty = Some t"
  have "ty_Workflow t \<in> fst ` set workflows" and ne: "ty_Workflow t \<noteq> []"
    using types_workflows TypeByKey_Some [OF t] by (auto simp: workflows_def tables)
  then obtain w where w: "map_of workflows (ty_Workflow t) = Some w"
    by (metis imageE map_of_eq_None_iff option.exhaust)
  then have "WorkflowForTicket ty (WorkflowForType ty) st = Some w"
    using ne by (simp add: WorkflowForTicket_def WorkflowForType_def t)
  moreover have "wf_ID w = ty_Workflow t" using map_of_SomeD [OF w] workflows_well_formed by (auto simp: list_all_iff)
  ultimately show ?thesis using WorkflowForTicket_wf by blast
qed

lemma WorkflowForType_withdraw: "TypeByKey ty \<noteq> None \<Longrightarrow> WorkflowForType ty = WorkflowWithdrawal \<longleftrightarrow> ty = ''withdraw''"
  using types_workflows TypeByKey_Some [of ty] by (auto simp: WorkflowForType_def)

lemma created_inv: "created rec \<Longrightarrow> ticket_inv rec"
proof -
  assume "created rec"
  then obtain i ty code region opener tag thread data wd now where
    r: "rec = NewRecord i ty code region (WorkflowForType ty) opener tag thread data wd now"
    and t: "TypeByKey ty \<noteq> None" and c: "clock_ok now"
    and w: "case wd of None \<Rightarrow> ty \<noteq> ''withdraw''
      | Some w \<Rightarrow> ty = ''withdraw'' \<and> withdrawal_ok w \<and> wd_Approval w = None \<and> wd_Outgoing w = None"
    unfolding created_def by blast
  obtain x where x: "WorkflowForTicket ty (WorkflowForType ty) ''open'' = Some x" "well_formed x"
    using t WorkflowForTicket_type by blast
  then have "status_known rec" by (auto simp: status_known_def r NewRecord_def Let_def well_formed_def)
  moreover have "closed_ok rec" by (simp add: closed_ok_def Closed_def r NewRecord_def Let_def)
  moreover have "money_ok rec"
    using w WorkflowForType_withdraw [OF t]
    by (auto simp: money_ok_def r NewRecord_def Let_def outgoing_def withdrawal_ok_def split: option.splits)
  moreover have "history_ok rec"
    using w by (auto simp: history_ok_def paid_events_def r NewRecord_def Let_def outgoing_def event_def split: option.splits)
  ultimately show ?thesis by (simp add: ticket_inv_def)
qed

section \<open>Every step keeps the invariant\<close>

lemma paid_moves: "CanTransition ''withdraw'' WorkflowWithdrawal ''paid'' dst \<Longrightarrow> dst = ''closed''"
proof -
  have "map_option st_Next (StatusFor ''withdraw'' WorkflowWithdrawal ''paid'') = Some [''closed'']" by code_simp
  moreover assume "CanTransition ''withdraw'' WorkflowWithdrawal ''paid'' dst"
  ultimately show ?thesis by (auto simp: CanTransition_iff)
qed

lemma withdrawal_keys: "WorkflowForTicket ''withdraw'' WorkflowWithdrawal st = Some w \<Longrightarrow>
    ''approved'' \<in> set (keys w) \<and> ''paid'' \<in> set (keys w)"
proof -
  have "map_option keys (WorkflowForTicket ''withdraw'' WorkflowWithdrawal []) =
      Some [''open'', ''approved'', ''paid'', ''rejected'', ''cancelled'', ''closed'']" by code_simp
  moreover assume "WorkflowForTicket ''withdraw'' WorkflowWithdrawal st = Some w"
  ultimately show ?thesis using WorkflowForTicket_status [of _ _ st "[]"] by auto
qed

lemma identity_fields: "identity rec' = identity rec \<Longrightarrow>
    r_Type rec' = r_Type rec \<and> r_Workflow rec' = r_Workflow rec \<and> r_OpenerID rec' = r_OpenerID rec \<and> r_ID rec' = r_ID rec"
  by (simp add: identity_def)

lemma run_status:
  assumes "run c a now rec = Inr rec'"
  shows "r_Status rec' = r_Status rec \<or>
    (\<exists>dst. c = DoMove dst \<and> r_Status rec' = dst \<and> CanTransition (r_Type rec) (r_Workflow rec) (r_Status rec) dst) \<or>
    c = DoApprove \<and> r_Status rec = ''open'' \<and> r_Status rec' = ''approved'' \<and> IsWithdrawal (r_Type rec) (r_Workflow rec) \<or>
    (\<exists>ref os. c = DoPay ref os \<and> r_Status rec = ''approved'' \<and> r_Status rec' = ''paid'' \<and> IsWithdrawal (r_Type rec) (r_Workflow rec))"
  using assms by (cases c) (auto simp: all_ops_Inr)

lemma step_status_known:
  assumes "run c a now rec = Inr rec'" and "status_known rec"
  shows "status_known rec'"
proof -
  note i = identity_fields [OF run_frame(1) [OF assms(1)]]
  obtain w where w: "WorkflowForTicket (r_Type rec) (r_Workflow rec) (r_Status rec) = Some w" "r_Status rec \<in> set (keys w)"
    using assms(2) by (auto simp: status_known_def)
  have k: "r_Status rec' \<in> set (keys w)"
    using run_status [OF assms(1)] w
    by (auto simp: IsWithdrawal_def withdrawal_keys elim!: CanTransition_wf)
  have "WorkflowForTicket (r_Type rec) (r_Workflow rec) (r_Status rec') = Some w"
    using w(1) WorkflowForTicket_status [of "r_Type rec" "r_Workflow rec" "r_Status rec"] by metis
  with k i show ?thesis by (auto simp: status_known_def)
qed

lemma quiet_run:
  assumes "run c a now rec = Inr rec'" and "\<not> (\<exists>n. c = DoResolve n)" and "\<not> (\<exists>d. c = DoMove d)"
    and "c \<noteq> DoApprove" and "\<not> (\<exists>r os. c = DoPay r os)"
  shows "r_Status rec' = r_Status rec \<and> r_ClosedAt rec' = r_ClosedAt rec \<and>
    r_Resolution rec' = r_Resolution rec \<and> r_Withdrawal rec' = r_Withdrawal rec"
  using assms by (cases c) (auto simp: record_ops_Inr)

lemma step_closed_ok:
  assumes "run c a now rec = Inr rec'" and "a \<noteq> []" and "clock_ok now" and "utf8_input c" and "closed_ok rec"
  shows "closed_ok rec'"
proof -
  consider nt where "c = DoResolve nt" | dst where "c = DoMove dst"
    | "c = DoApprove \<or> (\<exists>r os. c = DoPay r os)"
    | "\<not> (\<exists>n. c = DoResolve n)" "\<not> (\<exists>d. c = DoMove d)" "c \<noteq> DoApprove" "\<not> (\<exists>r os. c = DoPay r os)"
    by blast
  then show ?thesis
  proof cases
    case (1 nt)
    then have s: "SetResolution rec a nt now = Inr rec'" using assms(1) by simp
    have "resolved rec'" using set_resolution_resolved [OF s _ assms(2,3)] assms(4) 1 by simp
    moreover have "r_Status rec' = r_Status rec" "r_ClosedAt rec' = r_ClosedAt rec" using s by (auto simp: SetResolution_Inr)
    ultimately show ?thesis using assms(5) by (auto simp: closed_ok_def Closed_def split: if_splits)
  next
    case (2 dst)
    then have t: "CanTransition (r_Type rec) (r_Workflow rec) (r_Status rec) dst" "dst = ''closed'' \<longrightarrow> resolved rec"
      "r_Status rec' = dst" "r_Resolution rec' = r_Resolution rec"
      "r_ClosedAt rec' = (if dst = ''closed'' then format_milli now else r_ClosedAt rec)"
      using assms(1) by (simp_all add: Transition_Inr)
    have "r_Status rec \<noteq> ''closed''" using t(1) by (rule CanTransition_wf)
    with assms(5) t show ?thesis by (auto simp: closed_ok_def Closed_def resolved_def)
  next
    case 3
    with assms(1,5) show ?thesis
      by (auto simp: ApproveWithdrawal_Inr RecordWithdrawalPayment_Inr closed_ok_def Closed_def)
  next
    case 4
    with quiet_run [OF assms(1)] assms(5) show ?thesis by (auto simp: closed_ok_def Closed_def resolved_def)
  qed
qed

lemma money_frame:
  assumes "money_ok rec" and "r_Type rec' = r_Type rec" "r_Workflow rec' = r_Workflow rec"
    "r_OpenerID rec' = r_OpenerID rec" "r_ID rec' = r_ID rec" "r_Withdrawal rec' = r_Withdrawal rec"
    and "outgoing rec \<noteq> None \<longrightarrow> r_Status rec' = ''paid'' \<or> r_Status rec' = ''closed''"
    and "r_Status rec' = ''paid'' \<longrightarrow> outgoing rec \<noteq> None"
  shows "money_ok rec'"
proof -
  have o: "outgoing rec' = outgoing rec" using assms(6) by (simp add: outgoing_def)
  have p: "outgoing_of rec' = outgoing_of rec" using assms(2-5) by (simp add: outgoing_of_def fun_eq_iff)
  show ?thesis using assms(1,7,8) unfolding money_ok_def o p assms(2-6) by blast
qed

lemma money_replace:
  assumes "money_ok rec" and "r_Withdrawal rec = Some wd" and "r_Withdrawal rec' = Some wd'"
    and "r_Type rec' = r_Type rec" "r_Workflow rec' = r_Workflow rec"
    "r_OpenerID rec' = r_OpenerID rec" "r_ID rec' = r_ID rec"
    and "withdrawal_ok wd' = withdrawal_ok wd" "wd_SellerID wd' = wd_SellerID wd"
    and "\<forall>out. wd_Outgoing wd' = Some out \<longrightarrow> out = outgoing_of rec wd' (op_Reference out) (op_By out) (op_At out) \<and>
      ref_ok (op_Reference out) \<and> op_By out \<noteq> r_OpenerID rec"
    and "wd_Outgoing wd' \<noteq> None \<longrightarrow> r_Status rec' = ''paid'' \<or> r_Status rec' = ''closed''"
    and "r_Status rec' = ''paid'' \<longrightarrow> wd_Outgoing wd' \<noteq> None"
  shows "money_ok rec'"
proof -
  have o: "outgoing rec' = wd_Outgoing wd'" using assms(3) by (simp add: outgoing_def)
  have p: "outgoing_of rec' = outgoing_of rec" using assms(4-7) by (simp add: outgoing_of_def fun_eq_iff)
  have m: "r_Type rec = ''withdraw''" "r_Workflow rec = WorkflowWithdrawal" "withdrawal_ok wd" "wd_SellerID wd = r_OpenerID rec"
    using assms(1,2) by (auto simp: money_ok_def)
  show ?thesis
    unfolding money_ok_def o p assms(3-7) using m assms(8-12) by (simp only: option.inject) blast
qed

lemma step_money_ok:
  assumes "run c a now rec = Inr rec'" and "a \<noteq> r_OpenerID rec" and "money_ok rec"
  shows "money_ok rec'"
proof -
  note i = identity_fields [OF run_frame(1) [OF assms(1)]]
  have cur: "outgoing rec \<noteq> None \<longrightarrow> r_Status rec = ''paid'' \<or> r_Status rec = ''closed''"
    "r_Status rec = ''paid'' \<longrightarrow> outgoing rec \<noteq> None"
    using assms(3) by (simp_all only: money_ok_def) blast+
  consider dst where "c = DoMove dst" | "c = DoApprove" | r os where "c = DoPay r os"
    | "\<not> (\<exists>d. c = DoMove d)" "c \<noteq> DoApprove" "\<not> (\<exists>r os. c = DoPay r os)"
    by blast
  then show ?thesis
  proof cases
    case (1 dst)
    then have t: "CanTransition (r_Type rec) (r_Workflow rec) (r_Status rec) dst" "r_Status rec' = dst"
      "r_Withdrawal rec' = r_Withdrawal rec"
      using assms(1) by (simp_all add: Transition_Inr)
    have ne: "r_Status rec \<noteq> ''closed''" "dst \<noteq> ''paid''" using t(1) by (auto elim: CanTransition_wf)
    have "dst = ''closed''" if o: "outgoing rec \<noteq> None"
    proof -
      have "r_Withdrawal rec \<noteq> None" using o by (auto simp: outgoing_def bind_eq_Some_conv)
      then have "r_Type rec = ''withdraw''" "r_Workflow rec = WorkflowWithdrawal"
        using assms(3) by (simp_all add: money_ok_def)
      moreover have "r_Status rec = ''paid''" using o cur ne by blast
      ultimately show ?thesis using t(1) by (simp add: paid_moves)
    qed
    then show ?thesis using assms(3) i t(2,3) ne(2) by (intro money_frame [OF assms(3)]) auto
  next
    case 2
    then obtain wd where p: "r_Withdrawal rec = Some wd" "r_Status rec = ''open''" "r_Status rec' = ''approved''"
      "r_Withdrawal rec' = Some (wd\<lparr>wd_Approval := Some \<lparr>at_By = a, at_At = format_milli now\<rparr>\<rparr>)"
      using assms(1) by (auto simp: ApproveWithdrawal_Inr)
    have "wd_Outgoing wd = None" using cur(1) p(1,2) by (auto simp: outgoing_def)
    with i p(3) show ?thesis
      by (intro money_replace [OF assms(3) p(1,4)]) (simp_all add: withdrawal_ok_def)
  next
    case (3 reference others)
    then obtain wd ref where p: "r_Withdrawal rec = Some wd" "ValidatePaymentReference reference = Inr ref"
      "r_Status rec' = ''paid''"
      "r_Withdrawal rec' = Some (wd\<lparr>wd_Outgoing := Some (outgoing_of rec wd ref a (format_milli now))\<rparr>)"
      using assms(1) by (auto simp: RecordWithdrawalPayment_Inr)
    have "ref_ok ref" using p(2) by (auto simp: ValidatePaymentReference_Inr)
    with i p(3) assms(2) show ?thesis
      by (intro money_replace [OF assms(3) p(1,4)]) (simp_all add: withdrawal_ok_def outgoing_of_def)
  next
    case 4
    then have "r_Withdrawal rec' = r_Withdrawal rec" "r_Status rec' = r_Status rec"
      using assms(1) by (cases c; auto simp: record_ops_Inr)+
    then show ?thesis using i cur by (intro money_frame [OF assms(3)]) auto
  qed
qed

lemma outgoing_keeps:
  assumes "run c a now rec = Inr rec'" and "outgoing rec = Some out"
  shows "outgoing rec' = Some out"
  using assms by (cases c) (auto simp: all_ops_Inr outgoing_def bind_eq_Some_conv)

lemma step_history_ok:
  assumes "run c a now rec = Inr rec'" and "a \<noteq> r_OpenerID rec" and "history_ok rec"
  shows "history_ok rec'"
proof -
  have o: "r_OpenerID rec' = r_OpenerID rec" using identity_fields [OF run_frame(1) [OF assms(1)]] by simp
  obtain e where e: "r_History rec' = r_History rec @ [e]" "ev_By e = a"
    "ev_Event e = ''withdraw.paid'' \<longleftrightarrow> outgoing rec = None \<and> outgoing rec' \<noteq> None"
    using run_frame(2) [OF assms(1)] by blast
  have k: "outgoing rec' = None \<Longrightarrow> outgoing rec = None"
    using outgoing_keeps [OF assms(1)] by (cases "outgoing rec") auto
  obtain e0 es where h: "r_History rec = e0 # es" "ev_Event e0 = ''created''" "ev_By e0 = r_OpenerID rec"
    "\<forall>x \<in> set es. ev_By x \<noteq> r_OpenerID rec" and
    n: "length (paid_events rec) = (if outgoing rec = None then 0 else 1)"
    using assms(3) by (auto simp: history_ok_def)
  have "length (paid_events rec') = (if outgoing rec' = None then 0 else 1)"
    using n e(3) k by (auto simp: paid_events_def e(1))
  moreover have "\<exists>e es. r_History rec' = e # es \<and> ev_Event e = ''created'' \<and> ev_By e = r_OpenerID rec' \<and>
       (\<forall>x \<in> set es. ev_By x \<noteq> r_OpenerID rec')"
    using h e assms(2) by (intro exI [of _ e0] exI [of _ "es @ [e]"]) (auto simp: o)
  ultimately show ?thesis by (simp add: history_ok_def)
qed

lemma tstep_inv: "tstep rec rec' \<Longrightarrow> ticket_inv rec \<Longrightarrow> ticket_inv rec'"
  by (erule tstepE)
    (simp add: ticket_inv_def step_status_known step_closed_ok step_money_ok step_history_ok)

lemma reachable_inv: "reachable rec \<Longrightarrow> ticket_inv rec"
  by (induction rule: reachable.induct) (auto intro: created_inv tstep_inv)

text \<open>
  C9: The life of a ticket. In every record that creation followed by any sequence of
  operations can produce: the status is a status of the ticket's own workflow; a closed ticket
  has a valid resolution and a closing time, an open one has no closing time; a withdrawal is
  present exactly on withdrawal tickets, its amount and currency are valid, and the status is
  \<open>paid\<close> only with an outgoing payment, which is then of exactly the requested amount and was
  signed by someone other than the seller; the history starts with the creation by the
  opener, holds no further event by the opener, and holds the payment event exactly once if
  there is a payment and never otherwise.
\<close>

theorem ticket_life:
  assumes "reachable rec"
  shows "status_known rec \<and> closed_ok rec \<and> money_ok rec \<and> history_ok rec"
  using reachable_inv [OF assms] by (simp add: ticket_inv_def)

text \<open>
  C11: A closed ticket stays closed and a payment stays as it was. No operation changes the
  status or the closing time of a closed ticket, and none changes or removes an outgoing
  payment.
\<close>

theorem closed_and_paid_final:
  assumes "tstep rec rec'"
  shows "(if Closed rec then Closed rec' \<and> r_ClosedAt rec' = r_ClosedAt rec else True) \<and>
    (case outgoing rec of None \<Rightarrow> True | Some out \<Rightarrow> outgoing rec' = Some out)"
proof -
  obtain c a now where r: "run c a now rec = Inr rec'" using assms by (rule tstepE)
  have "Closed rec' \<and> r_ClosedAt rec' = r_ClosedAt rec" if "Closed rec"
    using r that
    by (cases c) (auto simp: all_ops_Inr Closed_def elim!: CanTransition_wf)
  then show ?thesis using outgoing_keeps [OF r] by (auto split: option.split)
qed

lemma createdI:
  assumes "TypeByKey ty \<noteq> None" and "clock_ok now"
    and "case wd of None \<Rightarrow> ty \<noteq> ''withdraw''
      | Some w \<Rightarrow> ty = ''withdraw'' \<and> withdrawal_ok w \<and> wd_Approval w = None \<and> wd_Outgoing w = None"
  shows "created (NewRecord i ty code region (WorkflowForType ty) opener tag thread data wd now)"
  unfolding created_def using assms by blast

lemma sample_created: "created (sample ''general'' ''support-v1'' ''open'')"
proof -
  have t: "map_option ty_Workflow (TypeByKey ''general'') = Some ''support-v1''" by code_simp
  then have "WorkflowForType ''general'' = ''support-v1''" "TypeByKey ''general'' \<noteq> None"
    by (auto simp: WorkflowForType_def)
  moreover have "sample ''general'' ''support-v1'' ''open'' = NewRecord ''GEN-ID-budi-00001'' ''general'' ''GEN'' ''ID''
      ''support-v1'' ''42'' ''budi'' ''t1'' [] None 1700000000000000000"
    by (simp add: sample_def NewRecord_def Let_def)
  ultimately show ?thesis
    using createdI [of "''general''" 1700000000000000000 None] sample_clock by simp
qed

lemma sample_step: "tstep (sample ''general'' ''support-v1'' ''open'')
    ((sample ''general'' ''support-v1'' ''open'')\<lparr>r_AssignedTo := Some ''7'',
      r_History := r_History (sample ''general'' ''support-v1'' ''open'') @ [event (format_milli 1700000000000000000) ''claimed'' ''7'']\<rparr>)"
  by (rule tstep.tstep [OF sample_claim]) (simp_all add: sample_clock)

theorem ticket_life_witness: "history_ok (sample ''general'' ''support-v1'' ''open'')"
  using ticket_life [OF reachable.init [OF sample_created]] by blast

theorem closed_and_paid_final_witness:
  "outgoing (sample ''general'' ''support-v1'' ''open'') = None \<and>
   (if Closed (sample ''general'' ''support-v1'' ''open'')
    then Closed ((sample ''general'' ''support-v1'' ''open'')\<lparr>r_AssignedTo := Some ''7'',
      r_History := r_History (sample ''general'' ''support-v1'' ''open'') @ [event (format_milli 1700000000000000000) ''claimed'' ''7'']\<rparr>)
    else True)"
  using closed_and_paid_final [OF sample_step] by (auto simp: outgoing_def)

end
