(* ===== verification/TicketService.thy ===== *)
theory TicketService
  imports TicketRepo Membership Lifecycle
begin

text \<open>
  The ticket service (modules/ticket/service.go) over the interface \<open>repo\<close>. \<open>now\<close> is the
  reading of the service's clock. A Go panic is \<open>None\<close>. The lemmas on the operations are
  proved in the locale \<open>ticket_repo\<close>, from the contract of the repository alone, and reach the
  program through the interpretation \<open>desk\<close>.
\<close>

record Actor =
  ac_ID :: string
  ac_Username :: string
  ac_Tag :: string
  ac_Roles :: roles
  ac_IsAdmin :: bool
  ac_IsBot :: bool
  ac_OwnerID :: string
  ac_AvailableAdmins :: "string list"

record CreateInput =
  ci_Type :: string
  ci_Data :: "(string, string) gomap"
  ci_ThreadID :: string

definition is_admin :: "Actor \<Rightarrow> bool" where
  "is_admin actor = IsTicketAdmin (ac_ID actor) (ac_OwnerID actor) (ac_IsBot actor) (ac_IsAdmin actor)"

definition requireAdmin :: "Actor \<Rightarrow> Record \<Rightarrow> unit tres" where
  "requireAdmin actor rec =
     (if ac_IsBot actor \<or> \<not> is_admin actor then Inl ErrNotAdmin
      else if r_OpenerID rec = ac_ID actor then Inl ErrOpenerRecusal
      else Inr ())"

section \<open>Opening a ticket\<close>

definition normalize_data :: "(string, string) gomap \<Rightarrow> (string, string) gomap" where
  "normalize_data d = map (\<lambda>(key, raw). (key, NormalizeText raw)) (filter (\<lambda>(key, raw). raw \<noteq> []) d)"

definition form_aliases :: "string list" where
  "form_aliases = [''chronology'', ''summary'', ''notes'', ''amount'', ''product'']"

fun fill_required :: "string list \<Rightarrow> (string, string) gomap \<Rightarrow> (string, string) gomap tres" where
  "fill_required [] data = Inr data"
| "fill_required (key # ks) data =
     (if key = ''region'' then fill_required ks data
      else if mget data key \<noteq> [] then fill_required ks data
      else let data' = (case find (\<lambda>alias. mget data alias \<noteq> []) form_aliases of
             None \<Rightarrow> data | Some alias \<Rightarrow> mput data key (mget data alias))
        in if mget data' key = [] then Inl ErrRequiredField else fill_required ks data')"

text \<open>The checks on the form, before the repository is asked.\<close>

definition check_form :: "Actor \<Rightarrow> CreateInput \<Rightarrow>
    (Type \<times> string \<times> (string, string) gomap \<times> Withdrawal option) tres option" where
  "check_form actor input =
     (case TypeByKey (ci_Type input) of
        None \<Rightarrow> Some (Inl ErrUnknownType)
      | Some spec \<Rightarrow>
          let workflow = WorkflowForType (ty_Key spec) in
          if workflow = [] then Some (Inl ErrUnknownWorkflow)
          else if \<not> EligibleTicketApplicant (ty_Key spec) (ac_Roles actor) then Some (Inl ErrNotEligible)
          else let data = normalize_data (ci_Data input); region = NormalizeText (mget data ''region'') in
            if \<not> ValidRegion region then Some (Inl ErrInvalidRegion)
            else let data = mput data ''region'' region in
              case (if ty_Key spec \<noteq> ''withdraw'' then fill_required (ty_Requires spec) data else Inr data) of
                Inl e \<Rightarrow> Some (Inl e)
              | Inr data \<Rightarrow>
                  if 0 < length (SensitiveFindings data) then Some (Inl ErrSensitive)
                  else if ty_Key spec = ''withdraw'' then
                    map_option (\<lambda>r. rbind r (\<lambda>(clean, built). Inr (spec, workflow, clean, Some built)))
                      (ValidateWithdrawalInput data)
                  else Some (Inr (spec, workflow, data, None)))"

text \<open>The record of the new ticket, once it has its number.\<close>

definition ticket_for :: "Actor \<Rightarrow> CreateInput \<Rightarrow> instant \<Rightarrow> Type \<Rightarrow> string \<Rightarrow> (string, string) gomap \<Rightarrow>
    Withdrawal option \<Rightarrow> int \<Rightarrow> Record" where
  "ticket_for actor input now spec workflow data wd seqn =
     (let i = FormatID (ty_Code spec) (mget data ''region'') (ac_Username actor) seqn;
          threadID = (if ci_ThreadID input = [] then i else ci_ThreadID input)
      in NewRecord i (ty_Key spec) (ty_Code spec) (mget data ''region'') workflow (ac_ID actor) (ac_Tag actor)
           threadID data wd now)"

definition Create :: "'w repo \<Rightarrow> Actor \<Rightarrow> CreateInput \<Rightarrow> instant \<Rightarrow> ('w, ticket_error, Record) sop option" where
  "Create rp actor input now = map_option (\<lambda>form.
     sbind (slift form) (\<lambda>(spec, workflow, data, wd).
     sbind (rp_ListByOpener rp (ac_ID actor)) (\<lambda>existing.
     sbind (slift (ActiveLimit existing (ac_ID actor) (ty_Key spec))) (\<lambda>_.
     let admins = length (filter (\<lambda>i. i \<noteq> [] \<and> i \<noteq> ac_ID actor) (ac_AvailableAdmins actor)) in
     if admins = 0 then sfail ErrNoAdmin
     else sbind (rp_NextSeq rp) (\<lambda>seqn.
       let rec = ticket_for actor input now spec workflow data wd seqn in
       sbind (rp_Save rp rec) (\<lambda>_. sret rec))))))
     (check_form actor input)"

section \<open>Reading\<close>

definition Get :: "'w repo \<Rightarrow> string \<Rightarrow> ('w, ticket_error, Record) sop" where
  "Get rp publicID = rp_FindByPublicID rp publicID"

definition GetByThread :: "'w repo \<Rightarrow> string \<Rightarrow> ('w, ticket_error, Record) sop" where
  "GetByThread rp threadID = rp_FindByThreadID rp threadID"

definition ListOpenTickets :: "'w repo \<Rightarrow> ('w, ticket_error, Record list) sop" where
  "ListOpenTickets rp = rp_ListOpen rp"

text \<open>\<open>xs[start:end]\<close>; out of range it panics.\<close>

definition slice :: "'a list \<Rightarrow> int \<Rightarrow> int \<Rightarrow> 'a list option" where
  "slice xs i j = (if 0 \<le> i \<and> i \<le> j \<and> j \<le> int (length xs) then Some (take (nat (j - i)) (drop (nat i) xs)) else None)"

definition queue_page :: "'a list \<Rightarrow> int \<Rightarrow> 'a list option" where
  "queue_page xs page =
     (let page = (if page < 1 then 1 else page);
          start = wrap64 ((page - 1) * 10) in
      if int (length xs) \<le> start then Some []
      else let stop = wrap64 (start + 10);
               stop = (if int (length xs) < stop then int (length xs) else stop)
        in slice xs start stop)"

definition Queue :: "'w repo \<Rightarrow> Actor \<Rightarrow> int \<Rightarrow> ('w, ticket_error, Record list option) sop" where
  "Queue rp actor page =
     (if \<not> is_admin actor then sfail ErrNotAdmin
      else sbind (rp_ListOpen rp) (\<lambda>xs. sret (queue_page xs page)))"

section \<open>The operations of an admin\<close>

text \<open>Load the ticket, check the actor, run the operation on the record, save the new record.\<close>

definition on_ticket :: "'w repo \<Rightarrow> Actor \<Rightarrow> string \<Rightarrow> (Record \<Rightarrow> Record tres) \<Rightarrow> ('w, ticket_error, Record) sop" where
  "on_ticket rp actor publicID f =
     sbind (rp_FindByPublicID rp publicID) (\<lambda>rec.
     sbind (slift (requireAdmin actor rec)) (\<lambda>_.
     sbind (slift (f rec)) (\<lambda>new.
     sbind (rp_Save rp new) (\<lambda>_. sret new))))"

definition ClaimTicket :: "'w repo \<Rightarrow> Actor \<Rightarrow> string \<Rightarrow> instant \<Rightarrow> ('w, ticket_error, Record) sop" where
  "ClaimTicket rp actor publicID now = on_ticket rp actor publicID (\<lambda>rec. Claim rec (ac_ID actor) now)"

definition HandoffTicket :: "'w repo \<Rightarrow> Actor \<Rightarrow> string \<Rightarrow> string \<Rightarrow> string \<Rightarrow> instant \<Rightarrow> ('w, ticket_error, Record) sop" where
  "HandoffTicket rp actor publicID targetID reason now = on_ticket rp actor publicID (\<lambda>rec.
     if \<not> list_ex (\<lambda>i. i = targetID \<and> i \<noteq> r_OpenerID rec) (ac_AvailableAdmins actor) then Inl ErrHandoffTarget
     else Handoff rec (ac_ID actor) targetID reason now)"

definition ResolveTicket :: "'w repo \<Rightarrow> Actor \<Rightarrow> string \<Rightarrow> string \<Rightarrow> instant \<Rightarrow> ('w, ticket_error, Record) sop" where
  "ResolveTicket rp actor publicID remark now = on_ticket rp actor publicID (\<lambda>rec. SetResolution rec (ac_ID actor) remark now)"

definition TransitionTicket :: "'w repo \<Rightarrow> Actor \<Rightarrow> string \<Rightarrow> string \<Rightarrow> instant \<Rightarrow> ('w, ticket_error, Record) sop" where
  "TransitionTicket rp actor publicID dst now = on_ticket rp actor publicID (\<lambda>rec.
     if dst = ''paid'' \<and> IsWithdrawal (r_Type rec) (r_Workflow rec) then Inl ErrIllegalTransition
     else Transition rec (ac_ID actor) dst now)"

definition ApproveWithdrawalTicket :: "'w repo \<Rightarrow> Actor \<Rightarrow> string \<Rightarrow> instant \<Rightarrow> ('w, ticket_error, Record) sop" where
  "ApproveWithdrawalTicket rp actor publicID now =
     on_ticket rp actor publicID (\<lambda>rec. ApproveWithdrawal rec (ac_ID actor) (format_milli now))"

definition ApproveSellerTicket :: "'w repo \<Rightarrow> Actor \<Rightarrow> string \<Rightarrow> string \<Rightarrow> roles \<Rightarrow> instant \<Rightarrow> ('w, ticket_error, Record) sop" where
  "ApproveSellerTicket rp actor publicID reason openerRoles now = on_ticket rp actor publicID (\<lambda>rec.
     if \<not> fst (DecideSellerApproval openerRoles) then Inl ErrNotEligible
     else ApproveSeller rec (ac_ID actor) reason (r_OpenerID rec) now)"

text \<open>The ledger row of a payment. The nil check of the code comes after the pointers were used, so it never fires.\<close>

definition ledger_row :: "Record \<Rightarrow> Actor \<Rightarrow> Withdrawal \<Rightarrow> OutgoingPayment \<Rightarrow> instant \<Rightarrow> OutgoingMutation" where
  "ledger_row rec actor wd out paidAt =
     \<lparr>om_ID = 0, om_PublicID = op_ID out, om_TicketID = r_ID rec, om_SellerID = r_OpenerID rec,
      om_AmountMinor = wd_AmountMinor wd, om_Currency = wd_Currency wd, om_Reference = op_Reference out,
      om_By = ac_ID actor, om_PaidAt = paidAt, om_CreatedAt = zero_time\<rparr>"

text \<open>An error of \<open>time.Parse\<close>; it is none of the package's own errors.\<close>

definition ErrTime :: ticket_error where
  "ErrTime = DbError ''parsing time''"

definition RecordPayment :: "'w repo \<Rightarrow> Actor \<Rightarrow> string \<Rightarrow> string \<Rightarrow> instant \<Rightarrow> ('w, ticket_error, Record option) sop" where
  "RecordPayment rp actor publicID reference now =
     sbind (rp_FindByPublicID rp publicID) (\<lambda>rec.
     sbind (slift (requireAdmin actor rec)) (\<lambda>_.
     sbind (rp_ListOpen rp) (\<lambda>opn.
     sbind (rp_ListByOpener rp (r_OpenerID rec)) (\<lambda>byOpener.
     let others = opn @ byOpener; at = format_milli now in
     sbind (slift (RecordWithdrawalPayment rec (ac_ID actor) at reference others)) (\<lambda>new.
     case r_Withdrawal new of None \<Rightarrow> sret None | Some wd \<Rightarrow>
     (case wd_Outgoing wd of None \<Rightarrow> sret None | Some out \<Rightarrow>
       sbind (rp_OutgoingExists rp (op_Reference out)) (\<lambda>found.
       if found then sfail ErrDuplicatePayment
       else case parse_milli_Z (op_At out) of
         None \<Rightarrow> sfail ErrTime
       | Some paidAt \<Rightarrow>
           sbind (rp_SavePayment rp new (ledger_row rec actor wd out paidAt)) (\<lambda>_. sret (Some new)))))))))"

definition Mutasi :: "'w repo \<Rightarrow> Actor \<Rightarrow> ('w, ticket_error, OutgoingMutation list) sop" where
  "Mutasi rp actor = rp_ListOutgoingBySeller rp (ac_ID actor)"

record WhoamiView =
  wh_id :: string
  wh_tier :: string
  wh_admin :: bool
  wh_restricted :: bool

definition Whoami :: "Actor \<Rightarrow> WhoamiView" where
  "Whoami actor = \<lparr>wh_id = ac_ID actor, wh_tier = MemberTier (ac_Roles actor), wh_admin = is_admin actor,
     wh_restricted = Restricted (ac_Roles actor)\<rparr>"

definition SnapshotService :: "'w repo \<Rightarrow> ('w, ticket_error, Snapshot) sop" where
  "SnapshotService rp = rp_Snapshot rp"

section \<open>Pages of the queue\<close>

lemma slice_page: "(if int (length xs) \<le> int n then Some []
    else slice xs (int n) (if int (length xs) < int n + 10 then int (length xs) else int n + 10)) =
    Some (take 10 (drop n xs))"
proof -
  have "nat (int n + 10 - int n) = 10" "nat (int (length xs) - int n) = length xs - n" by simp_all
  then show ?thesis by (auto simp: slice_def)
qed

lemma queue_page_in_range:
  assumes "1 \<le> page" and "(page - 1) * 10 + 10 \<le> max_int64"
  shows "queue_page xs page = Some (take 10 (drop (nat ((page - 1) * 10)) xs))"
proof -
  define n where "n = nat ((page - 1) * 10)"
  have n: "(page - 1) * 10 = int n" using assms(1) by (simp add: n_def)
  have w: "wrap64 (int n) = int n" "wrap64 (int n + 10) = int n + 10"
    using assms(2) unfolding n by (auto intro!: wrap64_id)
  have p: "(if page < 1 then 1 else page) = page" using assms(1) by simp
  show ?thesis
    unfolding queue_page_def Let_def p n w slice_page by simp
qed

lemma take_drop_pages: "concat (map (\<lambda>k. take 10 (drop (k * 10) xs)) [0..<n]) = take (n * 10) xs"
proof (induction n)
  case (Suc n)
  have "take (n * 10 + 10) xs = take (n * 10) xs @ take 10 (drop (n * 10) xs)" by (rule take_add)
  then show ?case using Suc by (simp add: add.commute)
qed simp

text \<open>
  C20: The pages of the queue. For page numbers from 1 to the largest whose bounds fit in 64
  bits the queue returns a page of at most ten tickets without a panic, and the pages one
  after the other are exactly the list of the open tickets; page numbers below 1 mean page 1.
\<close>

theorem queue_pages:
  fixes xs :: "Record list"
  assumes "int n * 10 \<le> max_int64" and "length xs \<le> n * 10"
  shows "concat (map (\<lambda>k. case queue_page xs (int k + 1) of Some p \<Rightarrow> p | None \<Rightarrow> []) [0..<n]) = xs \<and>
    list_all (\<lambda>k. case queue_page xs (int k + 1) of Some p \<Rightarrow> length p \<le> 10 | None \<Rightarrow> False) [0..<n] \<and>
    (if page < 1 then queue_page xs page = queue_page xs 1 else True)"
proof -
  have q: "queue_page xs (int k + 1) = Some (take 10 (drop (k * 10) xs))" if "k < n" for k
    using queue_page_in_range [of "int k + 1" xs] that assms(1) by (simp add: nat_mult_distrib)
  then have "map (\<lambda>k. case queue_page xs (int k + 1) of Some p \<Rightarrow> p | None \<Rightarrow> []) [0..<n] =
      map (\<lambda>k. take 10 (drop (k * 10) xs)) [0..<n]" by simp
  moreover have "list_all (\<lambda>k. case queue_page xs (int k + 1) of Some p \<Rightarrow> length p \<le> 10 | None \<Rightarrow> False) [0..<n]"
    using q by (simp add: list_all_iff)
  moreover have "if page < 1 then queue_page xs page = queue_page xs 1 else True" by (simp add: queue_page_def)
  moreover have "take (n * 10) xs = xs" using assms(2) by simp
  ultimately show ?thesis by (simp only: take_drop_pages simp_thms)
qed

theorem queue_pages_witness:
  "queue_page [sample ''general'' ''support-v1'' ''open''] (- 3) = queue_page [sample ''general'' ''support-v1'' ''open''] 1"
  using queue_pages [of 1 "[sample ''general'' ''support-v1'' ''open'']" "- 3"] by (simp add: max_int64_def)

text \<open>
  A page number near the end of the 64-bit range crashes the queue: the start of the page
  wraps around to a negative number, which passes both bound checks, and the slice expression
  panics. The largest number, which is also what the HTTP handler passes for every number that
  is too large, is such a page, whatever tickets are open.
\<close>

lemma queue_page_overflow: "queue_page (xs :: Record list) max_int64 = None"
proof -
  have w: "wrap64 ((max_int64 - 1) * 10) = - 20" "wrap64 (- 20 + 10) = - 10"
    by (simp_all add: wrap64_def max_int64_def)
  have p: "(if max_int64 < 1 then 1 else max_int64) = max_int64" by (simp add: max_int64_def)
  show ?thesis unfolding queue_page_def Let_def p w by (simp add: slice_def)
qed

end
