(* ===== verification/Desk.thy ===== *)
theory Desk
  imports TicketService
begin

text \<open>
  The ticket desk as a whole: the requests that the HTTP handlers and the bot send to the
  service, any number of them one after the other, over a repository that keeps its contract.
  The invariant of the desk ties the tickets, the outgoing ledger and the sequence counter
  together.
\<close>

section \<open>Requests\<close>

datatype operation =
    OpClaim
  | OpHandoff string string
  | OpResolve string
  | OpMove string
  | OpApprove
  | OpSeller string roles

datatype request =
    RqCreate Actor CreateInput
  | RqOp Actor string operation
  | RqPay Actor string string

fun operate :: "'w repo \<Rightarrow> instant \<Rightarrow> Actor \<Rightarrow> string \<Rightarrow> operation \<Rightarrow> ('w, ticket_error, Record) sop" where
  "operate rp now actor i OpClaim = ClaimTicket rp actor i now"
| "operate rp now actor i (OpHandoff target reason) = HandoffTicket rp actor i target reason now"
| "operate rp now actor i (OpResolve remark) = ResolveTicket rp actor i remark now"
| "operate rp now actor i (OpMove dst) = TransitionTicket rp actor i dst now"
| "operate rp now actor i OpApprove = ApproveWithdrawalTicket rp actor i now"
| "operate rp now actor i (OpSeller reason rs) = ApproveSellerTicket rp actor i reason rs now"

text \<open>\<open>Inr None\<close> is a panic.\<close>

fun serve :: "'w repo \<Rightarrow> instant \<Rightarrow> request \<Rightarrow> ('w, ticket_error, Record option) sop" where
  "serve rp now (RqCreate actor input) = (case Create rp actor input now of
     None \<Rightarrow> sret None | Some m \<Rightarrow> sbind m (\<lambda>rec. sret (Some rec)))"
| "serve rp now (RqOp actor i f) = sbind (operate rp now actor i f) (\<lambda>rec. sret (Some rec))"
| "serve rp now (RqPay actor i reference) = RecordPayment rp actor i reference now"

fun actor_of :: "request \<Rightarrow> Actor" where
  "actor_of (RqCreate actor input) = actor"
| "actor_of (RqOp actor i f) = actor"
| "actor_of (RqPay actor i reference) = actor"

text \<open>The strings of a request come from a JSON decoder, so they are valid UTF-8.\<close>

fun operation_utf8 :: "operation \<Rightarrow> bool" where
  "operation_utf8 (OpHandoff target reason) \<longleftrightarrow> valid_utf8 target \<and> valid_utf8 reason"
| "operation_utf8 (OpResolve remark) \<longleftrightarrow> valid_utf8 remark"
| "operation_utf8 (OpSeller reason rs) \<longleftrightarrow> valid_utf8 reason"
| "operation_utf8 _ \<longleftrightarrow> True"

fun request_utf8 :: "request \<Rightarrow> bool" where
  "request_utf8 (RqCreate actor input) \<longleftrightarrow> valid_utf8 (ac_ID actor) \<and>
     list_all (\<lambda>p. valid_utf8 (fst p) \<and> valid_utf8 (snd p)) (ci_Data input)"
| "request_utf8 (RqOp actor i f) \<longleftrightarrow> valid_utf8 (ac_ID actor) \<and> operation_utf8 f"
| "request_utf8 (RqPay actor i reference) \<longleftrightarrow> valid_utf8 (ac_ID actor)"

section \<open>What an operation does to the record\<close>

fun body :: "instant \<Rightarrow> Actor \<Rightarrow> operation \<Rightarrow> Record \<Rightarrow> Record tres" where
  "body now actor OpClaim rec = Claim rec (ac_ID actor) now"
| "body now actor (OpHandoff target reason) rec =
     (if \<not> list_ex (\<lambda>i. i = target \<and> i \<noteq> r_OpenerID rec) (ac_AvailableAdmins actor) then Inl ErrHandoffTarget
      else Handoff rec (ac_ID actor) target reason now)"
| "body now actor (OpResolve remark) rec = SetResolution rec (ac_ID actor) remark now"
| "body now actor (OpMove dst) rec =
     (if dst = ''paid'' \<and> IsWithdrawal (r_Type rec) (r_Workflow rec) then Inl ErrIllegalTransition
      else Transition rec (ac_ID actor) dst now)"
| "body now actor OpApprove rec = ApproveWithdrawal rec (ac_ID actor) (format_milli now)"
| "body now actor (OpSeller reason rs) rec =
     (if \<not> fst (DecideSellerApproval rs) then Inl ErrNotEligible
      else ApproveSeller rec (ac_ID actor) reason (r_OpenerID rec) now)"

lemma on_ticket_cong: "(\<And>rec. f rec = g rec) \<Longrightarrow> on_ticket rp actor i f = on_ticket rp actor i g"
  by (simp add: ext [of f g])

lemma operate_body: "operate rp now actor i f = on_ticket rp actor i (body now actor f)"
  by (cases f) (auto simp: ClaimTicket_def HandoffTicket_def ResolveTicket_def TransitionTicket_def
    ApproveWithdrawalTicket_def ApproveSellerTicket_def intro!: on_ticket_cong)

fun command_of :: "Record \<Rightarrow> operation \<Rightarrow> command" where
  "command_of rec OpClaim = DoClaim"
| "command_of rec (OpHandoff target reason) = DoHandoff target reason"
| "command_of rec (OpResolve remark) = DoResolve remark"
| "command_of rec (OpMove dst) = DoMove dst"
| "command_of rec OpApprove = DoApprove"
| "command_of rec (OpSeller reason rs) = DoSeller reason (r_OpenerID rec)"

lemma body_run: "body now actor f rec = Inr new \<Longrightarrow> run (command_of rec f) (ac_ID actor) now rec = Inr new"
  by (cases f) (auto split: if_splits)

lemma requireAdmin_Inr: "requireAdmin actor rec = Inr u \<longleftrightarrow> is_admin actor \<and> \<not> ac_IsBot actor \<and> r_OpenerID rec \<noteq> ac_ID actor"
  by (auto simp: requireAdmin_def)

lemma is_admin_ID: "is_admin actor \<Longrightarrow> ac_ID actor \<noteq> []"
  by (simp add: is_admin_def IsTicketAdmin_def split: if_splits)

section \<open>Records that can be stored\<close>

lemma valid_append: "valid_utf8 s \<Longrightarrow> valid_utf8 t \<Longrightarrow> valid_utf8 (s @ t)"
proof -
  assume "valid_utf8 s" "valid_utf8 t"
  then have "valid_utf8 (unsegs (segs s @ segs t))"
    by (intro valid_utf8_unsegs) (auto simp: valid_utf8_def)
  moreover have "unsegs (segs s @ segs t) = unsegs (segs s) @ unsegs (segs t)" by (simp add: unsegs_def)
  ultimately show ?thesis by simp
qed

definition sound :: "Record \<Rightarrow> bool" where
  "sound rec \<longleftrightarrow> storable rec \<and> valid_utf8 (r_ID rec) \<and> valid_utf8 (r_OpenerID rec)"

lemma status_ascii: "list_all (\<lambda>p. list_all ascii (keys (snd p))) workflows"
  by code_simp

lemma CanTransition_ascii: "CanTransition ty wfl src dst \<Longrightarrow> ascii src \<and> ascii dst"
proof -
  assume "CanTransition ty wfl src dst"
  then obtain w where "WorkflowForTicket ty wfl src = Some w" "src \<in> set (keys w)" "dst \<in> set (keys w)"
    by (rule CanTransition_wf)
  then show ?thesis using WorkflowForTicket_in [of ty wfl src w] status_ascii by (auto simp: list_all_iff)
qed

lemma valid_accepted: "ValidateTicketText v = Inr t \<Longrightarrow> valid_utf8 v \<Longrightarrow> valid_utf8 t"
  by (auto simp: ValidateTicketText_Inr valid_NormalizeText)

lemma clock_text_now: "clock_ok now \<Longrightarrow> clock_text (format_milli now)"
  by (auto simp: clock_text_def)

fun command_utf8 :: "command \<Rightarrow> bool" where
  "command_utf8 (DoHandoff target reason) \<longleftrightarrow> valid_utf8 target \<and> valid_utf8 reason"
| "command_utf8 (DoResolve remark) \<longleftrightarrow> valid_utf8 remark"
| "command_utf8 (DoSeller reason mem) \<longleftrightarrow> valid_utf8 reason \<and> valid_utf8 mem"
| "command_utf8 _ \<longleftrightarrow> True"

lemma command_utf8_input: "command_utf8 c \<Longrightarrow> utf8_input c"
  by (cases c) auto

lemma reference_ascii: "ValidatePaymentReference v = Inr ref \<Longrightarrow> ascii ref"
  using refRe_chars(2) by (auto simp: ValidatePaymentReference_Inr ref_ok_def)

lemma run_sound:
  assumes "run c a now rec = Inr new" and "sound rec" and "valid_utf8 a" and "command_utf8 c" and "clock_ok now"
  shows "sound new"
proof -
  note ev = valid_event_def event_def
  note [simp] = clock_text_now [OF assms(5)]
  show ?thesis
  proof (cases c)
    case DoClaim
    then show ?thesis using assms by (auto simp: Claim_Inr sound_def storable_def ev)
  next
    case (DoHandoff target reason)
    then show ?thesis using assms valid_accepted by (auto simp: Handoff_Inr sound_def storable_def ev)
  next
    case (DoResolve remark)
    then show ?thesis using assms valid_accepted
      by (auto simp: SetResolution_Inr sound_def storable_def ev valid_resolution_def)
  next
    case (DoMove dst)
    then have t: "CanTransition (r_Type rec) (r_Workflow rec) (r_Status rec) dst" using assms(1) by (simp add: Transition_Inr)
    have "valid_utf8 (''status:'' @ r_Status rec @ ''->'' @ dst)"
      using CanTransition_ascii [OF t] by (intro ascii_valid) simp
    with DoMove assms show ?thesis by (auto simp: Transition_Inr sound_def storable_def ev)
  next
    case DoApprove
    then show ?thesis using assms
      by (auto simp: ApproveWithdrawal_Inr sound_def storable_def ev valid_withdrawal_def valid_stamp_def)
  next
    case (DoPay reference others)
    then obtain wd ref where p: "r_Withdrawal rec = Some wd" "ValidatePaymentReference reference = Inr ref"
      "new = rec\<lparr>r_Withdrawal := Some (wd\<lparr>wd_Outgoing := Some (outgoing_of rec wd ref a (format_milli now))\<rparr>),
        r_Status := ''paid'', r_History := r_History rec @
          [(event (format_milli now) ''withdraw.paid'' a)\<lparr>ev_MutationID := ''OUT-'' @ r_ID rec\<rparr>]\<rparr>"
      using assms(1) by (auto simp: RecordWithdrawalPayment_Inr)
    have "valid_utf8 (''OUT-'' @ r_ID rec)" using assms(2) by (intro valid_append) (simp_all add: sound_def)
    moreover have "ascii ref" using p(2) by (rule reference_ascii)
    ultimately show ?thesis using assms(2,3) p(1)
      by (auto simp: p(3) sound_def storable_def ev valid_withdrawal_def valid_outgoing_def outgoing_of_def)
  next
    case (DoSeller reason mem)
    then show ?thesis using assms valid_accepted
      by (auto simp: ApproveSeller_Inr sound_def storable_def ev valid_seller_def int64_def max_int64_def)
  qed
qed

section \<open>Records that a request creates\<close>

lemma FormatID_ascii:
  assumes "t \<in> set Types" and "0 \<le> n" and "n < 10 ^ 16"
  shows "ascii (FormatID (ty_Code t) region user n)"
proof -
  have u: "ascii w" if "list_all is_upper w" for w
    using that is_upper_ascii by (auto simp: ascii_def list_all_iff)
  have "ascii (ty_Code t)" "ascii (safe_region region)" using types_codes assms(1) safe_region_shape u by auto
  moreover have "ascii (safe_user user)"
    using safe_user_shape [of user] by (auto simp: ascii_def list_all_iff user_char_def is_lower_def is_digit_def)
  moreover have "ascii (d05 n)" using d05_shape(1) [OF assms(2,3)] by (rule ascii_digits)
  ultimately show ?thesis by (simp add: FormatID_def)
qed

definition valid_data :: "(string, string) gomap \<Rightarrow> bool" where
  "valid_data d \<longleftrightarrow> (\<forall>p \<in> set d. valid_utf8 (fst p) \<and> valid_utf8 (snd p))"

lemma valid_data_mget: "valid_data d \<Longrightarrow> valid_utf8 (mget d k)"
  by (auto simp: mget_def valid_data_def split: option.split dest!: map_of_SomeD)

lemma valid_data_mput: "valid_data d \<Longrightarrow> valid_utf8 k \<Longrightarrow> valid_utf8 v \<Longrightarrow> valid_data (mput d k v)"
  unfolding valid_data_def by (induction d k v rule: mput.induct) auto

lemma valid_normalize_data: "valid_data d \<Longrightarrow> valid_data (normalize_data d)"
  by (auto simp: valid_data_def normalize_data_def valid_NormalizeText)

lemma requires_ascii: "list_all (\<lambda>t. list_all ascii (ty_Requires t)) Types"
  by code_simp

lemma valid_fill: "fill_required ks d = Inr d' \<Longrightarrow> list_all ascii ks \<Longrightarrow> valid_data d \<Longrightarrow> valid_data d'"
proof (induction ks d rule: fill_required.induct)
  case (2 key ks data)
  show ?case
  proof (cases "key = ''region'' \<or> mget data key \<noteq> []")
    case True
    with 2 show ?thesis by (auto split: if_splits)
  next
    case False
    let ?d = "case find (\<lambda>alias. mget data alias \<noteq> []) form_aliases of
             None \<Rightarrow> data | Some alias \<Rightarrow> mput data key (mget data alias)"
    have v: "valid_data ?d"
      using 2(5,6) valid_data_mget valid_data_mput by (auto split: option.split)
    have "fill_required ks ?d = Inr d' \<and> mget ?d key \<noteq> []" using False 2(4) by (simp add: Let_def split: if_splits)
    with False 2(5) v show ?thesis by (intro 2(3)) auto
  qed
qed simp

lemma withdrawal_form_parts:
  assumes "ValidateWithdrawalInput data = Some (Inr (clean, wd))"
  shows "wd_Method wd = TrimSpace (mget data ''method'')" "wd_SellerID wd = []" "wd_Version wd = 1"
  using assms by (auto simp: ValidateWithdrawalInput_def Let_def rbind_Inr_iff split: if_splits option.splits)

lemma FormatAmount_ascii: "0 < n \<Longrightarrow> n \<le> max_int64 \<Longrightarrow> cur \<in> set Currencies \<Longrightarrow> ascii (FormatAmount n cur)"
  by (erule (2) FormatAmount_text)
    (auto simp: amount_text_def whole_ok_def frac_str_def intro: ascii_digits)

lemma withdrawal_form_valid:
  assumes "ValidateWithdrawalInput data = Some (Inr (clean, wd))" and "valid_data data"
  shows "valid_withdrawal wd \<and> valid_data clean"
proof -
  have f: "withdrawal_ok wd" "wd_Approval wd = None" "wd_Outgoing wd = None" "mget clean ''region'' \<in> set RegionCodes"
    "clean = [(''region'', mget clean ''region''), (''transactionId'', wd_SaleReference wd),
      (''amount'', FormatAmount (wd_AmountMinor wd) (wd_Currency wd)),
      (''currency'', wd_Currency wd), (''method'', wd_Method wd)]"
    using withdrawal_form_Inr [OF assms(1)] by auto
  have u: "ascii w" if "list_all is_upper w" for w
    using that is_upper_ascii by (auto simp: ascii_def list_all_iff)
  have "ascii (wd_SaleReference wd)" using f(1) refRe_chars(2) by (simp add: withdrawal_ok_def ref_ok_def)
  moreover have "ascii (wd_Currency wd)" "ascii (mget clean ''region'')"
    using f(1,4) currency_shape region_shape u by (auto simp: withdrawal_ok_def)
  moreover have "ascii (FormatAmount (wd_AmountMinor wd) (wd_Currency wd))"
    using f(1) by (intro FormatAmount_ascii) (simp_all add: withdrawal_ok_def)
  moreover have "valid_utf8 (wd_Method wd)"
    using assms(2) withdrawal_form_parts(1) [OF assms(1)] by (simp add: valid_TrimSpace valid_data_mget)
  moreover have "int64 (wd_AmountMinor wd)" "int64 (wd_Version wd)"
    using f(1) withdrawal_form_parts(3) [OF assms(1)] by (auto simp: withdrawal_ok_def int64_def max_int64_def)
  ultimately show ?thesis
    using f(2,3) withdrawal_form_parts(2) [OF assms(1)]
    by (subst f(5)) (simp add: valid_withdrawal_def valid_data_def)
qed

lemma check_form_Inr:
  assumes "check_form actor input = Some (Inr (spec, wfl, data, wd))" and "valid_data (ci_Data input)"
  shows "spec \<in> set Types" "TypeByKey (ty_Key spec) = Some spec" "wfl = WorkflowForType (ty_Key spec)"
    "EligibleTicketApplicant (ty_Key spec) (ac_Roles actor)"
    "valid_data data" "pred_option valid_withdrawal wd"
    "case wd of None \<Rightarrow> ty_Key spec \<noteq> ''withdraw''
     | Some w \<Rightarrow> ty_Key spec = ''withdraw'' \<and> withdrawal_ok w \<and> wd_Approval w = None \<and> wd_Outgoing w = None"
proof -
  obtain t where t: "TypeByKey (ci_Type input) = Some t" using assms(1) by (auto simp: check_form_def split: option.splits)
  let ?d0 = "normalize_data (ci_Data input)"
  let ?reg = "NormalizeText (mget ?d0 ''region'')"
  let ?d1 = "mput ?d0 ''region'' ?reg"
  obtain d2 where e: "WorkflowForType (ty_Key t) \<noteq> []" "EligibleTicketApplicant (ty_Key t) (ac_Roles actor)" "ValidRegion ?reg"
    "(if ty_Key t \<noteq> ''withdraw'' then fill_required (ty_Requires t) ?d1 else Inr ?d1) = Inr d2"
    and r: "(if ty_Key t = ''withdraw'' then
       map_option (\<lambda>r. rbind r (\<lambda>(clean, built). Inr (t, WorkflowForType (ty_Key t), clean, Some built))) (ValidateWithdrawalInput d2)
      else Some (Inr (t, WorkflowForType (ty_Key t), d2, None))) = Some (Inr (spec, wfl, data, wd))"
    using assms(1) t by (auto simp: check_form_def Let_def split: if_splits sum.splits)
  have k: "t \<in> set Types" "ty_Key t = ci_Type input" using TypeByKey_Some [OF t] by auto
  have v1: "valid_data ?d1"
    using assms(2) valid_normalize_data valid_data_mput valid_data_mget valid_NormalizeText by simp
  have "list_all ascii (ty_Requires t)" using requires_ascii k(1) by (simp add: list_all_iff)
  then have v2: "valid_data d2" using e(4) v1 valid_fill by (auto split: if_splits)
  have s: "spec = t" "wfl = WorkflowForType (ty_Key t)" using r by (auto simp: rbind_Inr_iff split: if_splits)
  show "spec \<in> set Types" "TypeByKey (ty_Key spec) = Some spec" "wfl = WorkflowForType (ty_Key spec)"
    "EligibleTicketApplicant (ty_Key spec) (ac_Roles actor)"
    using s k t e(2) by simp_all
  have w: "if ty_Key t = ''withdraw'' then \<exists>built. ValidateWithdrawalInput d2 = Some (Inr (data, built)) \<and> wd = Some built
      else data = d2 \<and> wd = None"
    using r by (auto simp: rbind_Inr_iff split: if_splits)
  show "valid_data data" "pred_option valid_withdrawal wd"
    using w v2 withdrawal_form_valid by (auto split: if_splits)
  show "case wd of None \<Rightarrow> ty_Key spec \<noteq> ''withdraw''
     | Some w \<Rightarrow> ty_Key spec = ''withdraw'' \<and> withdrawal_ok w \<and> wd_Approval w = None \<and> wd_Outgoing w = None"
    using w withdrawal_form_Inr s(1) by (auto split: if_splits)
qed

lemma check_form_total: "check_form actor input \<noteq> None"
  using withdrawal_form_total by (auto simp: check_form_def Let_def split: option.split sum.split)

lemma new_sound:
  assumes "valid_data data" and "pred_option valid_withdrawal wd" and "valid_utf8 opener" and "ascii i" and "clock_ok now"
  shows "sound (NewRecord i ty code region wfl opener tag thread data wd now)"
  using assms clock_text_now [OF assms(5)]
  by (cases wd) (auto simp: NewRecord_def Let_def sound_def storable_def valid_event_def event_def valid_data_def
      valid_withdrawal_def)

section \<open>The desk\<close>

record desk =
  dk_Tickets :: "Record list"
  dk_Ledger :: "OutgoingMutation list"
  dk_Seq :: int

text \<open>
  The specification of the service: the changes a request may make. A request that fails, or
  only reads, may at most use up sequence numbers. The rule \<open>paid\<close> also stands for a payment
  whose transaction was committed although the answer to the client was lost.
\<close>

inductive desk_step :: "request \<Rightarrow> desk \<Rightarrow> desk \<Rightarrow> bool" where
  idle: "dk_Seq d \<le> n \<Longrightarrow> desk_step rq d (d\<lparr>dk_Seq := n\<rparr>)"
| opened: "created new \<Longrightarrow> sound new \<Longrightarrow> r_OpenerID new = ac_ID actor \<Longrightarrow>
    EligibleTicketApplicant (r_Type new) (ac_Roles actor) \<Longrightarrow>
    ActiveLimit (dk_Tickets d) (ac_ID actor) (r_Type new) = Inr () \<Longrightarrow>
    dk_Seq d < n \<Longrightarrow> ParseID (r_ID new) = Some (c, g, u, n) \<Longrightarrow>
    desk_step (RqCreate actor input) d (d\<lparr>dk_Tickets := dk_Tickets d @ [new], dk_Seq := n\<rparr>)"
| changed: "old \<in> set (dk_Tickets d) \<Longrightarrow> r_ID old = i \<Longrightarrow> requireAdmin actor old = Inr () \<Longrightarrow> clock_ok now \<Longrightarrow>
    body now actor f old = Inr new \<Longrightarrow> request_utf8 (RqOp actor i f) \<Longrightarrow>
    desk_step (RqOp actor i f) d (d\<lparr>dk_Tickets := upsert new (dk_Tickets d)\<rparr>)"
| paid: "old \<in> set (dk_Tickets d) \<Longrightarrow> r_ID old = i \<Longrightarrow> requireAdmin actor old = Inr () \<Longrightarrow> clock_ok now \<Longrightarrow>
    RecordWithdrawalPayment old (ac_ID actor) (format_milli now) reference others = Inr new \<Longrightarrow>
    request_utf8 (RqPay actor i reference) \<Longrightarrow>
    r_Withdrawal new = Some wd \<Longrightarrow> wd_Outgoing wd = Some out \<Longrightarrow>
    op_Reference out \<notin> set (map om_Reference (dk_Ledger d)) \<Longrightarrow>
    same_out row (ledger_row old actor wd out (trunc_milli now)) \<Longrightarrow> unique_outs (dk_Ledger d @ [row]) \<Longrightarrow>
    desk_step (RqPay actor i reference) d
      (d\<lparr>dk_Tickets := upsert new (dk_Tickets d), dk_Ledger := dk_Ledger d @ [row]\<rparr>)"

inductive_cases desk_stepE: "desk_step rq d d'"

text \<open>The books: what a ledger row and a ticket's payment say.\<close>

type_synonym booking = "string \<times> string \<times> string \<times> int \<times> string \<times> string \<times> string"

definition row_booking :: "OutgoingMutation \<Rightarrow> booking" where
  "row_booking x = (om_PublicID x, om_TicketID x, om_SellerID x, om_AmountMinor x, om_Currency x, om_Reference x, om_By x)"

definition bookings :: "Record \<Rightarrow> booking list" where
  "bookings rec = (case outgoing rec of None \<Rightarrow> []
     | Some p \<Rightarrow> [(op_ID p, op_TicketID p, op_SellerID p, op_AmountMinor p, op_Currency p, op_Reference p, op_By p)])"

definition issued :: "int \<Rightarrow> Record \<Rightarrow> bool" where
  "issued n rec \<longleftrightarrow> (case ParseID (r_ID rec) of None \<Rightarrow> False | Some (_, _, _, k) \<Rightarrow> k \<le> n)"

definition desk_inv :: "desk \<Rightarrow> bool" where
  "desk_inv d \<longleftrightarrow> distinct (map r_ID (dk_Tickets d)) \<and> unique_outs (dk_Ledger d) \<and> 0 \<le> dk_Seq d \<and>
     (\<forall>r \<in> set (dk_Tickets d). ticket_inv r \<and> sound r \<and> issued (dk_Seq d) r) \<and>
     (\<forall>m. within_limit m (dk_Tickets d)) \<and>
     mset (map row_booking (dk_Ledger d)) = mset (concat (map bookings (dk_Tickets d)))"

section \<open>Every step keeps the invariant\<close>

lemma upsert_replaces:
  assumes "distinct (map r_ID rs)" and "old \<in> set rs" and "r_ID new = r_ID old"
  shows "add_mset old (mset (upsert new rs)) = add_mset new (mset rs)"
proof -
  have u: "upsert new rs = map (\<lambda>r. if r_ID r = r_ID new then new else r) rs"
    using assms(2,3) by (auto simp: upsert_def)
  have "add_mset old (mset (map (\<lambda>r. if r_ID r = r_ID new then new else r) rs)) = add_mset new (mset rs)"
    using assms
  proof (induction rs)
    case (Cons x rs)
    show ?case
    proof (cases "x = old")
      case True
      then have "map (\<lambda>r. if r_ID r = r_ID new then new else r) rs = rs"
        using Cons.prems by (intro map_idI) (metis distinct.simps(2) image_eqI list.set_map list.simps(9))
      with True Cons.prems(3) show ?thesis by simp
    next
      case False
      then have "old \<in> set rs" "r_ID x \<noteq> r_ID new" using Cons.prems by (auto simp: rev_image_eqI)
      with Cons show ?thesis by (simp add: add_mset_commute)
    qed
  qed simp
  with u show ?thesis by simp
qed

lemma upsert_set: "distinct (map r_ID rs) \<Longrightarrow> old \<in> set rs \<Longrightarrow> r_ID new = r_ID old \<Longrightarrow>
    r \<in> set (upsert new rs) \<Longrightarrow> r = new \<or> r \<in> set rs"
  by (auto simp: upsert_def split: if_splits)

lemma mset_concat_map: "mset (concat (map f xs)) = sum_mset (image_mset (\<lambda>x. mset (f x)) (mset xs))"
  by (induction xs) auto

lemma within_limit_replace:
  assumes "within_limit m rs" and "\<forall>r \<in> set rs. r_ID r = r_ID new \<longrightarrow>
      r_OpenerID r = r_OpenerID new \<and> r_Type r = r_Type new \<and> (Closed r \<longrightarrow> Closed new)"
  shows "within_limit m (map (\<lambda>r. if r_ID r = r_ID new then new else r) rs)"
proof -
  let ?u = "\<lambda>rs. map (\<lambda>r. if r_ID r = r_ID new then new else r) rs"
  have "length (active_of m (?u rs)) \<le> length (active_of m rs) \<and>
      set (map r_Type (active_of m (?u rs))) \<subseteq> set (map r_Type (active_of m rs)) \<and>
      (distinct (map r_Type (active_of m rs)) \<longrightarrow> distinct (map r_Type (active_of m (?u rs))))"
    using assms(2)
  proof (induction rs)
    case (Cons x rs)
    define y where "y = (if r_ID x = r_ID new then new else x)"
    have y: "r_OpenerID y = r_OpenerID x" "r_Type y = r_Type x" "Closed x \<longrightarrow> Closed y"
      using bspec [OF Cons.prems, of x] by (simp_all add: y_def)
    have e: "?u (x # rs) = y # ?u rs" by (simp add: y_def)
    have "\<forall>r \<in> set rs. r_ID r = r_ID new \<longrightarrow> r_OpenerID r = r_OpenerID new \<and> r_Type r = r_Type new \<and> (Closed r \<longrightarrow> Closed new)"
      using Cons.prems by (meson list.set_intros(2))
    note IH = Cons.IH [OF this]
    show ?case unfolding e active_of_simps y(1) using IH y(2,3)
      by (cases "r_OpenerID x = m"; cases "Closed x"; cases "Closed y") (auto simp del: set_map)
  qed simp
  with assms(1) show ?thesis unfolding within_limit_def by (meson order_trans)
qed

lemma ActiveLimit_cong: "set (active_of m xs) = set (active_of m ys) \<Longrightarrow> length (active_of m xs) = length (active_of m ys) \<Longrightarrow>
    ActiveLimit xs m ty = ActiveLimit ys m ty"
  by (simp only: ActiveLimit_eq)

lemma ActiveLimit_mset: "mset (active_of m xs) = mset (active_of m ys) \<Longrightarrow> ActiveLimit xs m ty = ActiveLimit ys m ty"
  by (rule ActiveLimit_cong) (erule mset_eq_setD mset_eq_length)+

lemma within_limit_other: "r_OpenerID new \<noteq> m \<Longrightarrow> within_limit m (rs @ [new]) = within_limit m rs"
  by (simp add: within_limit_def active_of_def)

lemma active_of_append: "active_of m (xs @ ys) = active_of m xs @ active_of m ys"
  by (simp add: active_of_def)

lemma within_limit_snoc: "within_limit m (rs @ [new]) = within_limit m (new # rs)"
  unfolding within_limit_def active_of_append by (auto simp only: active_of_simps) auto

lemma tstep_frame:
  assumes "tstep old new"
  shows "r_ID new = r_ID old" "r_OpenerID new = r_OpenerID old" "r_Type new = r_Type old" "Closed old \<Longrightarrow> Closed new"
proof -
  obtain c a now where r: "run c a now old = Inr new" using assms by (rule tstepE)
  show "r_ID new = r_ID old" "r_OpenerID new = r_OpenerID old" "r_Type new = r_Type old"
    using identity_fields [OF run_frame(1) [OF r]] by simp_all
  show "Closed new" if "Closed old"
    using r that by (cases c) (auto simp: all_ops_Inr Closed_def elim!: CanTransition_wf)
qed

lemma replace_inv:
  assumes "desk_inv d" and "old \<in> set (dk_Tickets d)" and "tstep old new" and "sound new" and "unique_outs os"
    and "mset (map row_booking os) + mset (bookings old) = mset (map row_booking (dk_Ledger d)) + mset (bookings new)"
  shows "desk_inv (d\<lparr>dk_Tickets := upsert new (dk_Tickets d), dk_Ledger := os\<rparr>)"
proof -
  let ?rs = "dk_Tickets d"
  note f = tstep_frame [OF assms(3)]
  have d: "distinct (map r_ID ?rs)" "\<forall>r \<in> set ?rs. ticket_inv r \<and> sound r \<and> issued (dk_Seq d) r"
    "\<forall>m. within_limit m ?rs" "mset (map row_booking (dk_Ledger d)) = mset (concat (map bookings ?rs))" "0 \<le> dk_Seq d"
    using assms(1) by (auto simp: desk_inv_def)
  have uniq: "r = old" if "r \<in> set ?rs" "r_ID r = r_ID new" for r
    using d(1) that assms(2) f(1) by (auto simp: distinct_map inj_on_def)
  have u: "upsert new ?rs = map (\<lambda>r. if r_ID r = r_ID new then new else r) ?rs"
    using assms(2) f(1) by (auto simp: upsert_def)
  have "ticket_inv new" using tstep_inv [OF assms(3)] d(2) assms(2) by blast
  moreover have "issued (dk_Seq d) new" using d(2) assms(2) f(1) by (auto simp: issued_def)
  ultimately have all: "\<forall>r \<in> set (upsert new ?rs). ticket_inv r \<and> sound r \<and> issued (dk_Seq d) r"
    using upsert_set [OF d(1) assms(2) f(1)] d(2) assms(4) by blast
  have "within_limit m (upsert new ?rs)" for m
    unfolding u using d(3) uniq f by (intro within_limit_replace) auto
  moreover have "mset (map row_booking os) = mset (concat (map bookings (upsert new ?rs)))"
  proof -
    have "mset (bookings old) + mset (concat (map bookings (upsert new ?rs))) =
        mset (bookings new) + mset (concat (map bookings ?rs))"
      using arg_cong [OF upsert_replaces [OF d(1) assms(2) f(1)], of "\<lambda>M. sum_mset (image_mset (\<lambda>x. mset (bookings x)) M)"]
      by (simp add: mset_concat_map)
    also have "\<dots> = mset (bookings old) + mset (map row_booking os)"
      using assms(6) d(4) by (simp add: add.commute)
    finally show ?thesis by simp
  qed
  ultimately show ?thesis
    using upsert_distinct [OF d(1)] all assms(5) d(5) by (simp add: desk_inv_def)
qed

lemma opened_inv:
  assumes "desk_inv d" and "created new" and "sound new" and "dk_Seq d < n" and "ParseID (r_ID new) = Some (c, g, u, n)"
    and "ActiveLimit (dk_Tickets d) (r_OpenerID new) (r_Type new) = Inr ()"
  shows "desk_inv (d\<lparr>dk_Tickets := dk_Tickets d @ [new], dk_Seq := n\<rparr>)"
    and "\<forall>r \<in> set (dk_Tickets d). r_ID r \<noteq> r_ID new"
proof -
  show n: "\<forall>r \<in> set (dk_Tickets d). r_ID r \<noteq> r_ID new"
  proof (intro ballI notI)
    fix r assume "r \<in> set (dk_Tickets d)" "r_ID r = r_ID new"
    then have "issued (dk_Seq d) r" "ParseID (r_ID r) = Some (c, g, u, n)" using assms(1,5) by (auto simp: desk_inv_def)
    then show False using assms(4) by (simp add: issued_def)
  qed
  have i: "issued n r" if "issued (dk_Seq d) r" for r
    using that assms(4) by (auto simp: issued_def split: option.splits)
  have "within_limit m (dk_Tickets d @ [new])" for m
    using assms(1) active_limit_keeps [OF assms(6)] within_limit_other [of new m] within_limit_snoc
    by (cases "r_OpenerID new = m") (auto simp: desk_inv_def)
  moreover have "bookings new = []"
    using assms(2) by (auto simp: created_def bookings_def outgoing_def NewRecord_def Let_def split: option.splits)
  ultimately show "desk_inv (d\<lparr>dk_Tickets := dk_Tickets d @ [new], dk_Seq := n\<rparr>)"
    using assms(1,3-5) n i created_inv [OF assms(2)]
    by (auto simp: desk_inv_def issued_def rev_image_eqI)
qed

lemma command_of_utf8: "operation_utf8 f \<Longrightarrow> sound old \<Longrightarrow> command_utf8 (command_of old f)"
  by (cases f) (auto simp: sound_def)

lemma body_outgoing: "body now actor f old = Inr new \<Longrightarrow> outgoing new = outgoing old"
  by (drule body_run, cases f) (auto simp: all_ops_Inr outgoing_def)

lemma body_step:
  assumes "body now actor f old = Inr new" and "requireAdmin actor old = Inr ()" and "clock_ok now"
    and "valid_utf8 (ac_ID actor)" and "operation_utf8 f" and "sound old"
  shows "tstep old new \<and> sound new"
proof -
  note r = body_run [OF assms(1)] and c = command_of_utf8 [OF assms(5,6)]
  have "ac_ID actor \<noteq> []" "ac_ID actor \<noteq> r_OpenerID old" using assms(2) is_admin_ID by (auto simp: requireAdmin_Inr)
  then show ?thesis
    using tstep.tstep [OF r] command_utf8_input [OF c] run_sound [OF r assms(6,4) c] assms(3) by auto
qed

lemma pay_run: "RecordWithdrawalPayment old a (format_milli now) reference others = Inr new \<Longrightarrow>
    run (DoPay reference others) a now old = Inr new"
  by simp

lemma pay_step:
  assumes "RecordWithdrawalPayment old (ac_ID actor) (format_milli now) reference others = Inr new"
    and "requireAdmin actor old = Inr ()" and "clock_ok now" and "valid_utf8 (ac_ID actor)" and "sound old"
  shows "tstep old new \<and> sound new"
proof -
  note r = pay_run [OF assms(1)]
  have "ac_ID actor \<noteq> []" "ac_ID actor \<noteq> r_OpenerID old" using assms(2) is_admin_ID by (auto simp: requireAdmin_Inr)
  then show ?thesis using tstep.tstep [OF r] run_sound [OF r assms(5,4)] assms(3) by auto
qed

lemma pay_booking:
  assumes "RecordWithdrawalPayment old (ac_ID actor) at reference others = Inr new"
    and "r_Withdrawal new = Some wd" and "wd_Outgoing wd = Some out" and "same_out row (ledger_row old actor wd out t)"
  shows "bookings old = []" "bookings new = [row_booking row]"
  using assms(1-3) same_out_reference [OF assms(4)]
  by (auto simp: RecordWithdrawalPayment_Inr bookings_def outgoing_def outgoing_of_def row_booking_def ledger_row_def)

lemma desk_step_inv:
  assumes "desk_step rq d d'" and "desk_inv d"
  shows "desk_inv d'"
  using assms(1)
proof (cases rule: desk_step.cases)
  case (idle n)
  with assms(2) show ?thesis
    by (auto simp: desk_inv_def issued_def split: option.splits)
next
  case (opened new actor n c g u input)
  then show ?thesis using opened_inv [OF assms(2), of new n c g u] by simp
next
  case (changed old i actor now f new)
  have "sound old" using assms(2) changed(3) by (auto simp: desk_inv_def)
  with changed body_step [of now actor f old new] have t: "tstep old new" "sound new" by auto
  have "bookings new = bookings old" using body_outgoing [OF changed(7)] by (simp add: bookings_def)
  moreover have "unique_outs (dk_Ledger d)" using assms(2) by (simp add: desk_inv_def)
  moreover have "d\<lparr>dk_Tickets := ts\<rparr> = d\<lparr>dk_Tickets := ts, dk_Ledger := dk_Ledger d\<rparr>" for ts by simp
  ultimately show ?thesis
    using replace_inv [OF assms(2) changed(3) t, of "dk_Ledger d"] changed(2) by metis
next
  case (paid old i actor now reference others new wd out row)
  have "sound old" using assms(2) paid(3) by (auto simp: desk_inv_def)
  with paid pay_step [of old actor now reference others new] have t: "tstep old new" "sound new" by auto
  show ?thesis unfolding paid(2)
    using paid(12) pay_booking [OF paid(7,9,10,12)] paid(13)
    by (intro replace_inv [OF assms(2) paid(3) t]) simp_all
qed

section \<open>The service refines the desk\<close>

context ticket_repo
begin

definition view :: "'w \<Rightarrow> desk" where
  "view w = \<lparr>dk_Tickets = recs w, dk_Ledger = ledger w, dk_Seq = seqno w\<rparr>"

lemma view_idle: "recs w' = recs w \<Longrightarrow> ledger w' = ledger w \<Longrightarrow> seqno w \<le> seqno w' \<Longrightarrow> desk_step rq (view w) (view w')"
  using desk_step.idle [of "view w" "seqno w'" rq] by (simp add: view_def)

text \<open>An answer: never a panic, and a record that is answered is stored.\<close>

definition answered :: "(ticket_error, Record option) result \<Rightarrow> 'w \<Rightarrow> bool" where
  "answered r w \<longleftrightarrow> (case r of Inl _ \<Rightarrow> True | Inr None \<Rightarrow> False | Inr (Some rec) \<Rightarrow> rec \<in> set (recs w))"

lemma upsert_in: "new \<in> set (upsert new rs)"
  by (auto simp: upsert_def image_iff)

lemma on_ticket_step:
  assumes "good w" and "desk_inv (view w)" and "on_ticket rp actor i (body now actor f) w = (r, w')"
    and "clock_ok now" and "request_utf8 (RqOp actor i f)"
  shows "good w' \<and> desk_step (RqOp actor i f) (view w) (view w') \<and> answered (map_sum id Some r) w'"
proof -
  from assms(3) [unfolded on_ticket_def] show ?thesis
  proof (cases rule: sbind_cases)
    case (fail e)
    then show ?thesis using FindByPublicID [OF assms(1) fail(1)] view_idle by (auto simp: answered_def)
  next
    case (step rec w1)
    note find = FindByPublicID [OF assms(1) step(1)]
    consider (no) e where "r = Inl e" "w' = w1"
      | (ok) new where "requireAdmin actor rec = Inr ()" "body now actor f rec = Inr new"
          "sbind (rp_Save rp new) (\<lambda>_. sret new) w1 = (r, w')"
      using step(2) by (cases "requireAdmin actor rec") (auto split: sum.splits dest!: sym [of "Inl _"])
    then show ?thesis
    proof cases
      case no
      then show ?thesis using find view_idle by (auto simp: answered_def)
    next
      case ok
      obtain q where q: "rp_Save rp new w1 = (q, w')" "r = map_sum id (\<lambda>_. new) q"
        using ok(3) by (auto simp: sbind_def split: prod.splits sum.splits)
      have rec: "rec \<in> set (recs w)" "r_ID rec = i" "good w1" "recs w1 = recs w" "ledger w1 = ledger w" "seqno w1 = seqno w"
        using find by auto
      have "sound rec" using assms(2) rec(1) by (auto simp: desk_inv_def view_def)
      with body_step [OF ok(2,1) assms(4)] assms(5) have "sound new" by simp
      then have st: "storable new" by (simp add: sound_def)
      from Save [OF rec(3) st q(1)] rec have s: "good w'" "ledger w' = ledger w" "seqno w' = seqno w"
        "recs w' = (case q of Inl _ \<Rightarrow> recs w | Inr _ \<Rightarrow> upsert new (recs w))" by (auto split: sum.splits)
      show ?thesis
      proof (cases q)
        case (Inl e)
        then show ?thesis using s view_idle q(2) by (auto simp: answered_def)
      next
        case (Inr x)
        have v: "view w' = (view w)\<lparr>dk_Tickets := upsert new (dk_Tickets (view w))\<rparr>"
          using s Inr by (simp add: view_def)
        have "desk_step (RqOp actor i f) (view w) (view w')" unfolding v
          using rec(1,2) ok(1,2) assms(4,5) by (intro desk_step.changed) (auto simp: view_def)
        then show ?thesis using s Inr q(2) by (simp add: answered_def upsert_in)
      qed
    qed
  qed
qed

text \<open>The end of \<open>RecordPayment\<close>, after the tickets were loaded.\<close>

definition pay_end :: "Actor \<Rightarrow> Record \<Rightarrow> Record \<Rightarrow> ('w, ticket_error, Record option) sop" where
  "pay_end actor rec new =
     (case r_Withdrawal new of None \<Rightarrow> sret None | Some wd \<Rightarrow>
     (case wd_Outgoing wd of None \<Rightarrow> sret None | Some out \<Rightarrow>
       sbind (rp_OutgoingExists rp (op_Reference out)) (\<lambda>found.
       if found then sfail ErrDuplicatePayment
       else case parse_milli_Z (op_At out) of
         None \<Rightarrow> sfail ErrTime
       | Some paidAt \<Rightarrow>
           sbind (rp_SavePayment rp new (ledger_row rec actor wd out paidAt)) (\<lambda>_. sret (Some new)))))"

lemma pay_tail:
  assumes "good w3" and "recs w3 = recs w" and "ledger w3 = ledger w" and "seqno w3 = seqno w"
    and "rec \<in> set (recs w)" and "r_ID rec = i" and "requireAdmin actor rec = Inr ()" and "desk_inv (view w)"
    and "clock_ok now" and "request_utf8 (RqPay actor i reference)"
    and "sbind (slift (RecordWithdrawalPayment rec (ac_ID actor) (format_milli now) reference others)) (pay_end actor rec) w3 = (r, w')"
  shows "good w' \<and> desk_step (RqPay actor i reference) (view w) (view w') \<and> answered r w'"
proof -
  have idle: ?thesis if "good w'" "recs w' = recs w" "ledger w' = ledger w" "seqno w' = seqno w" "r = Inl e" for e
    using that view_idle by (auto simp: answered_def)
  show ?thesis
  proof (cases "RecordWithdrawalPayment rec (ac_ID actor) (format_milli now) reference others")
    case (Inl e)
    with assms(1-4,11) show ?thesis by (intro idle [of e]) auto
  next
    case (Inr new)
    then obtain wd0 ref where p: "r_Withdrawal new = Some (wd0\<lparr>wd_Outgoing := Some (outgoing_of rec wd0 ref (ac_ID actor) (format_milli now))\<rparr>)"
      by (auto simp: RecordWithdrawalPayment_Inr)
    define out where "out = outgoing_of rec wd0 ref (ac_ID actor) (format_milli now)"
    define wd where "wd = wd0\<lparr>wd_Outgoing := Some out\<rparr>"
    have q: "r_Withdrawal new = Some wd" "wd_Outgoing wd = Some out" "parse_milli_Z (op_At out) = Some (trunc_milli now)"
      using p parse_format_milli_Z [OF assms(9)] by (simp_all add: wd_def out_def outgoing_of_def)
    from assms(11) Inr q have "sbind (rp_OutgoingExists rp (op_Reference out)) (\<lambda>found.
       if found then sfail ErrDuplicatePayment
       else sbind (rp_SavePayment rp new (ledger_row rec actor wd out (trunc_milli now))) (\<lambda>_. sret (Some new))) w3 = (r, w')"
      by (simp add: pay_end_def cong: if_cong)
    then show ?thesis
    proof (cases rule: sbind_cases)
      case (fail e)
      then show ?thesis using OutgoingExists [OF assms(1) fail(1)] assms(2-4) idle by auto
    next
      case (step found w4)
      have h: "good w4" "recs w4 = recs w" "ledger w4 = ledger w" "seqno w4 = seqno w"
        "found \<longleftrightarrow> op_Reference out \<in> set (map om_Reference (ledger w))"
        using OutgoingExists [OF assms(1) step(1)] assms(2-4) by auto
      show ?thesis
      proof (cases found)
        case True
        with step(2) h show ?thesis by (intro idle [of ErrDuplicatePayment]) auto
      next
        case False
        then obtain z where z: "rp_SavePayment rp new (ledger_row rec actor wd out (trunc_milli now)) w4 = (z, w')"
          "r = map_sum id (\<lambda>_. Some new) z"
          using step(2) by (auto simp: sbind_def split: prod.splits sum.splits)
        have "sound rec" using assms(5,8) by (auto simp: desk_inv_def view_def)
        with pay_step [OF Inr assms(7,9)] assms(10) have "sound new" by simp
        then have "storable new" by (simp add: sound_def)
        note s = SavePayment [OF h(1) this z(1)]
        have seqs: "good w'" "seqno w' = seqno w" using s h by auto
        consider (same) e where "z = Inl e" "recs w' = recs w" "ledger w' = ledger w"
          | (written) row where "recs w' = upsert new (recs w)" "same_out row (ledger_row rec actor wd out (trunc_milli now))"
              "ledger w' = ledger w @ [row]"
          using s h by (cases z) (auto simp: Let_def)
        then show ?thesis
        proof cases
          case same
          then show ?thesis using seqs z(2) by (intro idle [of e]) auto
        next
          case written
          have v: "view w' = (view w)\<lparr>dk_Tickets := upsert new (dk_Tickets (view w)), dk_Ledger := dk_Ledger (view w) @ [row]\<rparr>"
            using written seqs by (simp add: view_def)
          have "unique_outs (ledger w @ [row])" using unique [OF seqs(1)] written(3) by simp
          then have "desk_step (RqPay actor i reference) (view w) (view w')" unfolding v
            using Inr q(1,2) written(2) assms(5-7,9,10) False h(5)
            by (intro desk_step.paid [where others = others and now = now]) (simp_all add: view_def)
          moreover have "answered r w'" using z(2) written(1) upsert_in by (cases z) (simp_all add: answered_def)
          ultimately show ?thesis using seqs by simp
        qed
      qed
    qed
  qed
qed

lemma pay_serve_step:
  assumes "good w" and "desk_inv (view w)" and "RecordPayment rp actor i reference now w = (r, w')"
    and "clock_ok now" and "request_utf8 (RqPay actor i reference)"
  shows "good w' \<and> desk_step (RqPay actor i reference) (view w) (view w') \<and> answered r w'"
proof -
  have idle: ?thesis if "good w'" "recs w' = recs w" "ledger w' = ledger w" "seqno w' = seqno w" "r = Inl e" for e
    using that view_idle by (auto simp: answered_def)
  from assms(3) [unfolded RecordPayment_def] show ?thesis
  proof (cases rule: sbind_cases)
    case (fail e)
    then show ?thesis using FindByPublicID [OF assms(1) fail(1)] idle by auto
  next
    case (step rec w1)
    have f: "good w1" "recs w1 = recs w" "ledger w1 = ledger w" "seqno w1 = seqno w" "rec \<in> set (recs w)" "r_ID rec = i"
      using FindByPublicID [OF assms(1) step(1)] by auto
    show ?thesis
    proof (cases "requireAdmin actor rec")
      case (Inl e)
      with step(2) f show ?thesis by (intro idle [of e]) auto
    next
      case adm: (Inr u)
      then have adm1: "requireAdmin actor rec = Inr ()" by simp
      from step(2) adm have "sbind (rp_ListOpen rp) (\<lambda>opn. sbind (rp_ListByOpener rp (r_OpenerID rec)) (\<lambda>byOpener.
          let others = opn @ byOpener; at = format_milli now in
          sbind (slift (RecordWithdrawalPayment rec (ac_ID actor) at reference others)) (pay_end actor rec))) w1 = (r, w')"
        by (simp add: pay_end_def [abs_def])
      then show ?thesis
      proof (cases rule: sbind_cases)
        case (fail e)
        then show ?thesis using ListOpen [OF f(1) fail(1)] f idle by auto
      next
        case lo: (step opn w2)
        have g: "good w2" "recs w2 = recs w" "ledger w2 = ledger w" "seqno w2 = seqno w"
          using ListOpen [OF f(1) lo(1)] f by auto
        from lo(2) show ?thesis
        proof (cases rule: sbind_cases)
          case (fail e)
          then show ?thesis using ListByOpener [OF g(1) fail(1)] g idle by auto
        next
          case lb: (step byOpener w3)
          have h: "good w3" "recs w3 = recs w" "ledger w3 = ledger w" "seqno w3 = seqno w"
            using ListByOpener [OF g(1) lb(1)] g by auto
          show ?thesis using pay_tail [OF h f(5,6) adm1 assms(2,4,5)] lb(2) by (simp add: Let_def)
        qed
      qed
    qed
  qed
qed

text \<open>The end of \<open>Create\<close>, after the form was checked.\<close>

definition create_end :: "Actor \<Rightarrow> CreateInput \<Rightarrow> instant \<Rightarrow> Type \<Rightarrow> string \<Rightarrow> (string, string) gomap \<Rightarrow>
    Withdrawal option \<Rightarrow> ('w, ticket_error, Record) sop" where
  "create_end actor input now spec workflow data wd =
     sbind (rp_ListByOpener rp (ac_ID actor)) (\<lambda>existing.
     sbind (slift (ActiveLimit existing (ac_ID actor) (ty_Key spec))) (\<lambda>_.
     let admins = length (filter (\<lambda>i. i \<noteq> [] \<and> i \<noteq> ac_ID actor) (ac_AvailableAdmins actor)) in
     if admins = 0 then sfail ErrNoAdmin
     else sbind (rp_NextSeq rp) (\<lambda>seqn.
       let rec = ticket_for actor input now spec workflow data wd seqn in
       sbind (rp_Save rp rec) (\<lambda>_. sret rec))))"

lemma create_tail:
  assumes "good w" and "desk_inv (view w)" and "clock_ok now" and "valid_utf8 (ac_ID actor)"
    and "spec \<in> set Types" "TypeByKey (ty_Key spec) = Some spec" "wfl = WorkflowForType (ty_Key spec)"
      "EligibleTicketApplicant (ty_Key spec) (ac_Roles actor)" "valid_data data" "pred_option valid_withdrawal wd"
      "case wd of None \<Rightarrow> ty_Key spec \<noteq> ''withdraw''
       | Some w \<Rightarrow> ty_Key spec = ''withdraw'' \<and> withdrawal_ok w \<and> wd_Approval w = None \<and> wd_Outgoing w = None"
    and "create_end actor input now spec wfl data wd w = (q, w')"
  shows "good w' \<and> desk_step (RqCreate actor input) (view w) (view w') \<and> answered (map_sum id Some q) w'"
proof -
  have idle: ?thesis if "good w'" "recs w' = recs w" "ledger w' = ledger w" "seqno w \<le> seqno w'" "q = Inl e" for e
    using that view_idle by (auto simp: answered_def)
  from assms(12) [unfolded create_end_def] show ?thesis
  proof (cases rule: sbind_cases)
    case (fail e)
    then show ?thesis using ListByOpener [OF assms(1) fail(1)] by (intro idle [of e]) auto
  next
    case (step existing w1)
    have f: "good w1" "recs w1 = recs w" "ledger w1 = ledger w" "seqno w1 = seqno w"
      "mset existing = mset (filter (\<lambda>r. r_OpenerID r = ac_ID actor) (recs w))"
      using ListByOpener [OF assms(1) step(1)] by auto
    consider (no) e where "q = Inl e" "w' = w1"
      | (ok) seqn w2 where "ActiveLimit existing (ac_ID actor) (ty_Key spec) = Inr ()" "rp_NextSeq rp w1 = (seqn, w2)"
          "case seqn of Inl e \<Rightarrow> q = Inl e \<and> w' = w2
           | Inr n \<Rightarrow> sbind (rp_Save rp (ticket_for actor input now spec wfl data wd n))
               (\<lambda>_. sret (ticket_for actor input now spec wfl data wd n)) w2 = (q, w')"
      using step(2) by (cases "rp_NextSeq rp w1") (auto simp: Let_def sbind_def split: sum.splits if_splits dest!: sym [of "Inl _"])
    then show ?thesis
    proof cases
      case no
      with f show ?thesis by (intro idle [of e]) auto
    next
      case ok
      note nx = NextSeq [OF f(1) ok(2)]
      show ?thesis
      proof (cases seqn)
        case (Inl e)
        with nx ok(3) f show ?thesis by (intro idle [of e]) auto
      next
        case (Inr n)
        with nx f have n: "good w2" "recs w2 = recs w" "ledger w2 = ledger w" "n = seqno w + 1" "seqno w2 = n" "n < 2 ^ 31" by auto
        define i where "i = FormatID (ty_Code spec) (mget data ''region'') (ac_Username actor) n"
        define rec where "rec = ticket_for actor input now spec wfl data wd n"
        have rd: "rec = NewRecord i (ty_Key spec) (ty_Code spec) (mget data ''region'') wfl (ac_ID actor) (ac_Tag actor)
                 (if ci_ThreadID input = [] then i else ci_ThreadID input) data wd now"
          by (simp add: rec_def ticket_for_def Let_def i_def)
        have "sbind (rp_Save rp rec) (\<lambda>_. sret rec) w2 = (q, w')" using ok(3) Inr by (simp add: rec_def)
        then obtain z where z: "rp_Save rp rec w2 = (z, w')" "q = map_sum id (\<lambda>_. rec) z"
          by (auto simp: sbind_def split: prod.splits sum.splits)
        have n0: "0 \<le> n" "n < 10 ^ 16" using n(4,6) assms(2) by (auto simp: desk_inv_def view_def)
        have "ascii i" unfolding i_def using assms(5) n0 by (rule FormatID_ascii)
        then have s: "sound rec" unfolding rd using assms(3,4,9,10) by (intro new_sound)
        have cr: "created rec" unfolding rd assms(7) using assms(3,6,11) by (intro createdI) auto
        have rf: "r_ID rec = i" "r_OpenerID rec = ac_ID actor" "r_Type rec = ty_Key spec"
          by (simp_all add: rd NewRecord_def Let_def)
        have p: "ParseID (r_ID rec) = Some (ty_Code spec, safe_region (mget data ''region''), safe_user (ac_Username actor), n)"
          unfolding rf(1) i_def using types_codes assms(5) n0 by (intro ParseID_FormatID) auto
        have "mset (active_of (ac_ID actor) existing) = mset (active_of (ac_ID actor) (recs w))"
          unfolding active_of_def mset_filter f(5) by (auto simp: filter_filter_mset intro!: filter_mset_cong)
        then have al: "ActiveLimit (dk_Tickets (view w)) (r_OpenerID rec) (r_Type rec) = Inr ()"
          using ok(1) ActiveLimit_mset by (metis rf(2,3) view_def desk.simps(1))
        have lt: "dk_Seq (view w) < n" using n(4) by (simp add: view_def)
        have "storable rec" using s by (simp add: sound_def)
        note sv = Save [OF n(1) this z(1)]
        show ?thesis
        proof (cases z)
          case (Inl e)
          with sv n z(2) show ?thesis by (intro idle [of e]) auto
        next
          case Inr2: (Inr u)
          have "recs w' = recs w @ [rec]"
            using sv Inr2 n(2) upsert_new opened_inv(2) [OF assms(2) cr s lt p al] by (auto simp: view_def)
          then have v: "view w' = (view w)\<lparr>dk_Tickets := dk_Tickets (view w) @ [rec], dk_Seq := n\<rparr>"
            using sv n Inr2 by (simp add: view_def)
          have "desk_step (RqCreate actor input) (view w) (view w')" unfolding v
            using cr s rf assms(8) al lt p by (intro desk_step.opened) auto
          then show ?thesis using sv Inr2 n z(2) upsert_in by (simp add: answered_def)
        qed
      qed
    qed
  qed
qed

lemma create_serve_step:
  assumes "good w" and "desk_inv (view w)" and "serve rp now (RqCreate actor input) w = (r, w')"
    and "clock_ok now" and "request_utf8 (RqCreate actor input)"
  shows "good w' \<and> desk_step (RqCreate actor input) (view w) (view w') \<and> answered r w'"
proof -
  have idle: ?thesis if "good w'" "recs w' = recs w" "ledger w' = ledger w" "seqno w \<le> seqno w'" "r = Inl e" for e
    using that view_idle by (auto simp: answered_def)
  have vd: "valid_data (ci_Data input)" and va: "valid_utf8 (ac_ID actor)"
    using assms(5) by (auto simp: valid_data_def list_all_iff)
  show ?thesis
  proof (cases "check_form actor input")
    case None
    then have False using check_form_total by simp
    then show ?thesis ..
  next
    case (Some form)
    show ?thesis
    proof (cases form)
      case (Inl e)
      with Some assms(1,3) show ?thesis by (intro idle [of e]) (auto simp: Create_def sbind_def)
    next
      case (Inr x)
      obtain spec wfl data wd where x: "x = (spec, wfl, data, wd)" by (cases x)
      note c = check_form_Inr [OF Some [unfolded Inr x] vd]
      have "sbind (create_end actor input now spec wfl data wd) (\<lambda>rec. sret (Some rec)) w = (r, w')"
        using assms(3) Some Inr x by (simp add: Create_def create_end_def sbind_def cong: if_cong)
      then obtain q where q: "create_end actor input now spec wfl data wd w = (q, w')" "r = map_sum id Some q"
        by (auto simp: sbind_def split: prod.splits sum.splits)
      from create_tail [OF assms(1,2,4) va c q(1)] q(2) show ?thesis by auto
    qed
  qed
qed

text \<open>Every request, whatever the database does, is one step of the desk, and is answered without a panic.\<close>

lemma serve_refines:
  assumes "good w" and "desk_inv (view w)" and "serve rp now rq w = (r, w')" and "clock_ok now" and "request_utf8 rq"
  shows "good w' \<and> desk_step rq (view w) (view w') \<and> answered r w'"
proof (cases rq)
  case (RqCreate actor input)
  with create_serve_step assms show ?thesis by simp
next
  case (RqOp actor i f)
  with assms(3) obtain q where q: "on_ticket rp actor i (body now actor f) w = (q, w')" "r = map_sum id Some q"
    by (auto simp: operate_body sbind_def split: prod.splits sum.splits)
  from on_ticket_step [OF assms(1,2) q(1) assms(4)] assms(5) q(2) RqOp show ?thesis by simp
next
  case (RqPay actor i reference)
  with pay_serve_step assms show ?thesis by simp
qed

end

section \<open>The desk over the tables\<close>

definition pg_desk :: "pg \<Rightarrow> desk" where
  "pg_desk w = \<lparr>dk_Tickets = records_of (pg_Tabs w), dk_Ledger = tb_Outs (pg_Tabs w), dk_Seq = seq_of (pg_Tabs w)\<rparr>"

text \<open>One request to the program, over the repository on the tables.\<close>

definition handle :: "instant \<Rightarrow> request \<Rightarrow> (pg, ticket_error, Record option) sop" where
  "handle now rq = serve (gorm_repo pg_store now) now rq"

lemma handle_refines:
  assumes "desk_ok (pg_Tabs w)" and "desk_inv (pg_desk w)" and "handle now rq w = (r, w')" and "clock_ok now" and "request_utf8 rq"
  shows "desk_ok (pg_Tabs w') \<and> desk_step rq (pg_desk w) (pg_desk w') \<and>
    (case r of Inl _ \<Rightarrow> True | Inr None \<Rightarrow> False | Inr (Some rec) \<Rightarrow> rec \<in> set (records_of (pg_Tabs w')))"
proof -
  have "desk_inv (desk.view w)" "serve (gorm_repo pg_store now) now rq w = (r, w')"
    using assms(2,3) by (simp_all add: desk.view_def pg_desk_def handle_def)
  from desk.serve_refines [OF assms(1) this assms(4,5)] show ?thesis
    by (simp add: desk.view_def desk.answered_def pg_desk_def)
qed

text \<open>A run of the program: a list of requests with the time of each, from the state given.\<close>

fun handle_all :: "(instant \<times> request) list \<Rightarrow> pg \<Rightarrow> pg" where
  "handle_all [] w = w"
| "handle_all ((now, rq) # rqs) w = handle_all rqs (snd (handle now rq w))"

lemma handle_all_inv:
  assumes "desk_ok (pg_Tabs w)" and "desk_inv (pg_desk w)" and "list_all (\<lambda>p. clock_ok (fst p) \<and> request_utf8 (snd p)) rqs"
  shows "desk_ok (pg_Tabs (handle_all rqs w)) \<and> desk_inv (pg_desk (handle_all rqs w))"
  using assms
proof (induction rqs w rule: handle_all.induct)
  case (2 now rq rqs w)
  obtain r w' where h: "handle now rq w = (r, w')" by (cases "handle now rq w")
  with 2(2-4) handle_refines [of w now rq r w'] desk_step_inv have "desk_ok (pg_Tabs w')" "desk_inv (pg_desk w')" by auto
  with 2 h show ?case by simp
qed simp

lemma empty_inv: "desk_inv (pg_desk (empty_pg fs))"
  by (simp add: desk_inv_def pg_desk_def empty_pg_def records_of_def seq_of_def unique_outs_def within_limit_def)

text \<open>
  C1: The service does what the desk allows, and nothing else. Over the repository, with any
  statement of the database failing, one request changes the desk by one step of its
  specification (opening a ticket, one operation on one ticket by an admin who did not open
  it, one payment with its ledger row, or nothing), the tables stay consistent, no request
  panics, and a record in an answer is the record stored.
\<close>

theorem service_refines_desk:
  assumes "desk_ok (pg_Tabs w)" and "desk_inv (pg_desk w)" and "handle now rq w = (r, w')" and "clock_ok now" and "request_utf8 rq"
  shows "desk_step rq (pg_desk w) (pg_desk w') \<and> desk_ok (pg_Tabs w') \<and> desk_inv (pg_desk w') \<and>
    (case r of Inl _ \<Rightarrow> True | Inr None \<Rightarrow> False | Inr (Some rec) \<Rightarrow> rec \<in> set (records_of (pg_Tabs w')))"
  using handle_refines [OF assms] desk_step_inv assms(2) by blast

definition sample_admin :: Actor where
  "sample_admin = \<lparr>ac_ID = ''7'', ac_Username = ''ani'', ac_Tag = ''ani'', ac_Roles = None, ac_IsAdmin = True,
     ac_IsBot = False, ac_OwnerID = ''1'', ac_AvailableAdmins = [''7'', ''8'']\<rparr>"

theorem service_refines_desk_witness:
  "\<exists>w'. handle 1700000000000000000 (RqOp sample_admin ''GEN-ID-budi-00001'' OpClaim) (empty_pg [True, False]) = (Inl (DbError ''connection lost''), w') \<and>
     desk_inv (pg_desk w')"
proof -
  let ?rq = "RqOp sample_admin ''GEN-ID-budi-00001'' OpClaim"
  obtain r w' where h: "handle 1700000000000000000 ?rq (empty_pg [True, False]) = (r, w')"
    by (cases "handle 1700000000000000000 ?rq (empty_pg [True, False])")
  then have "r = Inl (DbError ''connection lost'')"
    by (auto simp: handle_def ClaimTicket_def on_ticket_def sbind_def gorm_repo_def FindByPublicID_def find_by_def
      pg_store_def pg_first_def stmt_def empty_pg_def wrap_def)
  moreover have "request_utf8 ?rq" by (simp add: sample_admin_def)
  ultimately show ?thesis
    using service_refines_desk [OF empty_desk empty_inv h sample_clock] h by blast
qed

text \<open>
  C2: The desk stays in order. After any list of requests to the program with an empty
  database, whatever statements of the database failed on the way: ids are unique, every
  ticket satisfies the invariant of the life of a ticket and can be stored without loss, no
  member has more than three tickets that are not closed or two of one type, and the ledger of
  outgoing payments is exactly the list of the payments in the tickets, with no payment
  reference twice.
\<close>

theorem desk_invariant:
  assumes "list_all (\<lambda>p. clock_ok (fst p) \<and> request_utf8 (snd p)) rqs"
  shows "let tb = pg_Tabs (handle_all rqs (empty_pg faults)); rs = records_of tb; os = tb_Outs tb in
    distinct (map r_ID rs) \<and>
    (\<forall>r \<in> set rs. status_known r \<and> closed_ok r \<and> money_ok r \<and> history_ok r \<and> fromModel (toModel r) = r) \<and>
    (\<forall>m. length (active_of m rs) \<le> 3 \<and> distinct (map r_Type (active_of m rs))) \<and>
    mset (map row_booking os) = mset (concat (map bookings rs)) \<and> distinct (map om_Reference os)"
  using handle_all_inv [OF empty_desk empty_inv assms, of faults] model_roundtrip
  by (auto simp: Let_def desk_inv_def pg_desk_def ticket_inv_def within_limit_def sound_def unique_outs_def)

theorem desk_invariant_witness:
  "distinct (map om_Reference (tb_Outs (pg_Tabs (handle_all
     [(1700000000000000000, RqOp sample_admin ''GEN-ID-budi-00001'' OpClaim)] (empty_pg [])))))"
  using desk_invariant [of "[(1700000000000000000, RqOp sample_admin ''GEN-ID-budi-00001'' OpClaim)]" "[]"] sample_clock
  by (simp add: Let_def sample_admin_def)



end
