(* ===== verification/TicketHttp.thy ===== *)
theory TicketHttp
  imports Http Desk
begin

text \<open>
  The HTTP side of the ticket module (modules/ticket/handler.go). Decoding a JSON body is
  gin's; a handler gets the decoded body, or \<open>None\<close> when \<open>ShouldBindJSON\<close> failed. The actor,
  with its \<open>is_admin\<close>, comes from the request as it does in the code; the tags
  \<open>validate:"required"\<close> have no effect, because no handler calls the validator.
\<close>

section \<open>Requests and answers\<close>

record actorRequest =
  ar_ID :: string
  ar_Username :: string
  ar_Tag :: string
  ar_Roles :: roles
  ar_IsAdmin :: bool
  ar_OwnerID :: string
  ar_AvailableAdmins :: "string list"

record createRequest =
  cr_Actor :: actorRequest
  cr_Type :: string
  cr_Data :: "(string, string) gomap"
  cr_ThreadID :: string

record mutateRequest =
  mr_Actor :: actorRequest
  mr_Reason :: string
  mr_Note :: string
  mr_TargetID :: string
  mr_Status :: string
  mr_Reference :: string
  mr_Roles :: roles

datatype ticket_data =
    DTypes "Type list"
  | DTicket Record
  | DQueue "Record list"
  | DLedger "OutgoingMutation list"
  | DWhoami WhoamiView

definition toActor :: "actorRequest \<Rightarrow> Actor" where
  "toActor req = \<lparr>ac_ID = ar_ID req, ac_Username = ar_Username req, ac_Tag = ar_Tag req, ac_Roles = ar_Roles req,
     ac_IsAdmin = ar_IsAdmin req, ac_IsBot = False, ac_OwnerID = ar_OwnerID req, ac_AvailableAdmins = ar_AvailableAdmins req\<rparr>"

definition error_status :: "ticket_error \<Rightarrow> int" where
  "error_status e = (if e = ErrNotFound then 404 else if e = ErrNotAdmin \<or> e = ErrOpenerRecusal then 403 else 400)"

definition writeTicket :: "ticket_data ctx \<Rightarrow> (ticket_error, Record) result \<Rightarrow> int \<Rightarrow> ticket_data ctx" where
  "writeTicket c r okStatus =
     (case r of
        Inr rec \<Rightarrow>
          if okStatus = 201 then SetCreatedResponse c MessageOK (Some (DTicket rec))
          else SetSuccessResponse c okStatus MessageOK (Some (DTicket rec))
      | Inl e \<Rightarrow> SetErrorResponse c (error_status e) (Error e) None)"

text \<open>A panic of the service leaves the handler.\<close>

definition panicked :: "'a ctx \<Rightarrow> 'a ctx" where
  "panicked c = c\<lparr>cx_Panicked := True\<rparr>"

text \<open>
  The value of \<open>strconv.Atoi\<close>, whose error \<open>Queue\<close> ignores: 0 for a text that is no number, the
  end of the range for a number out of it. \<open>ParseUint\<close> stops at the first digit that
  overflows, without looking at the rest of the text.
\<close>

fun parse_uint :: "string \<Rightarrow> int \<Rightarrow> int option" where
  "parse_uint [] n = Some n"
| "parse_uint (ch # s) n =
     (if \<not> is_digit ch then None
      else if 1844674407370955162 \<le> n then Some (2 ^ 64 - 1)
      else let n1 = n * 10 + int (digit_val ch)
        in if 2 ^ 64 - 1 < n1 then Some (2 ^ 64 - 1) else parse_uint s n1)"

definition Atoi_value :: "string \<Rightarrow> int" where
  "Atoi_value s =
     (let neg = (s \<noteq> [] \<and> hd s = CHR ''-'');
          body = (if s \<noteq> [] \<and> (hd s = CHR ''-'' \<or> hd s = CHR ''+'') then tl s else s)
      in if body = [] then 0
         else case parse_uint body 0 of
           None \<Rightarrow> 0
         | Some n \<Rightarrow> if neg then (if 2 ^ 63 < n then - (2 ^ 63) else - n) else (if 2 ^ 63 \<le> n then 2 ^ 63 - 1 else n))"

definition DefaultQuery :: "'a ctx \<Rightarrow> string \<Rightarrow> string \<Rightarrow> string" where
  "DefaultQuery c k v = (case map_of (cx_Query c) k of None \<Rightarrow> v | Some x \<Rightarrow> x)"

section \<open>Handlers\<close>

definition TypesHandler :: "('w, ticket_data) handler" where
  "TypesHandler c w = (SetSuccessResponse c 200 MessageOK (Some (DTypes Types)), w)"

definition CreateHandler :: "'w repo \<Rightarrow> instant \<Rightarrow> createRequest option \<Rightarrow> ('w, ticket_data) handler" where
  "CreateHandler rp now js c w =
     (case js of
        None \<Rightarrow> (SetErrorResponse c 400 MessageInvalidBody None, w)
      | Some req \<Rightarrow>
          (case Create rp (toActor (cr_Actor req))
             \<lparr>ci_Type = cr_Type req, ci_Data = cr_Data req, ci_ThreadID = cr_ThreadID req\<rparr> now of
             None \<Rightarrow> (panicked c, w)
           | Some run1 \<Rightarrow> (case run1 w of (r, w') \<Rightarrow> (writeTicket c r 201, w'))))"

definition GetHandler :: "'w repo \<Rightarrow> ('w, ticket_data) handler" where
  "GetHandler rp c w = (case Get rp (mget (cx_Param c) ''id'') w of (r, w') \<Rightarrow> (writeTicket c r 200, w'))"

definition QueueHandler :: "'w repo \<Rightarrow> ('w, ticket_data) handler" where
  "QueueHandler rp c w =
     (let page = Atoi_value (DefaultQuery c ''page'' ''1'');
          actor = \<lparr>ac_ID = mget (cx_Query c) ''actor_id'', ac_Username = [], ac_Tag = [], ac_Roles = None,
            ac_IsAdmin = (mget (cx_Query c) ''is_admin'' = ''true''), ac_IsBot = False,
            ac_OwnerID = mget (cx_Query c) ''owner_id'', ac_AvailableAdmins = []\<rparr>
      in case Queue rp actor page w of
           (Inl e, w') \<Rightarrow> (writeTicket c (Inl e) 200, w')
         | (Inr None, w') \<Rightarrow> (panicked c, w')
         | (Inr (Some data), w') \<Rightarrow> (SetSuccessResponse c 200 MessageOK (Some (DQueue data)), w'))"

definition mutate :: "(Actor \<Rightarrow> mutateRequest \<Rightarrow> ('w, ticket_error, Record option) sop) \<Rightarrow> mutateRequest option \<Rightarrow>
    ('w, ticket_data) handler" where
  "mutate fn js c w =
     (case js of
        None \<Rightarrow> (SetErrorResponse c 400 MessageInvalidBody None, w)
      | Some req \<Rightarrow>
          (case fn (toActor (mr_Actor req)) req w of
             (Inl e, w') \<Rightarrow> (writeTicket c (Inl e) 200, w')
           | (Inr None, w') \<Rightarrow> (panicked c, w')
           | (Inr (Some rec), w') \<Rightarrow> (writeTicket c (Inr rec) 200, w')))"

definition total :: "('w, ticket_error, Record) sop \<Rightarrow> ('w, ticket_error, Record option) sop" where
  "total op = sbind op (\<lambda>rec. sret (Some rec))"

definition ClaimHandler :: "'w repo \<Rightarrow> instant \<Rightarrow> mutateRequest option \<Rightarrow> ('w, ticket_data) handler" where
  "ClaimHandler rp now js c = mutate (\<lambda>actor req. total (ClaimTicket rp actor (mget (cx_Param c) ''id'') now)) js c"

definition HandoffHandler :: "'w repo \<Rightarrow> instant \<Rightarrow> mutateRequest option \<Rightarrow> ('w, ticket_data) handler" where
  "HandoffHandler rp now js c = mutate (\<lambda>actor req.
     total (HandoffTicket rp actor (mget (cx_Param c) ''id'') (mr_TargetID req) (mr_Reason req) now)) js c"

definition ResolutionHandler :: "'w repo \<Rightarrow> instant \<Rightarrow> mutateRequest option \<Rightarrow> ('w, ticket_data) handler" where
  "ResolutionHandler rp now js c = mutate (\<lambda>actor req.
     total (ResolveTicket rp actor (mget (cx_Param c) ''id'') (mr_Note req) now)) js c"

definition StatusHandler :: "'w repo \<Rightarrow> instant \<Rightarrow> mutateRequest option \<Rightarrow> ('w, ticket_data) handler" where
  "StatusHandler rp now js c = mutate (\<lambda>actor req.
     total (TransitionTicket rp actor (mget (cx_Param c) ''id'') (mr_Status req) now)) js c"

definition WithdrawApproveHandler :: "'w repo \<Rightarrow> instant \<Rightarrow> mutateRequest option \<Rightarrow> ('w, ticket_data) handler" where
  "WithdrawApproveHandler rp now js c = mutate (\<lambda>actor req.
     total (ApproveWithdrawalTicket rp actor (mget (cx_Param c) ''id'') now)) js c"

definition WithdrawPaidHandler :: "'w repo \<Rightarrow> instant \<Rightarrow> mutateRequest option \<Rightarrow> ('w, ticket_data) handler" where
  "WithdrawPaidHandler rp now js c = mutate (\<lambda>actor req.
     RecordPayment rp actor (mget (cx_Param c) ''id'') (mr_Reference req) now) js c"

definition SellerApproveHandler :: "'w repo \<Rightarrow> instant \<Rightarrow> mutateRequest option \<Rightarrow> ('w, ticket_data) handler" where
  "SellerApproveHandler rp now js c = mutate (\<lambda>actor req.
     total (ApproveSellerTicket rp actor (mget (cx_Param c) ''id'') (mr_Reason req) (mr_Roles req) now)) js c"

definition MutasiHandler :: "'w repo \<Rightarrow> ('w, ticket_data) handler" where
  "MutasiHandler rp c w =
     (case Mutasi rp \<lparr>ac_ID = mget (cx_Query c) ''seller_id'', ac_Username = [], ac_Tag = [], ac_Roles = None,
          ac_IsAdmin = False, ac_IsBot = False, ac_OwnerID = [], ac_AvailableAdmins = []\<rparr> w of
        (Inl e, w') \<Rightarrow> (writeTicket c (Inl e) 200, w')
      | (Inr data, w') \<Rightarrow> (SetSuccessResponse c 200 MessageOK (Some (DLedger data)), w'))"

definition WhoamiHandler :: "('w, ticket_data) handler" where
  "WhoamiHandler c w =
     (let roles = Split CHR '','' (mget (cx_Query c) ''roles'')
      in (SetSuccessResponse c 200 MessageOK (Some (DWhoami (Whoami
           \<lparr>ac_ID = mget (cx_Query c) ''id'', ac_Username = [], ac_Tag = [], ac_Roles = Some roles,
            ac_IsAdmin = (mget (cx_Query c) ''is_admin'' = ''true''), ac_IsBot = False,
            ac_OwnerID = mget (cx_Query c) ''owner_id'', ac_AvailableAdmins = []\<rparr>))), w))"

section \<open>The routes of the group\<close>

datatype ticket_route =
    GET_types | POST_create "createRequest option" | GET_queue | GET_mutasi | GET_whoami | GET_ticket
  | POST_claim "mutateRequest option" | POST_handoff "mutateRequest option" | POST_resolution "mutateRequest option"
  | POST_status "mutateRequest option" | POST_withdraw_approve "mutateRequest option"
  | POST_withdraw_paid "mutateRequest option" | POST_seller_approve "mutateRequest option"

fun GroupTicket :: "'w repo \<Rightarrow> instant \<Rightarrow> ticket_route \<Rightarrow> ('w, ticket_data) handler" where
  "GroupTicket rp now GET_types = TypesHandler"
| "GroupTicket rp now (POST_create js) = CreateHandler rp now js"
| "GroupTicket rp now GET_queue = QueueHandler rp"
| "GroupTicket rp now GET_mutasi = MutasiHandler rp"
| "GroupTicket rp now GET_whoami = WhoamiHandler"
| "GroupTicket rp now GET_ticket = GetHandler rp"
| "GroupTicket rp now (POST_claim js) = ClaimHandler rp now js"
| "GroupTicket rp now (POST_handoff js) = HandoffHandler rp now js"
| "GroupTicket rp now (POST_resolution js) = ResolutionHandler rp now js"
| "GroupTicket rp now (POST_status js) = StatusHandler rp now js"
| "GroupTicket rp now (POST_withdraw_approve js) = WithdrawApproveHandler rp now js"
| "GroupTicket rp now (POST_withdraw_paid js) = WithdrawPaidHandler rp now js"
| "GroupTicket rp now (POST_seller_approve js) = SellerApproveHandler rp now js"

section \<open>A route is a request to the desk\<close>

fun route_request :: "ticket_route \<Rightarrow> string \<Rightarrow> request option" where
  "route_request (POST_create (Some req)) i = Some (RqCreate (toActor (cr_Actor req))
     \<lparr>ci_Type = cr_Type req, ci_Data = cr_Data req, ci_ThreadID = cr_ThreadID req\<rparr>)"
| "route_request (POST_claim (Some req)) i = Some (RqOp (toActor (mr_Actor req)) i OpClaim)"
| "route_request (POST_handoff (Some req)) i = Some (RqOp (toActor (mr_Actor req)) i (OpHandoff (mr_TargetID req) (mr_Reason req)))"
| "route_request (POST_resolution (Some req)) i = Some (RqOp (toActor (mr_Actor req)) i (OpResolve (mr_Note req)))"
| "route_request (POST_status (Some req)) i = Some (RqOp (toActor (mr_Actor req)) i (OpMove (mr_Status req)))"
| "route_request (POST_withdraw_approve (Some req)) i = Some (RqOp (toActor (mr_Actor req)) i OpApprove)"
| "route_request (POST_withdraw_paid (Some req)) i = Some (RqPay (toActor (mr_Actor req)) i (mr_Reference req))"
| "route_request (POST_seller_approve (Some req)) i = Some (RqOp (toActor (mr_Actor req)) i (OpSeller (mr_Reason req) (mr_Roles req)))"
| "route_request _ i = None"

definition success_status :: "ticket_route \<Rightarrow> int" where
  "success_status route = (case route of POST_create _ \<Rightarrow> 201 | _ \<Rightarrow> 200)"

definition respond :: "ticket_data ctx \<Rightarrow> int \<Rightarrow> (ticket_error, Record option) result \<Rightarrow> ticket_data ctx" where
  "respond c okStatus r = (case r of Inl e \<Rightarrow> writeTicket c (Inl e) okStatus | Inr None \<Rightarrow> panicked c
     | Inr (Some rec) \<Rightarrow> writeTicket c (Inr rec) okStatus)"

lemma mutate_serve: "mutate fn (Some req) c w = (case fn (toActor (mr_Actor req)) req w of (r, w') \<Rightarrow> (respond c 200 r, w'))"
  by (auto simp: mutate_def respond_def writeTicket_def split: prod.splits sum.splits option.splits)

lemma route_serves:
  assumes "route_request route (mget (cx_Param c) ''id'') = Some rq"
  shows "GroupTicket rp now route c w = (case serve rp now rq w of (r, w') \<Rightarrow> (respond c (success_status route) r, w'))"
proof (cases route)
  case (POST_create js)
  with assms show ?thesis
    by (cases js) (auto simp: CreateHandler_def respond_def success_status_def sbind_def split: option.splits prod.splits sum.splits)
next
  case (POST_claim js)
  with assms show ?thesis by (cases js) (auto simp: ClaimHandler_def mutate_serve total_def success_status_def)
next
  case (POST_handoff js)
  with assms show ?thesis by (cases js) (auto simp: HandoffHandler_def mutate_serve total_def success_status_def)
next
  case (POST_resolution js)
  with assms show ?thesis by (cases js) (auto simp: ResolutionHandler_def mutate_serve total_def success_status_def)
next
  case (POST_status js)
  with assms show ?thesis by (cases js) (auto simp: StatusHandler_def mutate_serve total_def success_status_def)
next
  case (POST_withdraw_approve js)
  with assms show ?thesis by (cases js) (auto simp: WithdrawApproveHandler_def mutate_serve total_def success_status_def)
next
  case (POST_withdraw_paid js)
  with assms show ?thesis by (cases js) (auto simp: WithdrawPaidHandler_def mutate_serve success_status_def)
next
  case (POST_seller_approve js)
  with assms show ?thesis by (cases js) (auto simp: SellerApproveHandler_def mutate_serve total_def success_status_def)
qed (use assms in simp_all)

text \<open>An answer of the API, over the state after it.\<close>

definition answer_ok :: "ticket_data response \<Rightarrow> pg \<Rightarrow> bool" where
  "answer_ok r w \<longleftrightarrow> rs_Status r \<in> {200, 201, 400, 403, 404} \<and> (rs_Success r \<longleftrightarrow> rs_Status r < 400) \<and>
     (case rs_Data r of
        Some (DTicket rec) \<Rightarrow> rec \<in> set (records_of (pg_Tabs w))
      | Some (DLedger rows) \<Rightarrow> set rows \<subseteq> set (tb_Outs (pg_Tabs w))
      | _ \<Rightarrow> True)"

lemma respond_ok:
  assumes "cx_Response c = None" and "\<not> cx_Panicked c" and "n \<in> {200, 201}"
    and "case r of Inl _ \<Rightarrow> True | Inr None \<Rightarrow> False | Inr (Some rec) \<Rightarrow> rec \<in> set (records_of (pg_Tabs w))"
  shows "\<not> cx_Panicked (respond c n r) \<and> (\<exists>a. cx_Response (respond c n r) = Some a \<and> answer_ok a w)"
  using assms by (auto simp: respond_def writeTicket_def answer_ok_def SetSuccessResponse_def SetCreatedResponse_def
    SetErrorResponse_def JSON_def error_status_def split: sum.splits option.splits)

text \<open>The routes that only read.\<close>

lemma read_routes:
  assumes "desk_ok (pg_Tabs w)" and "route_request route (mget (cx_Param c) ''id'') = None"
    and "cx_Response c = None" and "\<not> cx_Panicked c" and "GroupTicket (gorm_repo pg_store now) now route c w = (c', w')"
  shows "desk_ok (pg_Tabs w') \<and> pg_desk w' = pg_desk w \<and>
    (if cx_Panicked c' then route = GET_queue else \<exists>a. cx_Response c' = Some a \<and> answer_ok a w')"
proof -
  have bad: "desk_ok (pg_Tabs w') \<and> pg_desk w' = pg_desk w \<and> \<not> cx_Panicked c' \<and> (\<exists>a. cx_Response c' = Some a \<and> answer_ok a w')" if "(c', w') = (SetErrorResponse c 400 MessageInvalidBody None, w)"
    using that assms(1,3,4) by (auto simp: SetErrorResponse_def JSON_def answer_ok_def)
  have good: ?thesis if "(c', w') = (SetSuccessResponse c 200 MessageOK (Some d), w'')" "desk_ok (pg_Tabs w'')" "pg_desk w'' = pg_desk w"
      "case d of DTicket rec \<Rightarrow> rec \<in> set (records_of (pg_Tabs w)) | DLedger rows \<Rightarrow> set rows \<subseteq> set (tb_Outs (pg_Tabs w)) | _ \<Rightarrow> True" for d w''
    using that assms(3,4) by (cases d) (auto simp: SetSuccessResponse_def JSON_def answer_ok_def pg_desk_def)
  have err: ?thesis if "(c', w') = (writeTicket c (Inl e) 200, w'')" "desk_ok (pg_Tabs w'')" "pg_desk w'' = pg_desk w" for e w''
    using that assms(3,4) by (auto simp: writeTicket_def SetErrorResponse_def JSON_def answer_ok_def error_status_def)
  show ?thesis
  proof (cases route)
    case GET_types
    with assms(5) have "(c', w') = (SetSuccessResponse c 200 MessageOK (Some (DTypes Types)), w)" by (simp add: TypesHandler_def)
    from good [OF this] assms(1) show ?thesis by simp
  next
    case GET_whoami
    with assms(5) obtain v where "(c', w') = (SetSuccessResponse c 200 MessageOK (Some (DWhoami v)), w)"
      by (auto simp: WhoamiHandler_def Let_def)
    from good [OF this] assms(1) show ?thesis by simp
  next
    case GET_ticket
    obtain r v where f: "rp_FindByPublicID (gorm_repo pg_store now) (mget (cx_Param c) ''id'') w = (r, v)"
      by (cases "rp_FindByPublicID (gorm_repo pg_store now) (mget (cx_Param c) ''id'') w")
    note g = desk.FindByPublicID [OF assms(1) f]
    have v: "pg_desk v = pg_desk w" "desk_ok (pg_Tabs v)" using g by (simp_all add: pg_desk_def)
    have h: "(c', w') = (writeTicket c r 200, v)" using assms(5) GET_ticket f by (simp add: GetHandler_def Get_def)
    show ?thesis
    proof (cases r)
      case (Inl e)
      then show ?thesis using err [of e v] h v by simp
    next
      case (Inr rec)
      with h have "(c', w') = (SetSuccessResponse c 200 MessageOK (Some (DTicket rec)), v)" by (simp add: writeTicket_def)
      from good [OF this v(2,1)] g Inr show ?thesis by simp
    qed
  next
    case GET_queue
    define actor where "actor = \<lparr>ac_ID = mget (cx_Query c) ''actor_id'', ac_Username = [], ac_Tag = [], ac_Roles = None,
            ac_IsAdmin = (mget (cx_Query c) ''is_admin'' = ''true''), ac_IsBot = False,
            ac_OwnerID = mget (cx_Query c) ''owner_id'', ac_AvailableAdmins = []\<rparr>"
    define page where "page = Atoi_value (DefaultQuery c ''page'' ''1'')"
    obtain r v where q: "Queue (gorm_repo pg_store now) actor page w = (r, v)"
      by (cases "Queue (gorm_repo pg_store now) actor page w")
    have v: "pg_desk v = pg_desk w" "desk_ok (pg_Tabs v)"
      using q desk.ListOpen [OF assms(1)] assms(1)
      by (auto simp: Queue_def sbind_def pg_desk_def split: if_splits prod.splits sum.splits)
    have h: "(c', w') = (case r of Inl e \<Rightarrow> (writeTicket c (Inl e) 200, v) | Inr None \<Rightarrow> (panicked c, v)
        | Inr (Some data) \<Rightarrow> (SetSuccessResponse c 200 MessageOK (Some (DQueue data)), v))"
      using assms(5) q unfolding GET_queue GroupTicket.simps QueueHandler_def Let_def actor_def page_def
      by (auto split: sum.splits option.splits)
    consider (e) e where "r = Inl e" | (p) "r = Inr None" | (d) data where "r = Inr (Some data)"
      by (cases r; cases "projr r") auto
    then show ?thesis
    proof cases
      case e
      then show ?thesis using err [of e v] h v by simp
    next
      case p
      with h v GET_queue show ?thesis by (simp add: panicked_def)
    next
      case d
      with h have "(c', w') = (SetSuccessResponse c 200 MessageOK (Some (DQueue data)), v)" by simp
      from good [OF this v(2,1)] show ?thesis by simp
    qed
  next
    case GET_mutasi
    define sid where "sid = mget (cx_Query c) ''seller_id''"
    obtain q v where f: "st_FindOut pg_store (\<lambda>x. om_SellerID x = sid) (\<lambda>x. - om_PaidAt x) w = (q, v)"
      by (cases "st_FindOut pg_store (\<lambda>x. om_SellerID x = sid) (\<lambda>x. - om_PaidAt x) w")
    note g = pg.FindOut [OF f]
    have v: "pg_desk v = pg_desk w" "desk_ok (pg_Tabs v)" using g assms(1) by (simp_all add: pg_desk_def)
    have h: "(c', w') = (case q of Inl e \<Rightarrow> (writeTicket c (Inl (wrap e)) 200, v)
        | Inr rows \<Rightarrow> (SetSuccessResponse c 200 MessageOK (Some (DLedger rows)), v))"
      using assms(5) GET_mutasi f by (cases q) (simp_all add: MutasiHandler_def Mutasi_def gorm_repo_def ListOutgoingBySeller_def db_def sid_def)
    show ?thesis
    proof (cases q)
      case (Inl e)
      then show ?thesis using err [of "wrap e" v] h v by simp
    next
      case (Inr rows)
      with h have h2: "(c', w') = (SetSuccessResponse c 200 MessageOK (Some (DLedger rows)), v)" by simp
      have "mset rows = mset (filter (\<lambda>x. om_SellerID x = sid) (tb_Outs (pg_Tabs w)))" using g Inr by simp
      then have "set rows = set (filter (\<lambda>x. om_SellerID x = sid) (tb_Outs (pg_Tabs w)))" by (metis set_mset_mset)
      with good [OF h2 v(2,1)] show ?thesis by auto
    qed
  next
    case (POST_create js)
    with assms(2,5) bad show ?thesis by (cases js) (simp_all add: CreateHandler_def)
  next
    case (POST_claim js)
    with assms(2,5) bad show ?thesis by (cases js) (simp_all add: ClaimHandler_def mutate_def)
  next
    case (POST_handoff js)
    with assms(2,5) bad show ?thesis by (cases js) (simp_all add: HandoffHandler_def mutate_def)
  next
    case (POST_resolution js)
    with assms(2,5) bad show ?thesis by (cases js) (simp_all add: ResolutionHandler_def mutate_def)
  next
    case (POST_status js)
    with assms(2,5) bad show ?thesis by (cases js) (simp_all add: StatusHandler_def mutate_def)
  next
    case (POST_withdraw_approve js)
    with assms(2,5) bad show ?thesis by (cases js) (simp_all add: WithdrawApproveHandler_def mutate_def)
  next
    case (POST_withdraw_paid js)
    with assms(2,5) bad show ?thesis by (cases js) (simp_all add: WithdrawPaidHandler_def mutate_def)
  next
    case (POST_seller_approve js)
    with assms(2,5) bad show ?thesis by (cases js) (simp_all add: SellerApproveHandler_def mutate_def)
  qed
qed


definition demo_page :: "string \<Rightarrow> ticket_data ctx" where
  "demo_page page = \<lparr>cx_Method = ''GET'', cx_Path = ''/api/v1/tickets'', cx_Route = ''/api/v1/tickets'', cx_RawQuery = [],
     cx_Query = [(''page'', page), (''actor_id'', ''7''), (''is_admin'', ''true'')], cx_Param = [], cx_Header = [],
     cx_ClientIP = ''10.0.0.1'', cx_UserAgent = [], cx_BodyLimit = None, cx_RequestID = None, cx_UserID = None,
     cx_Allowlist = None, cx_OutHeader = [], cx_Response = None, cx_Panicked = False\<rparr>"


section \<open>Page numbers out of range\<close>

lemma parse_uint_digits:
  assumes "all_digits s" and "0 \<le> n" and "n \<le> 2 ^ 64 - 1"
  shows "parse_uint s n = Some (min (2 ^ 64 - 1) (n * 10 ^ length s + int (val s)))"
  using assms
proof (induction s n rule: parse_uint.induct)
  case (2 ch s n)
  define m where "m = n * 10 + int (digit_val ch)"
  have d: "is_digit ch" "all_digits s" and n: "0 \<le> n" "0 \<le> m" using 2(2,3) by (auto simp: m_def)
  have total: "n * 10 ^ length (ch # s) + int (val (ch # s)) = m * 10 ^ length s + int (val s)"
    by (simp add: val_Cons m_def algebra_simps)
  have one: "(1::int) \<le> 10 ^ length s" by simp
  have ge: "m \<le> m * 10 ^ length s + int (val s)" using mult_left_mono [OF one n(2)] by simp
  show ?case
  proof (cases "1844674407370955162 \<le> n \<or> 2 ^ 64 - 1 < m")
    case True
    then have "2 ^ 64 - 1 < m" using d(1) by (auto simp: m_def)
    then have "min (2 ^ 64 - 1) (m * 10 ^ length s + int (val s)) = 2 ^ 64 - 1" using ge by simp
    moreover have "parse_uint (ch # s) n = Some (2 ^ 64 - 1)" using True d(1) by (auto simp: Let_def m_def)
    ultimately show ?thesis unfolding total by simp
  next
    case False
    then have "parse_uint (ch # s) n = parse_uint s m" using d(1) by (simp add: Let_def m_def)
    moreover have "parse_uint s m = Some (min (2 ^ 64 - 1) (m * 10 ^ length s + int (val s)))"
      using 2(1) [OF _ _ m_def] False d n by (auto simp: m_def)
    ultimately show ?thesis unfolding total by simp
  qed
qed simp

lemma Atoi_value_large:
  assumes "all_digits s" and "2 ^ 63 \<le> val s"
  shows "Atoi_value s = max_int64"
proof -
  have s: "s \<noteq> []" using assms(2) by auto
  then have "hd s \<noteq> CHR ''-''" "hd s \<noteq> CHR ''+''" using assms(1) by (cases s; auto simp: is_digit_def)+
  moreover have "(2::int) ^ 63 \<le> int (val s)" using assms(2) by (metis of_nat_le_iff of_nat_numeral of_nat_power)
  ultimately show ?thesis
    using parse_uint_digits [OF assms(1), of 0] s by (simp add: Atoi_value_def max_int64_def)
qed

text \<open>
  C31: A page number that does not fit in 64 bits crashes the queue. \<open>strconv.Atoi\<close> returns the
  largest number together with an error that the handler ignores; the start of the page wraps
  around to a negative number, which passes both bound checks, and the slice expression
  panics. Whatever tickets are open, the admin who asks gets status 500 instead of an empty page.
\<close>

theorem queue_crash:
  assumes "all_digits page" and "2 ^ 63 \<le> val page" and "map_of (cx_Query c) ''page'' = Some page"
    and "mget (cx_Query c) ''actor_id'' \<noteq> []" and "mget (cx_Query c) ''is_admin'' = ''true''" and "cx_Response c = None"
    and "rp_ListOpen rp w = (Inr rs, w')"
  shows "\<exists>c'. Recovery (QueueHandler rp) c w = (c', w') \<and> status_of c' = 500"
proof -
  have p: "Atoi_value (DefaultQuery c ''page'' ''1'') = max_int64" using assms(3) Atoi_value_large [OF assms(1,2)] by (simp add: DefaultQuery_def)
  have "QueueHandler rp c w = (panicked c, w')"
    using assms(4,5,7) unfolding QueueHandler_def Let_def p
    by (simp add: Queue_def is_admin_def IsTicketAdmin_def sbind_def queue_page_overflow)
  then show ?thesis using assms(6) by (simp add: Recovery_def panicked_def SetErrorResponse_def JSON_def status_of_def)
qed

theorem queue_crash_witness:
  "\<exists>c'. Recovery (QueueHandler (gorm_repo pg_store 0)) (demo_page ''99999999999999999999'') (empty_pg []) = (c', empty_pg []) \<and>
     status_of c' = 500"
proof (rule queue_crash [where page = "''99999999999999999999''" and rs = "[]"])
  show "all_digits ''99999999999999999999''" by (simp add: is_digit_def)
  show "2 ^ 63 \<le> val ''99999999999999999999''" by (simp add: val_def digit_val_def)
  show "rp_ListOpen (gorm_repo pg_store 0) (empty_pg []) = (Inr [], empty_pg [])"
    by (simp add: gorm_repo_def ListOpen_def sbind_def db_def pg_store_def pg_find_def stmt_def empty_pg_def)
qed (simp_all add: demo_page_def mget_def)

end
