(* ===== verification/Server.thy ===== *)
theory Server
  imports Boot TicketHttp
begin

text \<open>
  The HTTP server as a whole (router/router.go): every route with the middlewares of its group,
  behind the global middlewares, over the services that \<open>MakeHandler\<close> built. Matching a path to
  a route is gin's; the answers of all modules are collected in one type. The text of the
  metrics, and how the limiter answers, are parameters.
\<close>

section \<open>One type for all answers\<close>

datatype api_data = OfHealth "(string, string) gomap" | OfAuth auth_data | OfAccount account_data
  | OfUpload UploadedFileResponse | OfTicket ticket_data | OfMember member_data | OfMetrics string

definition map_response :: "('a \<Rightarrow> 'b) \<Rightarrow> 'a response \<Rightarrow> 'b response" where
  "map_response f r = \<lparr>rs_Status = rs_Status r, rs_Success = rs_Success r, rs_Message = rs_Message r,
     rs_Data = map_option f (rs_Data r), rs_Error = rs_Error r\<rparr>"

definition retype :: "'b response option \<Rightarrow> 'a ctx \<Rightarrow> 'b ctx" where
  "retype r c = \<lparr>cx_Method = cx_Method c, cx_Path = cx_Path c, cx_Route = cx_Route c, cx_RawQuery = cx_RawQuery c,
     cx_Query = cx_Query c, cx_Param = cx_Param c, cx_Header = cx_Header c, cx_ClientIP = cx_ClientIP c, cx_UserAgent = cx_UserAgent c,
     cx_BodyLimit = cx_BodyLimit c, cx_RequestID = cx_RequestID c, cx_UserID = cx_UserID c, cx_Allowlist = cx_Allowlist c,
     cx_OutHeader = cx_OutHeader c, cx_Response = r, cx_Panicked = cx_Panicked c\<rparr>"

text \<open>A handler of one module as a handler of the server. An answer that was written before stays.\<close>

definition wrap :: "('a \<Rightarrow> 'b) \<Rightarrow> ('w, 'a) handler \<Rightarrow> ('w, 'b) handler" where
  "wrap f h c w = (case h (retype None c) w of (c', w') \<Rightarrow>
     (retype (case cx_Response c of Some r \<Rightarrow> Some r | None \<Rightarrow> map_option (map_response f) (cx_Response c')) c', w'))"

section \<open>The router\<close>

text \<open>
  What the server takes from outside the program for one request: a fresh UUID for its id, the
  limiter, the clock, the validator, the JSON of a status map and the metrics.
\<close>

record 'w serving =
  sr_fresh :: string
  sr_allow :: "string \<Rightarrow> 'w \<Rightarrow> bool \<times> 'w"
  sr_now :: instant
  sr_clock :: "'w \<Rightarrow> instant"
  sr_valid :: validators
  sr_json :: "(string, string) gomap \<Rightarrow> string"
  sr_metrics :: "'w \<Rightarrow> string"

definition wiring_of :: "'w serving \<Rightarrow> ('b, 'w) HandlerSetup \<Rightarrow> 'w wiring" where
  "wiring_of sr hs = \<lparr>su_fresh = sr_fresh sr, su_maxBody = cf_MaxBodyBytes (hs_Config hs), su_allow = sr_allow sr,
     su_recorder = Some (audit_recorder (hs_Accounts hs)), su_operators = cf_OperatorAllowlist (hs_Config hs),
     su_tokens = sv_parse (hs_Auth hs)\<rparr>"

datatype api_route = Health health_route | Signin auth_route | Users user_route | Uploads upload_route
  | Trail audit_route | Tickets ticket_route | Members member_route | Metrics | Unknown | WrongMethod

definition NoRoute :: "('w, api_data) handler" where
  "NoRoute c w = (SetErrorResponse c 404 ''route not found'' None, w)"

definition NoMethod :: "('w, api_data) handler" where
  "NoMethod c w = (SetErrorResponse c 405 ''method not allowed'' None, w)"

definition metrics_handler :: "'w serving \<Rightarrow> ('w, api_data) handler" where
  "metrics_handler sr c w =
     (JSON \<lparr>rs_Status = 200, rs_Success = True, rs_Message = [], rs_Data = Some (OfMetrics (sr_metrics sr w)), rs_Error = None\<rparr> c, w)"

fun mounted :: "'w serving \<Rightarrow> ('b, 'w) HandlerSetup \<Rightarrow> api_route \<Rightarrow> ('w, api_data) handler" where
  "mounted sr hs (Health r) = wrap OfHealth (GroupHealth (hs_Health hs) (sr_clock sr) (sr_json sr) r)"
| "mounted sr hs (Signin r) = RateLimiterMiddlewareWithPrefix (sr_allow sr) ''auth'' (wrap OfAuth (GroupAuth (hs_Auth hs) (sr_valid sr) r))"
| "mounted sr hs (Users r) = user_group (wiring_of sr hs) ''user'' (wrap OfAccount (GroupUser (hs_Accounts hs) r))"
| "mounted sr hs (Uploads r) = user_group (wiring_of sr hs) ''upload'' (wrap OfUpload (GroupUpload (hs_Upload hs) r))"
| "mounted sr hs (Trail r) = user_group (wiring_of sr hs) ''audit'' (wrap OfAccount (GroupAuditLog (hs_Accounts hs) r))"
| "mounted sr hs (Tickets r) = operator_group (wiring_of sr hs) ''ticket'' (wrap OfTicket (GroupTicket (hs_Tickets hs (sr_now sr)) (sr_now sr) r))"
| "mounted sr hs (Members r) = operator_group (wiring_of sr hs) ''membership'' (wrap OfMember (GroupMembership (hs_Members hs (sr_now sr)) r))"
| "mounted sr hs Metrics = (if cf_MetricsEnable (hs_Config hs) then metrics_handler sr else NoRoute)"
| "mounted sr hs Unknown = NoRoute"
| "mounted sr hs WrongMethod = NoMethod"

definition RouterWithMiddleware :: "'w serving \<Rightarrow> ('b, 'w) HandlerSetup \<Rightarrow> api_route \<Rightarrow> ('w, api_data) handler" where
  "RouterWithMiddleware sr hs route = global_chain (wiring_of sr hs) (mounted sr hs route)"

section \<open>Which routes are guarded\<close>

text \<open>Open routes, routes for every account, and routes for operators.\<close>

fun open_route :: "api_route \<Rightarrow> bool" where
  "open_route (Health _) = True"
| "open_route (Signin _) = True"
| "open_route Metrics = True"
| "open_route Unknown = True"
| "open_route WrongMethod = True"
| "open_route _ = False"

fun account_route :: "api_route \<Rightarrow> bool" where
  "account_route (Users GET_me) = True"
| "account_route (Uploads _) = True"
| "account_route _ = False"

definition closed_to :: "'w wiring \<Rightarrow> 'a ctx \<Rightarrow> api_route \<Rightarrow> bool" where
  "closed_to su c route \<longleftrightarrow> \<not> open_route route \<and>
     (ParseAccessToken (su_tokens su) (mget (cx_Header c) ''Authorization'') = None \<or>
      \<not> account_route route \<and> \<not> operator_token su c)"

lemma wrap_error:
  assumes "cx_Response c = None" and "h (retype None c) w = (SetErrorResponse (retype None c) s e None, w)"
  shows "wrap f h c w = (SetErrorResponse c s e None, w)"
proof -
  have "retype (map_option (map_response f) (cx_Response (SetErrorResponse (retype None c) s e None)))
      (SetErrorResponse (retype None c) s e None) = SetErrorResponse c s e None"
    using assms(1) by (cases c) (simp add: SetErrorResponse_def JSON_def retype_def map_response_def)
  then show ?thesis unfolding wrap_def assms(2) prod.case assms(1) option.case by simp
qed

lemma IsOperator_retype [simp]: "IsOperator (retype r c) = IsOperator c"
proof -
  have "cx_Allowlist (retype r c) = cx_Allowlist c" "GetUserID (retype r c) = GetUserID c"
    by (simp_all add: retype_def GetUserID_def)
  then show ?thesis unfolding IsOperator_def by (elim ssubst) (rule refl)
qed

lemma user_group_refused:
  assumes "ParseAccessToken (su_tokens su) (mget (cx_Header c) ''Authorization'') = None" and "cx_Response c = None"
    and "user_group su pfx h c w = (c', w')"
  shows "w' = w \<and> (\<exists>r. cx_Response c' = Some r \<and> 400 \<le> rs_Status r \<and> rs_Data r = None)"
  using assms by (auto simp: user_group_def AuthMiddleware_def SetErrorResponse_def JSON_def)

lemma user_group_operator:
  assumes q: "quiet_setup core su" and "\<not> operator_token su c" and n: "cx_Response c = None"
    and "cx_Allowlist c = (if 0 < length (su_operators su) then Some (su_operators su) else None)"
    and h: "\<And>d v. \<not> IsOperator d \<Longrightarrow> cx_Response d = None \<Longrightarrow> h d v = (SetErrorResponse d 403 MessageForbidden None, v)"
    and run: "user_group su pfx h c w = (c', w')"
  shows "core w' = core w \<and> (\<exists>r. cx_Response c' = Some r \<and> 400 \<le> rs_Status r \<and> rs_Data r = None)"
proof (cases "ParseAccessToken (su_tokens su) (mget (cx_Header c) ''Authorization'')")
  case None
  then show ?thesis using user_group_refused [OF None n run] by simp
next
  case (Some claims)
  let ?d = "c\<lparr>cx_UserID := Some (cl_UserID claims)\<rparr>"
  obtain ok v1 where l: "su_allow su (pfx @ '':'' @ clientKey ?d) w = (ok, v1)"
    by (cases "su_allow su (pfx @ '':'' @ clientKey ?d) w")
  have "core (snd (su_allow su k v)) = core v" for k v using q by (simp add: quiet_setup_def)
  from this [of "pfx @ '':'' @ clientKey ?d" w] have v1: "core v1 = core w" unfolding l by simp
  have "\<not> IsOperator ?d"
    using assms(2,4) Some by (auto simp: IsOperator_def GetUserID_def operator_token_def)
  then have "h ?d v1 = (SetErrorResponse ?d 403 MessageForbidden None, v1)" using h n by simp
  with run Some l v1 n show ?thesis
    by (cases ok) (auto simp: user_group_def AuthMiddleware_def RateLimiterMiddlewareWithPrefix_def SetErrorResponse_def JSON_def)
qed

lemma users_forbidden:
  assumes "\<not> IsOperator d" and "cx_Response d = None"
  shows "wrap OfAccount (ListUsersHandler st) d v = (SetErrorResponse d 403 MessageForbidden None, v)"
    and "wrap OfAccount (ListAuditHandler st) d v = (SetErrorResponse d 403 MessageForbidden None, v)"
proof -
  show "wrap OfAccount (ListUsersHandler st) d v = (SetErrorResponse d 403 MessageForbidden None, v)"
    by (rule wrap_error [OF assms(2)]) (use assms in \<open>simp add: ListUsersHandler_def\<close>)
  show "wrap OfAccount (ListAuditHandler st) d v = (SetErrorResponse d 403 MessageForbidden None, v)"
    by (rule wrap_error [OF assms(2)]) (use assms in \<open>simp add: ListAuditHandler_def\<close>)
qed

text \<open>
  C39: No route of the server is left unguarded. Take the router over the services that MakeHandler
  wires, any route and any request. Unless the route is health, metrics or sign-in, a request
  without a valid access token gets an error without data and nothing that a handler changes
  changes; on the routes of tickets, members, the user directory and the audit trail so does a
  request whose token is not of a configured operator. Only the profile of the caller and
  uploads are open to every account.
\<close>

theorem routes_guarded:
  assumes "quiet_setup core (wiring_of sr hs)" and "closed_to (wiring_of sr hs) c route"
    and "cx_Response c = None" and "cx_Allowlist c = None" and "RouterWithMiddleware sr hs route c w = (c', w')"
  shows "core w' = core w \<and> (\<exists>r. cx_Response c' = Some r \<and> 400 \<le> rs_Status r \<and> rs_Data r = None)"
proof (rule global_chain_cases [OF assms(1) assms(5) [unfolded RouterWithMiddleware_def] assms(3,4)])
  fix d v d' v'
  let ?su = "wiring_of sr hs"
  assume run: "mounted sr hs route d v = (d', v')" and n: "cx_Response d = None" and hd: "cx_Header d = cx_Header c"
    and al: "cx_Allowlist d = (if 0 < length (su_operators ?su) then Some (su_operators ?su) else None)"
  let ?goal = "core v' = core v \<and> (\<exists>r. cx_Response d' = Some r \<and> 400 \<le> rs_Status r \<and> rs_Data r = None)"
  have op: "operator_token ?su d = operator_token ?su c" using hd by (simp add: operator_token_def)
  have no: "ParseAccessToken (su_tokens ?su) (mget (cx_Header c) ''Authorization'') = None \<Longrightarrow> \<not> operator_token ?su c"
    by (simp add: operator_token_def)
  have account: ?goal if "user_group ?su pfx h d v = (d', v')"
    "ParseAccessToken (su_tokens ?su) (mget (cx_Header c) ''Authorization'') = None" for pfx and h :: "('a, api_data) handler"
    using user_group_refused [OF _ n that(1)] that(2) hd by simp
  have listing: ?goal if "user_group ?su pfx h d v = (d', v')" "\<not> operator_token ?su d"
    "\<And>d v. \<not> IsOperator d \<Longrightarrow> cx_Response d = None \<Longrightarrow> h d v = (SetErrorResponse d 403 MessageForbidden None, v)"
    for pfx and h :: "('a, api_data) handler"
    using user_group_operator [OF assms(1) that(2) n al that(3,1)] by simp
  have operator: ?goal if "operator_group ?su pfx h d v = (d', v')" "\<not> operator_token ?su d" for pfx and h :: "('a, api_data) handler"
    using operator_group_core [OF assms(1) al that(2,1) n] by force
  show ?goal
  proof (cases route)
    case (Users r)
    then show ?thesis
    proof (cases r)
      case GET_users
      with run Users have "user_group ?su ''user'' (wrap OfAccount (ListUsersHandler (hs_Accounts hs))) d v = (d', v')" by simp
      from listing [OF this _ users_forbidden(1)] show ?thesis using Users GET_users assms(2) op no by (auto simp: closed_to_def)
    next
      case GET_me
      then show ?thesis using account [of "''user''"] run Users assms(2) by (auto simp: closed_to_def)
    qed
  next
    case (Uploads r)
    then show ?thesis using account [of "''upload''"] run assms(2) by (auto simp: closed_to_def)
  next
    case (Trail r)
    with run have "user_group ?su ''audit'' (wrap OfAccount (ListAuditHandler (hs_Accounts hs))) d v = (d', v')" by (cases r) simp
    from listing [OF this _ users_forbidden(2)] show ?thesis using Trail assms(2) op no by (auto simp: closed_to_def)
  next
    case (Tickets r)
    then show ?thesis using operator [of "''ticket''"] run assms(2) op no by (auto simp: closed_to_def)
  next
    case (Members r)
    then show ?thesis using operator [of "''membership''"] run assms(2) op no by (auto simp: closed_to_def)
  qed (use assms(2) in \<open>auto simp: closed_to_def\<close>)
qed

section \<open>An example\<close>

text \<open>A valid token of an account that is no operator, at the queue of tickets.\<close>

definition demo_server :: "(unit, conn_world) HandlerSetup" where
  "demo_server = wire (num_libs\<lparr>pl_Parsed := (\<lambda>s. \<lparr>ts_verify = (\<lambda>t. Some \<lparr>cl_UserID = ''u2'', cl_Subject = ''access''\<rparr>), ts_hmac = (\<lambda>t. True)\<rparr>)\<rparr>)
     (read_config demo_parsers demo_env) (LocalLimiter (NewLocalRateLimiter 1 1)) (num_api 0)"

definition demo_serving :: "conn_world serving" where
  "demo_serving = \<lparr>sr_fresh = ''r'', sr_allow = (\<lambda>k w. (True, w)), sr_now = 0, sr_clock = (\<lambda>w. 0),
     sr_valid = \<lparr>va_Register = (\<lambda>r. None), va_Login = (\<lambda>r. None), va_Refresh = (\<lambda>r. None), va_Logout = (\<lambda>r. None)\<rparr>,
     sr_json = (\<lambda>m. []), sr_metrics = (\<lambda>w. [])\<rparr>"

definition demo_conn :: conn_world where
  "demo_conn = \<lparr>cw_Open = [1], cw_Clients = [], cw_Next = 5, cw_Faults = []\<rparr>"

lemma demo_refused: "\<not> operator_token (wiring_of demo_serving demo_server) (retype None demo_ctx :: api_data ctx)"
  by code_simp

theorem routes_guarded_witness:
  "case RouterWithMiddleware demo_serving demo_server (Tickets GET_queue) (retype None demo_ctx) demo_conn of (c', w') \<Rightarrow>
     w' = demo_conn \<and> (\<exists>r. cx_Response c' = Some r \<and> 400 \<le> rs_Status r \<and> rs_Data r = None)"
proof -
  let ?c = "retype None demo_ctx :: api_data ctx"
  obtain c' w' where h: "RouterWithMiddleware demo_serving demo_server (Tickets GET_queue) ?c demo_conn = (c', w')"
    by (cases "RouterWithMiddleware demo_serving demo_server (Tickets GET_queue) ?c demo_conn")
  have q: "quiet_setup (\<lambda>w. w) (wiring_of demo_serving demo_server)"
    by (simp add: quiet_setup_def wiring_of_def demo_serving_def demo_server_def wire_def num_api_def audit_recorder_def
        RecordAudit_def CreateAudit_def sret_def Let_def)
  have t: "closed_to (wiring_of demo_serving demo_server) ?c (Tickets GET_queue)"
    using demo_refused by (simp add: closed_to_def)
  have n: "cx_Response ?c = None" "cx_Allowlist ?c = None" by (simp_all add: retype_def demo_ctx_def)
  show ?thesis using routes_guarded [OF q t n h] h by simp
qed

end
