(* ===== verification/BotMembers.thy ===== *)
theory BotMembers
  imports MemberService
begin

text \<open>
  The members as the bot sees them (modules/discordbot/members.go and the role helpers of
  bot.go): paging the guild, counting tiers, moving a member to a tier, and the reconciliation
  of the stored tiers with the roles in Discord.

  Discord is a parameter: the record \<open>session\<close> holds the calls, each of which may fail with an
  error text. The world \<open>'w\<close> holds the stored members and Discord's state.
\<close>

section \<open>Discord\<close>

record User =
  us_ID :: string
  us_Username :: string
  us_Bot :: bool

record DMember =
  dm_User :: "User option"
  dm_Roles :: "string list"

record Role =
  ro_ID :: string
  ro_Name :: string
  ro_Administrator :: bool

text \<open>\<open>se_StateRole\<close> reads the library's cache. \<open>se_AgeDays\<close> is the age in days that the id of a user encodes.\<close>

record 'w session =
  se_GuildRoles :: "('w, string, Role list) sop"
  se_GuildMembers :: "string \<Rightarrow> nat \<Rightarrow> ('w, string, DMember list) sop"
  se_GuildMember :: "string \<Rightarrow> ('w, string, DMember) sop"
  se_RoleAdd :: "string \<Rightarrow> string \<Rightarrow> ('w, string, unit) sop"
  se_RoleRemove :: "string \<Rightarrow> string \<Rightarrow> ('w, string, unit) sop"
  se_StateRole :: "string \<Rightarrow> 'w \<Rightarrow> Role option"
  se_AgeDays :: "string \<Rightarrow> 'w \<Rightarrow> int option"

text \<open>Errors that reach the handlers of the bot.\<close>

datatype bot_error = EDiscord string | EStored db_error | ETicket ticket_error | EText string

definition raise :: "('e \<Rightarrow> 'f) \<Rightarrow> ('w, 'e, 'a) sop \<Rightarrow> ('w, 'f, 'a) sop" where
  "raise f m w = (case m w of (r, w') \<Rightarrow> (map_sum f id r, w'))"

definition accountAgeDays :: "'w session \<Rightarrow> User option \<Rightarrow> 'w \<Rightarrow> int" where
  "accountAgeDays se user w = (case user of None \<Rightarrow> 0
     | Some u \<Rightarrow> (case se_AgeDays se (us_ID u) w of None \<Rightarrow> 0 | Some n \<Rightarrow> n))"

section \<open>Roles by name\<close>

definition role_table :: "Role list \<Rightarrow> (string, string) gomap" where
  "role_table roles = foldl (\<lambda>t r. mput t (ro_ID r) (ro_Name r)) [] roles"

definition names_in :: "(string, string) gomap \<Rightarrow> DMember \<Rightarrow> string list" where
  "names_in roleName m = List.map_filter (\<lambda>i. map_of roleName i) (dm_Roles m)"

text \<open>\<open>nil\<close> for no member.\<close>

definition roleNames :: "'w session \<Rightarrow> DMember option \<Rightarrow> 'w \<Rightarrow> roles" where
  "roleNames se m w = (case m of None \<Rightarrow> None
     | Some m \<Rightarrow> Some (List.map_filter (\<lambda>i. map_option ro_Name (se_StateRole se i w)) (dm_Roles m)))"

text \<open>The role of that name, if there is exactly one.\<close>

fun find_role_loop :: "string \<Rightarrow> Role list \<Rightarrow> Role option \<Rightarrow> Role option" where
  "find_role_loop name [] found = found"
| "find_role_loop name (role # rest) found =
     (if ro_Name role = name then if found \<noteq> None then None else find_role_loop name rest (Some role)
      else find_role_loop name rest found)"

definition findRole :: "'w session \<Rightarrow> string \<Rightarrow> 'w \<Rightarrow> Role option \<times> 'w" where
  "findRole se name w = (case se_GuildRoles se w of
     (Inl _, w') \<Rightarrow> (None, w') | (Inr roles, w') \<Rightarrow> (find_role_loop name roles None, w'))"

fun remove_roles :: "'w session \<Rightarrow> string \<Rightarrow> string list \<Rightarrow> 'w \<Rightarrow> 'w" where
  "remove_roles se userID [] w = w"
| "remove_roles se userID (name # rest) w =
     (case findRole se name w of
        (None, w1) \<Rightarrow> remove_roles se userID rest w1
      | (Some role, w1) \<Rightarrow> remove_roles se userID rest (snd (se_RoleRemove se userID (ro_ID role) w1)))"

definition exclusiveTier :: "'w session \<Rightarrow> string \<Rightarrow> string \<Rightarrow> ('w, bot_error, unit) sop" where
  "exclusiveTier se userID target = sbind (raise EDiscord (se_GuildMember se userID)) (\<lambda>member1 w.
     case ExclusiveGrant (names (roleNames se (Some member1) w)) target of
       None \<Rightarrow> (Inl (EText ''unknown tier''), w)
     | Some (add, remove) \<Rightarrow>
         (case findRole se add (remove_roles se userID remove w) of
            (Some role, w1) \<Rightarrow> raise EDiscord (se_RoleAdd se userID (ro_ID role)) w1
          | (None, w1) \<Rightarrow> (Inl (EText (''role '' @ add @ '' missing'')), w1)))"

text \<open>The age is read before the check for a missing user; it is 0 then.\<close>

definition setTier :: "'w mrepo \<Rightarrow> 'w session \<Rightarrow> string \<Rightarrow> string \<Rightarrow> string \<Rightarrow> ('w, bot_error, unit) sop" where
  "setTier mp se userID target username =
     sbind (exclusiveTier se userID target) (\<lambda>_.
     sbind (raise EDiscord (se_GuildMember se userID)) (\<lambda>member1 w.
       let age = accountAgeDays se (dm_User member1) w in
       case dm_User member1 of
         None \<Rightarrow> (Inl (EText (''member '' @ userID @ '' has no user'')), w)
       | Some u \<Rightarrow>
           let username = (if username = [] then us_Username u else username) in
           sbind (raise EStored (Upsert mp userID username target age (Restricted (roleNames se (Some member1) w))))
             (\<lambda>_. sret ()) w))"

section \<open>The member list\<close>

text \<open>
  Pages of 1000 members. The loop ends only with a shorter page, so it is a partial function:
  \<open>None\<close> stands for a loop that never ends, \<open>Inr None\<close> for the panic on a page whose last
  member has no user.
\<close>

partial_function (option) guild_pages ::
  "'w session \<Rightarrow> string \<Rightarrow> DMember list \<Rightarrow> 'w \<Rightarrow> ((string, DMember list option) result \<times> 'w) option" where
  "guild_pages se after out w =
     (case se_GuildMembers se after 1000 w of
        (Inl e, w') \<Rightarrow> Some (Inl e, w')
      | (Inr page, w') \<Rightarrow>
          (let out' = out @ page in
           if length page < 1000 then Some (Inr (Some out'), w')
           else (case dm_User (last page) of
             None \<Rightarrow> Some (Inr None, w')
           | Some u \<Rightarrow> guild_pages se (us_ID u) out' w')))"

definition guildMembers :: "'w session \<Rightarrow> 'w \<Rightarrow> ((string, DMember list option) result \<times> 'w) option" where
  "guildMembers se w = guild_pages se [] [] w"

section \<open>Counting\<close>

definition human :: "DMember \<Rightarrow> bool" where
  "human m \<longleftrightarrow> (case dm_User m of None \<Rightarrow> False | Some u \<Rightarrow> \<not> us_Bot u)"

record tier_counts =
  tc_Buyer :: int
  tc_Seller :: int
  tc_Neither :: int

definition count_member :: "(string, string) gomap \<Rightarrow> tier_counts \<Rightarrow> DMember \<Rightarrow> tier_counts" where
  "count_member roleName s m =
     (if \<not> human m then s
      else let tier = MemberTier (Some (names_in roleName m)) in
        if tier = TierBuyer then s\<lparr>tc_Buyer := tc_Buyer s + 1\<rparr>
        else if tier = TierSeller then s\<lparr>tc_Seller := tc_Seller s + 1\<rparr>
        else s\<lparr>tc_Neither := tc_Neither s + 1\<rparr>)"

definition tierCounts :: "DMember list \<Rightarrow> (string, string) gomap \<Rightarrow> tier_counts" where
  "tierCounts members1 roleName = foldl (count_member roleName) \<lparr>tc_Buyer = 0, tc_Seller = 0, tc_Neither = 0\<rparr> members1"

definition liveTierCounts :: "'w session \<Rightarrow> 'w \<Rightarrow> ((string, tier_counts option) result \<times> 'w) option" where
  "liveTierCounts se w =
     (case guildMembers se w of
        None \<Rightarrow> None
      | Some (Inl e, w1) \<Rightarrow> Some (Inl e, w1)
      | Some (Inr None, w1) \<Rightarrow> Some (Inr None, w1)
      | Some (Inr (Some ms), w1) \<Rightarrow>
          (case se_GuildRoles se w1 of
             (Inl e, w2) \<Rightarrow> Some (Inl e, w2)
           | (Inr roles, w2) \<Rightarrow> Some (Inr (Some (tierCounts ms (role_table roles))), w2)))"

definition tierLabel :: "roles \<Rightarrow> string" where
  "tierLabel rs = (let t = MemberTier rs in
     if t = TierBuyer then ''Buyer'' else if t = TierSeller then ''Seller'' else ''member without marketplace access'')"

section \<open>Reconciliation\<close>

text \<open>What the loop writes for one member of the guild: the arguments of \<open>Upsert\<close>, or nothing.\<close>

definition tier_fix :: "(string, string) gomap \<Rightarrow> (string \<Rightarrow> info option) \<Rightarrow> (User \<Rightarrow> int) \<Rightarrow> DMember \<Rightarrow>
    (string \<times> info) option" where
  "tier_fix roleName byID age m =
     (case dm_User m of
        None \<Rightarrow> None
      | Some u \<Rightarrow>
          if us_Bot u then None
          else let ns = names_in roleName m; tier = MemberTier (Some ns) in
            if tier = TierConflict then None
            else let known = (byID (us_ID u) \<noteq> None);
                     row = (case byID (us_ID u) of None \<Rightarrow> \<lparr>in_Username = [], in_Tier = [], in_Age = 0, in_Restricted = False\<rparr> | Some r \<Rightarrow> r);
                     restricted = Restricted (Some ns)
              in if tier = TierNone then
                   (if \<not> known \<or> in_Tier row = TierNone \<and> in_Restricted row = restricted then None
                    else Some (us_ID u, \<lparr>in_Username = in_Username row, in_Tier = TierNone, in_Age = in_Age row, in_Restricted = restricted\<rparr>))
                 else if known \<and> in_Tier row = tier \<and> in_Restricted row = restricted then None
                 else Some (us_ID u,
                   \<lparr>in_Username = (if in_Username row = [] then us_Username u else in_Username row), in_Tier = tier,
                    in_Age = (if known then in_Age row else age u), in_Restricted = restricted\<rparr>))"

fun repair_loop :: "'w mrepo \<Rightarrow> (DMember \<Rightarrow> (string \<times> info) option) \<Rightarrow> DMember list \<Rightarrow> int \<Rightarrow> 'w \<Rightarrow>
    (int \<times> bot_error option) \<times> 'w" where
  "repair_loop mp fx [] repaired w = ((repaired, None), w)"
| "repair_loop mp fx (m # ms) repaired w =
     (case fx m of
        None \<Rightarrow> repair_loop mp fx ms repaired w
      | Some (i, x) \<Rightarrow>
          (case Upsert mp i (in_Username x) (in_Tier x) (in_Age x) (in_Restricted x) w of
             (Inl e, w') \<Rightarrow> ((repaired, Some (EStored e)), w')
           | (Inr _, w') \<Rightarrow> repair_loop mp fx ms (repaired + 1) w'))"

fun prune_loop :: "'w mrepo \<Rightarrow> string list \<Rightarrow> string list \<Rightarrow> int \<Rightarrow> 'w \<Rightarrow> (int \<times> bot_error option) \<times> 'w" where
  "prune_loop mp present [] pruned w = ((pruned, None), w)"
| "prune_loop mp present (i # rest) pruned w =
     (if i \<in> set present then prune_loop mp present rest pruned w
      else case DeleteMember mp i w of
        (Inl e, w') \<Rightarrow> ((pruned, Some (EStored e)), w')
      | (Inr _, w') \<Rightarrow> prune_loop mp present rest (pruned + 1) w')"

definition present_ids :: "DMember list \<Rightarrow> string list" where
  "present_ids ms = List.map_filter (\<lambda>m. map_option us_ID (dm_User m)) ms"

definition reconcile_with :: "'w mrepo \<Rightarrow> (User \<Rightarrow> int) \<Rightarrow> GuildMember list \<Rightarrow> Role list \<Rightarrow> DMember list \<Rightarrow> 'w \<Rightarrow>
    (int \<times> int \<times> bot_error option) \<times> 'w" where
  "reconcile_with mp age stored roles ms w =
     (case repair_loop mp (tier_fix (role_table roles) (member_map (rev stored)) age) ms 0 w of
        ((repaired, Some e), w1) \<Rightarrow> ((repaired, 0, Some e), w1)
      | ((repaired, None), w1) \<Rightarrow>
          (case prune_loop mp (present_ids ms) (map gm_DiscordID stored) 0 w1 of
             ((pruned, e), w2) \<Rightarrow> ((repaired, pruned, e), w2)))"

text \<open>\<open>Some None\<close> is the panic of \<open>guildMembers\<close>.\<close>

definition reconcileTiers :: "'w mrepo \<Rightarrow> 'w session \<Rightarrow> 'w \<Rightarrow> ((int \<times> int \<times> bot_error option) option \<times> 'w) option" where
  "reconcileTiers mp se w =
     (case ListMembers mp w of
        (Inl e, w1) \<Rightarrow> Some (Some (0, 0, Some (EStored e)), w1)
      | (Inr stored, w1) \<Rightarrow>
          (case se_GuildRoles se w1 of
             (Inl e, w2) \<Rightarrow> Some (Some (0, 0, Some (EDiscord e)), w2)
           | (Inr roles, w2) \<Rightarrow>
               (case guildMembers se w2 of
                  None \<Rightarrow> None
                | Some (Inl e, w3) \<Rightarrow> Some (Some (0, 0, Some (EDiscord e)), w3)
                | Some (Inr None, w3) \<Rightarrow> Some (None, w3)
                | Some (Inr (Some ms), w3) \<Rightarrow>
                    (case reconcile_with mp (\<lambda>u. accountAgeDays se (Some u) w3) stored roles ms w3 of
                       (r, w4) \<Rightarrow> Some (Some r, w4)))))"

section \<open>What the reconciliation leaves behind\<close>

definition apply_fix :: "(DMember \<Rightarrow> (string \<times> info) option) \<Rightarrow> (string \<Rightarrow> info option) \<Rightarrow> DMember \<Rightarrow> string \<Rightarrow> info option" where
  "apply_fix fx M m = (case fx m of None \<Rightarrow> M | Some (i, x) \<Rightarrow> M(i \<mapsto> x))"

lemma MemberTier_nonempty: "MemberTier rs \<noteq> []"
  by (cases rs) (auto simp: MemberTier_Some tier_of_def tables split: list.split)

lemma tier_fix_Some:
  assumes "tier_fix roleName byID age m = Some (i, x)"
  shows "\<exists>u. dm_User m = Some u \<and> i = us_ID u \<and> in_Tier x \<noteq> []"
  using assms MemberTier_nonempty by (auto simp: tier_fix_def Let_def TierNone_def split: option.splits if_splits)

lemma present_ids_Cons: "present_ids (m # ms) = (case dm_User m of None \<Rightarrow> present_ids ms | Some u \<Rightarrow> us_ID u # present_ids ms)"
  by (simp add: present_ids_def List.map_filter_def split: option.split)

lemma present_ids_mem: "m \<in> set ms \<Longrightarrow> dm_User m = Some u \<Longrightarrow> us_ID u \<in> set (present_ids ms)"
  by (induction ms) (auto simp: present_ids_Cons split: option.splits)

lemma fixes_other:
  assumes "\<And>m j x. fx m = Some (j, x) \<Longrightarrow> \<exists>u. dm_User m = Some u \<and> j = us_ID u" and "i \<notin> set (present_ids ms)"
  shows "foldl (apply_fix fx) M ms i = M i"
  using assms(2)
proof (induction ms arbitrary: M)
  case (Cons m ms)
  have "apply_fix fx M m i = M i"
    using assms(1) Cons.prems by (fastforce simp: apply_fix_def present_ids_Cons split: option.splits)
  with Cons show ?case by (auto simp: present_ids_Cons split: option.splits)
qed simp

lemma fixes_own:
  assumes fx: "\<And>m j x. fx m = Some (j, x) \<Longrightarrow> \<exists>u. dm_User m = Some u \<and> j = us_ID u"
    and "distinct (present_ids ms)" and "m \<in> set ms" and "dm_User m = Some u"
  shows "foldl (apply_fix fx) M ms (us_ID u) = (case fx m of None \<Rightarrow> M (us_ID u) | Some (_, x) \<Rightarrow> Some x)"
  using assms(2,3)
proof (induction ms arbitrary: M)
  case (Cons m' ms)
  show ?case
  proof (cases "m' = m")
    case True
    then have "us_ID u \<notin> set (present_ids ms)" using Cons.prems(1) assms(4) by (simp add: present_ids_Cons)
    then have "foldl (apply_fix fx) (apply_fix fx M m) ms (us_ID u) = apply_fix fx M m (us_ID u)" using fixes_other fx by blast
    moreover have "apply_fix fx M m (us_ID u) = (case fx m of None \<Rightarrow> M (us_ID u) | Some (_, x) \<Rightarrow> Some x)"
      using fx [of m] assms(4) by (auto simp: apply_fix_def split: option.splits)
    ultimately show ?thesis using True by simp
  next
    case False
    then have m: "m \<in> set ms" using Cons.prems(2) by simp
    have "apply_fix fx M m' (us_ID u) = M (us_ID u)"
      using fx [of m'] Cons.prems(1) present_ids_mem [OF m assms(4)]
      by (fastforce simp: apply_fix_def present_ids_Cons split: option.splits)
    then show ?thesis using Cons.IH [OF _ m, of "apply_fix fx M m'"] Cons.prems(1)
      by (auto simp: present_ids_Cons split: option.splits)
  qed
qed simp

text \<open>The stored members after a reconciliation that reports no error.\<close>

definition reconciled :: "(string, string) gomap \<Rightarrow> (User \<Rightarrow> int) \<Rightarrow> DMember list \<Rightarrow> (string \<Rightarrow> info option) \<Rightarrow> string \<Rightarrow> info option" where
  "reconciled roleName age ms old i =
     (if i \<notin> set (present_ids ms) then None else foldl (apply_fix (tier_fix roleName old age)) old ms i)"

context member_repo
begin

lemma repair_loop_map:
  assumes "good w" and "repair_loop mp fx ms n w = ((n', None), w')"
    and "\<And>m i x. fx m = Some (i, x) \<Longrightarrow> in_Tier x \<noteq> []"
  shows "good w' \<and> members w' = foldl (apply_fix fx) (members w) ms"
  using assms(1,2)
proof (induction ms arbitrary: n w)
  case (Cons m ms)
  show ?case
  proof (cases "fx m")
    case None
    with Cons show ?thesis by (simp add: apply_fix_def)
  next
    case (Some p)
    obtain i x where p: "fx m = Some (i, x)" using Some by (cases p) auto
    obtain r w1 where u: "Upsert mp i (in_Username x) (in_Tier x) (in_Age x) (in_Restricted x) w = (r, w1)"
      by (cases "Upsert mp i (in_Username x) (in_Tier x) (in_Age x) (in_Restricted x) w")
    with p Cons.prems(2) obtain y where r: "r = Inr y" and rest: "repair_loop mp fx ms (n + 1) w1 = ((n', None), w')"
      by (cases r) auto
    have "mr_Upsert mp (new_row i (in_Username x) (in_Tier x) (in_Age x) (in_Restricted x)) w = (Inr y, w1)"
      using u r assms(3) [OF p] by (simp add: MemberService.Upsert_def)
    from Upsert [OF Cons.prems(1) this] have "good w1" "members w1 = apply_fix fx (members w) m"
      using p by (cases x; simp add: apply_fix_def new_row_def info_of_def)+
    with Cons.IH [OF this(1) rest] show ?thesis by simp
  qed
qed simp

lemma prune_loop_map:
  assumes "good w" and "prune_loop mp present ids n w = ((n', None), w')"
  shows "good w' \<and> members w' = (\<lambda>i. if i \<in> set ids \<and> i \<notin> set present then None else members w i)"
  using assms
proof (induction ids arbitrary: n w)
  case (Cons i ids)
  show ?case
  proof (cases "i \<in> set present")
    case True
    with Cons show ?thesis by (auto simp: fun_eq_iff)
  next
    case False
    obtain r w1 where d: "mr_Delete mp i w = (r, w1)" by (cases "mr_Delete mp i w")
    with False Cons.prems(2) obtain y where r: "r = Inr y" and rest: "prune_loop mp present ids (n + 1) w1 = ((n', None), w')"
      by (cases r) (auto simp: DeleteMember_def)
    from Delete [OF Cons.prems(1) d] r have "good w1" "members w1 = (members w)(i := None)" by simp_all
    with Cons.IH [OF this(1) rest] False show ?thesis by (auto simp: fun_eq_iff)
  qed
qed simp

lemma reconcile_map:
  assumes "good w" and "distinct (map gm_DiscordID stored)" and "member_map stored = members w"
    and "reconcile_with mp age stored roles ms w = ((n, p, None), w')"
  shows "good w' \<and> members w' = reconciled (role_table roles) age ms (members w)"
proof -
  have rev: "member_map (rev stored) = members w"
    using member_map_mset [of "rev stored" stored] assms(2,3) by simp
  define fx where "fx = tier_fix (role_table roles) (members w) age"
  obtain k w1 where l: "repair_loop mp fx ms 0 w = ((k, None), w1)"
    and pr: "prune_loop mp (present_ids ms) (map gm_DiscordID stored) 0 w1 = ((p, None), w')"
    using assms(4) unfolding reconcile_with_def rev fx_def [symmetric] by (auto split: prod.splits option.splits)
  have fx: "\<And>m i x. fx m = Some (i, x) \<Longrightarrow> in_Tier x \<noteq> []" using tier_fix_Some by (fastforce simp: fx_def)
  have one: "good w1" "members w1 = foldl (apply_fix fx) (members w) ms" using repair_loop_map [OF assms(1) l fx] by simp_all
  have two: "good w'" "members w' = (\<lambda>i. if i \<in> set (map gm_DiscordID stored) \<and> i \<notin> set (present_ids ms) then None else members w1 i)"
    using prune_loop_map [OF one(1) pr] by simp_all
  have "members w' i = reconciled (role_table roles) age ms (members w) i" for i
  proof (cases "i \<in> set (present_ids ms)")
    case True
    then show ?thesis by (simp add: two one reconciled_def fx_def)
  next
    case False
    then have "members w1 i = members w i" unfolding one
      using fixes_other [of fx i ms "members w"] tier_fix_Some by (fastforce simp: fx_def)
    moreover have "members w i = None" if "i \<notin> set (map gm_DiscordID stored)"
      using that member_map_None [of stored i] assms(3) by simp
    ultimately show ?thesis using False by (auto simp: two reconciled_def)
  qed
  with two(1) show ?thesis by auto
qed

end

text \<open>A second run finds nothing to do.\<close>

lemma tier_fix_again:
  assumes "dm_User m = Some u" and "\<not> us_Bot u"
    and "new (us_ID u) = (case tier_fix roleName old age m of None \<Rightarrow> old (us_ID u) | Some (_, x) \<Rightarrow> Some x)"
  shows "tier_fix roleName new age m = None"
  using assms by (auto simp: tier_fix_def Let_def split: option.splits if_splits)

lemma tier_fix_skips: "dm_User m = None \<or> (\<exists>u. dm_User m = Some u \<and> us_Bot u) \<Longrightarrow> tier_fix roleName old age m = None"
  by (auto simp: tier_fix_def)

lemma reconciled_settled:
  assumes "distinct (present_ids ms)" and "m \<in> set ms"
  shows "tier_fix roleName (reconciled roleName age ms old) age m = None"
proof (cases "dm_User m = None \<or> (\<exists>u. dm_User m = Some u \<and> us_Bot u)")
  case True
  then show ?thesis by (rule tier_fix_skips)
next
  case False
  then obtain u where u: "dm_User m = Some u" "\<not> us_Bot u" by auto
  have "\<exists>u. dm_User m = Some u \<and> j = us_ID u" if "tier_fix roleName old age m = Some (j, x)" for m j x
    using tier_fix_Some [OF that] by auto
  from fixes_own [where fx = "tier_fix roleName old age" and M = old, OF this assms(1,2) u(1)] present_ids_mem [OF assms(2) u(1)]
  show ?thesis by (intro tier_fix_again [OF u]) (simp add: reconciled_def)
qed

lemma repair_loop_idle: "\<forall>m \<in> set ms. fx m = None \<Longrightarrow> repair_loop mp fx ms n w = ((n, None), w)"
  by (induction ms) auto

lemma prune_loop_idle: "set ids \<subseteq> set present \<Longrightarrow> prune_loop mp present ids n w = ((n, None), w)"
  by (induction ids) auto

lemma reconcile_idle:
  assumes "distinct (map gm_DiscordID stored)" and "member_map stored = reconciled (role_table roles) age ms old"
    and "distinct (present_ids ms)"
  shows "reconcile_with mp age stored roles ms w = ((0, 0, None), w)"
proof -
  have rev: "member_map (rev stored) = reconciled (role_table roles) age ms old"
    using member_map_mset [of "rev stored" stored] assms(1,2) by simp
  have "set (map gm_DiscordID stored) \<subseteq> set (present_ids ms)"
  proof
    fix i assume "i \<in> set (map gm_DiscordID stored)"
    then have "reconciled (role_table roles) age ms old i \<noteq> None" using member_map_None [of stored i] assms(2) by auto
    then show "i \<in> set (present_ids ms)" by (auto simp: reconciled_def split: if_splits)
  qed
  moreover have "\<forall>m \<in> set ms. tier_fix (role_table roles) (reconciled (role_table roles) age ms old) age m = None"
    using reconciled_settled [OF assms(3)] by blast
  ultimately show ?thesis unfolding reconcile_with_def rev
    by (simp add: repair_loop_idle prune_loop_idle)
qed

text \<open>The stored tier and restriction agree with the roles in Discord.\<close>

definition agrees :: "(string, string) gomap \<Rightarrow> (string \<Rightarrow> info option) \<Rightarrow> (string \<Rightarrow> info option) \<Rightarrow> DMember \<Rightarrow> bool" where
  "agrees roleName old new m =
     (case dm_User m of
        None \<Rightarrow> True
      | Some u \<Rightarrow>
          let ns = names_in roleName m; tier = MemberTier (Some ns); i = us_ID u in
          if us_Bot u \<or> tier = TierConflict then new i = old i
          else if tier = TierNone then
            (case old i of None \<Rightarrow> new i = None
             | Some x \<Rightarrow> new i = Some (x\<lparr>in_Tier := TierNone, in_Restricted := Restricted (Some ns)\<rparr>))
          else (case new i of None \<Rightarrow> False
             | Some y \<Rightarrow> in_Tier y = tier \<and> in_Restricted y = Restricted (Some ns) \<and>
                 (case old i of None \<Rightarrow> in_Username y = us_Username u
                  | Some x \<Rightarrow> in_Age y = in_Age x \<and> in_Username y \<in> {in_Username x, us_Username u} \<and>
                      (in_Username x = [] \<or> in_Username y = in_Username x))))"

lemma fix_agrees:
  assumes "\<And>u. dm_User m = Some u \<Longrightarrow> new (us_ID u) = (case tier_fix roleName old age m of None \<Rightarrow> old (us_ID u) | Some (_, x) \<Rightarrow> Some x)"
  shows "agrees roleName old new m"
proof (cases "dm_User m")
  case (Some u)
  define ns where "ns = names_in roleName m"
  from assms [OF Some] show ?thesis
    by (cases "old (us_ID u)") (auto simp: agrees_def tier_fix_def Some Let_def ns_def [symmetric] split: if_splits)
qed (simp add: agrees_def)

lemma reconciled_agrees:
  assumes "distinct (present_ids ms)" and "m \<in> set ms"
  shows "agrees roleName old (reconciled roleName age ms old) m"
proof (rule fix_agrees)
  fix u assume u: "dm_User m = Some u"
  have "\<exists>u. dm_User m = Some u \<and> j = us_ID u" if "tier_fix roleName old age m = Some (j, x)" for m j x
    using tier_fix_Some [OF that] by auto
  from fixes_own [where fx = "tier_fix roleName old age" and M = old, OF this assms u] present_ids_mem [OF assms(2) u]
  show "reconciled roleName age ms old (us_ID u) = (case tier_fix roleName old age m of None \<Rightarrow> old (us_ID u) | Some (_, x) \<Rightarrow> Some x)"
    by (simp add: reconciled_def)
qed

text \<open>
  C13: The reconciliation of stored tiers. When it reports no error, over the repository of the
  members and for any guild in which no member is listed twice: every stored row belongs to a
  member of the guild; the stored tier and restriction of every human member whose roles name
  one tier are those of the roles, and of one without a tier role they are \<open>none\<close> if a row was
  there before; bots and members with conflicting roles keep what was stored; names and ages
  that were stored are kept. A second run with the same guild then changes nothing and reports
  0 repaired and 0 pruned.
\<close>

theorem reconcile_exact:
  assumes "rows_ok (gt_Rows w0)" and "ListMembers (member_repo_of tab_store now) w0 = (Inr stored, w)"
    and "distinct (present_ids ms)"
    and "reconcile_with (member_repo_of tab_store now) age stored roles ms w = ((n, p, None), w')"
  shows "let old = member_map (gt_Rows w); new = member_map (gt_Rows w') in
    rows_ok (gt_Rows w') \<and> dom new \<subseteq> set (present_ids ms) \<and> list_all (agrees (role_table roles) old new) ms \<and>
    (case ListMembers (member_repo_of tab_store later) w' of
       (Inl _, _) \<Rightarrow> True
     | (Inr again, w2) \<Rightarrow> reconcile_with (member_repo_of tab_store later) age again roles ms w2 = ((0, 0, None), w2))"
proof -
  have l: "rows_ok (gt_Rows w)" "distinct (map gm_DiscordID stored)" "member_map stored = member_map (gt_Rows w)"
    using roster.List [OF assms(1), of now "Inr stored" w] assms(2) by (auto simp: ListMembers_def)
  from roster.reconcile_map [OF l assms(4)]
  have r: "rows_ok (gt_Rows w')" "member_map (gt_Rows w') = reconciled (role_table roles) age ms (member_map (gt_Rows w))" by auto
  have d: "dom (member_map (gt_Rows w')) \<subseteq> set (present_ids ms)"
    unfolding r(2) by (auto simp: reconciled_def split: if_splits)
  have a: "list_all (agrees (role_table roles) (member_map (gt_Rows w)) (member_map (gt_Rows w'))) ms"
    unfolding r(2) list_all_iff using reconciled_agrees [OF assms(3)] by blast
  obtain q w2 where q: "ListMembers (member_repo_of tab_store later) w' = (q, w2)"
    by (cases "ListMembers (member_repo_of tab_store later) w'")
  have "case q of Inl _ \<Rightarrow> True | Inr again \<Rightarrow>
      reconcile_with (member_repo_of tab_store later) age again roles ms w2 = ((0, 0, None), w2)"
  proof (cases q)
    case (Inr again)
    have "distinct (map gm_DiscordID again)" "member_map again = member_map (gt_Rows w')"
      using roster.List [OF r(1), of later q w2] q Inr by (auto simp: ListMembers_def)
    with reconcile_idle [OF _ _ assms(3)] r(2) Inr show ?thesis by simp
  qed simp
  with q r(1) d a show ?thesis by (cases q) (simp_all add: Let_def)
qed

theorem reconcile_exact_witness:
  "\<exists>w'. reconcile_with (member_repo_of tab_store 0) (\<lambda>_. 0) [sample_row] [] [] sample_tab = ((0, 1, None), w') \<and>
     dom (member_map (gt_Rows w')) = {}"
proof -
  let ?w = "sample_tab\<lparr>gt_Rows := []\<rparr>"
  have ok: "rows_ok (gt_Rows sample_tab)" by (simp add: rows_ok_def sample_tab_def)
  have l: "ListMembers (member_repo_of tab_store 0) sample_tab = (Inr [sample_row], sample_tab)"
    by (simp add: ListMembers_def member_repo_of_def ListRows_def tab_store_def tab_find_def tstmt_def sample_tab_def)
  have r: "reconcile_with (member_repo_of tab_store 0) (\<lambda>_. 0) [sample_row] [] [] sample_tab = ((0, 1, None), ?w)"
    by (simp add: reconcile_with_def present_ids_def List.map_filter_def DeleteMember_def member_repo_of_def DeleteRow_def
      tab_store_def tab_delete_def tstmt_def sample_tab_def)
  have d: "distinct (present_ids [])" by (simp add: present_ids_def List.map_filter_def)
  from reconcile_exact [OF ok l d r, of 0] r show ?thesis by (auto simp: Let_def present_ids_def List.map_filter_def)
qed

section \<open>The whole member list\<close>

text \<open>
  What Discord documents of the member list: pages of members with an id above \<open>after\<close>, in the
  order of the ids. \<open>key\<close> is the number an id stands for.
\<close>

definition member_id :: "DMember \<Rightarrow> string" where
  "member_id m = (case dm_User m of None \<Rightarrow> [] | Some u \<Rightarrow> us_ID u)"

definition serves :: "'w session \<Rightarrow> (string \<Rightarrow> nat) \<Rightarrow> DMember list \<Rightarrow> 'w \<Rightarrow> bool" where
  "serves se key roster w \<longleftrightarrow>
     (\<forall>after. se_GuildMembers se after 1000 w =
        (Inr (take 1000 (filter (\<lambda>m. after = [] \<or> key after < key (member_id m)) roster)), w)) \<and>
     sorted_wrt (\<lambda>a b. key (member_id a) < key (member_id b)) roster \<and>
     list_all (\<lambda>m. dm_User m \<noteq> None \<and> member_id m \<noteq> []) roster"

lemma filter_rest:
  assumes "sorted_wrt (\<lambda>a b. f a < (f b :: nat)) (xs @ ys)" and "xs \<noteq> []"
  shows "filter (\<lambda>m. f (last xs) < f m) (xs @ ys) = ys"
proof -
  obtain bs l where xs: "xs = bs @ [l]" using assms(2) by (cases xs rule: rev_cases) auto
  have "\<not> f (last xs) < f x" if "x \<in> set xs" for x
    using assms(1) that unfolding xs by (auto simp: sorted_wrt_append)
  moreover have "f (last xs) < f y" if "y \<in> set ys" for y
    using assms that last_in_set [OF assms(2)] by (auto simp: sorted_wrt_append)
  ultimately show ?thesis by (simp add: filter_empty_conv filter_id_conv)
qed

lemma guild_pages_rest:
  assumes "serves se key roster w" and "roster = xs @ ys" and "after = (if xs = [] then [] else member_id (last xs))"
  shows "guild_pages se after xs w = Some (Inr (Some roster), w)"
  using assms(2,3)
proof (induction "length ys" arbitrary: xs ys after rule: less_induct)
  case less
  have srt: "sorted_wrt (\<lambda>a b. key (member_id a) < key (member_id b)) (xs @ ys)"
    and users: "list_all (\<lambda>m. dm_User m \<noteq> None \<and> member_id m \<noteq> []) (xs @ ys)"
    using assms(1) less.prems(1) by (simp_all add: serves_def)
  have rest: "filter (\<lambda>m. after = [] \<or> key after < key (member_id m)) roster = ys"
  proof (cases "xs = []")
    case True
    with less.prems show ?thesis by simp
  next
    case False
    then have "after \<noteq> []" using users less.prems(2) last_in_set [OF False] by (auto simp: list_all_iff)
    with filter_rest [OF srt False] less.prems False show ?thesis by simp
  qed
  have page: "se_GuildMembers se after 1000 w = (Inr (take 1000 ys), w)"
    using assms(1) rest by (simp add: serves_def)
  show ?case
  proof (cases "length ys < 1000")
    case True
    with less.prems(1) show ?thesis by (subst guild_pages.simps) (simp add: page)
  next
    case False
    define zs where "zs = take 1000 ys"
    have z: "length zs = 1000" "zs \<noteq> []" "set zs \<subseteq> set ys" using False by (auto simp: zs_def dest: in_set_takeD)
    then have "last zs \<in> set ys" using last_in_set by blast
    then obtain u where u: "dm_User (last zs) = Some u" using users by (auto simp: list_all_iff)
    have "length (drop 1000 ys) < length ys" using False by simp
    moreover have "roster = (xs @ zs) @ drop 1000 ys" using less.prems(1) by (simp add: zs_def)
    moreover have "us_ID u = (if xs @ zs = [] then [] else member_id (last (xs @ zs)))" using z(2) u by (simp add: member_id_def)
    ultimately have "guild_pages se (us_ID u) (xs @ zs) w = Some (Inr (Some roster), w)" by (rule less.hyps)
    then show ?thesis using z u by (subst guild_pages.simps) (simp add: page zs_def [symmetric])
  qed
qed

text \<open>
  C25: The whole guild is read. If Discord answers as documented (pages of members above the id
  asked for, in the order of the ids, every member with a user), the loop of \<open>guildMembers\<close>
  ends without a panic, whatever the size of the guild, and its result is the complete list.
\<close>

theorem guild_members_complete:
  assumes "serves se key roster w"
  shows "guildMembers se w = Some (Inr (Some roster), w)"
  unfolding guildMembers_def by (rule guild_pages_rest [OF assms, of "[]" roster]) simp_all

definition sample_session :: "DMember list \<Rightarrow> nat session" where
  "sample_session roster = \<lparr>se_GuildRoles = sret [],
     se_GuildMembers = (\<lambda>after n. sret (take n (filter (\<lambda>m. after = [] \<or> val after < val (member_id m)) roster))),
     se_GuildMember = (\<lambda>i. sfail ''unknown member''), se_RoleAdd = (\<lambda>i r. sret ()), se_RoleRemove = (\<lambda>i r. sret ()),
     se_StateRole = (\<lambda>i w. None), se_AgeDays = (\<lambda>i w. None)\<rparr>"

theorem guild_members_complete_witness:
  "guildMembers (sample_session [\<lparr>dm_User = Some \<lparr>us_ID = ''42'', us_Username = ''budi'', us_Bot = False\<rparr>, dm_Roles = []\<rparr>]) 0 =
    Some (Inr (Some [\<lparr>dm_User = Some \<lparr>us_ID = ''42'', us_Username = ''budi'', us_Bot = False\<rparr>, dm_Roles = []\<rparr>]), 0)"
  by (rule guild_members_complete [where key = val]) (simp add: serves_def sample_session_def member_id_def)

section \<open>Moving a member to a tier\<close>

text \<open>Discord's calls do not touch the stored members.\<close>

definition apart :: "('w \<Rightarrow> 'c) \<Rightarrow> 'w session \<Rightarrow> bool" where
  "apart f se \<longleftrightarrow> (\<forall>w. f (snd (se_GuildRoles se w)) = f w) \<and> (\<forall>a n w. f (snd (se_GuildMembers se a n w)) = f w) \<and>
     (\<forall>i w. f (snd (se_GuildMember se i w)) = f w) \<and> (\<forall>i r w. f (snd (se_RoleAdd se i r w)) = f w) \<and>
     (\<forall>i r w. f (snd (se_RoleRemove se i r w)) = f w)"

lemma apart_raise:
  assumes "apart f se"
  shows "raise EDiscord (se_GuildMember se i) w = (r, w') \<Longrightarrow> f w' = f w"
    and "raise EDiscord (se_RoleAdd se i k) w = (q, w') \<Longrightarrow> f w' = f w"
  using assms by (auto simp: raise_def apart_def split: prod.splits) (metis snd_conv)+

lemma findRole_apart: "apart f se \<Longrightarrow> f (snd (findRole se name w)) = f w"
  by (auto simp: findRole_def apart_def split: prod.split sum.split) (metis snd_conv)+

lemma remove_roles_apart: "apart f se \<Longrightarrow> f (remove_roles se i ns w) = f w"
proof (induction ns arbitrary: w)
  case (Cons n ns)
  obtain q w1 where q: "findRole se n w = (q, w1)" by (cases "findRole se n w")
  have "f w1 = f w" using findRole_apart [OF Cons.prems, of n w] q by simp
  with Cons q show ?case by (auto simp: apart_def split: option.split)
qed simp

lemma exclusiveTier_apart:
  assumes "apart f se" and "exclusiveTier se i target w = (r, w')"
  shows "f w' = f w \<and> (case r of Inl _ \<Rightarrow> True | Inr _ \<Rightarrow> target \<noteq> [])"
proof -
  from assms(2) [unfolded exclusiveTier_def] show ?thesis
  proof (cases rule: sbind_cases)
    case (fail e)
    then show ?thesis using apart_raise(1) [OF assms(1)] by simp
  next
    case (step m w1)
    have w1: "f w1 = f w" using apart_raise(1) [OF assms(1) step(1)] .
    show ?thesis
    proof (cases "ExclusiveGrant (names (roleNames se (Some m) w1)) target")
      case None
      with step(2) w1 show ?thesis by auto
    next
      case (Some p)
      obtain add remove where p: "p = (add, remove)" by (cases p)
      have t: "target \<noteq> []" using Some by (auto simp: ExclusiveGrant_def ExclusiveGrant_over_def tables split: option.splits if_splits)
      obtain q w2 where q: "findRole se add (remove_roles se i remove w1) = (q, w2)"
        by (cases "findRole se add (remove_roles se i remove w1)")
      have "f w2 = f w" using findRole_apart [OF assms(1), of add "remove_roles se i remove w1"] remove_roles_apart [OF assms(1)] q w1 by simp
      with step(2) Some p q t apart_raise(2) [OF assms(1)] show ?thesis by (auto split: option.splits sum.splits)
    qed
  qed
qed

context member_repo
begin

lemma setTier_map:
  assumes "good w" and "apart good se" and "apart members se" and "setTier mp se i target name w = (r, w')"
  shows "good w' \<and> (case r of Inl _ \<Rightarrow> members w' = members w
    | Inr _ \<Rightarrow> \<exists>x. members w' = (members w)(i \<mapsto> x) \<and> in_Tier x = target \<and> (if name = [] then True else in_Username x = name))"
proof -
  from assms(4) [unfolded setTier_def] show ?thesis
  proof (cases rule: sbind_cases)
    case (fail e)
    then show ?thesis using exclusiveTier_apart [OF assms(2)] exclusiveTier_apart [OF assms(3)] assms(1) by auto
  next
    case (step u w1)
    have w1: "good w1" "members w1 = members w" "target \<noteq> []"
      using exclusiveTier_apart [OF assms(2) step(1)] exclusiveTier_apart [OF assms(3) step(1)] assms(1) by auto
    from step(2) show ?thesis
    proof (cases rule: sbind_cases)
      case (fail e)
      then show ?thesis using apart_raise(1) [OF assms(2)] apart_raise(1) [OF assms(3)] w1 by auto
    next
      case m: (step m w2)
      have w2: "good w2" "members w2 = members w" using apart_raise(1) [OF assms(2) m(1)] apart_raise(1) [OF assms(3) m(1)] w1 by simp_all
      show ?thesis
      proof (cases "dm_User m")
        case None
        with m(2) w2 show ?thesis by (auto simp: Let_def)
      next
        case (Some v)
        define nm where "nm = (if name = [] then us_Username v else name)"
        define x where "x = Upsert mp i nm target (accountAgeDays se (Some v) w2) (Restricted (roleNames se (Some m) w2)) w2"
        have "sbind (\<lambda>w. raise EStored (\<lambda>_. x) w) (\<lambda>_. sret ()) w2 = (r, w')"
          using m(2) Some unfolding Let_def x_def nm_def by (simp add: sbind_def raise_def)
        then have "x = (fst x, w')" "r = map_sum EStored (\<lambda>_. ()) (fst x)"
          by (cases "fst x"; auto simp: sbind_def raise_def split: prod.splits sum.splits)+
        then obtain q where q: "Upsert mp i nm target (accountAgeDays se (Some v) w2) (Restricted (roleNames se (Some m) w2)) w2 = (q, w')"
          "r = map_sum EStored (\<lambda>_. ()) q" unfolding x_def by blast
        from Upsert_map [OF w2(1) q(1) w1(3)] w2(2) q(2) show ?thesis by (cases q) (auto simp: nm_def)
      qed
    qed
  qed
qed

end

text \<open>
  A tier is recorded only after the role. Whatever calls to Discord or the database fail,
  \<open>setTier\<close> either reports an error and leaves every stored member as it was, or has written
  the row of that one member with the tier it was asked for (and with the name, if one was given).
\<close>

theorem set_tier_stored:
  assumes "rows_ok (gt_Rows w)" and "apart gt_Rows se"
    and "setTier (member_repo_of tab_store now) se i target name w = (r, w')"
  shows "rows_ok (gt_Rows w') \<and> (case r of Inl _ \<Rightarrow> member_map (gt_Rows w') = member_map (gt_Rows w)
    | Inr _ \<Rightarrow> \<exists>x. member_map (gt_Rows w') = (member_map (gt_Rows w))(i \<mapsto> x) \<and> in_Tier x = target \<and>
        (if name = [] then True else in_Username x = name))"
proof (rule roster.setTier_map [OF assms(1) _ _ assms(3)])
  show "apart (\<lambda>w. rows_ok (gt_Rows w)) se" "apart (\<lambda>w. member_map (gt_Rows w)) se"
    using assms(2) by (simp_all add: apart_def)
qed

definition quiet_session :: "guild_tab session" where
  "quiet_session = \<lparr>se_GuildRoles = sret [\<lparr>ro_ID = ''5'', ro_Name = ''Buyer'', ro_Administrator = False\<rparr>],
     se_GuildMembers = (\<lambda>after n. sret []), se_GuildMember = (\<lambda>i. sfail ''unknown member''),
     se_RoleAdd = (\<lambda>i r. sret ()), se_RoleRemove = (\<lambda>i r. sret ()), se_StateRole = (\<lambda>i w. None), se_AgeDays = (\<lambda>i w. None)\<rparr>"

theorem set_tier_stored_witness:
  "member_map (gt_Rows (snd (setTier (member_repo_of tab_store 0) quiet_session ''42'' ''buyer'' [] sample_tab))) =
     member_map (gt_Rows sample_tab)"
proof -
  have ok: "rows_ok (gt_Rows sample_tab)" by (simp add: rows_ok_def sample_tab_def)
  have ap: "apart gt_Rows quiet_session" by (simp add: apart_def quiet_session_def sret_def sfail_def)
  have s: "setTier (member_repo_of tab_store 0) quiet_session ''42'' ''buyer'' [] sample_tab = (Inl (EDiscord ''unknown member''), sample_tab)"
    by (simp add: setTier_def exclusiveTier_def sbind_def raise_def quiet_session_def sfail_def)
  from set_tier_stored [OF ok ap s] s show ?thesis by simp
qed

end
