(* ===== verification/BotText.thy ===== *)
theory BotText
  imports GoText "HOL-Library.List_Lexorder"
begin

text \<open>
  The small formatting helpers of the bot: \<open>itoa\<close> (modules/discordbot/ops.go), \<open>itoa64\<close>,
  \<open>nanoUSD\<close>, \<open>countList\<close> and \<open>sortedKeys\<close> (bot.go). \<open>int\<close> is 64 bits wide.
\<close>

section \<open>Decimal text\<close>

text \<open>
  \<open>itoa\<close> fills a buffer of twenty bytes from the right; the list is the filled part.
\<close>

function itoa_loop :: "int \<Rightarrow> string \<Rightarrow> string" where
  "itoa_loop n buf = (if 0 < n then itoa_loop (n div 10) (digit (nat (n mod 10)) # buf) else buf)"
  by auto
termination by (relation "measure (\<lambda>(n, buf). nat n)") auto

declare itoa_loop.simps [simp del]

definition itoa :: "int \<Rightarrow> string" where
  "itoa n =
     (if n = 0 then ''0''
      else let neg = n < 0; n = (if neg then wrap64 (- n) else n); buf = itoa_loop n []
        in if neg then CHR ''-'' # buf else buf)"

definition itoa64 :: "int \<Rightarrow> string" where
  "itoa64 value = itoa value"

lemma itoa_loop_dec: "0 < n \<Longrightarrow> itoa_loop (int n) buf = dec n @ buf"
proof (induction n arbitrary: buf rule: less_induct)
  case (less n)
  have d: "nat (int n mod 10) = n mod 10" "int n div 10 = int (n div 10)"
    by (simp_all add: nat_mod_distrib zdiv_int)
  show ?case
  proof (cases "n < 10")
    case True
    then have "itoa_loop 0 (digit n # buf) = digit n # buf" by (simp add: itoa_loop.simps)
    with True less.prems d show ?thesis by (simp add: itoa_loop.simps [of "int n"] dec.simps [of n])
  next
    case False
    then have "0 < n div 10" "n div 10 < n" by simp_all
    from less.IH [OF this(2,1), of "digit (n mod 10) # buf"] False show ?thesis
      using d by (simp add: itoa_loop.simps [of "int n"] dec.simps [of n])
  qed
qed

lemma itoa_pos: "0 < n \<Longrightarrow> itoa n = dec (nat n)"
  using itoa_loop_dec [of "nat n" "[]"] by (simp add: itoa_def)

lemma itoa_nonneg: "0 \<le> n \<Longrightarrow> itoa n = dec (nat n)"
proof (cases "n = 0")
  case True
  then show ?thesis by (simp add: itoa_def digit_0 dec.simps)
next
  case False
  assume "0 \<le> n"
  with False show ?thesis by (intro itoa_pos) simp
qed

lemma itoa_min: "itoa (- (2 ^ 63)) = ''-''"
  by (simp add: itoa_def wrap64_def itoa_loop.simps)

text \<open>
  C33: The number printer of the bot. For every 64-bit integer but the smallest one it prints
  what \<open>strconv.Itoa\<close> prints, in at most the twenty bytes of its buffer; the smallest
  integer, whose negation wraps to itself, is printed as a lone minus sign.
\<close>

theorem itoa_decimal:
  assumes "- (2 ^ 63) \<le> n" and "n \<le> max_int64"
  shows "itoa n = (if n = - (2 ^ 63) then ''-'' else FormatInt n) \<and> length (itoa n) \<le> 20"
proof -
  have len: "length (dec (nat m)) \<le> 19" if "0 \<le> m" "m \<le> max_int64" for m
    using that by (intro length_dec_le) (auto simp: max_int64_def nat_less_iff)
  consider "n = - (2 ^ 63)" | "- (2 ^ 63) < n" "n < 0" | "0 \<le> n" using assms(1) by linarith
  then show ?thesis
  proof cases
    case 1
    then show ?thesis using itoa_min by simp
  next
    case 2
    then have w: "wrap64 (- n) = - n" by (intro wrap64_id) (simp_all add: max_int64_def)
    have "itoa n = CHR ''-'' # dec (nat (- n))"
      using itoa_loop_dec [of "nat (- n)" "[]"] 2 by (simp add: itoa_def w)
    with 2 len [of "- n"] show ?thesis by (simp add: FormatInt_def max_int64_def)
  next
    case 3
    then show ?thesis using itoa_nonneg [OF 3] len [OF 3 assms(2)] by (simp add: FormatInt_def max_int64_def)
  qed
qed

theorem itoa_decimal_witness: "itoa (- 1500) = FormatInt (- 1500) \<and> itoa (- (2 ^ 63)) = ''-''"
  using itoa_decimal [of "- 1500"] itoa_min by (simp add: max_int64_def)

section \<open>Maps in the order of their keys\<close>

text \<open>\<open>sort.Strings\<close> compares byte by byte.\<close>

definition sortedKeys :: "(string, 'v) gomap \<Rightarrow> string list" where
  "sortedKeys vals = sort_key (map (of_char :: char \<Rightarrow> nat)) (map fst vals)"

definition countList :: "(string, int) gomap \<Rightarrow> string" where
  "countList counts =
     (if counts = [] then ''none''
      else Join (map (\<lambda>key. key @ '' '' @ itoa (case map_of counts key of None \<Rightarrow> 0 | Some n \<Rightarrow> n)) (sortedKeys counts)) '', '')"

lemma inj_bytes: "inj (map (of_char :: char \<Rightarrow> nat))"
  by (simp add: inj_mapI inj_on_def)

lemma sortedKeys_order:
  fixes m m' :: "(string, 'v) gomap"
  assumes "distinct (map fst m)" and "distinct (map fst m')" and "fst ` set m = fst ` set m'"
  shows "sortedKeys m = sortedKeys m'"
proof -
  let ?f = "map (of_char :: char \<Rightarrow> nat)"
  have sorted: "sorted (map ?f (sortedKeys x))" "set (sortedKeys x) = fst ` set x" "length (sortedKeys x) = length x"
    for x :: "(string, 'v) gomap" by (simp_all add: sortedKeys_def)
  have inj: "inj_on ?f A" for A using inj_bytes by (rule inj_on_subset) simp
  have "distinct (map ?f (sortedKeys x))" if "distinct (map fst x)" for x :: "(string, 'v) gomap"
    using that by (simp add: distinct_map [of ?f] inj sortedKeys_def)
  with sorted assms have "map ?f (sortedKeys m) = map ?f (sortedKeys m')"
    by (intro sorted_distinct_set_unique) simp_all
  then show ?thesis using inj_bytes by (simp add: inj_map_eq_map)
qed

text \<open>The text does not depend on the order in which the map is visited.\<close>

lemma countList_order:
  assumes "distinct (map fst m)" and "distinct (map fst m')" and "map_of m = map_of m'"
  shows "countList m = countList m'"
proof -
  have "fst ` set m = fst ` set m'" using assms(3) by (metis dom_map_of_conv_image_fst)
  from sortedKeys_order [OF assms(1,2) this] assms(3) show ?thesis
    by (cases m; cases m') (auto simp: countList_def fun_eq_iff split: if_splits)
qed

section \<open>Amounts in billionths of a dollar\<close>

text \<open>\<open>strconv.underscoreOK\<close>: an underscore only between digits, or after the base prefix.\<close>

datatype seen = AtStart | AtDigit | AtUnderscore | AtOther

definition is_hex :: "char \<Rightarrow> bool" where
  "is_hex c \<longleftrightarrow> is_digit c \<or> 97 \<le> ord c \<and> ord c \<le> 102 \<or> 65 \<le> ord c \<and> ord c \<le> 70"

fun underscore_scan :: "bool \<Rightarrow> seen \<Rightarrow> string \<Rightarrow> bool" where
  "underscore_scan hex saw [] \<longleftrightarrow> saw \<noteq> AtUnderscore"
| "underscore_scan hex saw (c # s) \<longleftrightarrow>
     (if is_digit c \<or> hex \<and> is_hex c then underscore_scan hex AtDigit s
      else if c = CHR ''_'' then saw = AtDigit \<and> underscore_scan hex AtUnderscore s
      else saw \<noteq> AtUnderscore \<and> underscore_scan hex AtOther s)"

text \<open>The base that a prefix stands for, and the text after it.\<close>

fun base_prefix :: "string \<Rightarrow> (nat \<times> string) option" where
  "base_prefix (z # p # s) =
     (if z \<noteq> CHR ''0'' then None
      else if p \<in> set ''bB'' then Some (2, s)
      else if p \<in> set ''oO'' then Some (8, s)
      else if p \<in> set ''xX'' then Some (16, s)
      else None)"
| "base_prefix _ = None"

definition underscoreOK :: "string \<Rightarrow> bool" where
  "underscoreOK s = (case base_prefix s of None \<Rightarrow> underscore_scan False AtStart s
     | Some (b, r) \<Rightarrow> underscore_scan (b = 16) AtDigit r)"

definition digit_value :: "char \<Rightarrow> nat" where
  "digit_value c = (if is_digit c then ord c - 48 else if 97 \<le> ord c then ord c - 87 else ord c - 55)"

text \<open>The unsigned number of a token for base 0; the token has only digits of its base and underscores.\<close>

definition parse_base0 :: "string \<Rightarrow> nat option" where
  "parse_base0 s =
     (let (b, r) = (case base_prefix s of
            Some (b, r) \<Rightarrow> if r = [] then (8, tl s) else (b, r)
          | None \<Rightarrow> if hd s = CHR ''0'' then (8, tl s) else (10, s));
          ds = filter (\<lambda>c. c \<noteq> CHR ''_'') r
      in if list_ex (\<lambda>c. \<not> is_hex c \<or> b \<le> digit_value c) ds then None
         else if CHR ''_'' \<in> set r \<and> \<not> underscoreOK s then None
         else Some (foldl (\<lambda>n c. n * b + digit_value c) 0 ds))"

text \<open>
  \<open>fmt.Sscan\<close> into an \<open>int64\<close> that holds 0, which it still holds after an error: leading white
  space, a sign, a base prefix, the longest run of digits, \<open>strconv.ParseInt(_, 0, 64)\<close>.
\<close>

definition scan_digits :: "string \<Rightarrow> string" where
  "scan_digits s =
     (case base_prefix s of
        Some (b, r) \<Rightarrow> take 2 s @ takeWhile (\<lambda>c. c = CHR ''_'' \<or> is_hex c \<and> digit_value c < b) r
      | None \<Rightarrow>
          if s \<noteq> [] \<and> hd s = CHR ''0'' then CHR ''0'' # takeWhile (\<lambda>c. c = CHR ''_'' \<or> is_digit c \<and> digit_value c < 8) (tl s)
          else takeWhile (\<lambda>c. c = CHR ''_'' \<or> is_digit c) s)"

definition Sscan :: "string \<Rightarrow> int" where
  "Sscan s =
     (let s = concat (map snd (dropWhile (\<lambda>x. IsSpace (fst x)) (segs s)));
          neg = (s \<noteq> [] \<and> hd s = CHR ''-'');
          s = (if s \<noteq> [] \<and> hd s \<in> set ''+-'' then tl s else s);
          tok = scan_digits s
      in if tok = [] then 0
         else case parse_base0 tok of None \<Rightarrow> 0
           | Some n \<Rightarrow> if neg then if n \<le> 2 ^ 63 then - int n else 0 else if n < 2 ^ 63 then int n else 0)"

text \<open>\<open>%09d\<close>: the sign counts as one of the nine characters.\<close>

definition format09 :: "int \<Rightarrow> string" where
  "format09 n = (if n < 0 then CHR ''-'' # pad 8 (dec (nat (- n))) else pad 9 (dec (nat n)))"

text \<open>Integer division truncates towards zero.\<close>

definition quot :: "int \<Rightarrow> int \<Rightarrow> int" where
  "quot a b = (if a < 0 then - ((- a) div b) else a div b)"

definition rem :: "int \<Rightarrow> int \<Rightarrow> int" where
  "rem a b = a - b * quot a b"

definition nanoUSD :: "string \<Rightarrow> string" where
  "nanoUSD value =
     (let nano = Sscan value;
          sign = (if nano < 0 then ''-'' else []);
          nano = (if nano < 0 then wrap64 (- nano) else nano)
      in sign @ ''$'' @ itoa64 (quot nano 1000000000) @ ''.'' @ format09 (rem nano 1000000000))"

end
