(* ===== verification/BotUi.thy ===== *)
theory BotUi
  imports BotMembers BotText
begin

text \<open>
  The messages of the bot: panels, forms, buttons, prompts and the list of slash commands
  (modules/discordbot/ui.go and commands.go, the replies of members.go). Texts are byte strings,
  as in Go; the non-ASCII ones are written out byte by byte.
\<close>

section \<open>Messages\<close>

datatype button_style = PrimaryButton | SecondaryButton | SuccessButton | DangerButton
datatype input_style = TextInputShort | TextInputParagraph

record menu_option =
  mo_Label :: string
  mo_Value :: string
  mo_Description :: string
  mo_Emoji :: string

record button =
  bn_CustomID :: string
  bn_Label :: string
  bn_Style :: button_style
  bn_Emoji :: string
  bn_Disabled :: bool

record text_input =
  ti_CustomID :: string
  ti_Label :: string
  ti_Placeholder :: string
  ti_Style :: input_style
  ti_Required :: bool
  ti_MaxLength :: nat

datatype component =
    ActionsRow "component list"
  | Button button
  | SelectMenu string string "menu_option list"
  | TextInput text_input

record embed =
  eb_Title :: string
  eb_Description :: string
  eb_Color :: int
  eb_Fields :: "(string \<times> string \<times> bool) list"
  eb_Footer :: string

text \<open>\<open>rd_Mentions\<close> is \<open>None\<close> when no restriction of mentions is set.\<close>

record message =
  rd_CustomID :: string
  rd_Title :: string
  rd_Content :: string
  rd_Embeds :: "embed list"
  rd_Components :: "component list"
  rd_Mentions :: "string list option"

definition no_embed :: embed where
  "no_embed = \<lparr>eb_Title = [], eb_Description = [], eb_Color = 0, eb_Fields = [], eb_Footer = []\<rparr>"

definition no_message :: message where
  "no_message = \<lparr>rd_CustomID = [], rd_Title = [], rd_Content = [], rd_Embeds = [], rd_Components = [], rd_Mentions = None\<rparr>"

definition btn :: "string \<Rightarrow> string \<Rightarrow> button_style \<Rightarrow> component" where
  "btn i label style = Button \<lparr>bn_CustomID = i, bn_Label = label, bn_Style = style, bn_Emoji = [], bn_Disabled = False\<rparr>"

definition btn_disabled :: "string \<Rightarrow> string \<Rightarrow> button_style \<Rightarrow> bool \<Rightarrow> component" where
  "btn_disabled i label style off = Button \<lparr>bn_CustomID = i, bn_Label = label, bn_Style = style, bn_Emoji = [], bn_Disabled = off\<rparr>"

definition btn_emoji :: "string \<Rightarrow> string \<Rightarrow> button_style \<Rightarrow> string \<Rightarrow> component" where
  "btn_emoji i label style emoji = Button \<lparr>bn_CustomID = i, bn_Label = label, bn_Style = style, bn_Emoji = emoji, bn_Disabled = False\<rparr>"

definition disclaimer :: string where
  "disclaimer = ''Skill Issues coordinates and reviews. It does not hold funds or guarantee outcomes.''"

definition secrets_never_asked :: string where
  "secrets_never_asked = (''passwords '' @ [CHR 0xC2, CHR 0xB7] @ '' OTP '' @ [CHR 0xC2, CHR 0xB7] @ '' PIN '' @ [CHR 0xC2, CHR 0xB7] @ '' CVV '' @ [CHR 0xC2, CHR 0xB7] @ '' card numbers '' @ [CHR 0xC2, CHR 0xB7] @ '' API keys '' @ [CHR 0xC2, CHR 0xB7] @ '' private keys '' @ [CHR 0xC2, CHR 0xB7] @ '' seed phrases'')"

section \<open>Opening a ticket\<close>

definition type_option :: "Type \<Rightarrow> menu_option" where
  "type_option t =
     (let desc = ty_Description t; desc = (if 100 < length desc then take 100 desc else desc)
      in \<lparr>mo_Label = ty_Label t, mo_Value = ty_Key t, mo_Description = desc, mo_Emoji = ty_Emoji t\<rparr>)"

definition ticketPanel :: message where
  "ticketPanel = no_message\<lparr>
     rd_Embeds := [no_embed\<lparr>eb_Title := (''Open a Ticket '' @ [CHR 0xE2, CHR 0x80, CHR 0x94] @ '' Skill Issues''), eb_Color := 0x4A2FBD, eb_Footer := disclaimer,
       eb_Description := (''Members can open a ticket using the menu below.'' @ [CHR 0x0A] @ ''**Only server admins handle tickets.**'' @ [CHR 0x0A] @ ''You can have one active ticket per type, up to three active tickets in total.'' @ [CHR 0x0A, CHR 0x0A] @ ''**Never share** passwords, OTPs, PINs, CVVs, full card numbers, API or private keys, or seed phrases.'')\<rparr>],
     rd_Components := [ActionsRow [SelectMenu ''ticket:open'' ''Choose the type of help you need'' (map type_option Types)]],
     rd_Mentions := Some []\<rparr>"

definition textInput :: "string \<Rightarrow> string \<Rightarrow> string \<Rightarrow> input_style \<Rightarrow> bool \<Rightarrow> nat \<Rightarrow> text_input" where
  "textInput i label placeholder style required mx = \<lparr>ti_CustomID = i, ti_Label = label, ti_Placeholder = placeholder,
     ti_Style = style, ti_Required = required, ti_MaxLength = mx\<rparr>"

text \<open>The fields of the form of a type.\<close>

definition modal_fields :: "string \<Rightarrow> text_input list" where
  "modal_fields key =
     textInput ''region'' ''Country / region code'' ''e.g. ID, MY, SG; XX for other'' TextInputShort True 4 #
     (if key = ''withdraw'' then
        [textInput ''transactionId'' ''Sale reference'' ''e.g. SALE-2026-001; no account details'' TextInputShort True PaymentRefLimit,
         textInput ''amount'' ''Exact withdrawal amount'' ''e.g. 1250.50'' TextInputShort True 40,
         textInput ''currency'' ''ISO currency code'' ''e.g. IDR, USD, SGD'' TextInputShort True 3,
         textInput ''method'' ''Payout method label only'' ''e.g. Bank transfer'' TextInputShort True MethodLimit]
      else if key = ''purchase'' \<or> key = ''sale'' \<or> key = ''introduction'' then
        [textInput ''product'' ''Product or service'' ''Product name and listing reference'' TextInputShort True 300,
         textInput ''amount'' ''Quantity, price and currency'' ''e.g. 1 unit at 1500000 IDR'' TextInputShort True 300,
         textInput ''methods'' ''Payment and delivery methods'' ''e.g. bank transfer; delivery in 2 hours'' TextInputShort True 300,
         textInput ''notes'' ''Terms and additional details'' ''No credentials'' TextInputParagraph False 900]
      else if key = ''dispute'' \<or> key = ''refund'' \<or> key = ''scam'' \<or> key = ''impersonation'' \<or> key = ''delivery'' then
        let needID = (key \<noteq> ''scam'' \<and> key \<noteq> ''impersonation'') in
        [textInput ''transactionId'' ''Transaction or ticket ID'' ''e.g. BUY-ID-alex-00125'' TextInputShort needID 300,
         textInput ''amount'' ''Amount and currency (if applicable)'' ''leave blank if none'' TextInputShort False 300,
         textInput ''chronology'' ''What happened and what help is needed?'' ''Dates YYYY-MM-DD, timezone'' TextInputParagraph True 900,
         textInput ''evidence'' ''Available evidence (redacted only)'' ''Remove credentials'' TextInputParagraph False 500]
      else
        [textInput ''language'' ''Preferred language (optional)'' ''e.g. English'' TextInputShort False 80,
         textInput ''chronology'' ''How can an admin help?'' ''Summarise the issue; no sensitive data'' TextInputParagraph True 900])"

definition ticketModal :: "Type \<Rightarrow> message" where
  "ticketModal t =
     (let title = ty_Label t; title = (if 45 < length title then take 45 title else title)
      in no_message\<lparr>rd_CustomID := ''ticket:modal:'' @ ty_Key t, rd_Title := title,
        rd_Components := map (\<lambda>f. ActionsRow [TextInput f]) (modal_fields (ty_Key t))\<rparr>)"

section \<open>The ticket in its thread\<close>

definition claimed :: "Record \<Rightarrow> bool" where
  "claimed rec \<longleftrightarrow> (case r_AssignedTo rec of None \<Rightarrow> False | Some a \<Rightarrow> a \<noteq> [])"

definition ticketControls :: "Record \<Rightarrow> component list" where
  "ticketControls rec =
     (let known = (StatusFor (r_Type rec) (r_Workflow rec) (r_Status rec) \<noteq> None);
          closed = (r_Status rec = ''closed'');
          canClose = (CanTransition (r_Type rec) (r_Workflow rec) (r_Status rec) ''closed'' \<and> r_Resolution rec \<noteq> None)
      in [ActionsRow [
        btn_disabled (''ticket:claim:'' @ r_ID rec) ''Claim'' PrimaryButton (\<not> known \<or> closed \<or> claimed rec),
        btn_disabled (''ticket:status:'' @ r_ID rec) ''Set status'' SecondaryButton (\<not> known \<or> closed),
        btn_disabled (''ticket:close:'' @ r_ID rec) ''Close'' DangerButton (\<not> canClose)]])"

definition ticketSummary :: "Record \<Rightarrow> embed" where
  "ticketSummary rec =
     (let status = StatusFor (r_Type rec) (r_Workflow rec) (r_Status rec);
          label = (case status of Some s \<Rightarrow> if st_Label s \<noteq> [] then st_Label s else r_Status rec | None \<Rightarrow> r_Status rec);
          assigned = (case r_AssignedTo rec of Some a \<Rightarrow> if a \<noteq> [] then ''<@'' @ a @ ''>'' else ''Awaiting admin'' | None \<Rightarrow> ''Awaiting admin'');
          nextLabels = map st_Label (NextStatuses (r_Type rec) (r_Workflow rec) (r_Status rec));
          remark = (case status of Some s \<Rightarrow> st_Note s | None \<Rightarrow> []);
          desc = ''Only admins handle this ticket.'' @ (if remark \<noteq> [] then CHR 0x0A # remark else [])
      in no_embed\<lparr>eb_Title := r_ID rec, eb_Description := desc, eb_Color := 0x4A2FBD, eb_Footer := disclaimer,
        eb_Fields := [(''Status'', label, True), (''Assigned admin'', assigned, True), (''Region'', r_Region rec, True),
          (''Next'', Join nextLabels ('' '' @ [CHR 0xC2, CHR 0xB7] @ '' ''), False)]\<rparr>)"

section \<open>Verification and role pickers\<close>

definition verifyPanel :: message where
  "verifyPanel = no_message\<lparr>
     rd_Embeds := [no_embed\<lparr>eb_Title := ([CHR 0xE2, CHR 0x9C, CHR 0x85] @ '' Verify to access the marketplace''), eb_Color := 0x2ECC71,
       eb_Description := (''Press **Verify** to acknowledge the rules and unlock marketplace channels.'' @ [CHR 0x0A] @ ''New members start as User. Verify replaces User with Buyer.'' @ [CHR 0x0A] @ ''This is not an identity check or a safety guarantee.''),
       eb_Fields := [(''Admins will never ask you for'', secrets_never_asked, False)], eb_Footer := disclaimer\<rparr>],
     rd_Components := [ActionsRow [btn_emoji Membership.VerifyButtonID ''Verify'' SuccessButton [CHR 0xE2, CHR 0x9C, CHR 0x85]]]\<rparr>"

text \<open>Rows of five buttons.\<close>

function picker_rows :: "component list \<Rightarrow> component list" where
  "picker_rows bs = (if bs = [] then [] else ActionsRow (take 5 bs) # picker_rows (drop 5 bs))"
  by auto
termination by (relation "measure length") auto

declare picker_rows.simps [simp del]

definition pickerRows :: "string \<Rightarrow> PickerChoice list \<Rightarrow> component list" where
  "pickerRows kind choices = picker_rows (map (\<lambda>c.
     btn_emoji (''rolepick:'' @ kind @ '':'' @ pc_Key c) (pc_Label c) SecondaryButton (pc_Emoji c)) choices)"

definition languagePicker :: message where
  "languagePicker = no_message\<lparr>
     rd_Embeds := [no_embed\<lparr>eb_Title := ''Choose a language'', eb_Description := ''Routing only. Not a safety guarantee.'', eb_Color := 0x3498DB\<rparr>],
     rd_Components := pickerRows ''lang'' LanguageChoices\<rparr>"

definition regionPicker :: message where
  "regionPicker = no_message\<lparr>
     rd_Embeds := [no_embed\<lparr>eb_Title := ''Choose a region'', eb_Description := ''Routing only. Not a safety guarantee.'', eb_Color := 0x9B59B6\<rparr>],
     rd_Components := pickerRows ''region'' RegionChoices\<rparr>"

section \<open>Slash commands\<close>

datatype Command = Command (cm_Name: string) (cm_Description: string) (cm_AdminOnly: bool)

definition Commands :: "Command list" where
  "Commands = [
     Command ''panel'' ''Post the ticket panel in this channel (admin only)'' True,
     Command ''rolepanel'' ''Post the language and region pickers here (admin only)'' True,
     Command ''verifypanel'' ''Post the marketplace access panel here (admin only)'' True,
     Command ''testwelcome'' ''Preview your own welcome card and message (admin only)'' True,
     Command ''tickets'' ''View the active ticket queue (admin only)'' True,
     Command ''ticket-status'' ''Show your ticket status, assignment, and next steps'' False,
     Command ''ticket-handoff'' ''Assign this ticket to another human admin (admin only)'' True,
     Command ''ticket-resolution'' ''Save the member-visible resolution note before closing (admin only)'' True,
     Command ''whoami'' ''Show your roles and access'' False,
     Command ''safety'' ''Read transaction safety rules and prohibited credentials'' False,
     Command ''lookup'' (''Look up a member'' @ [CHR 0x27] @ ''s standing and account age (admin only)'') True,
     Command ''withdraw'' ''Request a manual seller withdrawal review; no automatic transfer'' False,
     Command ''mutasi'' ''View only your own admin-confirmed outgoing records'' False,
     Command ''seller-approve'' ''Approve this seller application and grant Seller (admin only)'' True,
     Command ''withdraw-paid'' ''Record an already completed external withdrawal payment (admin only)'' True,
     Command ''automodsync'' ''Create missing launch AutoMod safety rules (admin only, never edits or deletes)'' True,
     Command ''rolesync'' ''Create missing launch roles (admin only, never deletes)'' True,
     Command ''guildsync'' ''Create missing launch categories and channels (admin only, never deletes)'' True,
     Command ''memberpanel'' ''Post the Buyer/Seller split panel with live counts here (admin only)'' True,
     Command ''areapanel'' ''Post the standing panel with action buttons for a marketplace area (admin only)'' True,
     Command ''membersync'' ''Reconcile stored member tiers with Discord roles and prune departed members (admin only)'' True,
     Command ''server'' ''Show member and ticket counts for this server (admin only)'' True,
     Command ''revenue'' ''Show confirmed outgoing ledger totals (admin only)'' True]"

definition SafetyCopy :: string where
  "SafetyCopy = (''Admins never ask for passwords, OTP, PIN, CVV, full card numbers, API keys, private keys, or seed phrases. Skill Issues is an independent intermediary: it does not hold funds, process payments, or guarantee transactions. Every deal goes through a ticket '' @ [CHR 0xE2, CHR 0x80, CHR 0x94] @ '' never DMs.'')"

definition adminOnlyNames :: "string list" where
  "adminOnlyNames = map cm_Name (filter cm_AdminOnly Commands)"

datatype option_type = OptionString | OptionUser | OptionInteger

record command_option =
  co_Type :: option_type
  co_Name :: string
  co_Description :: string
  co_Required :: bool
  co_MaxLength :: nat
  co_Choices :: "(string \<times> string) list"

definition cmd_option :: "option_type \<Rightarrow> string \<Rightarrow> string \<Rightarrow> bool \<Rightarrow> nat \<Rightarrow> command_option" where
  "cmd_option ty name desc req mx = \<lparr>co_Type = ty, co_Name = name, co_Description = desc, co_Required = req,
     co_MaxLength = mx, co_Choices = []\<rparr>"

definition command_options :: "string \<Rightarrow> command_option list" where
  "command_options name =
     (if name = ''tickets'' \<or> name = ''mutasi'' then [cmd_option OptionInteger ''page'' ''page'' False 0]
      else if name = ''ticket-handoff'' then
        [cmd_option OptionUser ''admin'' ''admin'' True 0, cmd_option OptionString ''reason'' ''reason'' True TicketTextLimit]
      else if name = ''ticket-resolution'' then [cmd_option OptionString ''note'' ''note'' True TicketTextLimit]
      else if name = ''lookup'' then [cmd_option OptionUser ''member'' ''member'' True 0]
      else if name = ''seller-approve'' then [cmd_option OptionString ''reason'' ''reason'' True TicketTextLimit]
      else if name = ''withdraw-paid'' then [cmd_option OptionString ''reference'' ''receipt reference'' True PaymentRefLimit]
      else if name = ''areapanel'' then
        [(cmd_option OptionString ''side'' ''Which marketplace area this panel belongs to'' True 0)
          \<lparr>co_Choices := [(''Seller Area'', TierSeller), (''Buyer Area'', TierBuyer)]\<rparr>]
      else [])"

record application_command =
  ap_Name :: string
  ap_Description :: string
  ap_Administrator :: bool
  ap_Options :: "command_option list"

definition slashCommands :: "application_command list" where
  "slashCommands = map (\<lambda>c. \<lparr>ap_Name = cm_Name c, ap_Description = cm_Description c, ap_Administrator = cm_AdminOnly c,
     ap_Options = command_options (cm_Name c)\<rparr>) Commands"

section \<open>Prompts\<close>

definition closeConfirm :: "Record \<Rightarrow> message" where
  "closeConfirm rec =
     (let ready = (r_Resolution rec \<noteq> None \<and> CanTransition (r_Type rec) (r_Workflow rec) (r_Status rec) ''closed'');
          remark = (case r_Resolution rec of None \<Rightarrow> ''A saved resolution note is required. Use /ticket-resolution first.''
            | Some x \<Rightarrow> rs_Text x)
      in no_message\<lparr>
        rd_Content := ''Close ticket **'' @ r_ID rec @ ''**? Confirm archives the thread. Cancel keeps it unchanged.'',
        rd_Embeds := [no_embed\<lparr>eb_Title := ''Resolution (member-visible)'', eb_Description := remark, eb_Color := 0x4A2FBD\<rparr>],
        rd_Components := [ActionsRow [
          btn_disabled (''ticket:confirmclose:'' @ r_ID rec) ''Confirm close'' DangerButton (\<not> ready),
          btn (''ticket:cancelclose:'' @ r_ID rec) ''Cancel'' SecondaryButton]],
        rd_Mentions := Some []\<rparr>)"

definition paidConfirm :: "Record \<Rightarrow> string \<Rightarrow> message" where
  "paidConfirm rec reference =
     (let prepared = (if IsWithdrawal (r_Type rec) (r_Workflow rec) \<and> r_Status rec = ''approved'' then r_Withdrawal rec else None);
          desc = (case prepared of None \<Rightarrow> ''This request is not ready for payment confirmation.''
            | Some wd \<Rightarrow> ''Ticket: '' @ r_ID rec @ [CHR 0x0A] @ ''Amount: **'' @ FormatAmount (wd_AmountMinor wd) (wd_Currency wd) @
                '' '' @ wd_Currency wd @ ''**'' @ [CHR 0x0A] @ ''Sale: '' @ wd_SaleReference wd @ [CHR 0x0A] @ ''Reference: '' @ reference)
      in no_message\<lparr>
        rd_Content := ''Confirm only if the external payment already succeeded. This records an outgoing transaction; it does not transfer money. Expires in 120 seconds.'',
        rd_Embeds := [no_embed\<lparr>eb_Title := ''Confirm external withdrawal payment'', eb_Description := desc, eb_Color := 0xE67E22\<rparr>],
        rd_Components := [ActionsRow [
          btn_disabled (''ticket:confirmpaid:'' @ r_ID rec) ''Confirm payment recorded'' DangerButton (prepared = None),
          btn (''ticket:cancelpaid:'' @ r_ID rec) ''Cancel'' SecondaryButton]],
        rd_Mentions := Some []\<rparr>)"

definition formatQueue :: "Record list \<Rightarrow> string" where
  "formatQueue recs =
     (if recs = [] then ''Queue is empty.''
      else (''Active tickets:'' @ [CHR 0x0A]) @ concat (map (\<lambda>rec. ([CHR 0xE2, CHR 0x80, CHR 0xA2] @ '' `'') @ r_ID rec @ ''` '' @ r_Status rec @ ('' '' @ [CHR 0xC2, CHR 0xB7] @ '' '') @ r_Type rec @ ('' '' @ [CHR 0xC2, CHR 0xB7] @ '' <#'') @ r_ThreadID rec @ (''>'' @ [CHR 0x0A])) recs))"

section \<open>The area panels\<close>

definition memberPanel :: "tier_counts \<Rightarrow> message" where
  "memberPanel counts = no_message\<lparr>
     rd_Embeds := [no_embed\<lparr>eb_Title := ([CHR 0xF0, CHR 0x9F, CHR 0xA7, CHR 0xAD] @ '' Buyer and Seller are separate areas''), eb_Color := 0x3498DB,
       eb_Description := (''Two marketplace roles, each with its own area. They are mutually exclusive: granting one removes the other, so nobody is both.'' @ [CHR 0x0A] @ ''Each area is hidden from the other side '' @ [CHR 0xE2, CHR 0x80, CHR 0x94] @ '' a Buyer cannot read the Seller channels, and a Seller cannot read the Buyer channels.''),
       eb_Fields := [
         (([CHR 0xF0, CHR 0x9F, CHR 0x9B, CHR 0x8D, CHR 0xEF, CHR 0xB8, CHR 0x8F] @ '' Buyers '' @ [CHR 0xE2, CHR 0x80, CHR 0x94] @ '' '') @ itoa (tc_Buyer counts), ''Marketplace access. Cannot see the Seller Area.'', True),
         (([CHR 0xF0, CHR 0x9F, CHR 0x8F, CHR 0xAA] @ '' Sellers '' @ [CHR 0xE2, CHR 0x80, CHR 0x94] @ '' '') @ itoa (tc_Seller counts), ''Sell and can withdraw. Cannot see the Buyer Area.'', True),
         (([CHR 0xE2, CHR 0xAC, CHR 0x9C] @ '' No role yet '' @ [CHR 0xE2, CHR 0x80, CHR 0x94] @ '' '') @ itoa (tc_Neither counts), ''Verified as User, or not verified yet.'', True),
         (''How to become a Buyer'', ''Press **Verify** below. That grants Buyer and removes User.'', True),
         (''How to become a Seller'', ''An admin grants it after a seller application. It replaces Buyer.'', True),
         (''Never share'', secrets_never_asked, True)],
       eb_Footer := disclaimer @ ('' '' @ [CHR 0xC2, CHR 0xB7] @ '' counts update automatically'')\<rparr>],
     rd_Mentions := Some []\<rparr>"

definition areaPanel :: "string \<Rightarrow> message" where
  "areaPanel side =
     (let (title, text, buttons) =
        (if side = TierSeller then
           (([CHR 0xF0, CHR 0x9F, CHR 0x8F, CHR 0xAA] @ '' Seller Area''),
            (''You can see this area because you hold the **Seller** role.'' @ [CHR 0x0A] @ ''The **Buyer Area** is hidden from you, and this area is hidden from Buyers '' @ [CHR 0xE2, CHR 0x80, CHR 0x94] @ '' the two sides are kept apart on purpose.'' @ [CHR 0x0A, CHR 0x0A] @ ''**Withdrawals are manual.** Approval is not payment: an admin verifies the external sale, then records one outgoing entry. There is no automatic transfer.''),
            [btn_emoji ''ticket:request:withdraw'' ''Request a withdrawal'' PrimaryButton [CHR 0xF0, CHR 0x9F, CHR 0x93, CHR 0xA4],
             btn_emoji ''ticket:request:sale'' ''Coordinate a sale'' SecondaryButton [CHR 0xF0, CHR 0x9F, CHR 0x8F, CHR 0xB7, CHR 0xEF, CHR 0xB8, CHR 0x8F]])
         else
           (([CHR 0xF0, CHR 0x9F, CHR 0x9B, CHR 0x8D, CHR 0xEF, CHR 0xB8, CHR 0x8F] @ '' Buyer Area''),
            (''You can see this area because you hold the **Buyer** role.'' @ [CHR 0x0A] @ ''The **Seller Area** is hidden from you, and this area is hidden from Sellers '' @ [CHR 0xE2, CHR 0x80, CHR 0x94] @ '' the two sides are kept apart on purpose.'' @ [CHR 0x0A, CHR 0x0A] @ ''**Seller access is not self-service.** An admin grants it after a seller application, and it replaces your Buyer role.''),
            [btn_emoji ''ticket:request:purchase'' ''Open a purchase ticket'' PrimaryButton [CHR 0xF0, CHR 0x9F, CHR 0x9B, CHR 0x92],
             btn_emoji ''ticket:request:buyer-support'' ''Get help'' SecondaryButton [CHR 0xF0, CHR 0x9F, CHR 0x92, CHR 0xAC]]))
      in no_message\<lparr>
        rd_Embeds := [no_embed\<lparr>eb_Title := title, eb_Color := 0x3498DB, eb_Description := text,
          eb_Fields := [(''Never share'', secrets_never_asked, False)], eb_Footer := disclaimer\<rparr>],
        rd_Components := [ActionsRow buttons], rd_Mentions := Some []\<rparr>)"

section \<open>Replies\<close>

definition alreadyVerifiedReply :: "string \<Rightarrow> string" where
  "alreadyVerifiedReply label =
     (let msg = ''You are already a **'' @ label @ ''**. Nothing changed.'' in
      if label = ''Seller'' then msg @ '' The Seller Area is open to you and the Buyer Area stays hidden. Buyer and Seller are separate on purpose; there is nothing to re-verify.''
      else if label = ''Buyer'' then msg @ ('' The Buyer Area is open to you and the Seller Area stays hidden. That is by design, not a failed verification. Seller access comes from an admin after a seller application '' @ [CHR 0xE2, CHR 0x80, CHR 0x94] @ '' open a ticket in #open-a-ticket if you want to apply.'')
      else msg @ '' Marketplace access is granted by verification or by an admin. Ask an admin to check your roles if you expected an area to be open.'')"

definition reconcileSummary :: "int \<Rightarrow> int \<Rightarrow> string" where
  "reconcileSummary repaired pruned = ''Tier sync complete. Repaired '' @ FormatInt repaired @
     '' stored tier(s), pruned '' @ FormatInt pruned @ '' row(s) for members who left.''"

section \<open>What Discord accepts\<close>

text \<open>
  The documented limits of Discord: at most five rows; a row holds one menu, one text input or up to
  five buttons; menus have at most 25 options; lengths of labels, titles and texts. Bytes are
  counted, of which a text has at least as many as characters.
\<close>

definition text_within :: "nat \<Rightarrow> string \<Rightarrow> bool" where
  "text_within n s \<longleftrightarrow> s \<noteq> [] \<and> length s \<le> n"

definition option_ok :: "menu_option \<Rightarrow> bool" where
  "option_ok p \<longleftrightarrow> text_within 100 (mo_Label p) \<and> text_within 100 (mo_Value p) \<and> length (mo_Description p) \<le> 100"

fun button_ok :: "component \<Rightarrow> bool" where
  "button_ok (Button b) \<longleftrightarrow> text_within 100 (bn_CustomID b) \<and> text_within 80 (bn_Label b)"
| "button_ok _ \<longleftrightarrow> False"

definition input_ok :: "text_input \<Rightarrow> bool" where
  "input_ok t \<longleftrightarrow> text_within 100 (ti_CustomID t) \<and> text_within 45 (ti_Label t) \<and> length (ti_Placeholder t) \<le> 100 \<and>
     1 \<le> ti_MaxLength t \<and> ti_MaxLength t \<le> 4000"

fun row_ok :: "component \<Rightarrow> bool" where
  "row_ok (ActionsRow [SelectMenu i p opts]) \<longleftrightarrow> text_within 100 i \<and> length p \<le> 150 \<and> opts \<noteq> [] \<and> length opts \<le> 25 \<and>
     list_all option_ok opts \<and> distinct (map mo_Value opts)"
| "row_ok (ActionsRow [TextInput t]) \<longleftrightarrow> input_ok t"
| "row_ok (ActionsRow cs) \<longleftrightarrow> cs \<noteq> [] \<and> length cs \<le> 5 \<and> list_all button_ok cs"
| "row_ok _ \<longleftrightarrow> False"

fun custom_ids :: "component \<Rightarrow> string list" where
  "custom_ids (ActionsRow cs) = concat (map custom_ids cs)"
| "custom_ids (Button b) = [bn_CustomID b]"
| "custom_ids (SelectMenu i p opts) = [i]"
| "custom_ids (TextInput t) = [ti_CustomID t]"

definition comps_ok :: "component list \<Rightarrow> bool" where
  "comps_ok cs \<longleftrightarrow> length cs \<le> 5 \<and> list_all row_ok cs \<and> distinct (concat (map custom_ids cs))"

definition embed_ok :: "embed \<Rightarrow> bool" where
  "embed_ok e \<longleftrightarrow> length (eb_Title e) \<le> 256 \<and> length (eb_Description e) \<le> 4096 \<and> length (eb_Footer e) \<le> 2048 \<and>
     length (eb_Fields e) \<le> 25 \<and> list_all (\<lambda>(name, val, inline). text_within 256 name \<and> text_within 1024 val) (eb_Fields e)"

definition message_ok :: "message \<Rightarrow> bool" where
  "message_ok m \<longleftrightarrow> length (rd_Content m) \<le> 2000 \<and> list_all embed_ok (rd_Embeds m) \<and> comps_ok (rd_Components m)"

definition modal_ok :: "message \<Rightarrow> bool" where
  "modal_ok m \<longleftrightarrow> text_within 100 (rd_CustomID m) \<and> text_within 45 (rd_Title m) \<and> rd_Components m \<noteq> [] \<and> comps_ok (rd_Components m)"

definition command_ok :: "application_command \<Rightarrow> bool" where
  "command_ok c \<longleftrightarrow> text_within 32 (ap_Name c) \<and> list_all (\<lambda>x. is_lower x \<or> x = CHR ''-'') (ap_Name c) \<and>
     text_within 100 (ap_Description c) \<and> length (ap_Options c) \<le> 25 \<and> distinct (map co_Name (ap_Options c)) \<and>
     list_all (\<lambda>p. text_within 32 (co_Name p) \<and> text_within 100 (co_Description p) \<and> co_MaxLength p \<le> 6000) (ap_Options c)"

lemmas ui_texts = no_message_def no_embed_def btn_def btn_disabled_def btn_emoji_def disclaimer_def secrets_never_asked_def

lemma panels_ok: "list_all message_ok [ticketPanel, verifyPanel, languagePicker, regionPicker, areaPanel TierSeller, areaPanel TierBuyer]"
  by code_simp

lemma modals_ok: "list_all (\<lambda>t. modal_ok (ticketModal t)) Types"
  by code_simp

lemma commands_ok: "list_all command_ok slashCommands \<and> length slashCommands \<le> 100 \<and> distinct (map ap_Name slashCommands)"
  by code_simp

lemma controls_ok: "length (r_ID rec) \<le> 80 \<Longrightarrow> comps_ok (ticketControls rec)"
  by (simp add: comps_ok_def ticketControls_def Let_def ui_texts text_within_def)

lemma prompts_ok:
  assumes "length (r_ID rec) \<le> 80"
  shows "comps_ok (rd_Components (closeConfirm rec)) \<and> comps_ok (rd_Components (paidConfirm rec reference))"
  using assms by (simp add: comps_ok_def closeConfirm_def paidConfirm_def Let_def ui_texts text_within_def split del: if_split)


definition blank_record :: Record where
  "blank_record = NewRecord ''GEN-ID-budi-00001'' ''support'' ''SUP'' ''ID'' WorkflowSupport ''42'' ''budi'' ''900'' [] None 0"


text \<open>The summary of a ticket without a next status has an empty field, which Discord refuses.\<close>

lemma summary_refused:
  assumes "NextStatuses (r_Type rec) (r_Workflow rec) (r_Status rec) = []"
  shows "\<not> embed_ok (ticketSummary rec)"
  using assms by (simp add: embed_ok_def ticketSummary_def Let_def text_within_def)

end
