(* ===== verification/BotForms.thy ===== *)
theory BotForms
  imports BotUi TicketService
begin

text \<open>
  The forms of the bot (modules/discordbot/ui.go) against the checks of the ticket service
  (modules/ticket/service.go): what a member can submit is what \<open>Create\<close> asks for.
\<close>

section \<open>Normalised forms\<close>

lemma NormalizeText_Nil [simp]: "NormalizeText [] = []"
  by (simp add: NormalizeText_def strip_control_def TrimSpace_def trim_both_def)

lemma normalize_data_Cons: "normalize_data ((k, v) # d) = (if v \<noteq> [] then (k, NormalizeText v) # normalize_data d else normalize_data d)"
  by (simp add: normalize_data_def)

lemma map_of_normalize: "distinct (map fst d) \<Longrightarrow> map_of (normalize_data d) k =
    (case map_of d k of None \<Rightarrow> None | Some v \<Rightarrow> if v = [] then None else Some (NormalizeText v))"
proof (induction d)
  case (Cons p d)
  obtain k' v where p: "p = (k', v)" by (cases p)
  with Cons.prems have "map_of d k' = None" by (simp add: map_of_eq_None_iff)
  with p Cons show ?case by (auto simp: normalize_data_Cons split: option.splits)
qed (simp add: normalize_data_def)

lemma mget_normalize: "distinct (map fst d) \<Longrightarrow> mget (normalize_data d) k = NormalizeText (mget d k)"
  by (simp add: mget_def map_of_normalize split: option.split)

lemma normalize_keys: "\<forall>p \<in> set d. snd p \<noteq> [] \<Longrightarrow> map fst (normalize_data d) = map fst d"
proof (induction d)
  case (Cons p d)
  then show ?case by (cases p) (simp add: normalize_data_Cons)
qed (simp add: normalize_data_def)

lemma fill_required_alias:
  assumes "a \<in> set form_aliases"
  shows "mget data a \<noteq> [] \<Longrightarrow> \<exists>data'. fill_required ks data = Inr data'"
proof (induction ks arbitrary: data)
  case (Cons key ks)
  have "find (\<lambda>alias. mget data alias \<noteq> []) form_aliases \<noteq> None"
    using assms Cons.prems unfolding find_None_iff by blast
  then obtain b where b: "find (\<lambda>alias. mget data alias \<noteq> []) form_aliases = Some b" by blast
  then have b': "mget data b \<noteq> []" by (auto simp: find_Some_iff)
  consider "key = ''region''" | "mget data key \<noteq> []" | "key \<noteq> ''region''" "mget data key = []" by blast
  then show ?case
  proof cases
    case 3
    define data' where "data' = mput data key (mget data b)"
    have "mget data' a \<noteq> []" "mget data' key \<noteq> []" using Cons.prems 3(2) b' by (simp_all add: data'_def)
    moreover have "fill_required (key # ks) data = fill_required ks data'"
      using 3 b b' by (simp add: Let_def data'_def)
    ultimately show ?thesis using Cons.IH [of data'] by simp
  qed (use Cons in simp_all)
qed simp

section \<open>Submissions\<close>

text \<open>A form as the bot reads it from a submission: one entry per text input, the required ones filled in.\<close>

definition submitted :: "Type \<Rightarrow> (string, string) gomap \<Rightarrow> bool" where
  "submitted t d \<longleftrightarrow> map fst d = map ti_CustomID (modal_fields (ty_Key t)) \<and>
     list_all (\<lambda>f. ti_Required f \<longrightarrow> NormalizeText (mget d (ti_CustomID f)) \<noteq> []) (modal_fields (ty_Key t))"

lemma modal_aliases: "list_all (\<lambda>t. distinct (map ti_CustomID (modal_fields (ty_Key t))) \<and>
    (ty_Key t = ''withdraw'' \<or> list_ex (\<lambda>f. ti_Required f \<and> ti_CustomID f \<in> set form_aliases) (modal_fields (ty_Key t)))) Types"
  by code_simp

lemma withdraw_modal: "map ti_CustomID (modal_fields ''withdraw'') = form_keys \<and> list_all ti_Required (modal_fields ''withdraw'')"
  by code_simp

lemma region_no_alias: "''region'' \<notin> set form_aliases"
  by (simp add: form_aliases_def)

lemma types_have_workflow: "list_all (\<lambda>t. ty_Workflow t \<noteq> []) Types"
  by code_simp

text \<open>The form of a withdrawal, once normalised, has exactly the keys that its check wants.\<close>

lemma withdraw_form:
  assumes "map fst d = form_keys" and "\<And>k. k \<in> set form_keys \<Longrightarrow> mget d k \<noteq> []"
  shows "map fst (mput (normalize_data d) ''region'' r) = form_keys"
proof -
  have dist: "distinct (map fst d)" using assms(1) by (simp add: form_keys_def)
  have "snd p \<noteq> []" if "p \<in> set d" for p
  proof -
    have "fst p \<in> set form_keys" using that assms(1) by (metis image_eqI set_map)
    moreover have "map_of d (fst p) = Some (snd p)" using that dist by simp
    then have "mget d (fst p) = snd p" by (simp add: mget_def)
    ultimately show ?thesis using assms(2) by metis
  qed
  then have "map fst (normalize_data d) = form_keys" using normalize_keys assms(1) by simp
  moreover have "''region'' \<in> set form_keys" by (simp add: form_keys_def)
  ultimately show ?thesis using mput_keys by (metis set_map)
qed

lemma withdrawal_errors:
  assumes "map fst data = form_keys" and "ValidateWithdrawalInput data = Some (Inl e)"
  shows "e = ErrInvalidRegion \<or> e = ErrWithdrawalInvalid \<or> e = ErrSensitive"
proof -
  have len: "length data = length form_keys" using assms(1) by (metis length_map)
  have mem: "list_all (\<lambda>k. map_of data k \<noteq> None) form_keys"
    unfolding list_all_iff map_of_eq_None_iff using assms(1) by (metis set_map)
  have amount: "x = ErrWithdrawalInvalid" if "ParseAmount v c = Some (Inl x)" for v c x
    using that by (auto simp: ParseAmount_def Let_def split: option.splits if_splits)
  have ref: "x = ErrWithdrawalInvalid \<or> x = ErrSensitive" if "ValidatePaymentReference v = Inl x" for v x
    using that by (auto simp: ValidatePaymentReference_def Let_def split: if_splits)
  show ?thesis
    using assms(2) len mem amount ref
    by (auto simp: ValidateWithdrawalInput_def Let_def rbind_Inl_iff split: if_splits option.splits)
qed

lemma submitted_required:
  "submitted t d \<Longrightarrow> f \<in> set (modal_fields (ty_Key t)) \<Longrightarrow> ti_Required f \<Longrightarrow> NormalizeText (mget d (ti_CustomID f)) \<noteq> []"
  by (simp add: submitted_def list_all_iff)

text \<open>The form of a withdrawal fills every field, so only its values can be refused.\<close>

lemma withdraw_covers:
  assumes "TypeByKey (ci_Type input) = Some t" and "ty_Key t = ''withdraw''" and "submitted t (ci_Data input)"
    and "WorkflowForType (ty_Key t) \<noteq> []"
  shows "case check_form actor input of Some (Inl e) \<Rightarrow>
      e = ErrNotEligible \<or> e = ErrInvalidRegion \<or> e = ErrSensitive \<or> e = ErrWithdrawalInvalid | _ \<Rightarrow> True"
proof -
  let ?d = "ci_Data input"
  define r where "r = NormalizeText (mget (normalize_data ?d) ''region'')"
  define data where "data = mput (normalize_data ?d) ''region'' r"
  have "mget ?d k \<noteq> []" if "k \<in> set form_keys" for k
  proof -
    have "k \<in> ti_CustomID ` set (modal_fields ''withdraw'')" using that withdraw_modal by (metis set_map)
    then obtain f where "f \<in> set (modal_fields ''withdraw'')" "k = ti_CustomID f" "ti_Required f"
      using withdraw_modal unfolding list_all_iff by blast
    with submitted_required [OF assms(3)] assms(2) NormalizeText_Nil show ?thesis by metis
  qed
  moreover have "map fst ?d = form_keys" using assms(2,3) withdraw_modal by (simp add: submitted_def)
  ultimately have "map fst data = form_keys" unfolding data_def by (intro withdraw_form)
  note errs = withdrawal_errors [OF this]
  have "check_form actor input =
      (if \<not> EligibleTicketApplicant (ty_Key t) (ac_Roles actor) then Some (Inl ErrNotEligible)
       else if \<not> ValidRegion r then Some (Inl ErrInvalidRegion)
       else if 0 < length (SensitiveFindings data) then Some (Inl ErrSensitive)
       else map_option (\<lambda>v. rbind v (\<lambda>(clean, built). Inr (t, WorkflowForType (ty_Key t), clean, Some built))) (ValidateWithdrawalInput data))"
    using assms(1,2,4) by (simp add: check_form_def Let_def r_def data_def)
  moreover have "case map_option (\<lambda>v. rbind v (\<lambda>(clean, built). Inr (t, WorkflowForType (ty_Key t), clean, Some built))) (ValidateWithdrawalInput data) of
      Some (Inl e) \<Rightarrow> e = ErrInvalidRegion \<or> e = ErrWithdrawalInvalid \<or> e = ErrSensitive | _ \<Rightarrow> True"
    using errs by (cases "ValidateWithdrawalInput data"; cases "the (ValidateWithdrawalInput data)") auto
  ultimately show ?thesis by (auto split: option.splits sum.splits)
qed


definition sample_form :: CreateInput where
  "sample_form = \<lparr>ci_Type = ''affiliate'', ci_Data = [(''region'', ''ID''), (''language'', []), (''chronology'', ''please help'')], ci_ThreadID = ''900''\<rparr>"

definition sample_buyer :: Actor where
  "sample_buyer = \<lparr>ac_ID = ''9'', ac_Username = ''budi'', ac_Tag = ''budi'', ac_Roles = Some [''Buyer''], ac_IsAdmin = False,
     ac_IsBot = False, ac_OwnerID = ''1'', ac_AvailableAdmins = []\<rparr>"


end
