(* ===== verification/GuildSync.thy ===== *)
theory GuildSync
  imports BotMembers
begin

text \<open>
  The additive setup of the guild: launch roles (modules/discordbot/rolesync.go), launch
  channels (guildsync.go) and AutoMod rules (automod.go). The calls to Discord are the record
  \<open>builder\<close>; \<open>builder_laws\<close> states what they do to the roles, channels and rules of the guild.
  Permission bits, channel kinds and trigger types are named as in the Discord library.
\<close>

section \<open>Specifications of the launch server\<close>

datatype perm =
    PermissionManageServer | PermissionManageRoles | PermissionManageChannels | PermissionViewAuditLogs
  | PermissionManageMessages | PermissionModerateMembers | PermissionKickMembers | PermissionBanMembers
  | PermissionManageNicknames | PermissionManageThreads | PermissionAdministrator

datatype roleSpec = roleSpec (rl_Name: string) (rl_Color: nat) (rl_Hoist: bool) (rl_Mention: bool) (rl_Perms: "perm list")

definition launchRoles :: "roleSpec list" where
  "launchRoles = [
     roleSpec ''Platform Administrator'' 13849600 True False [PermissionManageServer, PermissionManageRoles, PermissionManageChannels, PermissionViewAuditLogs, PermissionManageMessages, PermissionModerateMembers, PermissionKickMembers, PermissionBanMembers, PermissionManageNicknames, PermissionManageThreads],
     roleSpec ''Developer'' 7506394 True True [],
     roleSpec ''Operations Lead'' 15105570 True True [PermissionManageChannels, PermissionManageMessages, PermissionModerateMembers, PermissionManageThreads, PermissionViewAuditLogs],
     roleSpec ''Intermediary Lead'' 15844367 True True [PermissionManageMessages, PermissionModerateMembers, PermissionManageThreads],
     roleSpec ''Intermediary'' 15965202 True True [],
     roleSpec ''Dispute & Compliance'' 10181046 True True [],
     roleSpec ''Security & Fraud'' 2899536 True True [PermissionManageMessages, PermissionModerateMembers, PermissionKickMembers, PermissionBanMembers],
     roleSpec ''Finance & Risk'' 1482885 False True [],
     roleSpec ''Support & Verification'' 3447003 False True [],
     roleSpec ''Regional & Translation'' 1752220 False True [],
     roleSpec ''Moderator'' 6139362 True True [PermissionManageMessages, PermissionModerateMembers, PermissionKickMembers, PermissionManageNicknames],
     roleSpec RoleSeller 2600544 True False [],
     roleSpec RoleBuyer 2719929 False False [],
     roleSpec RoleUser 9807270 False False [],
     roleSpec ''Under Review'' 4868682 False False [],
     roleSpec ''Suspended'' 4868682 False False [],
     roleSpec ''Blacklisted'' 4868682 False False [],
     roleSpec ''English'' 43176 False False [],
     roleSpec ''Bahasa Indonesia'' 43176 False False []]"

datatype channelSpec = channelSpec (cs_Key: string) (cs_Topic: string) (cs_Voice: bool)
datatype categorySpec = categorySpec (cat_Key: string) (cat_Display: string) (cat_Channels: "channelSpec list")

definition launchLayout :: "categorySpec list" where
  "launchLayout = [
     categorySpec ''start-here'' ([CHR 0xF0, CHR 0x9F, CHR 0x9A, CHR 0x80] @ '' ~ Start Here'') [
       channelSpec ''welcome'' ''What Skill Issues is, and how to begin. Read #rules next.'' False,
       channelSpec ''goodbye'' ''Member departure notices. Minimal public information.'' False,
       channelSpec ''rules'' ''Server and marketplace rules.'' False,
       channelSpec ''how-it-works'' ''Buyer flow, seller flow, tickets.'' False,
       channelSpec ''verification'' (''User '' @ [CHR 0xE2, CHR 0x86, CHR 0x92] @ '' Buyer through Verify. Seller needs admin review.'') False,
       channelSpec ''faq'' ''Common questions.'' False,
       channelSpec ''service-status'' ''Bot, ticket, and service status.'' False,
       channelSpec ''security-notices'' ''Scam patterns and safety alerts.'' False,
       channelSpec ''roles-and-languages'' ''Pick language and region for routing.'' False],
     categorySpec ''transaction-support'' ([CHR 0xF0, CHR 0x9F, CHR 0x8E, CHR 0xAB] @ '' ~ Transaction Support'') [
       channelSpec ''open-a-ticket'' ''Private admin-handled tickets.'' False,
       channelSpec ''discount-campaign'' ''Campaign information. No automatic discounts.'' False,
       channelSpec ''affiliate'' ''Affiliate information. No automatic commissions.'' False,
       channelSpec ''transaction-guidelines'' ''Transaction procedure and checklists.'' False,
       channelSpec ''payment-guidelines'' ''Payment practice and scam warnings.'' False,
       channelSpec ''delivery-confirmation'' ''How delivery is confirmed.'' False,
       channelSpec ''refund-and-cancellation'' ''Refund and cancellation policy.'' False,
       channelSpec ''disputes'' ''Dispute procedure and evidence.'' False,
       channelSpec ''ticket-archive'' ''Closed-ticket guidance.'' False],
     categorySpec ''seller-area'' ([CHR 0xF0, CHR 0x9F, CHR 0x8F, CHR 0xAA] @ '' ~ Seller Area'') [
       channelSpec ''seller-general'' ''Seller conversation.'' False,
       channelSpec ''seller-application'' ''Apply via Seller Verification ticket.'' False,
       channelSpec ''seller-guidelines'' ''Seller rules and listing standards.'' False,
       channelSpec ''seller-resources'' ''Templates and anti-scam guide.'' False,
       channelSpec ''seller-support'' ''Seller help.'' False,
       channelSpec ''seller-updates'' ''Seller policy notices.'' False,
       channelSpec ''seller-withdraw'' ''Withdrawal requests: admin review, then /withdraw-paid.'' False],
     categorySpec ''buyer-area'' ([CHR 0xF0, CHR 0x9F, CHR 0x9B, CHR 0x8D, CHR 0xEF, CHR 0xB8, CHR 0x8F] @ '' ~ Buyer Area'') [
       channelSpec ''buyer-general'' ''Buyer conversation.'' False,
       channelSpec ''buyer-help'' ''Buyer help.'' False,
       channelSpec ''buyer-guidelines'' ''Buyer rules.'' False,
       channelSpec ''buyer-updates'' ''Buyer notices.'' False],
     categorySpec ''languages'' ([CHR 0xF0, CHR 0x9F, CHR 0x8C, CHR 0x90] @ '' ~ Language Areas'') [
       channelSpec ''english'' ''Primary cross-border channel. English.'' False,
       channelSpec ''bahasa-indonesia'' ''Diskusi Bahasa Indonesia.'' False],
     categorySpec ''internal'' ([CHR 0xF0, CHR 0x9F, CHR 0x9B, CHR 0xA1, CHR 0xEF, CHR 0xB8, CHR 0x8F] @ '' ~ Internal Operations'') [
       channelSpec ''staff-log'' ''Staff action log.'' False,
       channelSpec ''audit-log'' ''Audit trail.'' False]]"

definition channel_emoji :: "(string, string) gomap" where
  "channel_emoji = [
     (''welcome'', [CHR 0xF0, CHR 0x9F, CHR 0x91, CHR 0x8B]),
     (''goodbye'', [CHR 0xF0, CHR 0x9F, CHR 0x91, CHR 0x8B]),
     (''rules'', [CHR 0xF0, CHR 0x9F, CHR 0x93, CHR 0x9C]),
     (''how-it-works'', [CHR 0xF0, CHR 0x9F, CHR 0xA7, CHR 0xAD]),
     (''verification'', [CHR 0xE2, CHR 0x9C, CHR 0x85]),
     (''faq'', [CHR 0xE2, CHR 0x9D, CHR 0x93]),
     (''service-status'', [CHR 0xF0, CHR 0x9F, CHR 0x9F, CHR 0xA2]),
     (''security-notices'', [CHR 0xF0, CHR 0x9F, CHR 0x9A, CHR 0xA8]),
     (''roles-and-languages'', [CHR 0xF0, CHR 0x9F, CHR 0x8C, CHR 0x90]),
     (''open-a-ticket'', [CHR 0xF0, CHR 0x9F, CHR 0x8E, CHR 0xAB]),
     (''discount-campaign'', [CHR 0xF0, CHR 0x9F, CHR 0x8E, CHR 0xAF]),
     (''affiliate'', [CHR 0xF0, CHR 0x9F, CHR 0xA4, CHR 0x9D]),
     (''transaction-guidelines'', [CHR 0xF0, CHR 0x9F, CHR 0x93, CHR 0x8B]),
     (''payment-guidelines'', [CHR 0xF0, CHR 0x9F, CHR 0x92, CHR 0xB3]),
     (''delivery-confirmation'', [CHR 0xF0, CHR 0x9F, CHR 0x93, CHR 0xAC]),
     (''refund-and-cancellation'', [CHR 0xE2, CHR 0x86, CHR 0xA9, CHR 0xEF, CHR 0xB8, CHR 0x8F]),
     (''disputes'', [CHR 0xE2, CHR 0x9A, CHR 0x96, CHR 0xEF, CHR 0xB8, CHR 0x8F]),
     (''ticket-archive'', [CHR 0xF0, CHR 0x9F, CHR 0x97, CHR 0x84, CHR 0xEF, CHR 0xB8, CHR 0x8F]),
     (''seller-general'', [CHR 0xF0, CHR 0x9F, CHR 0x92, CHR 0xAC]),
     (''seller-application'', [CHR 0xF0, CHR 0x9F, CHR 0x93, CHR 0x9D]),
     (''seller-guidelines'', [CHR 0xF0, CHR 0x9F, CHR 0x93, CHR 0x98]),
     (''seller-resources'', [CHR 0xF0, CHR 0x9F, CHR 0xA7, CHR 0xB0]),
     (''seller-support'', [CHR 0xF0, CHR 0x9F, CHR 0x86, CHR 0x98]),
     (''seller-updates'', [CHR 0xF0, CHR 0x9F, CHR 0x93, CHR 0xA3]),
     (''seller-withdraw'', [CHR 0xF0, CHR 0x9F, CHR 0x92, CHR 0xB8]),
     (''buyer-general'', [CHR 0xF0, CHR 0x9F, CHR 0x92, CHR 0xAC]),
     (''buyer-help'', [CHR 0xF0, CHR 0x9F, CHR 0x92, CHR 0xA1]),
     (''buyer-guidelines'', [CHR 0xF0, CHR 0x9F, CHR 0x93, CHR 0x97]),
     (''buyer-updates'', [CHR 0xF0, CHR 0x9F, CHR 0x93, CHR 0xA3]),
     (''english'', [CHR 0xF0, CHR 0x9F, CHR 0x87, CHR 0xAC, CHR 0xF0, CHR 0x9F, CHR 0x87, CHR 0xA7]),
     (''bahasa-indonesia'', [CHR 0xF0, CHR 0x9F, CHR 0x87, CHR 0xAE, CHR 0xF0, CHR 0x9F, CHR 0x87, CHR 0xA9]),
     (''staff-log'', [CHR 0xF0, CHR 0x9F, CHR 0x93, CHR 0x8B]),
     (''audit-log'', [CHR 0xF0, CHR 0x9F, CHR 0x93, CHR 0x91])]"

definition displayChannel :: "string \<Rightarrow> string" where
  "displayChannel key =
     (let mark = mget channel_emoji key; mark = (if mark = [] then [CHR 0xF0, CHR 0x9F, CHR 0x92, CHR 0xAC] else mark)
      in mark @ [CHR 0xEF, CHR 0xBD, CHR 0x9C] @ key)"

definition channelMatches :: "string \<Rightarrow> string \<Rightarrow> bool" where
  "channelMatches name key \<longleftrightarrow> name = key \<or> name = displayChannel key"

datatype trigger = TriggerKeyword | TriggerMemberProfile | TriggerMentionSpam

record trigger_metadata =
  tm_Keywords :: "string list"
  tm_Regex :: "string list"
  tm_Mentions :: nat

datatype autoModSpec = autoModSpec (am_Name: string) (am_Trigger: trigger) (am_Metadata: trigger_metadata) (am_Blocked: string)

definition autoModRules :: "autoModSpec list" where
  "autoModRules = [
     autoModSpec (''Safety '' @ [CHR 0xC2, CHR 0xB7] @ '' Credential Leak'') TriggerKeyword
       \<lparr>tm_Keywords = [ ''seed phrase'', ''recovery phrase'', ''mnemonic phrase'', ''secret recovery phrase'', ''private key'', ''keystore json'', ''wallet.dat'' ],
        tm_Regex = [ ''0x[a-fA-F0-9]{64}'', ([CHR 0x5C] @ ''b(?:4[0-9]{12}(?:[0-9]{3})?|5[1-5][0-9]{14}|3[47][0-9]{13})'' @ [CHR 0x5C] @ ''b'') ], tm_Mentions = 0\<rparr>
       ''Never post credentials here. Staff never ask for them. Use a ticket.'',
     autoModSpec (''Safety '' @ [CHR 0xC2, CHR 0xB7] @ '' Impersonation Profile'') TriggerMemberProfile
       \<lparr>tm_Keywords = [ ''skill issues staff'', ''skill issues admin'', ''skill issues support'', ''skill issues official'', ''skillissue staff'', ''skillissue admin'' ],
        tm_Regex = [], tm_Mentions = 0\<rparr>
       ''Your profile name may not claim to be Skill Issues staff.'',
     autoModSpec (''Safety '' @ [CHR 0xC2, CHR 0xB7] @ '' Invite Link'') TriggerKeyword
       \<lparr>tm_Keywords = [],
        tm_Regex = [ (''discord(?:'' @ [CHR 0x5C] @ ''.gg|(?:app)?'' @ [CHR 0x5C] @ ''.com/invite)/'') ], tm_Mentions = 0\<rparr>
       ''External Discord invites are not allowed here.'',
     autoModSpec (''Safety '' @ [CHR 0xC2, CHR 0xB7] @ '' Mention Raid'') TriggerMentionSpam
       \<lparr>tm_Keywords = [],
        tm_Regex = [], tm_Mentions = 8\<rparr>
       ''Too many mentions in one message.'']"

definition autoModStaffRoles :: "string list" where
  "autoModStaffRoles = [''Platform Administrator'', ''Security & Fraud'', ''Operations Lead'', ''Moderator'']"

section \<open>The calls to Discord\<close>

datatype channel_kind = KindCategory | KindText | KindVoice | KindOther

record Channel =
  ch_ID :: string
  ch_Name :: string
  ch_Kind :: channel_kind
  ch_Topic :: string
  ch_Parent :: string

datatype action = BlockMessage string | SendAlert string

record rule =
  ru_Name :: string
  ru_Trigger :: trigger
  ru_Metadata :: trigger_metadata
  ru_Actions :: "action list"
  ru_ExemptRoles :: "string list"

text \<open>An error, with the HTTP status and the code of the message when it is a REST error with a response.\<close>

record rest_error =
  re_Text :: string
  re_Status :: "int option"
  re_Code :: "int option"

record 'w builder =
  bu_Roles :: "('w, rest_error, Role list) sop"
  bu_RoleCreate :: "roleSpec \<Rightarrow> ('w, rest_error, Role) sop"
  bu_Channels :: "('w, rest_error, Channel list) sop"
  bu_ChannelCreate :: "string \<Rightarrow> channel_kind \<Rightarrow> string \<Rightarrow> string \<Rightarrow> ('w, rest_error, Channel) sop"
  bu_Rules :: "('w, rest_error, rule list) sop"
  bu_RuleCreate :: "rule \<Rightarrow> ('w, rest_error, rule) sop"
  bu_Guild :: "('w, rest_error, unit) sop"

section \<open>Roles\<close>

fun role_loop :: "'w builder \<Rightarrow> roleSpec list \<Rightarrow> string list \<Rightarrow> int \<Rightarrow> 'w \<Rightarrow> (int \<times> rest_error option) \<times> 'w" where
  "role_loop bd [] have created w = ((created, None), w)"
| "role_loop bd (spec # specs) have created w =
     (if rl_Name spec \<in> set have \<or> rl_Name spec = ''Server Owner'' then role_loop bd specs have created w
      else case bu_RoleCreate bd spec w of
        (Inl e, w') \<Rightarrow> ((created, Some e), w')
      | (Inr _, w') \<Rightarrow> role_loop bd specs (rl_Name spec # have) (created + 1) w')"

definition syncLaunchRoles :: "'w builder \<Rightarrow> 'w \<Rightarrow> (int \<times> rest_error option) \<times> 'w" where
  "syncLaunchRoles bd w =
     (case bu_Roles bd w of
        (Inl e, w') \<Rightarrow> ((0, Some e), w')
      | (Inr existing, w') \<Rightarrow> role_loop bd launchRoles (map ro_Name existing) 0 w')"

section \<open>Channels\<close>

text \<open>The keys of the channels the bot looks for, and the ids it finds.\<close>

definition channel_keys :: "string list" where
  "channel_keys = [''welcome'', ''rules'', ''how-it-works'', ''verification'', ''open-a-ticket'', ''roles-and-languages'',
     ''staff-log'', ''audit-log'', ''goodbye'']"

definition find_channels :: "Channel list \<Rightarrow> (string, string) gomap" where
  "find_channels chs = foldl (\<lambda>nxt ch. foldl (\<lambda>nxt key.
     if ch_Name ch = key \<or> Contains (ch_Name ch) key then mput nxt key (ch_ID ch) else nxt) nxt channel_keys) [] chs"

definition refreshChannels :: "'w builder \<Rightarrow> (string, string) gomap \<Rightarrow> 'w \<Rightarrow> (string, string) gomap \<times> 'w" where
  "refreshChannels bd ids w =
     (case bu_Guild bd w of
        (Inl _, w1) \<Rightarrow> (ids, w1)
      | (Inr _, w1) \<Rightarrow>
          (case bu_Channels bd w1 of
             (Inl _, w2) \<Rightarrow> (ids, w2)
           | (Inr channels, w2) \<Rightarrow> (find_channels channels, w2)))"

definition channel :: "(string, string) gomap \<Rightarrow> string \<Rightarrow> string" where
  "channel ids key = mget ids key"

text \<open>The scan of the existing channels.\<close>

definition scan_categories :: "Channel list \<Rightarrow> (string, string) gomap" where
  "scan_categories existing = foldl (\<lambda>t ch.
     if ch_Kind ch = KindCategory then
       foldl (\<lambda>t spec. if ch_Name ch = cat_Display spec \<or> ch_Name ch = cat_Key spec then mput t (cat_Key spec) (ch_ID ch) else t)
         t launchLayout
     else t) [] existing"

definition layout_keys :: "string list" where
  "layout_keys = map cs_Key (concat (map cat_Channels launchLayout))"

definition scan_channels :: "Channel list \<Rightarrow> string list" where
  "scan_channels existing = concat (map (\<lambda>ch.
     if ch_Kind ch = KindCategory then [] else filter (\<lambda>key. channelMatches (ch_Name ch) key) layout_keys) existing)"

fun channel_loop :: "'w builder \<Rightarrow> string \<Rightarrow> channelSpec list \<Rightarrow> string list \<Rightarrow> int \<Rightarrow> 'w \<Rightarrow>
    (string list \<times> int \<times> rest_error option) \<times> 'w" where
  "channel_loop bd parent [] have nchan w = ((have, nchan, None), w)"
| "channel_loop bd parent (c # cs) have nchan w =
     (if cs_Key c \<in> set have then channel_loop bd parent cs have nchan w
      else let kind = (if cs_Voice c then KindVoice else KindText) in
        case bu_ChannelCreate bd (displayChannel (cs_Key c)) kind (cs_Topic c) parent w of
          (Inl e, w') \<Rightarrow> ((have, nchan, Some e), w')
        | (Inr _, w') \<Rightarrow> channel_loop bd parent cs (cs_Key c # have) (nchan + 1) w')"

fun category_loop :: "'w builder \<Rightarrow> categorySpec list \<Rightarrow> (string, string) gomap \<Rightarrow> string list \<Rightarrow> int \<Rightarrow> int \<Rightarrow> 'w \<Rightarrow>
    (int \<times> int \<times> rest_error option) \<times> 'w" where
  "category_loop bd [] catID have ncat nchan w = ((ncat, nchan, None), w)"
| "category_loop bd (spec # specs) catID have ncat nchan w =
     (let parent = mget catID (cat_Key spec) in
      if parent = [] then
        (case bu_ChannelCreate bd (cat_Display spec) KindCategory [] [] w of
           (Inl e, w1) \<Rightarrow> ((ncat, nchan, Some e), w1)
         | (Inr created, w1) \<Rightarrow>
             (case channel_loop bd (ch_ID created) (cat_Channels spec) have nchan w1 of
                ((have', nchan', Some e), w2) \<Rightarrow> ((ncat + 1, nchan', Some e), w2)
              | ((have', nchan', None), w2) \<Rightarrow>
                  category_loop bd specs (mput catID (cat_Key spec) (ch_ID created)) have' (ncat + 1) nchan' w2))
      else (case channel_loop bd parent (cat_Channels spec) have nchan w of
                ((have', nchan', Some e), w2) \<Rightarrow> ((ncat, nchan', Some e), w2)
              | ((have', nchan', None), w2) \<Rightarrow> category_loop bd specs catID have' ncat nchan' w2))"

definition syncLaunchGuild :: "'w builder \<Rightarrow> (string, string) gomap \<Rightarrow> 'w \<Rightarrow>
    (int \<times> int \<times> rest_error option) \<times> (string, string) gomap \<times> 'w" where
  "syncLaunchGuild bd ids w =
     (case bu_Channels bd w of
        (Inl e, w1) \<Rightarrow> ((0, 0, Some e), ids, w1)
      | (Inr existing, w1) \<Rightarrow>
          (case category_loop bd launchLayout (scan_categories existing) (scan_channels existing) 0 0 w1 of
             ((ncat, nchan, Some e), w2) \<Rightarrow> ((ncat, nchan, Some e), ids, w2)
           | ((ncat, nchan, None), w2) \<Rightarrow>
               (case refreshChannels bd ids w2 of (ids', w3) \<Rightarrow> ((ncat, nchan, None), ids', w3))))"

section \<open>AutoMod\<close>

definition autoModActions :: "(string, string) gomap \<Rightarrow> string \<Rightarrow> action list" where
  "autoModActions ids blockedMessage =
     (let alert = channel ids ''audit-log'';
          alert = (if alert = [] then channel ids ''staff-log'' else alert)
      in BlockMessage blockedMessage # (if alert \<noteq> [] then [SendAlert alert] else []))"

definition staffRoleIDs :: "'w builder \<Rightarrow> 'w \<Rightarrow> string list \<times> 'w" where
  "staffRoleIDs bd w =
     (case bu_Roles bd w of
        (Inl _, w') \<Rightarrow> ([], w')
      | (Inr roles, w') \<Rightarrow> (map ro_ID (filter (\<lambda>r. ro_Name r \<in> set autoModStaffRoles) roles), w'))"

definition isMissingAccess :: "rest_error \<Rightarrow> bool" where
  "isMissingAccess e = (case re_Status e of None \<Rightarrow> False
     | Some status \<Rightarrow> if status \<noteq> 403 then False else re_Code e = None \<or> re_Code e = Some 50001)"

fun rule_loop :: "'w builder \<Rightarrow> (string, string) gomap \<Rightarrow> string list \<Rightarrow> autoModSpec list \<Rightarrow> string list \<Rightarrow>
    int \<Rightarrow> int \<Rightarrow> string list \<Rightarrow> 'w \<Rightarrow> (int \<times> int \<times> string list \<times> rest_error option) \<times> 'w" where
  "rule_loop bd ids exempt [] have created skipped unsupported w = ((created, skipped, unsupported, None), w)"
| "rule_loop bd ids exempt (spec # specs) have created skipped unsupported w =
     (if am_Name spec \<in> set have then rule_loop bd ids exempt specs have created (skipped + 1) unsupported w
      else case bu_RuleCreate bd \<lparr>ru_Name = am_Name spec, ru_Trigger = am_Trigger spec, ru_Metadata = am_Metadata spec,
          ru_Actions = autoModActions ids (am_Blocked spec), ru_ExemptRoles = exempt\<rparr> w of
        (Inl e, w') \<Rightarrow>
          (if isMissingAccess e then rule_loop bd ids exempt specs have created skipped (unsupported @ [am_Name spec]) w'
           else ((created, skipped, unsupported, Some e), w'))
      | (Inr _, w') \<Rightarrow> rule_loop bd ids exempt specs (am_Name spec # have) (created + 1) skipped unsupported w')"

definition syncAutoMod :: "'w builder \<Rightarrow> (string, string) gomap \<Rightarrow> 'w \<Rightarrow> (int \<times> int \<times> string list \<times> rest_error option) \<times> 'w" where
  "syncAutoMod bd ids w =
     (case bu_Rules bd w of
        (Inl e, w1) \<Rightarrow> ((0, 0, [], Some e), w1)
      | (Inr existing, w1) \<Rightarrow>
          (case staffRoleIDs bd w1 of
             (exemptRoles, w2) \<Rightarrow> rule_loop bd ids exemptRoles autoModRules (map ru_Name existing) 0 0 [] w2))"

section \<open>What the calls do\<close>

locale builder_laws =
  fixes bd :: "'w builder" and groles :: "'w \<Rightarrow> Role list" and gchans :: "'w \<Rightarrow> Channel list" and grules :: "'w \<Rightarrow> rule list"
  assumes Roles: "\<And>w r w'. bu_Roles bd w = (r, w') \<Longrightarrow> groles w' = groles w \<and> gchans w' = gchans w \<and> grules w' = grules w \<and>
      (case r of Inl _ \<Rightarrow> True | Inr rs \<Rightarrow> rs = groles w)"
    and RoleCreate: "\<And>p w r w'. bu_RoleCreate bd p w = (r, w') \<Longrightarrow> gchans w' = gchans w \<and> grules w' = grules w \<and>
      (case r of Inl _ \<Rightarrow> groles w' = groles w | Inr x \<Rightarrow> ro_Name x = rl_Name p \<and> groles w' = groles w @ [x])"
    and Channels: "\<And>w r w'. bu_Channels bd w = (r, w') \<Longrightarrow> groles w' = groles w \<and> gchans w' = gchans w \<and> grules w' = grules w \<and>
      (case r of Inl _ \<Rightarrow> True | Inr cs \<Rightarrow> cs = gchans w)"
    and ChannelCreate: "\<And>name kind topic parent w r w'. bu_ChannelCreate bd name kind topic parent w = (r, w') \<Longrightarrow>
      groles w' = groles w \<and> grules w' = grules w \<and>
      (case r of Inl _ \<Rightarrow> gchans w' = gchans w
       | Inr c \<Rightarrow> ch_Name c = name \<and> ch_Kind c = kind \<and> ch_Topic c = topic \<and> ch_Parent c = parent \<and> ch_ID c \<noteq> [] \<and>
           gchans w' = gchans w @ [c])"
    and Rules: "\<And>w r w'. bu_Rules bd w = (r, w') \<Longrightarrow> groles w' = groles w \<and> gchans w' = gchans w \<and> grules w' = grules w \<and>
      (case r of Inl _ \<Rightarrow> True | Inr rs \<Rightarrow> rs = grules w)"
    and RuleCreate: "\<And>p w r w'. bu_RuleCreate bd p w = (r, w') \<Longrightarrow> groles w' = groles w \<and> gchans w' = gchans w \<and>
      (case r of Inl _ \<Rightarrow> grules w' = grules w | Inr x \<Rightarrow> ru_Name x = ru_Name p \<and> grules w' = grules w @ [x])"
    and Guild: "\<And>w r w'. bu_Guild bd w = (r, w') \<Longrightarrow> groles w' = groles w \<and> gchans w' = gchans w \<and> grules w' = grules w"

definition present :: "Channel list \<Rightarrow> string \<Rightarrow> bool" where
  "present cs key \<longleftrightarrow> (\<exists>ch \<in> set cs. ch_Kind ch \<noteq> KindCategory \<and> channelMatches (ch_Name ch) key)"

definition has_category :: "Channel list \<Rightarrow> categorySpec \<Rightarrow> bool" where
  "has_category cs spec \<longleftrightarrow> (\<exists>ch \<in> set cs. ch_Kind ch = KindCategory \<and> (ch_Name ch = cat_Display spec \<or> ch_Name ch = cat_Key spec))"

lemma present_append: "present cs key \<Longrightarrow> present (cs @ ds) key"
  by (auto simp: present_def)

lemma has_category_append: "has_category cs spec \<Longrightarrow> has_category (cs @ ds) spec"
  by (auto simp: has_category_def)

lemma scan_channels_iff: "key \<in> set (scan_channels cs) \<longleftrightarrow> key \<in> set layout_keys \<and> present cs key"
  by (induction cs) (auto simp: scan_channels_def present_def)

context builder_laws
begin

lemma role_loop_spec:
  assumes "set have1 = set (map ro_Name (groles w))" and "role_loop bd specs have1 n w = ((n', e), w')"
  shows "\<exists>fresh. groles w' = groles w @ fresh \<and> n' = n + int (length fresh) \<and> gchans w' = gchans w \<and> grules w' = grules w \<and>
    (if e = None then list_all (\<lambda>s. rl_Name s = ''Server Owner'' \<or> rl_Name s \<in> set (map ro_Name (groles w'))) specs else True)"
  using assms
proof (induction specs arbitrary: have1 n w)
  case (Cons s specs)
  show ?case
  proof (cases "rl_Name s \<in> set have1 \<or> rl_Name s = ''Server Owner''")
    case True
    with Cons.prems have "role_loop bd specs have1 n w = ((n', e), w')" by auto
    from Cons.IH [OF Cons.prems(1) this] True Cons.prems(1) show ?thesis by (auto simp: image_Un)
  next
    case False
    obtain r w1 where c: "bu_RoleCreate bd s w = (r, w1)" by (cases "bu_RoleCreate bd s w")
    note law = RoleCreate [OF c]
    show ?thesis
    proof (cases r)
      case (Inl x)
      with False c Cons.prems(2) law show ?thesis by auto
    next
      case (Inr x)
      with False c Cons.prems(2) have l: "role_loop bd specs (rl_Name s # have1) (n + 1) w1 = ((n', e), w')" by simp
      have "set (rl_Name s # have1) = set (map ro_Name (groles w1))" using Cons.prems(1) law Inr by auto
      from Cons.IH [OF this l] law Inr show ?thesis by (auto simp: image_Un split: if_splits)
    qed
  qed
qed auto

lemma channel_loop_spec:
  assumes "list_all (present (gchans w)) have1" and "channel_loop bd parent cs have1 n w = ((have2, n', e), w')"
  shows "\<exists>fresh. gchans w' = gchans w @ fresh \<and> list_all (\<lambda>c. ch_Kind c \<noteq> KindCategory \<and> ch_Parent c = parent \<and> ch_ID c \<noteq> []) fresh \<and>
    n' = n + int (length fresh) \<and> groles w' = groles w \<and> grules w' = grules w \<and> list_all (present (gchans w')) have2 \<and>
    (if e = None then list_all (\<lambda>c. cs_Key c \<in> set have2) cs \<and> set have1 \<subseteq> set have2 else True)"
  using assms
proof (induction cs arbitrary: have1 n w)
  case (Cons c cs)
  show ?case
  proof (cases "cs_Key c \<in> set have1")
    case True
    with Cons.prems have "channel_loop bd parent cs have1 n w = ((have2, n', e), w')" by simp
    from Cons.IH [OF Cons.prems(1) this] True show ?thesis by (auto split: if_splits)
  next
    case False
    define kind where "kind = (if cs_Voice c then KindVoice else KindText)"
    obtain r w1 where cr: "bu_ChannelCreate bd (displayChannel (cs_Key c)) kind (cs_Topic c) parent w = (r, w1)"
      by (cases "bu_ChannelCreate bd (displayChannel (cs_Key c)) kind (cs_Topic c) parent w")
    note law = ChannelCreate [OF cr]
    show ?thesis
    proof (cases r)
      case (Inl x)
      with False cr Cons.prems law show ?thesis by (auto simp: Let_def kind_def [symmetric])
    next
      case (Inr x)
      with False cr Cons.prems(2) have l: "channel_loop bd parent cs (cs_Key c # have1) (n + 1) w1 = ((have2, n', e), w')"
        by (simp add: Let_def kind_def [symmetric])
      have new: "ch_Kind x \<noteq> KindCategory" "ch_Parent x = parent" "ch_ID x \<noteq> []" "gchans w1 = gchans w @ [x]" "ch_Name x = displayChannel (cs_Key c)"
        using law Inr by (auto simp: kind_def)
      have "list_all (present (gchans w1)) (cs_Key c # have1)"
        using Cons.prems(1) new present_append by (auto simp: list_all_iff present_def channelMatches_def)
      from Cons.IH [OF this l] law Inr new show ?thesis by (auto split: if_splits)
    qed
  qed
qed auto

lemma category_loop_spec:
  assumes "list_all (present (gchans w)) have1" and "list_all (\<lambda>s. mget catID (cat_Key s) = [] \<or> has_category (gchans w) s) launchLayout"
    and "set specs \<subseteq> set launchLayout" and "distinct (map cat_Key specs)"
    and "\<And>s t. s \<in> set launchLayout \<Longrightarrow> t \<in> set launchLayout \<Longrightarrow> cat_Key s = cat_Key t \<Longrightarrow> s = t"
    and "category_loop bd specs catID have1 k n w = ((k', n', e), w')"
  shows "\<exists>fresh. gchans w' = gchans w @ fresh \<and> k' = k + int (length (filter (\<lambda>c. ch_Kind c = KindCategory) fresh)) \<and>
    n' = n + int (length (filter (\<lambda>c. ch_Kind c \<noteq> KindCategory) fresh)) \<and> groles w' = groles w \<and> grules w' = grules w \<and>
    list_all (\<lambda>c. ch_ID c \<noteq> []) fresh \<and>
    (if e = None then list_all (\<lambda>s. has_category (gchans w') s \<and> list_all (\<lambda>c. present (gchans w') (cs_Key c)) (cat_Channels s)) specs
     else True)"
  using assms(1-4,6)
proof (induction specs arbitrary: catID have1 k n w)
  case (Cons s specs)
  have counts: "length (filter (\<lambda>c. ch_Kind c = KindCategory) fs) = 0" "length (filter (\<lambda>c. ch_Kind c \<noteq> KindCategory) fs) = length fs"
    "list_all (\<lambda>c. ch_ID c \<noteq> []) fs"
    if "list_all (\<lambda>c. ch_Kind c \<noteq> KindCategory \<and> ch_Parent c = p \<and> ch_ID c \<noteq> []) fs" for fs p
    using that by (induction fs) auto
  define parent where "parent = mget catID (cat_Key s)"
  show ?case
  proof (cases "parent = []")
    case True
    obtain r w1 where c: "bu_ChannelCreate bd (cat_Display s) KindCategory [] [] w = (r, w1)"
      by (cases "bu_ChannelCreate bd (cat_Display s) KindCategory [] [] w")
    note law = ChannelCreate [OF c]
    show ?thesis
    proof (cases r)
      case (Inl x)
      with True c Cons.prems(5) law show ?thesis by (auto simp: parent_def Let_def)
    next
      case (Inr x)
      have x: "ch_ID x \<noteq> []" "ch_Name x = cat_Display s" "ch_Kind x = KindCategory" "gchans w1 = gchans w @ [x]" "groles w1 = groles w" "grules w1 = grules w"
        using law Inr by auto
      obtain h2 n2 e2 w2 where l: "channel_loop bd (ch_ID x) (cat_Channels s) have1 n w1 = ((h2, n2, e2), w2)"
        by (cases "channel_loop bd (ch_ID x) (cat_Channels s) have1 n w1") auto
      have "list_all (present (gchans w1)) have1" using Cons.prems(1) x(4) present_append by (auto simp: list_all_iff)
      from channel_loop_spec [OF this l] obtain fs where fs: "gchans w2 = gchans w1 @ fs"
        "list_all (\<lambda>c. ch_Kind c \<noteq> KindCategory \<and> ch_Parent c = ch_ID x \<and> ch_ID c \<noteq> []) fs" "n2 = n + int (length fs)" "groles w2 = groles w1" "grules w2 = grules w1"
        "list_all (present (gchans w2)) h2" "if e2 = None then list_all (\<lambda>c. cs_Key c \<in> set h2) (cat_Channels s) \<and> set have1 \<subseteq> set h2 else True"
        by blast
      have hc: "has_category (gchans w2) s" using x fs(1) by (auto simp: has_category_def)
      show ?thesis
      proof (cases e2)
        case (Some y)
        with True c Inr l Cons.prems(5) have "k' = k + 1" "n' = n2" "e = Some y" "w' = w2" by (auto simp: parent_def Let_def)
        then show ?thesis using fs x counts [OF fs(2)] by (intro exI [of _ "x # fs"]) simp
      next
        case None
        with True c Inr l Cons.prems(5) have rest: "category_loop bd specs (mput catID (cat_Key s) (ch_ID x)) h2 (k + 1) n2 w2 = ((k', n', e), w')"
          by (auto simp: parent_def Let_def)
        have "list_all (\<lambda>t. mget (mput catID (cat_Key s) (ch_ID x)) (cat_Key t) = [] \<or> has_category (gchans w2) t) launchLayout"
          unfolding list_all_iff
        proof (intro ballI)
          fix t assume t: "t \<in> set launchLayout"
          show "mget (mput catID (cat_Key s) (ch_ID x)) (cat_Key t) = [] \<or> has_category (gchans w2) t"
          proof (cases "cat_Key t = cat_Key s")
            case True
            then have "t = s" using assms(5) [OF t] Cons.prems(3) by simp
            with hc show ?thesis by simp
          next
            case False
            then show ?thesis using Cons.prems(2) t x(4) fs(1) has_category_append by (auto simp: list_all_iff)
          qed
        qed
        from Cons.IH [OF fs(6) this _ _ rest] Cons.prems(3,4) obtain gs where gs: "gchans w' = gchans w2 @ gs"
          "k' = k + 1 + int (length (filter (\<lambda>c. ch_Kind c = KindCategory) gs))" "n' = n2 + int (length (filter (\<lambda>c. ch_Kind c \<noteq> KindCategory) gs))"
          "groles w' = groles w2" "grules w' = grules w2" "list_all (\<lambda>c. ch_ID c \<noteq> []) gs"
          "if e = None then list_all (\<lambda>s. has_category (gchans w') s \<and> list_all (\<lambda>c. present (gchans w') (cs_Key c)) (cat_Channels s)) specs else True"
          by auto
        have "list_all (\<lambda>c. present (gchans w') (cs_Key c)) (cat_Channels s)"
          using fs(6,7) None gs(1) present_append by (auto simp: list_all_iff)
        moreover have "has_category (gchans w') s" using has_category_append [OF hc, of gs] gs(1) by simp
        ultimately show ?thesis using fs x gs counts [OF fs(2)]
          by (intro exI [of _ "x # fs @ gs"]) auto
      qed
    qed
  next
    case False
    obtain h2 n2 e2 w2 where l: "channel_loop bd parent (cat_Channels s) have1 n w = ((h2, n2, e2), w2)"
      by (cases "channel_loop bd parent (cat_Channels s) have1 n w") auto
    from channel_loop_spec [OF Cons.prems(1) l] obtain fs where fs: "gchans w2 = gchans w @ fs"
      "list_all (\<lambda>c. ch_Kind c \<noteq> KindCategory \<and> ch_Parent c = parent \<and> ch_ID c \<noteq> []) fs" "n2 = n + int (length fs)" "groles w2 = groles w" "grules w2 = grules w"
      "list_all (present (gchans w2)) h2" "if e2 = None then list_all (\<lambda>c. cs_Key c \<in> set h2) (cat_Channels s) \<and> set have1 \<subseteq> set h2 else True"
      by blast
    have hc: "has_category (gchans w2) s"
      using Cons.prems(2,3) False has_category_append fs(1) by (auto simp: list_all_iff parent_def)
    show ?thesis
    proof (cases e2)
      case (Some y)
      with False l Cons.prems(5) have "k' = k" "n' = n2" "e = Some y" "w' = w2" by (auto simp: parent_def [symmetric] Let_def)
      then show ?thesis using fs counts [OF fs(2)] by (intro exI [of _ fs]) simp
    next
      case None
      with False l Cons.prems(5) have rest: "category_loop bd specs catID h2 k n2 w2 = ((k', n', e), w')"
        by (auto simp: parent_def [symmetric] Let_def)
      have "list_all (\<lambda>t. mget catID (cat_Key t) = [] \<or> has_category (gchans w2) t) launchLayout"
        using Cons.prems(2) fs(1) has_category_append by (auto simp: list_all_iff)
      from Cons.IH [OF fs(6) this _ _ rest] Cons.prems(3,4) obtain gs where gs: "gchans w' = gchans w2 @ gs"
        "k' = k + int (length (filter (\<lambda>c. ch_Kind c = KindCategory) gs))" "n' = n2 + int (length (filter (\<lambda>c. ch_Kind c \<noteq> KindCategory) gs))"
        "groles w' = groles w2" "grules w' = grules w2" "list_all (\<lambda>c. ch_ID c \<noteq> []) gs"
        "if e = None then list_all (\<lambda>s. has_category (gchans w') s \<and> list_all (\<lambda>c. present (gchans w') (cs_Key c)) (cat_Channels s)) specs else True"
        by auto
      have "list_all (\<lambda>c. present (gchans w') (cs_Key c)) (cat_Channels s)"
        using fs(6,7) None gs(1) present_append by (auto simp: list_all_iff)
      moreover have "has_category (gchans w') s" using has_category_append [OF hc, of gs] gs(1) by simp
      ultimately show ?thesis using fs gs counts [OF fs(2)]
        by (intro exI [of _ "fs @ gs"]) auto
    qed
  qed
qed auto

lemma rule_loop_spec:
  assumes "set have1 = set (map ru_Name (grules w))" and "rule_loop bd ids exempt specs have1 n k u w = ((n', k', u', e), w')"
  shows "\<exists>fresh. grules w' = grules w @ fresh \<and> n' = n + int (length fresh) \<and> groles w' = groles w \<and> gchans w' = gchans w \<and>
    set u \<subseteq> set u' \<and>
    (if e = None then list_all (\<lambda>s. am_Name s \<in> set u' \<or> am_Name s \<in> set (map ru_Name (grules w'))) specs \<and>
       n' + k' + int (length u') = n + k + int (length u) + int (length specs)
     else True)"
  using assms
proof (induction specs arbitrary: have1 n k u w)
  case (Cons s specs)
  show ?case
  proof (cases "am_Name s \<in> set have1")
    case True
    with Cons.prems have l: "rule_loop bd ids exempt specs have1 n (k + 1) u w = ((n', k', u', e), w')" by simp
    have "am_Name s \<in> set (map ru_Name (grules w))" using True Cons.prems(1) by simp
    with Cons.IH [OF Cons.prems(1) l] show ?thesis by (auto simp: image_Un)
  next
    case False
    define p where "p = \<lparr>ru_Name = am_Name s, ru_Trigger = am_Trigger s, ru_Metadata = am_Metadata s,
          ru_Actions = autoModActions ids (am_Blocked s), ru_ExemptRoles = exempt\<rparr>"
    obtain r w1 where c: "bu_RuleCreate bd p w = (r, w1)" by (cases "bu_RuleCreate bd p w")
    note law = RuleCreate [OF c]
    show ?thesis
    proof (cases r)
      case (Inl x)
      show ?thesis
      proof (cases "isMissingAccess x")
        case True
        with False c Inl Cons.prems(2) have l: "rule_loop bd ids exempt specs have1 n k (u @ [am_Name s]) w1 = ((n', k', u', e), w')"
          by (simp add: p_def)
        have "set have1 = set (map ru_Name (grules w1))" using Cons.prems(1) law Inl by simp
        from Cons.IH [OF this l] law Inl show ?thesis by (auto split: if_splits)
      next
        case False2: False
        with False c Inl Cons.prems(2) law show ?thesis by (auto simp: p_def)
      qed
    next
      case (Inr x)
      with False c Cons.prems(2) have l: "rule_loop bd ids exempt specs (am_Name s # have1) (n + 1) k u w1 = ((n', k', u', e), w')"
        by (simp add: p_def)
      have "set (am_Name s # have1) = set (map ru_Name (grules w1))" using Cons.prems(1) law Inr by (auto simp: p_def)
      from Cons.IH [OF this l] law Inr show ?thesis by (auto simp: image_Un p_def split: if_splits)
    qed
  qed
qed auto

end

section \<open>The scan of the channels\<close>

lemma layout_distinct: "distinct (map cat_Key launchLayout)"
  by code_simp

lemma layout_inj: "s \<in> set launchLayout \<Longrightarrow> t \<in> set launchLayout \<Longrightarrow> cat_Key s = cat_Key t \<Longrightarrow> s = t"
  using layout_distinct by (auto simp: distinct_map dest: inj_onD)

lemma scan_one: "mget (foldl (\<lambda>t spec. if P spec then mput t (cat_Key spec) i else t) t specs) k =
    (if \<exists>spec \<in> set specs. P spec \<and> cat_Key spec = k then i else mget t k)"
  by (induction specs arbitrary: t) auto

lemma scan_all:
  assumes "list_all (\<lambda>c. ch_ID c \<noteq> []) cs"
  shows "mget (foldl (\<lambda>t ch. if ch_Kind ch = KindCategory then
       foldl (\<lambda>t spec. if ch_Name ch = cat_Display spec \<or> ch_Name ch = cat_Key spec then mput t (cat_Key spec) (ch_ID ch) else t) t launchLayout
     else t) t cs) k \<noteq> [] \<longleftrightarrow>
    mget t k \<noteq> [] \<or> (\<exists>spec \<in> set launchLayout. cat_Key spec = k \<and> has_category cs spec)"
  using assms
proof (induction cs arbitrary: t)
  case (Cons c cs)
  have step: "has_category (c # cs) spec \<longleftrightarrow>
      ch_Kind c = KindCategory \<and> (ch_Name c = cat_Display spec \<or> ch_Name c = cat_Key spec) \<or> has_category cs spec" for spec
    by (auto simp: has_category_def)
  have i: "ch_ID c \<noteq> []" using Cons.prems by simp
  show ?case
  proof (cases "ch_Kind c = KindCategory")
    case True
    show ?thesis using Cons.IH [of "foldl (\<lambda>t spec. if ch_Name c = cat_Display spec \<or> ch_Name c = cat_Key spec
        then mput t (cat_Key spec) (ch_ID c) else t) t launchLayout"] Cons.prems True i
      unfolding step scan_one by auto
  next
    case False
    then show ?thesis using Cons.IH [of t] Cons.prems unfolding step by simp
  qed
qed (simp add: has_category_def)

lemma scan_categories_iff:
  assumes "list_all (\<lambda>c. ch_ID c \<noteq> []) cs" and "spec \<in> set launchLayout"
  shows "mget (scan_categories cs) (cat_Key spec) \<noteq> [] \<longleftrightarrow> has_category cs spec"
  using scan_all [OF assms(1), of "[]" "cat_Key spec"] assms(2) layout_inj
  unfolding scan_categories_def by (auto simp: mget_def)

section \<open>A second run\<close>

lemma role_loop_idle: "list_all (\<lambda>s. rl_Name s = ''Server Owner'' \<or> rl_Name s \<in> set have1) specs \<Longrightarrow>
    role_loop bd specs have1 n w = ((n, None), w)"
  by (induction specs) auto

lemma channel_loop_idle: "list_all (\<lambda>c. cs_Key c \<in> set have1) cs \<Longrightarrow> channel_loop bd parent cs have1 n w = ((have1, n, None), w)"
  by (induction cs) auto

lemma category_loop_idle:
  assumes "list_all (\<lambda>s. mget catID (cat_Key s) \<noteq> [] \<and> list_all (\<lambda>c. cs_Key c \<in> set have1) (cat_Channels s)) specs"
  shows "category_loop bd specs catID have1 k n w = ((k, n, None), w)"
  using assms by (induction specs) (simp_all add: channel_loop_idle Let_def)

lemma rule_loop_idle: "list_all (\<lambda>s. am_Name s \<in> set have1) specs \<Longrightarrow>
    rule_loop bd ids exempt specs have1 n k u w = ((n, k + int (length specs), u, None), w)"
  by (induction specs arbitrary: k) auto

text \<open>Everything the launch layout names is there.\<close>

definition launched :: "Channel list \<Rightarrow> bool" where
  "launched cs \<longleftrightarrow> list_all (\<lambda>s. has_category cs s \<and> list_all (\<lambda>c. present cs (cs_Key c)) (cat_Channels s)) launchLayout"

lemma launched_idle:
  assumes "launched cs" and "list_all (\<lambda>c. ch_ID c \<noteq> []) cs"
  shows "category_loop bd launchLayout (scan_categories cs) (scan_channels cs) 0 0 w = ((0, 0, None), w)"
proof (rule category_loop_idle)
  show "list_all (\<lambda>s. mget (scan_categories cs) (cat_Key s) \<noteq> [] \<and>
      list_all (\<lambda>c. cs_Key c \<in> set (scan_channels cs)) (cat_Channels s)) launchLayout"
    using assms scan_categories_iff [OF assms(2)]
    by (auto simp: launched_def list_all_iff scan_channels_iff layout_keys_def)
qed

context builder_laws
begin

lemma refresh_keeps:
  assumes "refreshChannels bd ids w = (ids', w')"
  shows "groles w' = groles w \<and> gchans w' = gchans w \<and> grules w' = grules w"
proof -
  obtain r w1 where g: "bu_Guild bd w = (r, w1)" by (cases "bu_Guild bd w")
  obtain q w2 where c: "bu_Channels bd w1 = (q, w2)" by (cases "bu_Channels bd w1")
  have "w' = w1 \<or> w' = w2" using assms g c by (auto simp: refreshChannels_def split: sum.splits)
  with Guild [OF g] Channels [OF c] show ?thesis by auto
qed

lemma guild_spec:
  assumes "list_all (\<lambda>c. ch_ID c \<noteq> []) (gchans w)" and "syncLaunchGuild bd ids w = ((k, n, e), ids', w')"
  shows "\<exists>fresh. gchans w' = gchans w @ fresh \<and> list_all (\<lambda>c. ch_ID c \<noteq> []) fresh \<and>
    k = int (length (filter (\<lambda>c. ch_Kind c = KindCategory) fresh)) \<and> n = int (length (filter (\<lambda>c. ch_Kind c \<noteq> KindCategory) fresh)) \<and>
    groles w' = groles w \<and> grules w' = grules w \<and> (if e = None then launched (gchans w') else True)"
proof -
  obtain r w1 where c: "bu_Channels bd w = (r, w1)" by (cases "bu_Channels bd w")
  note law = Channels [OF c]
  show ?thesis
  proof (cases r)
    case (Inl x)
    with assms(2) c law show ?thesis by (auto simp: syncLaunchGuild_def)
  next
    case (Inr cs)
    then have cs: "cs = gchans w" "gchans w1 = gchans w" "groles w1 = groles w" "grules w1 = grules w" using law by simp_all
    obtain k2 n2 e2 w2 where l: "category_loop bd launchLayout (scan_categories cs) (scan_channels cs) 0 0 w1 = ((k2, n2, e2), w2)"
      by (cases "category_loop bd launchLayout (scan_categories cs) (scan_channels cs) 0 0 w1") auto
    have p: "list_all (present (gchans w1)) (scan_channels cs)" using scan_channels_iff [of _ cs] cs by (auto simp: list_all_iff)
    have q: "list_all (\<lambda>s. mget (scan_categories cs) (cat_Key s) = [] \<or> has_category (gchans w1) s) launchLayout"
      using scan_categories_iff [OF assms(1)] cs by (auto simp: list_all_iff)
    obtain fresh where f: "gchans w2 = gchans w1 @ fresh" "k2 = 0 + int (length (filter (\<lambda>c. ch_Kind c = KindCategory) fresh))"
      "n2 = 0 + int (length (filter (\<lambda>c. ch_Kind c \<noteq> KindCategory) fresh))" "groles w2 = groles w1" "grules w2 = grules w1"
      "list_all (\<lambda>c. ch_ID c \<noteq> []) fresh" "if e2 = None then launched (gchans w2) else True"
      using category_loop_spec [OF p q subset_refl layout_distinct layout_inj l] unfolding launched_def by blast
    obtain ids2 w3 where rf: "refreshChannels bd ids w2 = (ids2, w3)" by (cases "refreshChannels bd ids w2")
    have "syncLaunchGuild bd ids w = (case e2 of None \<Rightarrow> ((k2, n2, None), ids2, w3) | Some x \<Rightarrow> ((k2, n2, Some x), ids, w2))"
      unfolding syncLaunchGuild_def c Inr prod.case sum.case l by (cases e2) (simp_all only: option.case prod.case rf)
    then have done1: "k = k2" "n = n2" "e = e2" "w' = (if e2 = None then w3 else w2)"
      using assms(2) by (cases e2; auto)+
    have keep: "gchans w' = gchans w2" "groles w' = groles w2" "grules w' = grules w2"
      using done1(4) refresh_keeps [OF rf] by (simp_all split: if_splits)
    show ?thesis unfolding keep done1(1-3) using f cs(2-4) by (intro exI [of _ fresh]) simp
  qed
qed

lemma guild_again:
  assumes "launched (gchans w)" and "list_all (\<lambda>c. ch_ID c \<noteq> []) (gchans w)" and "syncLaunchGuild bd ids w = ((k, n, e), ids', w')"
  shows "k = 0 \<and> n = 0 \<and> gchans w' = gchans w"
proof -
  obtain r w1 where c: "bu_Channels bd w = (r, w1)" by (cases "bu_Channels bd w")
  note law = Channels [OF c]
  show ?thesis
  proof (cases r)
    case (Inl x)
    with assms(3) c law show ?thesis by (auto simp: syncLaunchGuild_def)
  next
    case (Inr cs)
    then have "cs = gchans w" "gchans w1 = gchans w" using law by simp_all
    moreover obtain ids2 w3 where rf: "refreshChannels bd ids w1 = (ids2, w3)" by (cases "refreshChannels bd ids w1")
    ultimately show ?thesis using assms(3) c Inr launched_idle [OF assms(1,2), of bd w1] refresh_keeps [OF rf]
      by (auto simp: syncLaunchGuild_def)
  qed
qed

lemma roles_spec:
  assumes "syncLaunchRoles bd w = ((n, e), w')"
  shows "\<exists>fresh. groles w' = groles w @ fresh \<and> n = int (length fresh) \<and> gchans w' = gchans w \<and> grules w' = grules w \<and>
    (if e = None then list_all (\<lambda>s. rl_Name s = ''Server Owner'' \<or> rl_Name s \<in> set (map ro_Name (groles w'))) launchRoles else True)"
proof -
  obtain r w1 where c: "bu_Roles bd w = (r, w1)" by (cases "bu_Roles bd w")
  note law = Roles [OF c]
  show ?thesis
  proof (cases r)
    case (Inl x)
    with assms c law show ?thesis by (auto simp: syncLaunchRoles_def)
  next
    case (Inr rs)
    then have l: "role_loop bd launchRoles (map ro_Name rs) 0 w1 = ((n, e), w')" using assms c by (simp add: syncLaunchRoles_def)
    have "set (map ro_Name rs) = set (map ro_Name (groles w1))" using law Inr by simp
    from role_loop_spec [OF this l] law Inr show ?thesis by simp
  qed
qed

lemma roles_again:
  assumes "list_all (\<lambda>s. rl_Name s = ''Server Owner'' \<or> rl_Name s \<in> set (map ro_Name (groles w))) launchRoles"
    and "syncLaunchRoles bd w = ((n, e), w')"
  shows "n = 0 \<and> groles w' = groles w"
proof -
  obtain r w1 where c: "bu_Roles bd w = (r, w1)" by (cases "bu_Roles bd w")
  note law = Roles [OF c]
  show ?thesis
  proof (cases r)
    case (Inl x)
    with assms(2) c law show ?thesis by (auto simp: syncLaunchRoles_def)
  next
    case (Inr rs)
    with assms c law role_loop_idle [OF assms(1), of bd 0 w1] show ?thesis by (auto simp: syncLaunchRoles_def)
  qed
qed

lemma rules_spec:
  assumes "syncAutoMod bd ids w = ((n, k, u, e), w')"
  shows "\<exists>fresh. grules w' = grules w @ fresh \<and> n = int (length fresh) \<and> groles w' = groles w \<and> gchans w' = gchans w \<and>
    (if e = None then list_all (\<lambda>s. am_Name s \<in> set u \<or> am_Name s \<in> set (map ru_Name (grules w'))) autoModRules \<and>
       n + k + int (length u) = int (length autoModRules)
     else True)"
proof -
  obtain r w1 where c: "bu_Rules bd w = (r, w1)" by (cases "bu_Rules bd w")
  note law = Rules [OF c]
  show ?thesis
  proof (cases r)
    case (Inl x)
    with assms c law show ?thesis by (auto simp: syncAutoMod_def)
  next
    case (Inr rs)
    obtain q w2 where q: "bu_Roles bd w1 = (q, w2)" by (cases "bu_Roles bd w1")
    obtain ex where ex: "staffRoleIDs bd w1 = (ex, w2)" using q by (cases q) (auto simp: staffRoleIDs_def)
    have l: "rule_loop bd ids ex autoModRules (map ru_Name rs) 0 0 [] w2 = ((n, k, u, e), w')"
      using assms c Inr ex by (simp add: syncAutoMod_def)
    have "set (map ru_Name rs) = set (map ru_Name (grules w2))" using law Inr Roles [OF q] by simp
    from rule_loop_spec [OF this l] law Inr Roles [OF q] show ?thesis by (auto split: if_splits)
  qed
qed

lemma rules_again:
  assumes "list_all (\<lambda>s. am_Name s \<in> set (map ru_Name (grules w))) autoModRules" and "syncAutoMod bd ids w = ((n, k, u, e), w')"
  shows "n = 0 \<and> u = [] \<and> grules w' = grules w"
proof -
  obtain r w1 where c: "bu_Rules bd w = (r, w1)" by (cases "bu_Rules bd w")
  note law = Rules [OF c]
  show ?thesis
  proof (cases r)
    case (Inl x)
    with assms(2) c law show ?thesis by (auto simp: syncAutoMod_def)
  next
    case (Inr rs)
    obtain q w2 where q: "bu_Roles bd w1 = (q, w2)" by (cases "bu_Roles bd w1")
    obtain ex where ex: "staffRoleIDs bd w1 = (ex, w2)" using q by (cases q) (auto simp: staffRoleIDs_def)
    show ?thesis
      using assms c Inr ex law Roles [OF q] rule_loop_idle [OF assms(1), of bd ids ex 0 0 "[]" w2] by (auto simp: syncAutoMod_def)
  qed
qed

end

section \<open>A server in which the laws hold\<close>

record server =
  sv_Roles :: "Role list"
  sv_Channels :: "Channel list"
  sv_Rules :: "rule list"
  sv_Next :: nat
  sv_Faults :: "rest_error option list"

text \<open>The next entry of the plan decides whether a call fails.\<close>

definition rest :: "(server, rest_error, 'a) sop \<Rightarrow> (server, rest_error, 'a) sop" where
  "rest f w = (case sv_Faults w of
     Some e # fs \<Rightarrow> (Inl e, w\<lparr>sv_Faults := fs\<rparr>)
   | None # fs \<Rightarrow> f (w\<lparr>sv_Faults := fs\<rparr>)
   | [] \<Rightarrow> f w)"

definition server_builder :: "server builder" where
  "server_builder = \<lparr>
     bu_Roles = rest (\<lambda>w. (Inr (sv_Roles w), w)),
     bu_RoleCreate = (\<lambda>p. rest (\<lambda>w.
       let x = \<lparr>ro_ID = CHR ''1'' # dec (sv_Next w), ro_Name = rl_Name p, ro_Administrator = PermissionAdministrator \<in> set (rl_Perms p)\<rparr>
       in (Inr x, w\<lparr>sv_Roles := sv_Roles w @ [x], sv_Next := sv_Next w + 1\<rparr>))),
     bu_Channels = rest (\<lambda>w. (Inr (sv_Channels w), w)),
     bu_ChannelCreate = (\<lambda>name kind topic parent. rest (\<lambda>w.
       let x = \<lparr>ch_ID = CHR ''1'' # dec (sv_Next w), ch_Name = name, ch_Kind = kind, ch_Topic = topic, ch_Parent = parent\<rparr>
       in (Inr x, w\<lparr>sv_Channels := sv_Channels w @ [x], sv_Next := sv_Next w + 1\<rparr>))),
     bu_Rules = rest (\<lambda>w. (Inr (sv_Rules w), w)),
     bu_RuleCreate = (\<lambda>p. rest (\<lambda>w. (Inr p, w\<lparr>sv_Rules := sv_Rules w @ [p]\<rparr>))),
     bu_Guild = rest (\<lambda>w. (Inr (), w))\<rparr>"

lemma rest_cases:
  assumes "rest f w = (r, w')"
  obtains (fault) e fs where "r = Inl e" "w' = w\<lparr>sv_Faults := fs\<rparr>"
    | (run) fs where "f (w\<lparr>sv_Faults := fs\<rparr>) = (r, w')"
proof (cases "sv_Faults w")
  case Nil
  then have "f w = (r, w')" using assms by (simp add: rest_def)
  moreover have "w\<lparr>sv_Faults := sv_Faults w\<rparr> = w" by simp
  ultimately show thesis using run [of "sv_Faults w"] by (simp only:)
next
  case (Cons b fs)
  with assms show thesis by (cases b) (auto simp: rest_def intro: fault run)
qed

interpretation launch: builder_laws server_builder sv_Roles sv_Channels sv_Rules
  by unfold_locales (auto simp: server_builder_def Let_def elim!: rest_cases)

text \<open>
  C17: The three setup commands only add. Whatever calls to Discord fail, each of them leaves
  every role, channel and rule of the guild as it was, in its place, and reports exactly the
  number of roles, of categories and other channels, and of rules that it created.
\<close>

theorem setup_additive:
  assumes "list_all (\<lambda>c. ch_ID c \<noteq> []) (sv_Channels w)"
    and "syncLaunchRoles server_builder w = ((n1, e1), w1)"
    and "syncLaunchGuild server_builder ids w = ((k2, n2, e2), ids2, w2)"
    and "syncAutoMod server_builder ids w = ((n3, k3, u3, e3), w3)"
  shows "(\<exists>fresh. sv_Roles w1 = sv_Roles w @ fresh \<and> n1 = int (length fresh) \<and> sv_Channels w1 = sv_Channels w \<and> sv_Rules w1 = sv_Rules w) \<and>
    (\<exists>fresh. sv_Channels w2 = sv_Channels w @ fresh \<and> k2 = int (length (filter (\<lambda>c. ch_Kind c = KindCategory) fresh)) \<and>
       n2 = int (length (filter (\<lambda>c. ch_Kind c \<noteq> KindCategory) fresh)) \<and> sv_Roles w2 = sv_Roles w \<and> sv_Rules w2 = sv_Rules w) \<and>
    (\<exists>fresh. sv_Rules w3 = sv_Rules w @ fresh \<and> n3 = int (length fresh) \<and> sv_Roles w3 = sv_Roles w \<and> sv_Channels w3 = sv_Channels w)"
  using launch.roles_spec [OF assms(2)] launch.guild_spec [OF assms(1,3)] launch.rules_spec [OF assms(4)] by blast

definition bare_server :: server where
  "bare_server = \<lparr>sv_Roles = [], sv_Channels = [], sv_Rules = [], sv_Next = 0,
     sv_Faults = [Some \<lparr>re_Text = ''down'', re_Status = None, re_Code = None\<rparr>]\<rparr>"

theorem setup_additive_witness:
  "fst (fst (syncLaunchRoles server_builder bare_server)) = 0 \<and> sv_Roles (snd (syncLaunchRoles server_builder bare_server)) = []"
proof -
  obtain n1 e1 w1 where r: "syncLaunchRoles server_builder bare_server = ((n1, e1), w1)"
    by (cases "syncLaunchRoles server_builder bare_server") auto
  obtain k2 n2 e2 ids2 w2 where g: "syncLaunchGuild server_builder [] bare_server = ((k2, n2, e2), ids2, w2)"
    by (cases "syncLaunchGuild server_builder [] bare_server") auto
  obtain n3 k3 u3 e3 w3 where m: "syncAutoMod server_builder [] bare_server = ((n3, k3, u3, e3), w3)"
    by (cases "syncAutoMod server_builder [] bare_server") auto
  have "list_all (\<lambda>c. ch_ID c \<noteq> []) (sv_Channels bare_server)" by (simp add: bare_server_def)
  from setup_additive [OF this r g m] obtain fresh where f: "sv_Roles w1 = sv_Roles bare_server @ fresh" "n1 = int (length fresh)" by blast
  have "n1 = 0" using r by (auto simp: syncLaunchRoles_def server_builder_def rest_def bare_server_def)
  with f r show ?thesis by (simp add: bare_server_def)
qed

text \<open>
  C18: After a setup command without an error everything it stands for is there: every launch
  role; every launch category and, outside the categories, every launch channel, by its key or
  its decorated name; every AutoMod rule that was not reported as refused. Running the same
  command again on such a guild creates nothing.
\<close>

theorem setup_complete:
  assumes "list_all (\<lambda>c. ch_ID c \<noteq> []) (sv_Channels w)"
    and "syncLaunchRoles server_builder w = ((n1, None), w1)"
    and "syncLaunchGuild server_builder ids w = ((k2, n2, None), ids2, w2)"
    and "syncAutoMod server_builder ids w = ((n3, k3, u3, None), w3)"
    and "syncLaunchRoles server_builder (w1\<lparr>sv_Faults := fs\<rparr>) = ((m1, d1), v1)"
    and "syncLaunchGuild server_builder ids2 (w2\<lparr>sv_Faults := fs\<rparr>) = ((j2, m2, d2), ids3, v2)"
    and "syncAutoMod server_builder ids (w3\<lparr>sv_Faults := fs\<rparr>) = ((m3, j3, y3, d3), v3)"
  shows "list_all (\<lambda>s. rl_Name s \<in> set (map ro_Name (sv_Roles w1))) launchRoles \<and> m1 = 0 \<and> sv_Roles v1 = sv_Roles w1 \<and>
    launched (sv_Channels w2) \<and> j2 = 0 \<and> m2 = 0 \<and> sv_Channels v2 = sv_Channels w2 \<and>
    list_all (\<lambda>s. am_Name s \<in> set u3 \<or> am_Name s \<in> set (map ru_Name (sv_Rules w3))) autoModRules \<and>
    (if u3 = [] then m3 = 0 \<and> sv_Rules v3 = sv_Rules w3 else True)"
proof -
  have names: "''Server Owner'' \<notin> rl_Name ` set launchRoles"
    by (simp add: launchRoles_def RoleSeller_def RoleBuyer_def RoleUser_def)
  have r: "list_all (\<lambda>s. rl_Name s = ''Server Owner'' \<or> rl_Name s \<in> set (map ro_Name (sv_Roles w1))) launchRoles"
    using launch.roles_spec [OF assms(2)] by auto
  have g: "launched (sv_Channels w2)" "list_all (\<lambda>c. ch_ID c \<noteq> []) (sv_Channels w2)"
    using launch.guild_spec [OF assms(1,3)] assms(1) by auto
  have m: "list_all (\<lambda>s. am_Name s \<in> set u3 \<or> am_Name s \<in> set (map ru_Name (sv_Rules w3))) autoModRules"
    using launch.rules_spec [OF assms(4)] by auto
  have "m1 = 0 \<and> sv_Roles v1 = sv_Roles w1" using launch.roles_again [OF _ assms(5)] r by simp
  moreover have "j2 = 0 \<and> m2 = 0 \<and> sv_Channels v2 = sv_Channels w2" using launch.guild_again [OF _ _ assms(6)] g by simp
  moreover have "if u3 = [] then m3 = 0 \<and> sv_Rules v3 = sv_Rules w3 else True"
  proof (cases "u3 = []")
    case True
    with m have "list_all (\<lambda>s. am_Name s \<in> set (map ru_Name (sv_Rules (w3\<lparr>sv_Faults := fs\<rparr>)))) autoModRules" by simp
    from launch.rules_again [OF this assms(7)] show ?thesis by simp
  qed simp
  moreover have "list_all (\<lambda>s. rl_Name s \<in> set (map ro_Name (sv_Roles w1))) launchRoles"
    using r names unfolding list_all_iff by (metis imageI)
  ultimately show ?thesis using g(1) m by (simp only: simp_thms)
qed

text \<open>Without faults every command succeeds.\<close>

lemma rest_fine: "sv_Faults w = [] \<Longrightarrow> rest f w = f w"
  by (simp add: rest_def)

lemma lists_fine:
  assumes "sv_Faults w = []"
  shows "bu_Roles server_builder w = (Inr (sv_Roles w), w)" and "bu_Channels server_builder w = (Inr (sv_Channels w), w)"
    and "bu_Rules server_builder w = (Inr (sv_Rules w), w)"
  using assms by (simp_all add: server_builder_def rest_fine)

lemma role_loop_fine: "sv_Faults w = [] \<Longrightarrow> \<exists>n' w'. role_loop server_builder specs have1 n w = ((n', None), w')"
  by (induction specs arbitrary: have1 n w) (auto simp: server_builder_def rest_fine Let_def)

lemma channel_loop_fine: "sv_Faults w = [] \<Longrightarrow>
    \<exists>h n' w'. channel_loop server_builder parent cs have1 n w = ((h, n', None), w') \<and> sv_Faults w' = []"
  by (induction cs arbitrary: have1 n w) (auto simp: server_builder_def rest_fine Let_def)

lemma category_loop_fine: "sv_Faults w = [] \<Longrightarrow>
    \<exists>k' n' w'. category_loop server_builder specs catID have1 k n w = ((k', n', None), w') \<and> sv_Faults w' = []"
proof (induction specs arbitrary: catID have1 k n w)
  case (Cons s specs)
  show ?case
  proof (cases "mget catID (cat_Key s) = []")
    case True
    obtain x w1 where x: "bu_ChannelCreate server_builder (cat_Display s) KindCategory [] [] w = (Inr x, w1)" "sv_Faults w1 = []"
      using Cons.prems by (auto simp: server_builder_def rest_fine Let_def)
    obtain h m w2 where l: "channel_loop server_builder (ch_ID x) (cat_Channels s) have1 n w1 = ((h, m, None), w2)" "sv_Faults w2 = []"
      using channel_loop_fine [OF x(2)] by blast
    with True x Cons.IH [OF l(2)] show ?thesis by (simp add: Let_def)
  next
    case False
    obtain h m w2 where l: "channel_loop server_builder (mget catID (cat_Key s)) (cat_Channels s) have1 n w = ((h, m, None), w2)" "sv_Faults w2 = []"
      using channel_loop_fine [OF Cons.prems] by blast
    with False Cons.IH [OF l(2)] show ?thesis by (simp add: Let_def)
  qed
qed simp

lemma rule_loop_fine: "sv_Faults w = [] \<Longrightarrow> \<exists>n' k' u' w'. rule_loop server_builder ids ex specs have1 n k u w = ((n', k', u', None), w')"
  by (induction specs arbitrary: have1 n k u w) (auto simp: server_builder_def rest_fine Let_def)

definition open_server :: server where
  "open_server = bare_server\<lparr>sv_Faults := []\<rparr>"

theorem setup_complete_witness:
  "\<exists>k n ids' w'. syncLaunchGuild server_builder [] open_server = ((k, n, None), ids', w') \<and> launched (sv_Channels w')"
proof -
  have f: "sv_Faults open_server = []" "sv_Channels open_server = []" by (simp_all add: open_server_def bare_server_def)
  obtain n1 w1 where "role_loop server_builder launchRoles (map ro_Name (sv_Roles open_server)) 0 open_server = ((n1, None), w1)"
    using role_loop_fine [OF f(1)] by blast
  then have r: "syncLaunchRoles server_builder open_server = ((n1, None), w1)"
    by (simp add: syncLaunchRoles_def lists_fine [OF f(1)])
  obtain k2 n2 w where l: "category_loop server_builder launchLayout (scan_categories []) (scan_channels []) 0 0 open_server = ((k2, n2, None), w)"
    using category_loop_fine [OF f(1)] by blast
  obtain ids2 w2 where "refreshChannels server_builder [] w = (ids2, w2)" by (cases "refreshChannels server_builder [] w")
  with l have g: "syncLaunchGuild server_builder [] open_server = ((k2, n2, None), ids2, w2)"
    by (simp add: syncLaunchGuild_def lists_fine [OF f(1)] f(2))
  obtain ex where ex: "staffRoleIDs server_builder open_server = (ex, open_server)"
    by (simp add: staffRoleIDs_def lists_fine [OF f(1)])
  obtain n3 k3 u3 w3 where "rule_loop server_builder [] ex autoModRules (map ru_Name (sv_Rules open_server)) 0 0 [] open_server = ((n3, k3, u3, None), w3)"
    using rule_loop_fine [OF f(1)] by blast
  then have m: "syncAutoMod server_builder [] open_server = ((n3, k3, u3, None), w3)"
    by (simp add: syncAutoMod_def lists_fine [OF f(1)] ex)
  obtain m1 d1 v1 where a: "syncLaunchRoles server_builder (w1\<lparr>sv_Faults := []\<rparr>) = ((m1, d1), v1)"
    by (cases "syncLaunchRoles server_builder (w1\<lparr>sv_Faults := []\<rparr>)") auto
  obtain j2 m2 d2 ids3 v2 where b: "syncLaunchGuild server_builder ids2 (w2\<lparr>sv_Faults := []\<rparr>) = ((j2, m2, d2), ids3, v2)"
    by (cases "syncLaunchGuild server_builder ids2 (w2\<lparr>sv_Faults := []\<rparr>)") auto
  obtain m3 j3 y3 d3 v3 where c: "syncAutoMod server_builder [] (w3\<lparr>sv_Faults := []\<rparr>) = ((m3, j3, y3, d3), v3)"
    by (cases "syncAutoMod server_builder [] (w3\<lparr>sv_Faults := []\<rparr>)") auto
  have "list_all (\<lambda>c. ch_ID c \<noteq> []) (sv_Channels open_server)" by (simp add: f)
  from setup_complete [OF this r g m a b c] g show ?thesis by blast
qed

end
