(* ===== verification/Saas.thy ===== *)
theory Saas
  imports Prelude BotText GoTime GoBase64
begin

text \<open>
  The credential for the revenue service (modules/discordbot/saas_token.go) and the lookup that
  uses it (bot.go: \<open>saasRevenue\<close>, \<open>saasGet\<close>, \<open>saasFetch\<close>). The HTTP client, the file system, the clock
  and the JSON decoder are the record \<open>saas_io\<close>; the mutex serialises the operations.
\<close>

section \<open>State and environment\<close>

definition saasRefreshSkew :: duration where "saasRefreshSkew = Minute"

record token_file =
  tf_Access :: string
  tf_Refresh :: string
  tf_Expires :: instant

record saasToken =
  sk_AuthURL :: string
  sk_File :: string
  sk_Access :: string
  sk_Refresh :: string
  sk_ExpiresAt :: instant

text \<open>A status code with the decoded token pair, if the body decodes.\<close>

type_synonym refresh_reply = "int \<times> (string \<times> string \<times> int) option"

record 'w saas_io =
  io_Now :: "'w \<Rightarrow> instant"
  io_Refresh :: "string \<Rightarrow> string \<Rightarrow> ('w, string, refresh_reply) sop"
  io_Fetch :: "string \<Rightarrow> string \<Rightarrow> ('w, string, string \<times> int) sop"
  io_MkdirAll :: "string \<Rightarrow> ('w, string, unit) sop"
  io_WriteFile :: "string \<Rightarrow> token_file \<Rightarrow> ('w, string, unit) sop"
  io_Rename :: "string \<Rightarrow> string \<Rightarrow> ('w, string, unit) sop"
  io_ReadFile :: "string \<Rightarrow> 'w \<Rightarrow> token_file option"
  io_ExpClaim :: "string \<Rightarrow> int option"

text \<open>\<open>time.Unix(sec, 0)\<close> counts seconds from year 1 in 64 bits.\<close>

definition unix_time :: "int \<Rightarrow> instant" where
  "unix_time sec = (wrap64 (sec + 62135596800) - 62135596800) * Second"

text \<open>\<open>Time.MarshalJSON\<close> refuses years outside 0 to 9999.\<close>

definition json_time :: "instant \<Rightarrow> bool" where
  "json_time t \<longleftrightarrow> 0 \<le> year_of (t div (86400 * Second) + epoch_day) \<and> year_of (t div (86400 * Second) + epoch_day) \<le> 9999"

section \<open>The expiry of a token\<close>

definition jwtExpiry :: "'w saas_io \<Rightarrow> string \<Rightarrow> instant option" where
  "jwtExpiry io token =
     (let parts = Split CHR ''.'' token in
      if length parts \<noteq> 3 then None
      else case RawURLDecode (parts ! 1) of
        None \<Rightarrow> None
      | Some payload \<Rightarrow>
          (case io_ExpClaim io payload of
             None \<Rightarrow> None
           | Some n \<Rightarrow> if n = 0 then None else Some (unix_time n)))"

section \<open>Start\<close>

definition load :: "'w saas_io \<Rightarrow> saasToken \<Rightarrow> 'w \<Rightarrow> saasToken" where
  "load io t w =
     (if sk_File t = [] then t
      else case io_ReadFile io (sk_File t) w of
        None \<Rightarrow> t
      | Some state \<Rightarrow>
          let t = (if tf_Refresh state \<noteq> [] then t\<lparr>sk_Refresh := tf_Refresh state\<rparr> else t)
          in if tf_Access state \<noteq> [] then t\<lparr>sk_Access := tf_Access state, sk_ExpiresAt := tf_Expires state\<rparr> else t)"

definition newSaaSToken :: "'w saas_io \<Rightarrow> string \<Rightarrow> string \<Rightarrow> string \<Rightarrow> string \<Rightarrow> 'w \<Rightarrow> saasToken" where
  "newSaaSToken io authURL access refresh file w =
     (let t = \<lparr>sk_AuthURL = authURL, sk_File = file, sk_Access = access, sk_Refresh = refresh, sk_ExpiresAt = zero_time\<rparr>;
          t = (case jwtExpiry io access of None \<Rightarrow> t | Some e \<Rightarrow> t\<lparr>sk_ExpiresAt := e\<rparr>)
      in load io t w)"

section \<open>Rotation\<close>

definition freshLocked :: "'w saas_io \<Rightarrow> saasToken \<Rightarrow> 'w \<Rightarrow> bool" where
  "freshLocked io t w \<longleftrightarrow> sk_ExpiresAt t \<noteq> zero_time \<and> io_Now io w < sk_ExpiresAt t - saasRefreshSkew"

text \<open>\<open>filepath.Dir\<close> of a cleaned path, as the configuration gives it.\<close>

definition path_dir :: "string \<Rightarrow> string" where
  "path_dir file =
     (if CHR ''/'' \<notin> set file then ''.''
      else let d = rev (tl (dropWhile (\<lambda>c. c \<noteq> CHR ''/'') (rev file))) in if d = [] then ''/'' else d)"

definition persist :: "'w saas_io \<Rightarrow> saasToken \<Rightarrow> ('w, string, unit) sop" where
  "persist io t =
     (if sk_File t = [] then sret ()
      else let state = \<lparr>tf_Access = sk_Access t, tf_Refresh = sk_Refresh t, tf_Expires = sk_ExpiresAt t\<rparr>;
               tmp = sk_File t @ ''.tmp'';
               dir = path_dir (sk_File t)
        in if \<not> json_time (sk_ExpiresAt t) then sfail ''year outside of range''
        else sbind (if dir \<noteq> [] \<and> dir \<noteq> ''.'' then io_MkdirAll io dir else sret ()) (\<lambda>_.
             sbind (io_WriteFile io tmp state) (\<lambda>_.
             io_Rename io tmp (sk_File t))))"

text \<open>The error, if any, and the credential afterwards.\<close>

definition rotateLocked :: "'w saas_io \<Rightarrow> saasToken \<Rightarrow> 'w \<Rightarrow> (string option \<times> saasToken) \<times> 'w" where
  "rotateLocked io t w =
     (if sk_AuthURL t = [] then ((Some ''cannot rotate: no SaaS auth URL'', t), w)
      else case io_Refresh io (sk_AuthURL t) (sk_Refresh t) w of
        (Inl e, w1) \<Rightarrow> ((Some e, t), w1)
      | (Inr (status, pair), w1) \<Rightarrow>
          if status \<noteq> 200 then ((Some (''refresh rejected with status '' @ FormatInt status @ '' from '' @ sk_AuthURL t), t), w1)
          else case pair of
            None \<Rightarrow> ((Some ''invalid body'', t), w1)
          | Some (access, refresh, expires) \<Rightarrow>
              if access = [] \<or> refresh = [] then ((Some ''refresh returned an incomplete token pair'', t), w1)
              else let t1 = t\<lparr>sk_Access := access, sk_Refresh := refresh,
                       sk_ExpiresAt := (case jwtExpiry io access of Some e \<Rightarrow> e | None \<Rightarrow> unix_time expires)\<rparr>
                in case persist io t1 w1 of
                  (Inl e, w2) \<Rightarrow> ((Some e, t1), w2)
                | (Inr _, w2) \<Rightarrow> ((None, t1), w2))"

definition Access :: "'w saas_io \<Rightarrow> saasToken \<Rightarrow> 'w \<Rightarrow> ((string, string) result \<times> saasToken) \<times> 'w" where
  "Access io t w =
     (if sk_Access t \<noteq> [] \<and> freshLocked io t w then ((Inr (sk_Access t), t), w)
      else if sk_Refresh t = [] then
        (if sk_Access t \<noteq> [] then ((Inr (sk_Access t), t), w)
         else ((Inl ''no SaaS credential configured'', t), w))
      else case rotateLocked io t w of
        ((None, t1), w1) \<Rightarrow> ((Inr (sk_Access t1), t1), w1)
      | ((Some e, t1), w1) \<Rightarrow>
          if sk_Access t1 \<noteq> [] \<and> io_Now io w1 < sk_ExpiresAt t1 then ((Inr (sk_Access t1), t1), w1)
          else ((Inl e, t1), w1))"

definition Invalidate :: "saasToken \<Rightarrow> saasToken" where
  "Invalidate t = t\<lparr>sk_ExpiresAt := zero_time\<rparr>"

definition canRotate :: "saasToken \<Rightarrow> bool" where
  "canRotate t \<longleftrightarrow> sk_Refresh t \<noteq> []"

section \<open>The revenue lookup\<close>

record saasFinance =
  sf_TodayFee :: string
  sf_MonthFee :: string
  sf_AllFee :: string
  sf_TodayCount :: int
  sf_MonthCount :: int
  sf_AllCount :: int

text \<open>The loop runs a second time only after the first attempt.\<close>

function saas_loop :: "'w saas_io \<Rightarrow> string \<Rightarrow> nat \<Rightarrow> saasToken \<Rightarrow> 'w \<Rightarrow> ((string, string) result \<times> saasToken) \<times> 'w" where
  "saas_loop io url attempt t w =
     (case Access io t w of
        ((Inl e, t1), w1) \<Rightarrow> ((Inl e, t1), w1)
      | ((Inr token, t1), w1) \<Rightarrow>
          (case io_Fetch io url token w1 of
             (Inl e, w2) \<Rightarrow> ((Inl e, t1), w2)
           | (Inr (text, status), w2) \<Rightarrow>
               if status = 200 then ((Inr text, t1), w2)
               else if status = 401 \<and> attempt = 0 \<and> canRotate t1 then saas_loop io url (attempt + 1) (Invalidate t1) w2
               else ((Inl (''status '' @ FormatInt status @ '' from '' @ url), t1), w2)))"
  by pat_completeness auto
termination by (relation "measure (\<lambda>(io, url, attempt, t, w). 1 - attempt)") auto

declare saas_loop.simps [simp del]

definition saasGet :: "'w saas_io \<Rightarrow> string \<Rightarrow> saasToken \<Rightarrow> 'w \<Rightarrow> ((string, string) result \<times> saasToken) \<times> 'w" where
  "saasGet io url t w = saas_loop io url 0 t w"

definition finance_text :: "saasFinance \<Rightarrow> string" where
  "finance_text s = Join
     [''SaaS platform fee today: '' @ nanoUSD (sf_TodayFee s) @ '' ('' @ itoa64 (sf_TodayCount s) @ '' requests)'',
      ''SaaS platform fee this month: '' @ nanoUSD (sf_MonthFee s) @ '' ('' @ itoa64 (sf_MonthCount s) @ '' requests)'',
      ''SaaS platform fee all time: '' @ nanoUSD (sf_AllFee s) @ '' ('' @ itoa64 (sf_AllCount s) @ '' requests)''] [CHR 0x0A]"

text \<open>\<open>decode\<close> stands for the JSON decoder. The state is the credential, which may be missing.\<close>

definition saasRevenue :: "'w saas_io \<Rightarrow> (string \<Rightarrow> saasFinance option) \<Rightarrow> string \<Rightarrow> saasToken option \<Rightarrow> 'w \<Rightarrow>
    ((string, string) result \<times> saasToken option) \<times> 'w" where
  "saasRevenue io decode url t w =
     (case t of
        None \<Rightarrow> ((Inl ''not configured'', t), w)
      | Some t \<Rightarrow>
          if url = [] then ((Inl ''not configured'', Some t), w)
          else case saasGet io url t w of
            ((Inl e, t1), w1) \<Rightarrow> ((Inl e, Some t1), w1)
          | ((Inr text, t1), w1) \<Rightarrow>
              (case decode text of
                 None \<Rightarrow> ((Inl ''invalid body'', Some t1), w1)
               | Some s \<Rightarrow> ((Inr (finance_text s), Some t1), w1)))"

section \<open>Every refresh token is used once\<close>

text \<open>
  A world that answers by a script and fails by a plan. The log has the refresh tokens presented
  to the service, each with the token that a complete answer gave in exchange.
\<close>

record saas_world =
  sw_Now :: instant
  sw_Replies :: "(string, refresh_reply) result list"
  sw_Fetches :: "(string, string \<times> int) result list"
  sw_Disk :: "bool list"
  sw_Files :: "(string, token_file) gomap"
  sw_Log :: "(string \<times> string option) list"

definition delivered :: "(string, refresh_reply) result \<Rightarrow> string option" where
  "delivered r = (case r of Inr (status, Some (access, refresh, x)) \<Rightarrow>
       if status = 200 \<and> access \<noteq> [] \<and> refresh \<noteq> [] then Some refresh else None
     | _ \<Rightarrow> None)"

definition on_disk :: "(saas_world, string, unit) sop \<Rightarrow> (saas_world, string, unit) sop" where
  "on_disk f w = (case sw_Disk w of True # fs \<Rightarrow> (Inl ''no space left on device'', w\<lparr>sw_Disk := fs\<rparr>)
     | False # fs \<Rightarrow> f (w\<lparr>sw_Disk := fs\<rparr>) | [] \<Rightarrow> f w)"

definition scripted :: "(string \<Rightarrow> int option) \<Rightarrow> saas_world saas_io" where
  "scripted exp = \<lparr>io_Now = sw_Now,
     io_Refresh = (\<lambda>url token w. case sw_Replies w of
        [] \<Rightarrow> (Inl ''connection refused'', w\<lparr>sw_Log := sw_Log w @ [(token, None)]\<rparr>)
      | r # rs \<Rightarrow> (r, w\<lparr>sw_Replies := rs, sw_Log := sw_Log w @ [(token, delivered r)]\<rparr>)),
     io_Fetch = (\<lambda>url token w. case sw_Fetches w of [] \<Rightarrow> (Inl ''connection refused'', w) | r # rs \<Rightarrow> (r, w\<lparr>sw_Fetches := rs\<rparr>)),
     io_MkdirAll = (\<lambda>dir. on_disk (\<lambda>w. (Inr (), w))),
     io_WriteFile = (\<lambda>path state. on_disk (\<lambda>w. (Inr (), w\<lparr>sw_Files := mput (sw_Files w) path state\<rparr>))),
     io_Rename = (\<lambda>src dst. on_disk (\<lambda>w. case map_of (sw_Files w) src of
        None \<Rightarrow> (Inl ''no such file'', w)
      | Some state \<Rightarrow> (Inr (), w\<lparr>sw_Files := mput (mdel (sw_Files w) src) dst state\<rparr>))),
     io_ReadFile = (\<lambda>path w. map_of (sw_Files w) path),
     io_ExpClaim = exp\<rparr>"

datatype saas_event = EvAccess | EvInvalidate | EvRevenue string | EvClock instant | EvRestart string string

text \<open>A restart forgets everything but the file and starts from the environment's tokens.\<close>

fun saas_step :: "(string \<Rightarrow> int option) \<Rightarrow> saas_event \<Rightarrow> saasToken \<times> saas_world \<Rightarrow> saasToken \<times> saas_world" where
  "saas_step exp EvAccess (t, w) = (case Access (scripted exp) t w of ((r, t'), w') \<Rightarrow> (t', w'))"
| "saas_step exp EvInvalidate (t, w) = (Invalidate t, w)"
| "saas_step exp (EvRevenue url) (t, w) = (case saasGet (scripted exp) url t w of ((r, t'), w') \<Rightarrow> (t', w'))"
| "saas_step exp (EvClock now) (t, w) = (t, w\<lparr>sw_Now := now\<rparr>)"
| "saas_step exp (EvRestart access refresh) (t, w) =
     (newSaaSToken (scripted exp) (sk_AuthURL t) access refresh (sk_File t) w, w)"

definition saas_run :: "(string \<Rightarrow> int option) \<Rightarrow> saas_event list \<Rightarrow> saasToken \<times> saas_world \<Rightarrow> saasToken \<times> saas_world" where
  "saas_run exp evs s = foldl (\<lambda>s e. saas_step exp e s) s evs"

definition traded :: "(string \<times> string option) list \<Rightarrow> string list" where
  "traded log = map fst (filter (\<lambda>p. snd p \<noteq> None) log)"

text \<open>No token is presented again after it was exchanged.\<close>

fun single_use :: "(string \<times> string option) list \<Rightarrow> bool" where
  "single_use [] \<longleftrightarrow> True"
| "single_use ((token, got) # log) \<longleftrightarrow> (got \<noteq> None \<longrightarrow> token \<notin> set (map fst log)) \<and> single_use log"

lemma single_use_snoc: "single_use (log @ [(x, d)]) \<longleftrightarrow> single_use log \<and> x \<notin> set (traded log)"
  by (induction log) (auto simp: traded_def)

lemma traded_snoc: "traded (log @ [(x, d)]) = traded log @ (if d \<noteq> None then [x] else [])"
  by (simp add: traded_def)

definition upcoming :: "(string, refresh_reply) result list \<Rightarrow> string list" where
  "upcoming rs = List.map_filter delivered rs"

lemma upcoming_Cons: "upcoming (r # rs) = (case delivered r of None \<Rightarrow> upcoming rs | Some x \<Rightarrow> x # upcoming rs)"
  by (simp add: upcoming_def List.map_filter_def split: option.split)

text \<open>The file can be written after this answer: its expiry has a year that JSON can show.\<close>

definition persistable :: "(string \<Rightarrow> int option) \<Rightarrow> (string, refresh_reply) result \<Rightarrow> bool" where
  "persistable exp r = (case r of Inr (status, Some (access, refresh, expires)) \<Rightarrow>
       json_time (case jwtExpiry (scripted exp) access of Some e \<Rightarrow> e | None \<Rightarrow> unix_time expires)
     | _ \<Rightarrow> True)"

text \<open>
  \<open>envs\<close> are the refresh tokens that the environment may hold; with \<open>safe\<close> the disk works and the
  process may restart.
\<close>

definition newest_saved :: "token_file option \<Rightarrow> string list \<Rightarrow> string list \<Rightarrow> string \<Rightarrow> bool" where
  "newest_saved saved old new cur = (case saved of
     None \<Rightarrow> old = []
   | Some f \<Rightarrow> tf_Refresh f \<notin> set new \<and> (old = [] \<or> tf_Refresh f \<noteq> [] \<and> tf_Refresh f = cur))"

definition chain_ok :: "(string \<Rightarrow> int option) \<Rightarrow> string list \<Rightarrow> bool \<Rightarrow> saasToken \<times> saas_world \<Rightarrow> bool" where
  "chain_ok exp envs safe s = (case s of (t, w) \<Rightarrow>
     single_use (sw_Log w) \<and> sk_Refresh t \<notin> set (traded (sw_Log w)) \<and> distinct (upcoming (sw_Replies w)) \<and>
     set (upcoming (sw_Replies w)) \<inter> insert (sk_Refresh t) (set envs \<union> set (traded (sw_Log w))) = {} \<and>
     (safe \<longrightarrow> sk_File t \<noteq> [] \<and> sw_Disk w = [] \<and> list_all (persistable exp) (sw_Replies w) \<and>
       newest_saved (map_of (sw_Files w) (sk_File t)) (traded (sw_Log w)) (upcoming (sw_Replies w)) (sk_Refresh t)))"

lemma scripted_simps [simp]:
  "io_Now (scripted exp) = sw_Now"
  "io_ReadFile (scripted exp) path w = map_of (sw_Files w) path"
  by (simp_all add: scripted_def)

lemma delivered_Some: "delivered r = Some x \<longleftrightarrow> (\<exists>a e. r = Inr (200, Some (a, x, e)) \<and> a \<noteq> [] \<and> x \<noteq> [])"
  by (auto simp: delivered_def split: sum.splits prod.splits option.splits if_splits)

text \<open>The file system.\<close>

lemma persist_frame:
  assumes "persist (scripted exp) t w = (r, w')"
  shows "sw_Log w' = sw_Log w \<and> sw_Replies w' = sw_Replies w"
  using assms
  by (auto simp: persist_def scripted_def sbind_def on_disk_def Let_def split: if_splits list.splits prod.splits sum.splits option.splits bool.splits)

lemma persist_safe:
  assumes "persist (scripted exp) t w = (r, w')" and "sw_Disk w = []" and "sk_File t \<noteq> []" and "json_time (sk_ExpiresAt t)"
  shows "r = Inr () \<and> sw_Disk w' = [] \<and> (\<exists>f. map_of (sw_Files w') (sk_File t) = Some f \<and> tf_Refresh f = sk_Refresh t)"
  using assms
  by (auto simp: persist_def scripted_def sbind_def on_disk_def Let_def split: if_splits prod.splits sum.splits option.splits)

text \<open>A rotation presents the current token and replaces it exactly when the answer is complete.\<close>

lemma rotate_chain:
  assumes "rotateLocked (scripted exp) t w = ((e, t'), w')" and "chain_ok exp envs safe (t, w)"
  shows "chain_ok exp envs safe (t', w')"
proof (cases "sk_AuthURL t = []")
  case True
  with assms show ?thesis by (simp add: rotateLocked_def)
next
  case url: False
  show ?thesis
  proof (cases "sw_Replies w")
    case Nil
    with url assms(1) have "t' = t" "w' = w\<lparr>sw_Log := sw_Log w @ [(sk_Refresh t, None)]\<rparr>"
      by (auto simp: rotateLocked_def scripted_def)
    with assms(2) show ?thesis by (simp add: chain_ok_def single_use_snoc traded_snoc)
  next
    case (Cons r rs)
    define w1 where "w1 = w\<lparr>sw_Replies := rs, sw_Log := sw_Log w @ [(sk_Refresh t, delivered r)]\<rparr>"
    have call: "io_Refresh (scripted exp) (sk_AuthURL t) (sk_Refresh t) w = (r, w1)"
      using Cons by (simp add: scripted_def w1_def)
    show ?thesis
    proof (cases "delivered r")
      case None
      have "t' = t \<and> w' = w1"
        using assms(1) None url call
        by (auto simp: rotateLocked_def delivered_def Let_def split: sum.splits prod.splits option.splits if_splits)
      with assms(2) None Cons show ?thesis
        by (simp add: w1_def chain_ok_def single_use_snoc traded_snoc upcoming_Cons)
    next
      case (Some x)
      then obtain a n where r: "r = Inr (200, Some (a, x, n))" "a \<noteq> []" "x \<noteq> []" by (auto simp: delivered_Some)
      define t1 where "t1 = t\<lparr>sk_Access := a, sk_Refresh := x,
        sk_ExpiresAt := (case jwtExpiry (scripted exp) a of Some e \<Rightarrow> e | None \<Rightarrow> unix_time n)\<rparr>"
      obtain q w2 where q: "persist (scripted exp) t1 w1 = (q, w2)" by (cases "persist (scripted exp) t1 w1")
      have end1: "t' = t1 \<and> w' = w2"
        using assms(1) url call r q by (auto simp: rotateLocked_def Let_def t1_def [symmetric] split: sum.splits)
      have log: "sw_Log w2 = sw_Log w @ [(sk_Refresh t, Some x)]" "sw_Replies w2 = rs"
        using persist_frame [OF q] Some by (simp_all add: w1_def)
      have up: "upcoming (sw_Replies w) = x # upcoming rs" using Cons Some by (simp add: upcoming_Cons)
      have main: "single_use (sw_Log w2) \<and> sk_Refresh t1 \<notin> set (traded (sw_Log w2)) \<and> distinct (upcoming rs) \<and>
          set (upcoming rs) \<inter> insert (sk_Refresh t1) (set envs \<union> set (traded (sw_Log w2))) = {}"
        using assms(2) up by (auto simp: chain_ok_def log single_use_snoc traded_snoc t1_def)
      show ?thesis
      proof (cases safe)
        case True
        then have "sw_Disk w1 = []" "sk_File t1 \<noteq> []" "json_time (sk_ExpiresAt t1)" "list_all (persistable exp) rs"
          using assms(2) Cons r by (auto simp: chain_ok_def w1_def t1_def persistable_def)
        from persist_safe [OF q this(1-3)] this(2,4) main r(3) end1 log show ?thesis
          by (auto simp: chain_ok_def newest_saved_def t1_def)
      next
        case False
        with main end1 log show ?thesis by (simp add: chain_ok_def)
      qed
    qed
  qed
qed

lemma access_chain:
  assumes "Access (scripted exp) t w = ((r, t'), w')" and "chain_ok exp envs safe (t, w)"
  shows "chain_ok exp envs safe (t', w')"
proof -
  obtain e t1 w1 where rot: "rotateLocked (scripted exp) t w = ((e, t1), w1)" by (metis surj_pair)
  have "t' = t \<and> w' = w \<or> t' = t1 \<and> w' = w1"
    using assms(1) rot by (auto simp: Access_def split: if_splits option.splits)
  with rotate_chain [OF rot assms(2)] assms(2) show ?thesis by blast
qed

lemma invalidate_chain: "chain_ok exp envs safe (t, w) \<Longrightarrow> chain_ok exp envs safe (Invalidate t, w)"
  by (simp add: chain_ok_def Invalidate_def)

lemma fetch_chain: "io_Fetch (scripted exp) url token w = (r, w') \<Longrightarrow> chain_ok exp envs safe (t, w) \<Longrightarrow> chain_ok exp envs safe (t, w')"
  by (auto simp: scripted_def chain_ok_def split: list.splits)

lemma revenue_chain:
  "saas_loop (scripted exp) url n t w = ((r, t'), w') \<Longrightarrow> chain_ok exp envs safe (t, w) \<Longrightarrow> chain_ok exp envs safe (t', w')"
proof (induction "1 - n" arbitrary: n t w rule: less_induct)
  case less
  obtain ra t1 w1 where acc: "Access (scripted exp) t w = ((ra, t1), w1)" by (metis surj_pair)
  have ok1: "chain_ok exp envs safe (t1, w1)" by (rule access_chain [OF acc less.prems(2)])
  show ?case
  proof (cases ra)
    case (Inl e)
    with acc less.prems(1) ok1 show ?thesis by (simp add: saas_loop.simps)
  next
    case (Inr token)
    obtain rf w2 where f: "io_Fetch (scripted exp) url token w1 = (rf, w2)" by (metis surj_pair)
    have ok2: "chain_ok exp envs safe (t1, w2)" by (rule fetch_chain [OF f ok1])
    show ?thesis
    proof (cases rf)
      case (Inl e)
      with Inr acc f less.prems(1) ok2 show ?thesis by (simp add: saas_loop.simps)
    next
      case (Inr p)
      obtain content status where p: "rf = Inr (content, status)" using Inr by (cases p) auto
      have body: "((r, t'), w') =
          (if status = 200 then ((Inr content, t1), w2)
           else if status = 401 \<and> n = 0 \<and> canRotate t1 then saas_loop (scripted exp) url (n + 1) (Invalidate t1) w2
           else ((Inl (''status '' @ FormatInt status @ '' from '' @ url), t1), w2))"
        using less.prems(1) acc f p \<open>ra = Inr token\<close> by (simp add: saas_loop.simps [of _ _ n t])
      show ?thesis
      proof (cases "status \<noteq> 200 \<and> status = 401 \<and> n = 0 \<and> canRotate t1")
        case True
        with body have "saas_loop (scripted exp) url (n + 1) (Invalidate t1) w2 = ((r, t'), w')" by simp
        from less.hyps [OF _ this invalidate_chain [OF ok2]] True show ?thesis by simp
      next
        case False
        with body ok2 show ?thesis by (simp split: if_splits)
      qed
    qed
  qed
qed

text \<open>The credential after a restart.\<close>

lemma restart_chain:
  assumes "chain_ok exp envs True (t, w)" and "refresh \<in> set envs"
  shows "chain_ok exp envs True (newSaaSToken (scripted exp) url access refresh (sk_File t) w, w)"
proof -
  let ?t = "newSaaSToken (scripted exp) url access refresh (sk_File t) w"
  have path: "sk_File ?t = sk_File t"
    by (auto simp: newSaaSToken_def load_def Let_def split: option.splits)
  have ref: "sk_Refresh ?t = (case map_of (sw_Files w) (sk_File t) of None \<Rightarrow> refresh | Some f \<Rightarrow> if tf_Refresh f \<noteq> [] then tf_Refresh f else refresh)"
    using assms(1) by (auto simp: newSaaSToken_def load_def Let_def chain_ok_def split: option.splits)
  show ?thesis
    using assms unfolding chain_ok_def prod.case path ref by (auto simp: newest_saved_def split: option.splits)
qed

fun env_token :: "saas_event \<Rightarrow> string list" where
  "env_token (EvRestart access refresh) = [refresh]"
| "env_token _ = []"

lemma step_chain:
  assumes "chain_ok exp envs safe s" and "env_token ev \<noteq> [] \<longrightarrow> safe" and "set (env_token ev) \<subseteq> set envs"
  shows "chain_ok exp envs safe (saas_step exp ev s)"
proof -
  obtain t w where s: "s = (t, w)" by (cases s)
  show ?thesis
  proof (cases ev)
    case EvAccess
    then show ?thesis using assms(1) access_chain s by (auto split: prod.splits)
  next
    case EvInvalidate
    then show ?thesis using assms(1) invalidate_chain s by simp
  next
    case (EvRevenue url)
    then show ?thesis using assms(1) revenue_chain s by (auto simp: saasGet_def split: prod.splits)
  next
    case (EvClock now)
    then show ?thesis using assms(1) s by (simp add: chain_ok_def)
  next
    case (EvRestart access refresh)
    then show ?thesis using assms restart_chain s by simp
  qed
qed

lemma run_chain:
  "chain_ok exp envs safe s \<Longrightarrow> list_all (\<lambda>ev. (env_token ev \<noteq> [] \<longrightarrow> safe) \<and> set (env_token ev) \<subseteq> set envs) evs \<Longrightarrow>
    chain_ok exp envs safe (saas_run exp evs s)"
  by (induction evs arbitrary: s) (simp_all add: saas_run_def step_chain)


definition sample_saas :: "bool list \<Rightarrow> saas_world" where
  "sample_saas disk = \<lparr>sw_Now = 1700000000000000000, sw_Replies = [Inr (200, Some (''access-2'', ''refresh-2'', 1700003600))],
     sw_Fetches = [], sw_Disk = disk, sw_Files = [], sw_Log = []\<rparr>"


text \<open>
  After a failed write the new tokens are in memory only, but they are handed out all the same; a
  restart then presents the exchanged token again.
\<close>

lemma replay_after_failed_write:
  "\<not> single_use (sw_Log (snd (saas_run (\<lambda>_. None) [EvAccess, EvRestart [] ''refresh-1'', EvAccess]
     (newSaaSToken (scripted (\<lambda>_. None)) ''u'' [] ''refresh-1'' ''t.json'' (sample_saas [True]), sample_saas [True]))))"
  by code_simp

end
