(* ===== verification/BotOps.thy ===== *)
theory BotOps
  imports BotForms GuildSync Saas
begin

text \<open>
  The state of the bot process and the small operations on it: staff and audit messages, the
  caches of the guild and of the admin list, the pending confirmations, the join burst signal and
  the reminder (modules/discordbot/ops.go and bot.go).

  The outside is the record \<open>env\<close>: the ticket repository and the member repository of the services
  (given the reading of the clock), the revenue service, the choice of a key when a loop visits a
  map, and Discord. The world \<open>'w\<close> holds all of it.
\<close>

section \<open>The environment\<close>

text \<open>
  \<open>dc_Guild\<close> fetches the guild and gives its owner; \<open>dc_Permissions\<close> says whether the permissions
  of the user in the channel include Administrator; \<open>dc_Send\<close> gives the channel and id of the new
  message, \<open>dc_Followup\<close> its id when there is a message. Calls whose result the code ignores give
  only the new world. \<open>dc_Panel\<close> reads the file of the member panel.
\<close>

record panelState =
  ps_ChannelID :: string
  ps_MessageID :: string
  ps_UpdatedAt :: instant

record 'w discord =
  dc_Session :: "'w session"
  dc_Builder :: "'w builder"
  dc_Now :: "'w \<Rightarrow> instant"
  dc_Guild :: "('w, string, string) sop"
  dc_GuildCount :: "('w, string, int) sop"
  dc_Permissions :: "string \<Rightarrow> string \<Rightarrow> ('w, string, bool) sop"
  dc_Tag :: "User \<Rightarrow> string"
  dc_Modal :: "message \<Rightarrow> 'w \<Rightarrow> 'w"
  dc_Ephemeral :: "string \<Rightarrow> 'w \<Rightarrow> 'w"
  dc_Defer :: "('w, string, unit) sop"
  dc_Edit :: "string \<Rightarrow> embed list \<Rightarrow> component list \<Rightarrow> 'w \<Rightarrow> 'w"
  dc_Followup :: "message \<Rightarrow> ('w, string, string option) sop"
  dc_Send :: "string \<Rightarrow> message \<Rightarrow> ('w, string, string \<times> string) sop"
  dc_EditMessage :: "string \<Rightarrow> string \<Rightarrow> message \<Rightarrow> ('w, string, unit) sop"
  dc_ThreadStart :: "string \<Rightarrow> ('w, string, string) sop"
  dc_ChannelDelete :: "string \<Rightarrow> 'w \<Rightarrow> 'w"
  dc_ChannelRename :: "string \<Rightarrow> string \<Rightarrow> 'w \<Rightarrow> 'w"
  dc_ThreadMemberAdd :: "string \<Rightarrow> string \<Rightarrow> 'w \<Rightarrow> 'w"
  dc_Panel :: "'w \<Rightarrow> panelState option"
  dc_SavePanel :: "panelState \<Rightarrow> ('w, string, unit) sop"

record 'w env =
  bx_GuildID :: string
  bx_Repo :: "instant \<Rightarrow> 'w repo"
  bx_Members :: "instant \<Rightarrow> 'w mrepo"
  bx_Saas :: "'w saas_io"
  bx_Finance :: "string \<Rightarrow> saasFinance option"
  bx_RevenueURL :: string
  bx_Range :: "string list \<Rightarrow> string"
  bx_Discord :: "'w discord"

abbreviation session_of :: "'w env \<Rightarrow> 'w session" where "session_of b \<equiv> dc_Session (bx_Discord b)"
abbreviation builder_of :: "'w env \<Rightarrow> 'w builder" where "builder_of b \<equiv> dc_Builder (bx_Discord b)"
abbreviation clock :: "'w env \<Rightarrow> 'w \<Rightarrow> instant" where "clock b \<equiv> dc_Now (bx_Discord b)"
abbreviation tickets_at :: "'w env \<Rightarrow> 'w \<Rightarrow> 'w repo" where "tickets_at b w \<equiv> bx_Repo b (clock b w)"
abbreviation members_at :: "'w env \<Rightarrow> 'w \<Rightarrow> 'w mrepo" where "members_at b w \<equiv> bx_Members b (clock b w)"

section \<open>The state of the bot\<close>

record pendingConfirm =
  pn_Kind :: string
  pn_TicketID :: string
  pn_ActorID :: string
  pn_MessageID :: string
  pn_Reference :: string
  pn_Expires :: instant

record Bot =
  bt_channelIDs :: "(string, string) gomap"
  bt_recentJoins :: "instant list"
  bt_confirms :: "(string, pendingConfirm) gomap"
  bt_reminderAt :: instant
  bt_saas :: "saasToken option"
  bt_guildCache :: "string option"
  bt_guildCacheAt :: instant
  bt_adminIDsList :: "string list option"
  bt_adminIDsAt :: instant
  bt_pending :: "string list"

definition chan_id :: "Bot \<Rightarrow> string \<Rightarrow> string" where
  "chan_id bt key = channel (bt_channelIDs bt) key"

definition onReady :: "'w env \<Rightarrow> Bot \<Rightarrow> 'w \<Rightarrow> Bot \<times> 'w" where
  "onReady b bt w = (case refreshChannels (builder_of b) (bt_channelIDs bt) w of (ids, w') \<Rightarrow> (bt\<lparr>bt_channelIDs := ids\<rparr>, w'))"

section \<open>Staff and audit messages\<close>

text \<open>\<open>time.RFC3339\<close> in UTC.\<close>

definition format_rfc3339 :: "instant \<Rightarrow> string" where
  "format_rfc3339 t = take (length (format_milli t) - 5) (format_milli t) @ ''Z''"

definition say :: "'w env \<Rightarrow> string \<Rightarrow> message \<Rightarrow> 'w \<Rightarrow> 'w" where
  "say b ch m w = snd (dc_Send (bx_Discord b) ch m w)"

definition audit :: "'w env \<Rightarrow> Bot \<Rightarrow> string \<Rightarrow> string \<Rightarrow> 'w \<Rightarrow> 'w" where
  "audit b bt ev content w =
     (let ch = chan_id bt ''audit-log''; ch = (if ch = [] then chan_id bt ''staff-log'' else ch) in
      if ch = [] then w
      else say b ch (no_message\<lparr>rd_Embeds := [no_embed\<lparr>eb_Title := ''audit '' @ [CHR 0xC2, CHR 0xB7] @ '' '' @ ev,
        eb_Description := content, eb_Color := 0x34495E\<rparr>]\<rparr>) w)"

definition staff :: "'w env \<Rightarrow> Bot \<Rightarrow> string \<Rightarrow> 'w \<Rightarrow> 'w" where
  "staff b bt content w =
     (let ch = chan_id bt ''staff-log'' in
      if ch = [] then w
      else say b ch (no_message\<lparr>rd_Content := ''`'' @ format_rfc3339 (clock b w) @ ''` '' @ content\<rparr>) w)"

section \<open>The guild, from the cache when fresh\<close>

definition guildCacheTTL :: duration where "guildCacheTTL = 2 * Minute"

definition guild :: "'w env \<Rightarrow> Bot \<Rightarrow> 'w \<Rightarrow> string option \<times> Bot \<times> 'w" where
  "guild b bt w =
     (if bt_guildCache bt \<noteq> None \<and> clock b w - bt_guildCacheAt bt < guildCacheTTL then (bt_guildCache bt, bt, w)
      else case dc_Guild (bx_Discord b) w of
        (Inl _, w1) \<Rightarrow> (bt_guildCache bt, bt, w1)
      | (Inr owner, w1) \<Rightarrow> (Some owner, bt\<lparr>bt_guildCache := Some owner, bt_guildCacheAt := clock b w1\<rparr>, w1))"

text \<open>The callers have checked that the member has a user.\<close>

definition isAdmin :: "'w env \<Rightarrow> Bot \<Rightarrow> User \<Rightarrow> string list \<Rightarrow> 'w \<Rightarrow> bool \<times> Bot \<times> 'w" where
  "isAdmin b bt u rs w =
     (case guild b bt w of
        (None, bt1, w1) \<Rightarrow> (False, bt1, w1)
      | (Some owner, bt1, w1) \<Rightarrow>
          if us_ID u = owner then (True, bt1, w1)
          else case dc_Permissions (bx_Discord b) (us_ID u) (chan_id bt1 ''open-a-ticket'') w1 of
            (Inr administrator, w2) \<Rightarrow> (administrator, bt1, w2)
          | (Inl _, w2) \<Rightarrow>
              (list_ex (\<lambda>i. case se_StateRole (session_of b) i w2 of None \<Rightarrow> False | Some r \<Rightarrow> ro_Administrator r) rs, bt1, w2))"

definition actor :: "'w env \<Rightarrow> Bot \<Rightarrow> User \<Rightarrow> string list \<Rightarrow> 'w \<Rightarrow> Actor \<times> Bot \<times> 'w" where
  "actor b bt u rs w =
     (case guild b bt w of
        (own, bt1, w1) \<Rightarrow>
          (let names1 = roleNames (session_of b) (Some \<lparr>dm_User = Some u, dm_Roles = rs\<rparr>) w1 in
           case isAdmin b bt1 u rs w1 of
             (adm, bt2, w2) \<Rightarrow>
               (\<lparr>ac_ID = us_ID u, ac_Username = us_Username u, ac_Tag = dc_Tag (bx_Discord b) u, ac_Roles = names1,
                 ac_IsAdmin = adm, ac_IsBot = False, ac_OwnerID = (case own of None \<Rightarrow> [] | Some o1 \<Rightarrow> o1),
                 ac_AvailableAdmins = []\<rparr>, bt2, w2)))"

fun admin_loop :: "'w env \<Rightarrow> Bot \<Rightarrow> DMember list \<Rightarrow> string list \<Rightarrow> 'w \<Rightarrow> string list \<times> Bot \<times> 'w" where
  "admin_loop b bt [] ids w = (ids, bt, w)"
| "admin_loop b bt (m # ms) ids w =
     (case dm_User m of
        None \<Rightarrow> admin_loop b bt ms ids w
      | Some u \<Rightarrow>
          if us_Bot u then admin_loop b bt ms ids w
          else case isAdmin b bt u (dm_Roles m) w of
            (adm, bt1, w1) \<Rightarrow> admin_loop b bt1 ms (if adm \<and> us_ID u \<notin> set ids then ids @ [us_ID u] else ids) w1)"

text \<open>A nil list is the empty list for the callers.\<close>

definition adminIDs :: "'w env \<Rightarrow> Bot \<Rightarrow> 'w \<Rightarrow> string list \<times> Bot \<times> 'w" where
  "adminIDs b bt w =
     (let cached = (case bt_adminIDsList bt of None \<Rightarrow> [] | Some ids \<Rightarrow> ids) in
      if bt_adminIDsList bt \<noteq> None \<and> clock b w - bt_adminIDsAt bt < guildCacheTTL then (cached, bt, w)
      else case guild b bt w of
        (None, bt1, w1) \<Rightarrow> (cached, bt1, w1)
      | (Some owner, bt1, w1) \<Rightarrow>
          (case se_GuildMembers (session_of b) [] 1000 w1 of
             (Inl _, w2) \<Rightarrow> (cached, bt1, w2)
           | (Inr ms, w2) \<Rightarrow>
               (case admin_loop b bt1 ms [owner] w2 of
                  (ids, bt2, w3) \<Rightarrow> (ids, bt2\<lparr>bt_adminIDsList := Some ids, bt_adminIDsAt := clock b w3\<rparr>, w3))))"

definition withAdmins :: "'w env \<Rightarrow> Bot \<Rightarrow> Actor \<Rightarrow> 'w \<Rightarrow> Actor \<times> Bot \<times> 'w" where
  "withAdmins b bt a w = (case adminIDs b bt w of (ids, bt1, w1) \<Rightarrow> (a\<lparr>ac_AvailableAdmins := ids\<rparr>, bt1, w1))"

text \<open>The set of keys in progress.\<close>

definition lock_key :: "Bot \<Rightarrow> string \<Rightarrow> bool \<times> Bot" where
  "lock_key bt key = (key \<notin> set (bt_pending bt), bt\<lparr>bt_pending := List.insert key (bt_pending bt)\<rparr>)"

definition unlock_key :: "Bot \<Rightarrow> string \<Rightarrow> Bot" where
  "unlock_key bt key = (if key \<noteq> [] then bt\<lparr>bt_pending := filter (\<lambda>k. k \<noteq> key) (bt_pending bt)\<rparr> else bt)"

section \<open>Pending confirmations\<close>

definition confirmTTL :: duration where "confirmTTL = 120 * Second"

definition confirmKey :: "string \<Rightarrow> string \<Rightarrow> string" where
  "confirmKey actorID ticketID = actorID @ '':'' @ ticketID"

text \<open>
  \<open>range\<close> visits a map in any order: \<open>victim\<close> (\<open>bx_Range\<close>) picks the key that the loop over a full map
  deletes.
\<close>

definition put_confirm :: "(string list \<Rightarrow> string) \<Rightarrow> instant \<Rightarrow> string \<Rightarrow> pendingConfirm \<Rightarrow>
    (string, pendingConfirm) gomap \<Rightarrow> (string, pendingConfirm) gomap" where
  "put_confirm victim now key c confirms =
     (let live = filter (\<lambda>(k, v). \<not> pn_Expires v < now) confirms;
          kept = (if 1000 \<le> length live then mdel live (victim (map fst live)) else live)
      in mput kept key c)"

definition putConfirm :: "'w env \<Rightarrow> Bot \<Rightarrow> string \<Rightarrow> pendingConfirm \<Rightarrow> 'w \<Rightarrow> Bot" where
  "putConfirm b bt key c w = bt\<lparr>bt_confirms := put_confirm (bx_Range b) (clock b w) key c (bt_confirms bt)\<rparr>"

definition take_confirm :: "instant \<Rightarrow> string \<Rightarrow> string \<Rightarrow> (string, pendingConfirm) gomap \<Rightarrow>
    pendingConfirm option \<times> (string, pendingConfirm) gomap" where
  "take_confirm now key messageID confirms =
     (case map_of confirms key of
        None \<Rightarrow> (None, confirms)
      | Some c \<Rightarrow>
          if pn_MessageID c \<noteq> messageID then (None, confirms)
          else (if pn_Expires c < now then None else Some c, mdel confirms key))"

definition takeConfirm :: "'w env \<Rightarrow> Bot \<Rightarrow> string \<Rightarrow> string \<Rightarrow> 'w \<Rightarrow> pendingConfirm option \<times> Bot" where
  "takeConfirm b bt key messageID w =
     (case take_confirm (clock b w) key messageID (bt_confirms bt) of (c, cs) \<Rightarrow> (c, bt\<lparr>bt_confirms := cs\<rparr>))"

section \<open>Bursts of joins and the reminder\<close>

definition reminderInterval :: duration where "reminderInterval = 5 * Minute"
definition reminderAfter :: duration where "reminderAfter = 30 * Minute"
definition reminderCooldown :: duration where "reminderCooldown = 2 * Hour"
definition raidWindow :: duration where "raidWindow = Minute"
definition raidThreshold :: nat where "raidThreshold = 8"

definition recent :: "instant list \<Rightarrow> instant \<Rightarrow> instant list" where
  "recent joins now = dropWhile (\<lambda>t. t < now - raidWindow) (joins @ [now])"

definition noteJoin :: "'w env \<Rightarrow> Bot \<Rightarrow> 'w \<Rightarrow> Bot \<times> 'w" where
  "noteJoin b bt w =
     (let bt1 = bt\<lparr>bt_recentJoins := recent (bt_recentJoins bt) (clock b w)\<rparr>;
          burst = length (bt_recentJoins bt1)
      in if burst < raidThreshold then (bt1, w)
         else (bt1, audit b bt1 ''security.raid_signal'' (''joins='' @ itoa (int burst))
           (staff b bt1 (''RAID SIGNAL: '' @ itoa (int burst) @ '' joins in the last minute (threshold '' @ itoa (int raidThreshold) @
             ''). Consider raising verification or pausing invites.'') w)))"

definition tickReminder :: "'w env \<Rightarrow> Bot \<Rightarrow> 'w \<Rightarrow> Bot \<times> 'w" where
  "tickReminder b bt w =
     (case ListOpenTickets (tickets_at b w) w of
        (Inl _, w1) \<Rightarrow> (bt, w1)
      | (Inr opn, w1) \<Rightarrow>
          (let now = clock b w1 in
           if bt_reminderAt bt \<noteq> zero_time \<and> now - bt_reminderAt bt < reminderCooldown then (bt, w1)
           else let count = length (filter (\<lambda>rec. NeedsReminder rec now) opn) in
             if count = 0 then (bt, w1)
             else let bt1 = bt\<lparr>bt_reminderAt := now\<rparr>; ch = chan_id bt1 ''staff-log'' in
               if ch = [] then (bt1, w1)
               else (bt1, say b ch (no_message\<lparr>rd_Content := ''Admin queue reminder: '' @ itoa (int count) @
                 '' unassigned ticket(s) have been waiting at least 30 minutes. Use /tickets. This is a snapshot, not a response-time promise.''\<rparr>) w1)))"

section \<open>The token for the revenue service\<close>

definition primeSaaSToken :: "'w env \<Rightarrow> Bot \<Rightarrow> 'w \<Rightarrow> Bot \<times> 'w" where
  "primeSaaSToken b bt w =
     (case bt_saas bt of
        None \<Rightarrow> (bt, w)
      | Some t \<Rightarrow>
          if \<not> canRotate t then (bt, w)
          else case Access (bx_Saas b) t w of ((r, t1), w1) \<Rightarrow> (bt\<lparr>bt_saas := Some t1\<rparr>, w1))"

end
