(* ===== verification/Bot.thy ===== *)
theory Bot
  imports BotOps
begin

text \<open>
  What the bot does on an interaction (modules/discordbot/interactions.go), the snapshots and
  member events of bot.go and the live member panel of members.go. A handler gives the state of
  the bot and the world afterwards; \<open>None\<close> stands for a panic or a loop that never ends (only the
  paging over the guild can do either). Log lines are not modelled.
\<close>

section \<open>Interactions\<close>

datatype option_value = OvString string | OvUser string | OvOther

text \<open>A modal carries its rows, each with the text inputs in it.\<close>

datatype interaction_data =
    ICommand string "(string \<times> option_value) list"
  | IComponent string "string list" string
  | IModal string "(string \<times> string) list list"
  | IOther

record interaction =
  ix_GuildID :: string
  ix_ChannelID :: string
  ix_Member :: "DMember option"
  ix_Data :: interaction_data

definition command_option_value :: "(string \<times> option_value) list \<Rightarrow> string \<Rightarrow> string" where
  "command_option_value opts n = (case find (\<lambda>(k, v). k = n \<and> v \<noteq> OvOther) opts of
     Some (_, OvString s) \<Rightarrow> s | Some (_, OvUser i) \<Rightarrow> i | _ \<Rightarrow> [])"

definition edit :: "'w env \<Rightarrow> string \<Rightarrow> 'w \<Rightarrow> 'w" where
  "edit b content w = dc_Edit (bx_Discord b) content [] [] w"

fun error_text :: "bot_error \<Rightarrow> string" where
  "error_text (EDiscord s) = s"
| "error_text (EStored NoRecord) = ''record not found''"
| "error_text (EStored (Fail s)) = s"
| "error_text (ETicket e) = Error e"
| "error_text (EText s) = s"

definition replyRecord :: "'w env \<Rightarrow> Record tres \<Rightarrow> 'w \<Rightarrow> 'w" where
  "replyRecord b r w =
     (case r of
        Inl e \<Rightarrow> edit b (Error e) w
      | Inr rec \<Rightarrow>
          let w1 = (if r_SummaryMsgID rec \<noteq> [] then
                snd (dc_EditMessage (bx_Discord b) (r_ThreadID rec) (r_SummaryMsgID rec)
                  (no_message\<lparr>rd_Embeds := [ticketSummary rec], rd_Components := ticketControls rec\<rparr>) w)
              else w)
          in edit b (''Saved **'' @ r_ID rec @ (''** '' @ [CHR 0xC2, CHR 0xB7] @ '' '') @ r_Status rec) w1)"

section \<open>Snapshots\<close>

definition count_tier :: "(string, int) gomap \<Rightarrow> string \<Rightarrow> int" where
  "count_tier m k = (case map_of m k of None \<Rightarrow> 0 | Some n \<Rightarrow> n)"

definition serverSnapshot :: "'w env \<Rightarrow> 'w \<Rightarrow> string \<times> 'w" where
  "serverSnapshot b w =
     (case MemberSnapshot (members_at b w) w of
        (Inl e, w1) \<Rightarrow> (error_text (EStored e), w1)
      | (Inr ms, w1) \<Rightarrow>
          (case SnapshotService (tickets_at b w1) w1 of
             (Inl e, w2) \<Rightarrow> (Error e, w2)
           | (Inr ts, w2) \<Rightarrow>
               (case dc_GuildCount (bx_Discord b) w2 of
                  (r, w3) \<Rightarrow>
                    (Join
                      [''Discord members: '' @ (case r of Inl _ \<Rightarrow> ''unavailable'' | Inr n \<Rightarrow> itoa n),
                       ''Stored members: '' @ itoa (ss_Members ms),
                       ''User / Buyer / Seller: '' @ itoa (count_tier (ss_Tiers ms) TierUser) @ '' / '' @
                         itoa (count_tier (ss_Tiers ms) TierBuyer) @ '' / '' @ itoa (count_tier (ss_Tiers ms) TierSeller),
                       ''Restricted: '' @ itoa (ss_Restricted ms),
                       ''Open tickets: '' @ itoa (sn_OpenTickets ts),
                       ''Tickets by status: '' @ countList (sn_Tickets ts)] [CHR 0x0A], w3))))"

definition revenueSnapshot :: "'w env \<Rightarrow> Bot \<Rightarrow> 'w \<Rightarrow> string \<times> Bot \<times> 'w" where
  "revenueSnapshot b bt w =
     (case SnapshotService (tickets_at b w) w of
        (Inl e, w1) \<Rightarrow> (Error e, bt, w1)
      | (Inr s, w1) \<Rightarrow>
          (let lines1 = [''Bot confirmed outgoing records: '' @ itoa (sn_Payments s)] @
                 (if sn_Payments s = 0 then [''No confirmed bot payments. Approval is not payment.''] else []) @
                 map (\<lambda>cur. cur @ '': '' @ FormatAmount (count_tier (sn_Totals s) cur) cur) (sortedKeys (sn_Totals s))
           in case saasRevenue (bx_Saas b) (bx_Finance b) (bx_RevenueURL b) (bt_saas bt) w1 of
                ((r, t), w2) \<Rightarrow>
                  (Join (lines1 @ [case r of Inl _ \<Rightarrow> ''SaaS revenue: unavailable'' | Inr x \<Rightarrow> x]) [CHR 0x0A],
                   bt\<lparr>bt_saas := t\<rparr>, w2)))"

section \<open>The live member panel\<close>

definition loadPanelState :: "'w env \<Rightarrow> 'w \<Rightarrow> panelState option" where
  "loadPanelState b w = (case dc_Panel (bx_Discord b) w of
     None \<Rightarrow> None | Some st \<Rightarrow> if ps_ChannelID st = [] \<or> ps_MessageID st = [] then None else Some st)"

definition post_panel :: "'w env \<Rightarrow> Bot \<Rightarrow> message \<Rightarrow> ('w, string, string) sop" where
  "post_panel b bt panel = sbind (dc_Send (bx_Discord b) (chan_id bt ''verification'') panel) (\<lambda>(ch, i) w.
     sbind (dc_SavePanel (bx_Discord b) \<lparr>ps_ChannelID = ch, ps_MessageID = i, ps_UpdatedAt = clock b w\<rparr>) (\<lambda>_.
       sret ''Member panel posted.'') w)"

definition publishMemberPanel :: "'w env \<Rightarrow> Bot \<Rightarrow> 'w \<Rightarrow> ((string, string) result \<times> 'w) option" where
  "publishMemberPanel b bt w =
     (case liveTierCounts (session_of b) w of
        None \<Rightarrow> None
      | Some (Inl e, w1) \<Rightarrow> Some (Inl e, w1)
      | Some (Inr None, w1) \<Rightarrow> None
      | Some (Inr (Some counts), w1) \<Rightarrow>
          (let panel = memberPanel counts in
           case loadPanelState b w1 of
             None \<Rightarrow> Some (post_panel b bt panel w1)
           | Some st \<Rightarrow>
               (case dc_EditMessage (bx_Discord b) (ps_ChannelID st) (ps_MessageID st) panel w1 of
                  (Inr _, w2) \<Rightarrow> Some (Inr ''Member panel updated.'',
                    snd (dc_SavePanel (bx_Discord b) (st\<lparr>ps_UpdatedAt := clock b w2\<rparr>) w2))
                | (Inl _, w2) \<Rightarrow> Some (post_panel b bt panel w2))))"

definition refreshMemberPanel :: "'w env \<Rightarrow> Bot \<Rightarrow> 'w \<Rightarrow> 'w option" where
  "refreshMemberPanel b bt w =
     (if loadPanelState b w = None then Some w else map_option snd (publishMemberPanel b bt w))"

section \<open>Commands\<close>

text \<open>The setup commands: the reply, the state and the world.\<close>

definition guildsync :: "'w env \<Rightarrow> Bot \<Rightarrow> 'w \<Rightarrow> string \<times> Bot \<times> 'w" where
  "guildsync b bt w =
     (case syncLaunchGuild (builder_of b) (bt_channelIDs bt) w of
        ((k, n, e), ids, w1) \<Rightarrow>
          ((case e of Some x \<Rightarrow> re_Text x
            | None \<Rightarrow> ''Guild layout synced. Created '' @ itoa k @ '' categories and '' @ itoa n @ '' channels. Nothing was deleted or overwritten.''),
           bt\<lparr>bt_channelIDs := ids\<rparr>, w1))"

definition automodsync :: "'w env \<Rightarrow> Bot \<Rightarrow> 'w \<Rightarrow> string \<times> 'w" where
  "automodsync b bt w =
     (case syncAutoMod (builder_of b) (bt_channelIDs bt) w of
        ((created1, skipped, unsupported, e), w1) \<Rightarrow>
          ((case e of Some x \<Rightarrow> re_Text x
            | None \<Rightarrow> ''AutoMod synced. Created '' @ itoa created1 @ '' rules, '' @ itoa skipped @ '' already existed.'' @
                (if unsupported \<noteq> [] then '' Discord refused '' @ itoa (int (length unsupported)) @ '' rule(s): '' @
                   Join unsupported '', '' @ ''. Those must be created by hand in Server Settings.'' else []) @
                '' Nothing was edited or deleted.''), w1))"

definition rolesync :: "'w env \<Rightarrow> 'w \<Rightarrow> string \<times> 'w" where
  "rolesync b w =
     (case syncLaunchRoles (builder_of b) w of
        ((n, e), w1) \<Rightarrow>
          ((case e of Some x \<Rightarrow> re_Text x
            | None \<Rightarrow> ''Launch roles synced. Created '' @ itoa n @ '' missing roles. Nothing was deleted.''), w1))"

text \<open>\<open>%v\<close> of a bool.\<close>

definition bool_text :: "bool \<Rightarrow> string" where
  "bool_text x = (if x then ''true'' else ''false'')"

definition whoami_text :: "Actor \<Rightarrow> string" where
  "whoami_text a = (let v = Whoami a in
     ''tier='' @ wh_tier v @ '' admin='' @ bool_text (wh_admin v) @ '' restricted='' @ bool_text (wh_restricted v))"

definition mutasi_text :: "OutgoingMutation list \<Rightarrow> string" where
  "mutasi_text rows = (if rows = [] then ''No outgoing records.''
     else Join (map (\<lambda>row. ''`'' @ om_PublicID row @ ''` '' @ om_Reference row @ '' '' @ om_Currency row @ '' '' @
       format_date (om_PaidAt row)) rows) [CHR 0x0A])"

definition lookup :: "'w env \<Rightarrow> string \<Rightarrow> 'w \<Rightarrow> string option \<times> 'w" where
  "lookup b targetID w =
     (case se_GuildMember (session_of b) targetID w of
        (Inl _, w1) \<Rightarrow> (Some ''That user is not in this server.'', w1)
      | (Inr m, w1) \<Rightarrow>
          (map_option (\<lambda>u. ''member '' @ us_Username u @ ('' '' @ [CHR 0xC2, CHR 0xB7] @ '' age '') @ FormatInt (accountAgeDays (session_of b) (Some u) w1) @
             (''d '' @ [CHR 0xC2, CHR 0xB7] @ '' roles '') @ Join (names (roleNames (session_of b) (Some m) w1)) '', '') (dm_User m), w1))"

text \<open>The commands that work on the ticket of the thread, once it is loaded and the opener excluded.\<close>

definition ticket_command :: "'w env \<Rightarrow> Bot \<Rightarrow> string \<Rightarrow> (string \<Rightarrow> string) \<Rightarrow> Actor \<Rightarrow> bool \<Rightarrow> Record \<Rightarrow> 'w \<Rightarrow> (Bot \<times> 'w) option" where
  "ticket_command b bt name opt a admin rec w =
     (if name = ''ticket-status'' then
        (if \<not> admin \<and> r_OpenerID rec \<noteq> ac_ID a then Some (bt, edit b (''Only this ticket'' @ [CHR 0x27] @ ''s opener or an admin can view its record.'') w)
         else Some (bt, dc_Edit (bx_Discord b) [] [ticketSummary rec] [] w))
      else if name = ''ticket-handoff'' then
        (case withAdmins b bt a w of
           (a1, bt1, w1) \<Rightarrow>
             (case HandoffTicket (tickets_at b w1) a1 (r_ID rec) (opt ''admin'') (opt ''reason'') (clock b w1) w1 of
                (r, w2) \<Rightarrow> Some (bt1, replyRecord b r w2)))
      else if name = ''ticket-resolution'' then
        (case ResolveTicket (tickets_at b w) a (r_ID rec) (opt ''note'') (clock b w) w of
           (r, w1) \<Rightarrow> Some (bt, replyRecord b r w1))
      else if name = ''seller-approve'' then
        (case se_GuildMember (session_of b) (r_OpenerID rec) w of
           (om, w1) \<Rightarrow>
             (let opener = (case om of Inl _ \<Rightarrow> None | Inr m \<Rightarrow> Some m) in
              case ApproveSellerTicket (tickets_at b w1) a (r_ID rec) (opt ''reason'') (roleNames (session_of b) opener w1) (clock b w1) w1 of
                (Inl e, w2) \<Rightarrow> Some (bt, replyRecord b (Inl e) w2)
              | (Inr new, w2) \<Rightarrow>
                  (case setTier (members_at b w2) (session_of b) (r_OpenerID rec) TierSeller [] w2 of
                     (Inl _, w3) \<Rightarrow> Some (bt, replyRecord b (Inr new) w3)
                   | (Inr _, w3) \<Rightarrow> map_option (\<lambda>w4. (bt, replyRecord b (Inr new) w4)) (refreshMemberPanel b bt w3))))
      else
        (case dc_Followup (bx_Discord b) (paidConfirm rec (opt ''reference'')) w of
           (Inr (Some i), w1) \<Rightarrow>
             Some (putConfirm b bt (confirmKey (ac_ID a) (r_ID rec))
               \<lparr>pn_Kind = ''paid'', pn_TicketID = r_ID rec, pn_ActorID = ac_ID a, pn_MessageID = i,
                pn_Reference = opt ''reference'', pn_Expires = clock b w1 + confirmTTL\<rparr> w1, w1)
         | (_, w1) \<Rightarrow> Some (bt, edit b ''Payment not saved. Confirmation could not be posted.'' w1)))"

definition thread_commands :: "string list" where
  "thread_commands = [''ticket-status'', ''ticket-handoff'', ''ticket-resolution'', ''seller-approve'', ''withdraw-paid'']"

text \<open>Post a panel in the channel of the command.\<close>

definition post :: "'w env \<Rightarrow> string \<Rightarrow> message \<Rightarrow> 'w \<Rightarrow> 'w" where
  "post b ch m w = say b ch m w"

definition handleCommand :: "'w env \<Rightarrow> Bot \<Rightarrow> interaction \<Rightarrow> string \<Rightarrow> (string \<times> option_value) list \<Rightarrow> Actor \<Rightarrow> bool \<Rightarrow> 'w \<Rightarrow> (Bot \<times> 'w) option" where
  "handleCommand b bt ix name opts a admin w =
     (let opt = command_option_value opts; say1 = (\<lambda>content w. Some (bt, edit b content w)) in
      if name \<in> set adminOnlyNames \<and> \<not> admin then say1 ''Admin only.'' w
      else if name = ''guildsync'' then (case guildsync b bt w of (reply, bt1, w1) \<Rightarrow> Some (bt1, edit b reply w1))
      else if name = ''automodsync'' then (case automodsync b bt w of (reply, w1) \<Rightarrow> say1 reply w1)
      else if name = ''rolesync'' then (case rolesync b w of (reply, w1) \<Rightarrow> say1 reply w1)
      else if name = ''panel'' then say1 ''Panel posted.'' (post b (ix_ChannelID ix) (ticketPanel\<lparr>rd_Mentions := None\<rparr>) w)
      else if name = ''rolepanel'' then say1 ''Role pickers posted.'' (post b (ix_ChannelID ix) regionPicker (post b (ix_ChannelID ix) languagePicker w))
      else if name = ''verifypanel'' then say1 ''Panel posted.'' (post b (ix_ChannelID ix) verifyPanel w)
      else if name = ''safety'' then say1 SafetyCopy w
      else if name = ''whoami'' then say1 (whoami_text a) w
      else if name = ''tickets'' then
        (case Queue (tickets_at b w) a 1 w of
           (Inl e, w1) \<Rightarrow> say1 (Error e) w1
         | (Inr None, w1) \<Rightarrow> None
         | (Inr (Some recs), w1) \<Rightarrow> say1 (formatQueue recs) w1)
      else if name = ''mutasi'' then
        (case Mutasi (tickets_at b w) a w of (Inl e, w1) \<Rightarrow> say1 (Error e) w1 | (Inr rows, w1) \<Rightarrow> say1 (mutasi_text rows) w1)
      else if name = ''memberpanel'' then
        (case publishMemberPanel b bt w of
           None \<Rightarrow> None
         | Some (Inl e, w1) \<Rightarrow> say1 (''Could not publish the member panel: '' @ e) w1
         | Some (Inr reply, w1) \<Rightarrow> say1 reply w1)
      else if name = ''areapanel'' then
        (let side = opt ''side'' in
         if side \<noteq> TierSeller \<and> side \<noteq> TierBuyer then say1 ''Choose either the Seller Area or the Buyer Area.'' w
         else say1 ''Panel posted.'' (post b (ix_ChannelID ix) (areaPanel side) w))
      else if name = ''membersync'' then
        (case reconcileTiers (members_at b w) (session_of b) w of
           None \<Rightarrow> None
         | Some (None, w1) \<Rightarrow> None
         | Some (Some (repaired, pruned, Some e), w1) \<Rightarrow> say1 (''Sync failed: '' @ error_text e) w1
         | Some (Some (repaired, pruned, None), w1) \<Rightarrow>
             (case refreshMemberPanel b bt w1 of None \<Rightarrow> None | Some w2 \<Rightarrow> say1 (reconcileSummary repaired pruned) w2))
      else if name = ''server'' then (case serverSnapshot b w of (reply, w1) \<Rightarrow> say1 reply w1)
      else if name = ''revenue'' then (case revenueSnapshot b bt w of (reply, bt1, w1) \<Rightarrow> Some (bt1, edit b reply w1))
      else if name = ''lookup'' then
        (case lookup b (opt ''member'') w of (None, w1) \<Rightarrow> None | (Some reply, w1) \<Rightarrow> say1 reply w1)
      else if name = ''testwelcome'' then say1 (''Welcome preview: read the rules, then Verify. '' @ disclaimer) w
      else if name \<in> set thread_commands then
        (case GetByThread (tickets_at b w) (ix_ChannelID ix) w of
           (Inl _, w1) \<Rightarrow> say1 ''Not a ticket thread.'' w1
         | (Inr rec, w1) \<Rightarrow>
             if r_OpenerID rec = ac_ID a \<and> name \<noteq> ''ticket-status'' then
               say1 ''You opened this ticket. Another admin must handle your case.'' w1
             else ticket_command b bt name opt a admin rec w1)
      else say1 ''Unknown command.'' w)"

section \<open>Buttons and menus\<close>

definition toggle_role :: "'w env \<Rightarrow> string \<Rightarrow> string list \<Rightarrow> string \<Rightarrow> 'w \<Rightarrow> string \<times> 'w" where
  "toggle_role b role held userID w =
     (case findRole (session_of b) role w of
        (None, w1) \<Rightarrow> (''Cannot assign **'' @ role @ ''**: role does not exist on this server yet.'', w1)
      | (Some found, w1) \<Rightarrow>
          if ro_ID found \<in> set held then
            (''Removed **'' @ role @ ''**'', snd (se_RoleRemove (session_of b) userID (ro_ID found) w1))
          else case se_RoleAdd (session_of b) userID (ro_ID found) w1 of
            (Inl _, w2) \<Rightarrow> (''Cannot assign **'' @ role @ ''**.'', w2)
          | (Inr _, w2) \<Rightarrow> (''Added **'' @ role @ ''**'', w2))"

definition verify_button :: "'w env \<Rightarrow> Bot \<Rightarrow> User \<Rightarrow> Actor \<Rightarrow> 'w \<Rightarrow> (Bot \<times> 'w) option" where
  "verify_button b bt u a w =
     (case Verify (members_at b w) (ac_ID a) (ac_Roles a) (accountAgeDays (session_of b) (Some u) w) w of
        (r, w1) \<Rightarrow>
          let action = (case r of Inl _ \<Rightarrow> [] | Inr d \<Rightarrow> vd_Action d);
              reason = (case r of Inl _ \<Rightarrow> [] | Inr d \<Rightarrow> vd_Reason d)
          in if action = ''verify'' then
               (case refreshMemberPanel b bt (snd (setTier (members_at b w1) (session_of b) (ac_ID a) TierBuyer (us_Username u) w1)) of
                  None \<Rightarrow> None
                | Some w2 \<Rightarrow> Some (bt, edit b ''You are now a **Buyer**. The Buyer Area is open to you; the Seller Area stays hidden until an admin approves a seller application.'' w2))
             else if action = ''already'' then Some (bt, edit b (alreadyVerifiedReply (tierLabel (ac_Roles a))) w1)
             else Some (bt, edit b (if reason = [] then ''Verification was not confirmed. Ask an admin to review your membership.'' else reason) w1))"

text \<open>A control of a ticket, once the ticket is loaded, the admin checked and the opener excluded.\<close>

definition ticket_control :: "'w env \<Rightarrow> Bot \<Rightarrow> string \<Rightarrow> string list \<Rightarrow> string \<Rightarrow> Actor \<Rightarrow> Record \<Rightarrow> 'w \<Rightarrow> (Bot \<times> 'w) option" where
  "ticket_control b bt action vals messageID a rec w =
     (let move = (\<lambda>bt dst w. case TransitionTicket (tickets_at b w) a (r_ID rec) dst (clock b w) w of (r, w1) \<Rightarrow> Some (bt, replyRecord b r w1)) in
      if action = ''confirmclose'' \<or> action = ''cancelclose'' \<or> action = ''confirmpaid'' \<or> action = ''cancelpaid'' then
        (case takeConfirm b bt (confirmKey (ac_ID a) (r_ID rec)) messageID w of
           (None, bt1) \<Rightarrow> Some (bt1, edit b ''This confirmation is no longer current. Use the latest prompt.'' w)
         | (Some prompt, bt1) \<Rightarrow>
             if action = ''cancelclose'' \<or> action = ''cancelpaid'' then Some (bt1, edit b ''Cancelled. The ticket is unchanged.'' w)
             else if action = ''confirmclose'' then move bt1 ''closed'' w
             else case RecordPayment (tickets_at b w) a (r_ID rec) (pn_Reference prompt) (clock b w) w of
               (Inl e, w1) \<Rightarrow> Some (bt1, replyRecord b (Inl e) w1)
             | (Inr None, w1) \<Rightarrow> None
             | (Inr (Some new), w1) \<Rightarrow> Some (bt1, replyRecord b (Inr new) w1))
      else if action = ''claim'' then
        (case ClaimTicket (tickets_at b w) a (r_ID rec) (clock b w) w of (r, w1) \<Rightarrow> Some (bt, replyRecord b r w1))
      else if action = ''status'' then
        (let opts = map (\<lambda>st. \<lparr>mo_Label = st_Label st, mo_Value = st_Key st, mo_Description = [], mo_Emoji = []\<rparr>)
               (NextStatuses (r_Type rec) (r_Workflow rec) (r_Status rec))
         in if opts = [] then Some (bt, edit b ''No transitions remain.'' w)
            else Some (bt, dc_Edit (bx_Discord b) (''Current status: **'' @ r_Status rec @ ''**. Only legal transitions are shown.'') []
              [ActionsRow [SelectMenu (''ticket:setstatus:'' @ r_ID rec) (''New status'' @ [CHR 0xE2, CHR 0x80, CHR 0xA6]) opts]] w))
      else if action = ''setstatus'' then
        (case vals of
           [dst] \<Rightarrow>
             if dst = ''closed'' then move bt ''closed'' w
             else if IsWithdrawal (r_Type rec) (r_Workflow rec) \<and> dst = ''approved'' then
               (case ApproveWithdrawalTicket (tickets_at b w) a (r_ID rec) (clock b w) w of (r, w1) \<Rightarrow> Some (bt, replyRecord b r w1))
             else move bt dst w
         | _ \<Rightarrow> Some (bt, edit b ''That transition is no longer available.'' w))
      else if action = ''close'' then
        (case dc_Followup (bx_Discord b) (closeConfirm rec) w of
           (Inr (Some i), w1) \<Rightarrow>
             Some (putConfirm b bt (confirmKey (ac_ID a) (r_ID rec))
               \<lparr>pn_Kind = ''close'', pn_TicketID = r_ID rec, pn_ActorID = ac_ID a, pn_MessageID = i,
                pn_Reference = [], pn_Expires = clock b w1 + confirmTTL\<rparr> w1, w1)
         | (_, w1) \<Rightarrow> Some (bt, edit b ''Close confirmation could not be posted.'' w1))
      else Some (bt, edit b ''That control is no longer active.'' w))"

definition handleComponent :: "'w env \<Rightarrow> Bot \<Rightarrow> interaction \<Rightarrow> string \<Rightarrow> string list \<Rightarrow> string \<Rightarrow> User \<Rightarrow> string list \<Rightarrow> Actor \<Rightarrow> bool \<Rightarrow> 'w \<Rightarrow> (Bot \<times> 'w) option" where
  "handleComponent b bt ix cid vals messageID u held a admin w =
     (if HasPrefix cid ''rolepick:'' then
        (case ResolvePickedRole cid of
           None \<Rightarrow> Some (bt, edit b ''That option is not available.'' w)
         | Some role \<Rightarrow> (case toggle_role b role held (ac_ID a) w of (reply, w1) \<Rightarrow> Some (bt, edit b reply w1)))
      else if cid = VerifyButtonID then verify_button b bt u a w
      else case SplitN CHR '':'' 3 cid of
        [p, action, i] \<Rightarrow>
          if p \<noteq> ''ticket'' then Some (bt, edit b ''That control is no longer active.'' w)
          else (case Get (tickets_at b w) i w of
             (Inl _, w1) \<Rightarrow> Some (bt, edit b ''This control does not belong to this ticket thread.'' w1)
           | (Inr rec, w1) \<Rightarrow>
               if r_ThreadID rec \<noteq> ix_ChannelID ix then Some (bt, edit b ''This control does not belong to this ticket thread.'' w1)
               else if \<not> admin then Some (bt, edit b ''Admin only.'' w1)
               else if r_OpenerID rec = ac_ID a then Some (bt, edit b ''You opened this ticket. Another admin must handle your case.'' w1)
               else ticket_control b bt action vals messageID a rec w1)
      | _ \<Rightarrow> Some (bt, edit b ''That control is no longer active.'' w))"

section \<open>Forms\<close>

definition modal_data :: "(string \<times> string) list list \<Rightarrow> (string, string) gomap" where
  "modal_data rows = foldl (\<lambda>d (k, v). mput d k v) [] (concat rows)"

definition add_members :: "'w env \<Rightarrow> string \<Rightarrow> string list \<Rightarrow> 'w \<Rightarrow> 'w" where
  "add_members b thread ids w = foldl (\<lambda>w i. dc_ThreadMemberAdd (bx_Discord b) thread i w) w ids"

definition handleModal :: "'w env \<Rightarrow> Bot \<Rightarrow> interaction \<Rightarrow> string \<Rightarrow> (string \<times> string) list list \<Rightarrow> Actor \<Rightarrow> 'w \<Rightarrow> (Bot \<times> 'w) option" where
  "handleModal b bt ix cid rows a w =
     (case TypeByKey (TrimPrefix cid ''ticket:modal:'') of
        None \<Rightarrow> Some (bt, edit b ''Unknown ticket type.'' w)
      | Some spec \<Rightarrow>
          let parent = chan_id bt ''open-a-ticket''; parent = (if parent = [] then ix_ChannelID ix else parent) in
          case dc_ThreadStart (bx_Discord b) parent w of
            (Inl _, w1) \<Rightarrow> Some (bt, edit b ''Could not create the ticket thread. Ask an admin to check permissions.'' w1)
          | (Inr thread, w1) \<Rightarrow>
              (case withAdmins b bt a w1 of
                 (a1, bt1, w2) \<Rightarrow>
                   (case Create (tickets_at b w2) a1 \<lparr>ci_Type = ty_Key spec, ci_Data = modal_data rows, ci_ThreadID = thread\<rparr> (clock b w2) of
                      None \<Rightarrow> None
                    | Some m \<Rightarrow>
                        (case m w2 of
                           (Inl e, w3) \<Rightarrow> Some (bt1, edit b (Error e) (dc_ChannelDelete (bx_Discord b) thread w3))
                         | (Inr rec, w3) \<Rightarrow>
                             (let w4 = dc_ThreadMemberAdd (bx_Discord b) thread (ac_ID a1) (dc_ChannelRename (bx_Discord b) thread (r_ID rec) w3);
                                  w5 = add_members b thread (filter (\<lambda>i. i \<noteq> ac_ID a1) (ac_AvailableAdmins a1)) w4;
                                  w6 = say b thread (no_message\<lparr>rd_Embeds := [ticketSummary rec], rd_Components := ticketControls rec,
                                         rd_Mentions := Some []\<rparr>) w5;
                                  w7 = edit b (''Ticket **'' @ r_ID rec @ ''** opened in <#'' @ thread @ ''>.'') w6
                              in Some (bt1, audit b bt1 ''ticket.create'' (r_ID rec @ '' by '' @ ac_ID a1) w7))))))"

section \<open>One interaction\<close>

text \<open>The type key that a control which opens a form asks for.\<close>

definition form_key :: "string \<Rightarrow> string list \<Rightarrow> string option" where
  "form_key cid vals =
     (if cid = ''ticket:open'' then Some (case vals of [v] \<Rightarrow> v | _ \<Rightarrow> [])
      else if HasPrefix cid ''ticket:request:'' then Some (TrimPrefix cid ''ticket:request:'')
      else None)"

definition respond_form :: "'w env \<Rightarrow> string \<Rightarrow> 'w \<Rightarrow> 'w" where
  "respond_form b key w = (case TypeByKey key of
     None \<Rightarrow> dc_Ephemeral (bx_Discord b) ''Unknown ticket type.'' w | Some t \<Rightarrow> dc_Modal (bx_Discord b) (ticketModal t) w)"

text \<open>The interactions that are answered at once.\<close>

fun quick :: "interaction_data \<Rightarrow> string option" where
  "quick (IComponent cid vals m) = form_key cid vals"
| "quick (ICommand name opts) = (if name = ''withdraw'' then Some ''withdraw'' else None)"
| "quick _ = None"

definition dispatch :: "'w env \<Rightarrow> Bot \<Rightarrow> interaction \<Rightarrow> User \<Rightarrow> string list \<Rightarrow> 'w \<Rightarrow> (Bot \<times> 'w) option" where
  "dispatch b bt ix u held w =
     (case actor b bt u held w of
        (a, bt1, w1) \<Rightarrow>
          let admin = IsTicketAdmin (ac_ID a) (ac_OwnerID a) False (ac_IsAdmin a) in
          case ix_Data ix of
            ICommand name opts \<Rightarrow> handleCommand b bt1 ix name opts a admin w1
          | IComponent cid vals i \<Rightarrow> handleComponent b bt1 ix cid vals i u held a admin w1
          | IModal cid rows \<Rightarrow> handleModal b bt1 ix cid rows a w1
          | IOther \<Rightarrow> Some (bt1, w1))"

definition onInteraction :: "'w env \<Rightarrow> Bot \<Rightarrow> interaction \<Rightarrow> 'w \<Rightarrow> (Bot \<times> 'w) option" where
  "onInteraction b bt ix w =
     (if ix_GuildID ix \<noteq> bx_GuildID b then Some (bt, dc_Ephemeral (bx_Discord b) ''Use this command in the configured server.'' w)
      else case quick (ix_Data ix) of
        Some key \<Rightarrow> Some (bt, respond_form b key w)
      | None \<Rightarrow>
          (case dc_Defer (bx_Discord b) w of
             (Inl _, w1) \<Rightarrow> Some (bt, w1)
           | (Inr _, w1) \<Rightarrow>
               (case ix_Member ix of
                  None \<Rightarrow> Some (bt, edit b ''Current human server membership could not be verified.'' w1)
                | Some m \<Rightarrow>
                    (case dm_User m of
                       None \<Rightarrow> Some (bt, edit b ''Current human server membership could not be verified.'' w1)
                     | Some u \<Rightarrow> dispatch b bt ix u (dm_Roles m) w1))))"

section \<open>Members coming and going\<close>

text \<open>The attached image is not modelled; \<open>ev_guild\<close> is the guild of the event.\<close>

definition welcome_message :: "User \<Rightarrow> message" where
  "welcome_message u = no_message\<lparr>rd_Content := ''<@'' @ us_ID u @ ''>'',
     rd_Embeds := [no_embed\<lparr>eb_Title := ''Welcome to Skill Issues'', eb_Color := 0x1ABC9C,
       eb_Description := ''<@'' @ us_ID u @ ''>'' @ [CHR 0x0A] @ ''Read the rules, then Verify to access the marketplace.'' @ [CHR 0x0A] @ SafetyCopy,
       eb_Footer := disclaimer\<rparr>],
     rd_Mentions := Some [us_ID u]\<rparr>"

definition onJoin :: "'w env \<Rightarrow> Bot \<Rightarrow> string \<Rightarrow> User option \<Rightarrow> 'w \<Rightarrow> Bot \<times> 'w" where
  "onJoin b bt ev_guild user w =
     (case user of
        None \<Rightarrow> (bt, w)
      | Some u \<Rightarrow>
          if ev_guild \<noteq> bx_GuildID b \<or> us_Bot u then (bt, w)
          else case noteJoin b bt (snd (setTier (members_at b w) (session_of b) (us_ID u) TierUser (us_Username u) w)) of
            (bt1, w1) \<Rightarrow>
              (let age = accountAgeDays (session_of b) (Some u) w1;
                   w2 = (if age < 7 then staff b bt1 (''New account joined: member '' @ us_ID u @ '' is '' @ itoa age @ ''d old. Watch first messages.'') w1 else w1);
                   ch = chan_id bt1 ''welcome'';
                   w3 = (if ch \<noteq> [] then say b ch (welcome_message u) w2 else w2)
               in (bt1, audit b bt1 ''member.join'' (''member '' @ us_ID u) w3)))"

definition onLeave :: "'w env \<Rightarrow> Bot \<Rightarrow> string \<Rightarrow> User option \<Rightarrow> 'w \<Rightarrow> 'w" where
  "onLeave b bt ev_guild user w =
     (case user of
        None \<Rightarrow> w
      | Some u \<Rightarrow>
          if ev_guild \<noteq> bx_GuildID b \<or> us_Bot u then w
          else let ch = chan_id bt ''goodbye'';
                   w1 = (if ch \<noteq> [] then say b ch (no_message\<lparr>rd_Embeds := [no_embed\<lparr>eb_Title := ''A member left'',
                     eb_Description := us_Username u @ '' left the server.'', eb_Color := 0x95A5A6\<rparr>]\<rparr>) w else w)
            in audit b bt ''member.leave'' (''member '' @ us_ID u) w1)"

end
