(* ===== verification/BotDesk.thy ===== *)
theory BotDesk
  imports Bot Desk
begin

text \<open>
  The bot over the ticket desk: whatever Discord, the member table, the files and the revenue
  service do, an interaction reaches the tickets by at most one request to the service, which the
  desk's specification allows. The locale \<open>quiet_bot\<close> states what separates the ticket tables from
  the rest of the world; it is interpreted on the world that has both.
\<close>

section \<open>Calls that leave the tickets alone\<close>

definition still :: "('w \<Rightarrow> 'c) \<Rightarrow> ('w \<Rightarrow> 'a \<times> 'w) \<Rightarrow> bool" where
  "still core m \<longleftrightarrow> (\<forall>w. core (snd (m w)) = core w)"

definition still_w :: "('w \<Rightarrow> 'c) \<Rightarrow> ('w \<Rightarrow> 'w) \<Rightarrow> bool" where
  "still_w core f \<longleftrightarrow> (\<forall>w. core (f w) = core w)"

lemma stillD: "still core m \<Longrightarrow> m w = (r, w') \<Longrightarrow> core w' = core w"
  unfolding still_def by (metis snd_conv)

lemma stillI: "(\<And>w r w'. m w = (r, w') \<Longrightarrow> core w' = core w) \<Longrightarrow> still core m"
  unfolding still_def by (metis prod.collapse)

lemma still_wD: "still_w core f \<Longrightarrow> core (f w) = core w"
  by (simp add: still_w_def)

definition quiet_session :: "('w \<Rightarrow> 'c) \<Rightarrow> 'w session \<Rightarrow> bool" where
  "quiet_session core se \<longleftrightarrow> still core (se_GuildRoles se) \<and> (\<forall>i n. still core (se_GuildMembers se i n)) \<and>
     (\<forall>i. still core (se_GuildMember se i)) \<and> (\<forall>i r. still core (se_RoleAdd se i r)) \<and> (\<forall>i r. still core (se_RoleRemove se i r))"

definition quiet_builder :: "('w \<Rightarrow> 'c) \<Rightarrow> 'w builder \<Rightarrow> bool" where
  "quiet_builder core bd \<longleftrightarrow> still core (bu_Roles bd) \<and> (\<forall>s. still core (bu_RoleCreate bd s)) \<and> still core (bu_Channels bd) \<and>
     (\<forall>n k t p. still core (bu_ChannelCreate bd n k t p)) \<and> still core (bu_Rules bd) \<and> (\<forall>r. still core (bu_RuleCreate bd r)) \<and>
     still core (bu_Guild bd)"

definition quiet_discord :: "('w \<Rightarrow> 'c) \<Rightarrow> 'w discord \<Rightarrow> bool" where
  "quiet_discord core dc \<longleftrightarrow> still core (dc_Guild dc) \<and> still core (dc_GuildCount dc) \<and> (\<forall>u c. still core (dc_Permissions dc u c)) \<and>
     (\<forall>m. still_w core (dc_Modal dc m)) \<and> (\<forall>m. still_w core (dc_Ephemeral dc m)) \<and> still core (dc_Defer dc) \<and>
     (\<forall>s es cs. still_w core (dc_Edit dc s es cs)) \<and> (\<forall>m. still core (dc_Followup dc m)) \<and> (\<forall>c m. still core (dc_Send dc c m)) \<and>
     (\<forall>c i m. still core (dc_EditMessage dc c i m)) \<and> (\<forall>c. still core (dc_ThreadStart dc c)) \<and> (\<forall>c. still_w core (dc_ChannelDelete dc c)) \<and>
     (\<forall>c n. still_w core (dc_ChannelRename dc c n)) \<and> (\<forall>c i. still_w core (dc_ThreadMemberAdd dc c i)) \<and> (\<forall>p. still core (dc_SavePanel dc p))"

definition quiet_members :: "('w \<Rightarrow> 'c) \<Rightarrow> 'w mrepo \<Rightarrow> bool" where
  "quiet_members core mp \<longleftrightarrow> (\<forall>m. still core (mr_Upsert mp m)) \<and> (\<forall>i. still core (mr_Delete mp i)) \<and> still core (mr_List mp) \<and>
     (\<forall>i. still core (mr_Find mp i)) \<and> still core (mr_Snapshot mp)"

definition quiet_saas :: "('w \<Rightarrow> 'c) \<Rightarrow> 'w saas_io \<Rightarrow> bool" where
  "quiet_saas core io \<longleftrightarrow> (\<forall>u t. still core (io_Refresh io u t)) \<and> (\<forall>u t. still core (io_Fetch io u t)) \<and>
     (\<forall>d. still core (io_MkdirAll io d)) \<and> (\<forall>p s. still core (io_WriteFile io p s)) \<and> (\<forall>s d. still core (io_Rename io s d))"

text \<open>The operations of the ticket repository that only read.\<close>

definition quiet_reads :: "('w \<Rightarrow> 'c) \<Rightarrow> 'w repo \<Rightarrow> bool" where
  "quiet_reads core rp \<longleftrightarrow> (\<forall>i. still core (rp_FindByPublicID rp i)) \<and> (\<forall>i. still core (rp_FindByThreadID rp i)) \<and>
     still core (rp_ListOpen rp) \<and> (\<forall>i. still core (rp_ListOutgoingBySeller rp i)) \<and> still core (rp_Snapshot rp)"

locale quiet_bot =
  fixes b :: "'w env" and core :: "'w \<Rightarrow> 'c"
  assumes session: "quiet_session core (session_of b)"
    and builder: "quiet_builder core (builder_of b)"
    and discord: "quiet_discord core (bx_Discord b)"
    and members: "\<And>t. quiet_members core (bx_Members b t)"
    and saas: "quiet_saas core (bx_Saas b)"
    and reads: "\<And>t. quiet_reads core (bx_Repo b t)"

context quiet_bot
begin

lemma session_still:
  "still core (se_GuildRoles (session_of b))" "still core (se_GuildMembers (session_of b) i n)"
  "still core (se_GuildMember (session_of b) i)" "still core (se_RoleAdd (session_of b) i r)"
  "still core (se_RoleRemove (session_of b) i r)"
  using session by (simp_all add: quiet_session_def)

lemma builder_still:
  "still core (bu_Roles (builder_of b))" "still core (bu_RoleCreate (builder_of b) s)" "still core (bu_Channels (builder_of b))"
  "still core (bu_ChannelCreate (builder_of b) n k t p)" "still core (bu_Rules (builder_of b))"
  "still core (bu_RuleCreate (builder_of b) r)" "still core (bu_Guild (builder_of b))"
  using builder by (simp_all add: quiet_builder_def)

lemma discord_still:
  "still core (dc_Guild (bx_Discord b))" "still core (dc_GuildCount (bx_Discord b))"
  "still core (dc_Permissions (bx_Discord b) u c)" "still core (dc_Defer (bx_Discord b))"
  "still core (dc_Followup (bx_Discord b) m)" "still core (dc_Send (bx_Discord b) c m)"
  "still core (dc_EditMessage (bx_Discord b) c i m)" "still core (dc_ThreadStart (bx_Discord b) c)"
  "still core (dc_SavePanel (bx_Discord b) p)"
  using discord by (simp_all add: quiet_discord_def)

lemma discord_call [simp]:
  "core (dc_Modal (bx_Discord b) m w) = core w" "core (dc_Ephemeral (bx_Discord b) s w) = core w"
  "core (dc_Edit (bx_Discord b) s es cs w) = core w" "core (dc_ChannelDelete (bx_Discord b) c w) = core w"
  "core (dc_ChannelRename (bx_Discord b) c n w) = core w" "core (dc_ThreadMemberAdd (bx_Discord b) c i w) = core w"
  using discord by (simp_all add: quiet_discord_def still_w_def)

lemma members_still:
  "still core (mr_Upsert (bx_Members b t) m)" "still core (mr_Delete (bx_Members b t) i)" "still core (mr_List (bx_Members b t))"
  "still core (mr_Find (bx_Members b t) i)" "still core (mr_Snapshot (bx_Members b t))"
  using members by (simp_all add: quiet_members_def)

lemma saas_still:
  "still core (io_Refresh (bx_Saas b) u t)" "still core (io_Fetch (bx_Saas b) u t)" "still core (io_MkdirAll (bx_Saas b) d)"
  "still core (io_WriteFile (bx_Saas b) p s)" "still core (io_Rename (bx_Saas b) src d)"
  using saas by (simp_all add: quiet_saas_def)

lemma reads_still:
  "still core (rp_FindByPublicID (bx_Repo b t) i)" "still core (rp_FindByThreadID (bx_Repo b t) i)"
  "still core (rp_ListOpen (bx_Repo b t))" "still core (rp_ListOutgoingBySeller (bx_Repo b t) i)" "still core (rp_Snapshot (bx_Repo b t))"
  using reads by (simp_all add: quiet_reads_def)

lemmas kept = session_still [THEN stillD] builder_still [THEN stillD] discord_still [THEN stillD]
  members_still [THEN stillD] saas_still [THEN stillD] reads_still [THEN stillD]

section \<open>Combinators\<close>

lemma still_sret [simp]: "still core (sret x)"
  by (simp add: still_def)

lemma still_sfail [simp]: "still core (sfail e)"
  by (simp add: still_def)

lemma still_sbind:
  assumes "still core m" and "\<And>x. still core (f x)"
  shows "still core (sbind m f)"
proof (rule stillI)
  fix w r w'
  assume "sbind m f w = (r, w')"
  then show "core w' = core w"
  proof (cases rule: sbind_cases)
    case (fail e)
    then show ?thesis using stillD [OF assms(1)] by blast
  next
    case (step x s1)
    then show ?thesis using stillD [OF assms(1) step(1)] stillD [OF assms(2) step(2)] by simp
  qed
qed

lemma still_raise: "still core m \<Longrightarrow> still core (raise f m)"
  by (rule stillI) (auto simp: raise_def split: prod.splits dest: stillD)

lemma still_if: "still core m \<Longrightarrow> still core n \<Longrightarrow> still core (if c then m else n)"
  by simp

section \<open>Roles and members\<close>

lemma findRole_still: "still core (findRole (session_of b) name)"
  by (rule stillI) (auto simp: findRole_def split: prod.splits sum.splits dest: kept)

lemma remove_roles_core: "core (remove_roles (session_of b) u ns w) = core w"
proof (induction ns arbitrary: w)
  case (Cons n ns)
  obtain r w1 where f: "findRole (session_of b) n w = (r, w1)" by (metis surj_pair)
  note c = stillD [OF findRole_still f]
  show ?case
  proof (cases r)
    case (Some role)
    obtain q w2 where "se_RoleRemove (session_of b) u (ro_ID role) w1 = (q, w2)" by (metis surj_pair)
    with f Some c kept(5) Cons.IH show ?thesis by simp
  qed (use f c Cons.IH in simp)
qed simp

lemma exclusiveTier_still: "still core (exclusiveTier (session_of b) u target)"
  unfolding exclusiveTier_def
proof (intro still_sbind still_raise session_still stillI)
  fix m w r w'
  assume a: "(case ExclusiveGrant (names (roleNames (session_of b) (Some m) w)) target of None \<Rightarrow> (Inl (EText ''unknown tier''), w)
     | Some (add, remove) \<Rightarrow>
         (case findRole (session_of b) add (remove_roles (session_of b) u remove w) of
            (None, w1) \<Rightarrow> (Inl (EText (''role '' @ add @ '' missing'')), w1)
          | (Some role, w1) \<Rightarrow> raise EDiscord (se_RoleAdd (session_of b) u (ro_ID role)) w1)) = (r, w')"
  show "core w' = core w"
  proof (cases "ExclusiveGrant (names (roleNames (session_of b) (Some m) w)) target")
    case None
    with a show ?thesis by simp
  next
    case (Some p)
    obtain add remove where p: "p = (add, remove)" by (cases p)
    obtain q w1 where f: "findRole (session_of b) add (remove_roles (session_of b) u remove w) = (q, w1)" by (metis surj_pair)
    have c: "core w1 = core w" using stillD [OF findRole_still f] remove_roles_core by simp
    show ?thesis
    proof (cases q)
      case None
      with a Some p f c show ?thesis by simp
    next
      case (Some role)
      with a \<open>ExclusiveGrant _ _ = Some p\<close> p f have "raise EDiscord (se_RoleAdd (session_of b) u (ro_ID role)) w1 = (r, w')" by simp
      from stillD [OF still_raise [OF session_still(4)] this] c show ?thesis by simp
    qed
  qed
qed

lemma Upsert_still: "still core (Upsert (bx_Members b t) i n ti ag re)"
  unfolding MemberService.Upsert_def by (rule members_still)

lemma setTier_still: "still core (setTier (bx_Members b t) (session_of b) u target name)"
  unfolding setTier_def
proof (intro still_sbind still_raise session_still exclusiveTier_still stillI)
  fix m w r w'
  assume a: "(let age = accountAgeDays (session_of b) (dm_User m) w in
      case dm_User m of None \<Rightarrow> (Inl (EText (''member '' @ u @ '' has no user'')), w)
      | Some us \<Rightarrow> let username = if name = [] then us_Username us else name in
          sbind (raise EStored (Upsert (bx_Members b t) u username target age (Restricted (roleNames (session_of b) (Some m) w)))) (\<lambda>_. sret ()) w) = (r, w')"
  show "core w' = core w"
  proof (cases "dm_User m")
    case None
    with a show ?thesis by (simp add: Let_def)
  next
    case (Some us)
    with a obtain n ag re where run: "sbind (raise EStored (Upsert (bx_Members b t) u n target ag re)) (\<lambda>_. sret ()) w = (r, w')"
      by (auto simp: Let_def)
    have "still core (sbind (raise EStored (Upsert (bx_Members b t) u n target ag re)) (\<lambda>_. sret ()))"
      by (intro still_sbind still_raise Upsert_still still_sret)
    from stillD [OF this run] show ?thesis .
  qed
qed

lemma guild_pages_keep:
  assumes "guild_pages se after out w = Some x"
  shows "(\<forall>i n. still core (se_GuildMembers se i n)) \<longrightarrow> core (snd x) = core w"
proof (rule guild_pages.raw_induct [where P = "\<lambda>se after out w x. (\<forall>i n. still core (se_GuildMembers se i n)) \<longrightarrow> core (snd x) = core w", OF _ assms])
  fix gp :: "'w session \<Rightarrow> string \<Rightarrow> DMember list \<Rightarrow> 'w \<Rightarrow> ((string, DMember list option) result \<times> 'w) option" and se after out w x
  assume IH: "\<And>se after out w x. gp se after out w = Some x \<Longrightarrow> (\<forall>i n. still core (se_GuildMembers se i n)) \<longrightarrow> core (snd x) = core w"
    and run: "(case se_GuildMembers se after 1000 w of
        (Inl e, w') \<Rightarrow> Some (Inl e, w')
      | (Inr page, w') \<Rightarrow>
          (let out' = out @ page in
           if length page < 1000 then Some (Inr (Some out'), w')
           else (case dm_User (last page) of
             None \<Rightarrow> Some (Inr None, w')
           | Some u \<Rightarrow> gp se (us_ID u) out' w'))) = Some x"
  show "(\<forall>i n. still core (se_GuildMembers se i n)) \<longrightarrow> core (snd x) = core w"
  proof
    assume q: "\<forall>i n. still core (se_GuildMembers se i n)"
    obtain r w1 where p: "se_GuildMembers se after 1000 w = (r, w1)" by (metis surj_pair)
    have c: "core w1 = core w" by (rule stillD [OF q [rule_format] p])
    show "core (snd x) = core w"
    proof (cases r)
      case (Inl e)
      with run p c show ?thesis by auto
    next
      case (Inr page)
      show ?thesis
      proof (cases "length page < 1000 \<or> dm_User (last page) = None")
        case True
        with run p c Inr show ?thesis by (auto simp: Let_def split: if_splits option.splits)
      next
        case False
        then obtain u where "dm_User (last page) = Some u" by auto
        with False run p Inr have "gp se (us_ID u) (out @ page) w1 = Some x" by (simp add: Let_def)
        from IH [OF this] q c show ?thesis by simp
      qed
    qed
  qed
qed

lemma guildMembers_core: "guildMembers (session_of b) w = Some (r, w') \<Longrightarrow> core w' = core w"
  using guild_pages_keep session_still(2) by (fastforce simp: guildMembers_def)

lemma liveTierCounts_core: "liveTierCounts (session_of b) w = Some (r, w') \<Longrightarrow> core w' = core w"
  by (auto simp: liveTierCounts_def split: option.splits prod.splits sum.splits dest: kept dest!: guildMembers_core)

lemma repair_loop_still: "still core (repair_loop (bx_Members b t) fx ms n)"
proof (rule stillI)
  fix w r w'
  show "repair_loop (bx_Members b t) fx ms n w = (r, w') \<Longrightarrow> core w' = core w"
  proof (induction ms arbitrary: n w)
    case (Cons m ms)
    show ?case
    proof (cases "fx m")
      case (Some p)
      obtain i x where p: "p = (i, x)" by (cases p)
      obtain q w1 where u: "Upsert (bx_Members b t) i (in_Username x) (in_Tier x) (in_Age x) (in_Restricted x) w = (q, w1)" by (metis surj_pair)
      note c = stillD [OF Upsert_still u]
      show ?thesis using Cons.prems Cons.IH [of "n + 1" w1] Some p u c by (cases q) auto
    qed (use Cons in simp)
  qed simp
qed

lemma prune_loop_still: "still core (prune_loop (bx_Members b t) present1 is n)"
proof (rule stillI)
  fix w r w'
  show "prune_loop (bx_Members b t) present1 is n w = (r, w') \<Longrightarrow> core w' = core w"
  proof (induction "is" arbitrary: n w)
    case (Cons i "is")
    obtain q w1 where u: "DeleteMember (bx_Members b t) i w = (q, w1)" by (metis surj_pair)
    then have c: "core w1 = core w" using kept by (auto simp: DeleteMember_def)
    show ?case using Cons.prems Cons.IH [of n w] Cons.IH [of "n + 1" w1] u c by (cases q) (auto split: if_splits)
  qed simp
qed

lemma reconcile_with_still: "still core (reconcile_with (bx_Members b t) ag stored roles ms)"
  by (rule stillI) (auto simp: reconcile_with_def split: prod.splits option.splits dest!: stillD [OF repair_loop_still] stillD [OF prune_loop_still])

lemma ListMembers_still: "still core (ListMembers (bx_Members b t))"
  unfolding ListMembers_def by (rule members_still)

lemma reconcileTiers_core: "reconcileTiers (bx_Members b t) (session_of b) w = Some (r, w') \<Longrightarrow> core w' = core w"
  by (auto simp: reconcileTiers_def split: option.splits prod.splits sum.splits
    dest!: stillD [OF ListMembers_still] kept(1) guildMembers_core stillD [OF reconcile_with_still])

section \<open>Setup commands\<close>

lemma refreshChannels_still: "still core (refreshChannels (builder_of b) ids)"
  by (rule stillI) (auto simp: refreshChannels_def split: prod.splits sum.splits dest!: kept)

lemma role_loop_still: "still core (role_loop (builder_of b) specs have1 n)"
proof (rule stillI)
  fix w r w'
  show "role_loop (builder_of b) specs have1 n w = (r, w') \<Longrightarrow> core w' = core w"
    by (induction specs arbitrary: have1 n w) (auto split: if_splits prod.splits sum.splits dest!: kept(7))
qed

lemma channel_loop_still: "still core (channel_loop (builder_of b) parent cs have1 n)"
proof (rule stillI)
  fix w r w'
  show "channel_loop (builder_of b) parent cs have1 n w = (r, w') \<Longrightarrow> core w' = core w"
    by (induction cs arbitrary: have1 n w) (auto simp: Let_def split: if_splits prod.splits sum.splits dest!: kept(9))
qed

lemma rule_loop_still: "still core (rule_loop (builder_of b) ids ex specs have1 n k u)"
proof (rule stillI)
  fix w r w'
  show "rule_loop (builder_of b) ids ex specs have1 n k u w = (r, w') \<Longrightarrow> core w' = core w"
    by (induction specs arbitrary: have1 n k u w) (auto simp: Let_def split: if_splits prod.splits sum.splits dest!: kept(11))
qed

lemma category_loop_still: "still core (category_loop (builder_of b) specs catID have1 k n)"
proof (rule stillI)
  fix w r w'
  show "category_loop (builder_of b) specs catID have1 k n w = (r, w') \<Longrightarrow> core w' = core w"
    by (induction specs arbitrary: catID have1 k n w)
      (auto simp: Let_def split: if_splits prod.splits sum.splits option.splits dest!: kept(9) stillD [OF channel_loop_still])
qed

lemma syncLaunchRoles_still: "still core (syncLaunchRoles (builder_of b))"
  by (rule stillI) (auto simp: syncLaunchRoles_def split: prod.splits sum.splits dest!: kept(6) stillD [OF role_loop_still])

lemma syncLaunchGuild_core: "syncLaunchGuild (builder_of b) ids w = (r, ids', w') \<Longrightarrow> core w' = core w"
  by (auto simp: syncLaunchGuild_def Let_def split: prod.splits sum.splits option.splits
    dest!: kept(8) stillD [OF category_loop_still] stillD [OF refreshChannels_still])

lemma syncAutoMod_still: "still core (syncAutoMod (builder_of b) ids)"
  by (rule stillI) (auto simp: syncAutoMod_def staffRoleIDs_def Let_def split: prod.splits sum.splits
    dest!: kept(6,10) stillD [OF rule_loop_still])

section \<open>The revenue service\<close>

lemma persist_still: "still core (persist (bx_Saas b) t)"
  unfolding persist_def Let_def by (intro still_if still_sret still_sfail still_sbind saas_still)

lemma rotateLocked_core: "rotateLocked (bx_Saas b) t w = (r, w') \<Longrightarrow> core w' = core w"
  by (auto simp: rotateLocked_def Let_def split: if_splits prod.splits sum.splits option.splits dest!: kept(27) stillD [OF persist_still])

lemma Access_core: "Access (bx_Saas b) t w = (r, w') \<Longrightarrow> core w' = core w"
  by (auto simp: Access_def split: if_splits prod.splits option.splits dest!: rotateLocked_core)

lemma saas_loop_core: "saas_loop (bx_Saas b) url n t w = (r, w') \<Longrightarrow> core w' = core w"
proof (induction "1 - n" arbitrary: n t w r w' rule: less_induct)
  case less
  obtain q t1 w1 where a: "Access (bx_Saas b) t w = ((q, t1), w1)" by (metis surj_pair)
  note ca = Access_core [OF a]
  show ?case
  proof (cases q)
    case (Inl e)
    with a less.prems ca show ?thesis by (auto simp: saas_loop.simps [of _ _ n t])
  next
    case (Inr token)
    obtain f w2 where f: "io_Fetch (bx_Saas b) url token w1 = (f, w2)" by (metis surj_pair)
    note cf = kept(28) [OF f]
    have step: "(r, w') = (case f of Inl e \<Rightarrow> ((Inl e, t1), w2) | Inr (x, status) \<Rightarrow>
        if status = 200 then ((Inr x, t1), w2)
        else if status = 401 \<and> n = 0 \<and> canRotate t1 then saas_loop (bx_Saas b) url (n + 1) (Invalidate t1) w2
        else ((Inl (''status '' @ FormatInt status @ '' from '' @ url), t1), w2))"
      using less.prems a Inr f by (simp add: saas_loop.simps [of _ _ n t] split: sum.splits)
    show ?thesis
    proof (cases "\<exists>x. f = Inr (x, 401) \<and> n = 0 \<and> canRotate t1")
      case True
      with step have "saas_loop (bx_Saas b) url (n + 1) (Invalidate t1) w2 = (r, w')" by auto
      from less.hyps [OF _ this] True ca cf show ?thesis by simp
    next
      case False
      with step ca cf show ?thesis by (auto split: sum.splits prod.splits if_splits)
    qed
  qed
qed

lemma saasRevenue_core: "saasRevenue (bx_Saas b) dec1 url t w = (r, w') \<Longrightarrow> core w' = core w"
  by (auto simp: saasRevenue_def saasGet_def split: option.splits if_splits prod.splits sum.splits dest!: saas_loop_core)

section \<open>The helpers of the bot\<close>

lemma say_core [simp]: "core (say b ch m w) = core w"
  unfolding say_def by (metis discord_still(6) still_def)

lemma audit_core [simp]: "core (audit b bt ev x w) = core w"
  by (simp add: audit_def Let_def)

lemma staff_core [simp]: "core (staff b bt x w) = core w"
  by (simp add: staff_def Let_def)

lemma edit_core [simp]: "core (edit b x w) = core w"
  by (simp add: edit_def)

lemma replyRecord_core [simp]: "core (replyRecord b r w) = core w"
proof -
  have "core (snd (dc_EditMessage (bx_Discord b) c i m w)) = core w" for c i m w using discord_still(7) by (simp add: still_def)
  then show ?thesis by (simp add: replyRecord_def Let_def split: sum.split)
qed

lemma guild_core: "guild b bt w = (r, bt', w') \<Longrightarrow> core w' = core w \<and> bt_confirms bt' = bt_confirms bt"
  by (auto simp: guild_def split: if_splits prod.splits sum.splits dest!: kept(13))

lemma isAdmin_core: "isAdmin b bt u rs w = (r, bt', w') \<Longrightarrow> core w' = core w \<and> bt_confirms bt' = bt_confirms bt"
  by (auto simp: isAdmin_def split: if_splits prod.splits sum.splits option.splits dest!: kept(15) guild_core)

lemma actor_core: "actor b bt u rs w = (a, bt', w') \<Longrightarrow> core w' = core w \<and> bt_confirms bt' = bt_confirms bt \<and> ac_ID a = us_ID u \<and> \<not> ac_IsBot a"
  by (auto simp: actor_def Let_def split: prod.splits dest!: guild_core isAdmin_core)

lemma admin_loop_core: "admin_loop b bt ms ids w = (r, bt', w') \<Longrightarrow> core w' = core w \<and> bt_confirms bt' = bt_confirms bt"
proof (induction ms arbitrary: bt ids w)
  case (Cons m ms)
  show ?case
  proof (cases "dm_User m")
    case (Some u)
    obtain ad bt1 w1 where i: "isAdmin b bt u (dm_Roles m) w = (ad, bt1, w1)" by (metis surj_pair)
    show ?thesis using Cons.prems Some i isAdmin_core [OF i] Cons.IH [of bt _ w] Cons.IH [of bt1 _ w1]
      by (auto split: if_splits)
  qed (use Cons in simp)
qed simp

lemma adminIDs_core: "adminIDs b bt w = (r, bt', w') \<Longrightarrow> core w' = core w \<and> bt_confirms bt' = bt_confirms bt"
  by (auto simp: adminIDs_def Let_def split: if_splits prod.splits sum.splits option.splits dest!: guild_core kept(2) admin_loop_core)

lemma withAdmins_core: "withAdmins b bt a w = (a', bt', w') \<Longrightarrow> core w' = core w \<and> bt_confirms bt' = bt_confirms bt \<and>
    ac_ID a' = ac_ID a \<and> ac_IsBot a' = ac_IsBot a"
  by (auto simp: withAdmins_def split: prod.splits dest!: adminIDs_core)

lemma post_panel_still: "still core (post_panel b bt panel)"
  unfolding post_panel_def
proof (rule still_sbind [OF discord_still(6)])
  fix x :: "string \<times> string"
  obtain ch i where x: "x = (ch, i)" by (cases x)
  show "still core (case x of (ch, i) \<Rightarrow> \<lambda>w. sbind (dc_SavePanel (bx_Discord b) \<lparr>ps_ChannelID = ch, ps_MessageID = i, ps_UpdatedAt = clock b w\<rparr>)
      (\<lambda>_. sret ''Member panel posted.'') w)"
  proof (rule stillI)
    fix w r w'
    assume "(case x of (ch, i) \<Rightarrow> \<lambda>w. sbind (dc_SavePanel (bx_Discord b) \<lparr>ps_ChannelID = ch, ps_MessageID = i, ps_UpdatedAt = clock b w\<rparr>)
      (\<lambda>_. sret ''Member panel posted.'') w) w = (r, w')"
    then obtain p where "sbind (dc_SavePanel (bx_Discord b) p) (\<lambda>_. sret ''Member panel posted.'') w = (r, w')" by (auto simp: x)
    from stillD [OF still_sbind [OF discord_still(9) still_sret] this] show "core w' = core w" .
  qed
qed

lemma publishMemberPanel_core: "publishMemberPanel b bt w = Some (r, w') \<Longrightarrow> core w' = core w"
proof -
  have save: "core (snd (dc_SavePanel (bx_Discord b) p w)) = core w" for p w using discord_still(9) by (simp add: still_def)
  show "publishMemberPanel b bt w = Some (r, w') \<Longrightarrow> core w' = core w"
    by (auto simp: publishMemberPanel_def Let_def save split: option.splits prod.splits sum.splits
      dest!: liveTierCounts_core stillD [OF post_panel_still] kept(19))
qed

lemma refreshMemberPanel_core: "refreshMemberPanel b bt w = Some w' \<Longrightarrow> core w' = core w"
  by (auto simp: refreshMemberPanel_def split: if_splits dest!: publishMemberPanel_core)

lemma MemberSnapshot_still: "still core (MemberSnapshot (bx_Members b t))"
  unfolding MemberSnapshot_def by (rule members_still)

lemma SnapshotService_still: "still core (SnapshotService (bx_Repo b t))"
  unfolding SnapshotService_def by (rule reads_still)

lemma serverSnapshot_core: "serverSnapshot b w = (r, w') \<Longrightarrow> core w' = core w"
  by (auto simp: serverSnapshot_def split: prod.splits sum.splits dest!: stillD [OF MemberSnapshot_still] stillD [OF SnapshotService_still] kept(14))

lemma revenueSnapshot_core: "revenueSnapshot b bt w = (r, bt', w') \<Longrightarrow> core w' = core w \<and> bt_confirms bt' = bt_confirms bt"
  by (auto simp: revenueSnapshot_def Let_def split: prod.splits sum.splits dest!: stillD [OF SnapshotService_still] saasRevenue_core)

lemma lookup_core: "lookup b i w = (r, w') \<Longrightarrow> core w' = core w"
  by (auto simp: lookup_def split: prod.splits sum.splits dest!: kept(3))

lemma toggle_role_core: "toggle_role b role held u w = (r, w') \<Longrightarrow> core w' = core w"
proof -
  have rm: "core (snd (se_RoleRemove (session_of b) i x w)) = core w" for i x w using session_still(5) by (simp add: still_def)
  show "toggle_role b role held u w = (r, w') \<Longrightarrow> core w' = core w"
    by (auto simp: toggle_role_def rm split: prod.splits sum.splits option.splits if_splits dest!: stillD [OF findRole_still] kept(4))
qed

lemma Verify_still: "still core (Verify (bx_Members b t) i rs ag)"
  unfolding Verify_def Let_def by (intro still_if still_sret still_sbind Upsert_still)

lemma verify_button_core: "verify_button b bt u a w = Some (bt', w') \<Longrightarrow> core w' = core w \<and> bt' = bt"
proof -
  have st: "core (snd (setTier (bx_Members b t) (session_of b) i x n w)) = core w" for t i x n w using setTier_still by (simp add: still_def)
  show "verify_button b bt u a w = Some (bt', w') \<Longrightarrow> core w' = core w \<and> bt' = bt"
    by (auto simp: verify_button_def Let_def st split: prod.splits sum.splits option.splits if_splits
      dest!: stillD [OF Verify_still] refreshMemberPanel_core)
qed

end

end
