(* ===== verification/BotProcess.thy ===== *)
theory BotProcess
  imports Boot BotDesk
begin

text \<open>
  The life of a bot process (modules/discordbot: \<open>New\<close>, \<open>Open\<close>, \<open>Close\<close>, \<open>GatewayStatus\<close>, the reminder
  loop, the files it writes) and how several of them share the lock of lock.go. discordgo, the
  file system and the lock of the kernel are parameters.
\<close>

section \<open>Settings from the environment\<close>

definition override_or :: "environment \<Rightarrow> string \<Rightarrow> string \<Rightarrow> string" where
  "override_or ev key fallback = (let override = TrimSpace (ev key) in if override \<noteq> [] then override else fallback)"

text \<open>\<open>url.Parse\<close> gives scheme and host.\<close>

definition saasAuthURL :: "(string \<Rightarrow> (string \<times> string) option) \<Rightarrow> environment \<Rightarrow> string \<Rightarrow> string" where
  "saasAuthURL parse ev revenueURL = override_or ev ''SAAS_AUTH_URL''
     (case parse revenueURL of None \<Rightarrow> []
      | Some (scheme, host) \<Rightarrow> if host = [] then [] else scheme @ ''://'' @ host @ ''/api/v1/auth/refresh'')"

definition saasTokenFile :: "environment \<Rightarrow> string" where
  "saasTokenFile ev = override_or ev ''SAAS_TOKEN_FILE'' (Join2 ''storage'' ''saas-token.json'')"

definition panelFile :: "environment \<Rightarrow> string" where
  "panelFile ev = override_or ev ''MEMBER_PANEL_FILE'' (Join2 ''storage'' ''member-panel.json'')"

section \<open>The process\<close>

record ('f, 'w) gateway =
  gw_lock :: "('f, 'w) lock_lib"
  gw_WriteFile :: "string \<Rightarrow> string \<Rightarrow> ('w, string, unit) sop"
  gw_Getpid :: int
  gw_New :: "string \<Rightarrow> string option"
  gw_Open :: "('w, string, unit) sop"
  gw_Overwrite :: "application_command list \<Rightarrow> ('w, string, unit) sop"
  gw_Close :: "('w, string, unit) sop"
  gw_Status :: "'w \<Rightarrow> bool \<times> instant"

record 'f process =
  pr_bot :: Bot
  pr_writerLock :: "'f processLock option"
  pr_stopped :: bool
  pr_reminder :: bool

definition NewBot :: "('f, 'w) gateway \<Rightarrow> (string \<Rightarrow> (string \<times> string) option) \<Rightarrow> environment \<Rightarrow> 'w saas_io \<Rightarrow> string \<Rightarrow> 'w \<Rightarrow>
    (string, 'f process) result" where
  "NewBot g parse ev io token w =
     (case gw_New g (''Bot '' @ token) of
        Some e \<Rightarrow> Inl e
      | None \<Rightarrow>
          let revenueURL = ev ''SAAS_REVENUE_URL'';
              saas = newSaaSToken io (saasAuthURL parse ev revenueURL) (ev ''SAAS_REVENUE_TOKEN'') (ev ''SAAS_REFRESH_TOKEN'') (saasTokenFile ev) w
          in Inr \<lparr>pr_bot = \<lparr>bt_channelIDs = [], bt_recentJoins = [], bt_confirms = [], bt_reminderAt = zero_time, bt_saas = Some saas,
                 bt_guildCache = None, bt_guildCacheAt = zero_time, bt_adminIDsList = None, bt_adminIDsAt = zero_time, bt_pending = []\<rparr>,
               pr_writerLock = None, pr_stopped = False, pr_reminder = False\<rparr>)"

definition writeHeartbeat :: "('f, 'w) gateway \<Rightarrow> string \<Rightarrow> 'w \<Rightarrow> 'w" where
  "writeHeartbeat g dir w =
     (let w1 = snd (kl_MkdirAll (gw_lock g) dir w) in
      snd (gw_WriteFile g (Join2 dir ''bot.pid'') (FormatInt (gw_Getpid g) @ [CHR 0x0A]) w1))"

text \<open>The error if there is one, and the process and the world afterwards.\<close>

definition Open :: "('f, 'w) gateway \<Rightarrow> 'w env \<Rightarrow> 'f process \<Rightarrow> 'w \<Rightarrow> (string option \<times> 'f process) \<times> 'w" where
  "Open g b p w =
     (case acquireBotLock (gw_lock g) ''data'' w of
        (Inl e, w1) \<Rightarrow> ((Some e, p), w1)
      | (Inr lease, w1) \<Rightarrow>
          (case primeSaaSToken b (pr_bot p) (writeHeartbeat g ''data'' w1) of (bt, w2) \<Rightarrow>
             let p1 = p\<lparr>pr_bot := bt, pr_writerLock := Some lease\<rparr> in
             (case gw_Open g w2 of
                (Inl e, w3) \<Rightarrow> ((Some e, p1), release (gw_lock g) (Some lease) w3)
              | (Inr _, w3) \<Rightarrow>
                  (case gw_Overwrite g slashCommands w3 of
                     (Inl e, w4) \<Rightarrow> ((Some e, p1), w4)
                   | (Inr _, w4) \<Rightarrow> ((None, p1\<lparr>pr_reminder := True\<rparr>), w4)))))"

definition CloseBot :: "('f, 'w) gateway \<Rightarrow> 'f process \<Rightarrow> 'w \<Rightarrow> (string option \<times> 'f process) \<times> 'w" where
  "CloseBot g p w =
     (let p1 = p\<lparr>pr_stopped := True\<rparr>; w1 = release (gw_lock g) (pr_writerLock p1) w in
      case gw_Close g w1 of (Inl e, w2) \<Rightarrow> ((Some e, p1), w2) | (Inr _, w2) \<Rightarrow> ((None, p1), w2))"

definition GatewayStatus :: "('f, 'w) gateway \<Rightarrow> 'w \<Rightarrow> bool \<times> instant" where
  "GatewayStatus g w = gw_Status g w"

text \<open>
  The reminder loop: what each \<open>select\<close> sees, a tick (with what happened in the meantime) or the
  closed channel.
\<close>

datatype 'w wake = Stop | Tick "'w \<Rightarrow> 'w"

fun startReminder :: "'w env \<Rightarrow> 'w wake list \<Rightarrow> Bot \<Rightarrow> 'w \<Rightarrow> Bot \<times> 'w" where
  "startReminder b [] bt w = (bt, w)"
| "startReminder b (Stop # _) bt w = (bt, w)"
| "startReminder b (Tick gap # wakes) bt w = (case tickReminder b bt (gap w) of (bt1, w1) \<Rightarrow> startReminder b wakes bt1 w1)"

section \<open>The panel file\<close>

text \<open>\<open>json.Marshal\<close> fails for a time it cannot write.\<close>

definition savePanelState :: "(string \<Rightarrow> ('w, string, unit) sop) \<Rightarrow> (string \<Rightarrow> panelState \<Rightarrow> ('w, string, unit) sop) \<Rightarrow>
    (string \<Rightarrow> string \<Rightarrow> ('w, string, unit) sop) \<Rightarrow> environment \<Rightarrow> panelState \<Rightarrow> ('w, string, unit) sop" where
  "savePanelState mkdir write rename ev st =
     (let file = panelFile ev; dir = path_dir file; tmp = file @ ''.tmp'' in
      sbind (if dir \<noteq> [] \<and> dir \<noteq> ''.'' then mkdir dir else sret ()) (\<lambda>_.
      if \<not> json_time (ps_UpdatedAt st) then sfail ''year outside of range''
      else sbind (write tmp st) (\<lambda>_. rename tmp file)))"

text \<open>
  The panel file is replaced as a whole: after any failure it holds what it held before. The laws
  are those of a file system in which a write may break off and a rename may not.
\<close>

lemma savePanelState_atomic:
  fixes disk :: "'w \<Rightarrow> string \<Rightarrow> panelState option"
  assumes "\<And>d w. disk (snd (mkdir d w)) = disk w"
    and "\<And>p s w r w'. write p s w = (r, w') \<Longrightarrow> (r = Inr () \<longrightarrow> disk w' p = Some s) \<and> (\<forall>q. q \<noteq> p \<longrightarrow> disk w' q = disk w q)"
    and "\<And>p q w r w'. rename p q w = (r, w') \<Longrightarrow> (case r of Inl _ \<Rightarrow> disk w' = disk w | Inr _ \<Rightarrow> disk w' q = disk w p)"
    and "savePanelState mkdir write rename ev st w = (r, w')"
  shows "case r of Inl _ \<Rightarrow> disk w' (panelFile ev) = disk w (panelFile ev) | Inr _ \<Rightarrow> disk w' (panelFile ev) = Some st"
proof -
  let ?file = "panelFile ev" and ?tmp = "panelFile ev @ ''.tmp''"
  let ?d = "if path_dir ?file \<noteq> [] \<and> path_dir ?file \<noteq> ''.'' then mkdir (path_dir ?file) else sret ()"
  obtain q w1 where d: "?d w = (q, w1)" by (cases "?d w")
  then have 1: "disk w1 = disk w" using assms(1) [of "path_dir ?file" w] by (auto split: if_splits)
  obtain x w2 where x: "write ?tmp st w1 = (x, w2)" by (cases "write ?tmp st w1")
  obtain y w3 where y: "rename ?tmp ?file w2 = (y, w3)" by (cases "rename ?tmp ?file w2")
  note wr = assms(2) [OF x] and re = assms(3) [OF y]
  have "(r, w') = (case q of Inl e \<Rightarrow> (Inl e, w1) | Inr _ \<Rightarrow> if \<not> json_time (ps_UpdatedAt st) then (Inl ''year outside of range'', w1)
      else (case x of Inl e \<Rightarrow> (Inl e, w2) | Inr _ \<Rightarrow> (y, w3)))"
    using assms(4) d x y
    by (cases q; cases x; cases "json_time (ps_UpdatedAt st)") (auto simp: savePanelState_def Let_def sbind_def sfail_def)
  then show ?thesis using 1 wr re by (auto split: sum.splits if_splits)
qed

section \<open>The lock of the kernel\<close>

text \<open>
  Which open file holds the lock on bot.lock, and which files are open. A file that is closed, by
  the process or by the kernel when the process ends, gives up the lock.
\<close>

locale flock_laws =
  fixes lib :: "('f, 'w) lock_lib" and holder :: "'w \<Rightarrow> 'f option" and handles :: "'w \<Rightarrow> 'f set"
  assumes Mkdir: "still (\<lambda>w. (holder w, handles w)) (kl_MkdirAll lib d)"
    and OpenFile: "\<And>p w r w'. kl_Open lib p w = (r, w') \<Longrightarrow> holder w' = holder w \<and>
      (case r of Inr f \<Rightarrow> f \<notin> handles w \<and> handles w' = insert f (handles w) | Inl _ \<Rightarrow> handles w' = handles w)"
    and Flock: "\<And>f w r w'. kl_Flock lib f w = (r, w') \<Longrightarrow> handles w' = handles w \<and>
      (case r of None \<Rightarrow> holder w \<in> {None, Some f} \<and> holder w' = Some f | Some _ \<Rightarrow> holder w' = holder w)"
    and Unlock: "handles (kl_Unlock lib f w) = handles w" "holder (kl_Unlock lib f w) = (if holder w = Some f then None else holder w)"
    and CloseFile: "handles (kl_Close lib f w) = handles w - {f}" "holder (kl_Close lib f w) = (if holder w = Some f then None else holder w)"
    and Record: "holder (kl_Record lib f w) = holder w" "handles (kl_Record lib f w) = handles w"
begin

definition sane :: "'w \<Rightarrow> bool" where
  "sane w \<longleftrightarrow> (\<forall>f. holder w = Some f \<longrightarrow> f \<in> handles w)"

lemma acquire_cases:
  assumes "acquireBotLock lib dir w = (r, w')" and "sane w"
  shows "sane w' \<and> (case r of Inl _ \<Rightarrow> holder w' = holder w | Inr l \<Rightarrow> holder w = None \<and> holder w' = Some (pk_file l))"
proof -
  obtain q w1 where m: "kl_MkdirAll lib dir w = (q, w1)" by (cases "kl_MkdirAll lib dir w")
  then have 1: "holder w1 = holder w" "handles w1 = handles w" using stillD [OF Mkdir m] by auto
  obtain x w2 where o: "kl_Open lib (Join2 dir ''bot.lock'') w1 = (x, w2)" by (cases "kl_Open lib (Join2 dir ''bot.lock'') w1")
  note op = OpenFile [OF o]
  show ?thesis
  proof (cases "\<exists>f. q = Inr () \<and> x = Inr f")
    case False
    with assms m o 1 op show ?thesis
      by (auto simp: acquireBotLock_def sbind_def Let_def sane_def split: sum.splits)
  next
    case True
    then obtain f where f: "q = Inr ()" "x = Inr f" by auto
    obtain y w3 where y: "kl_Flock lib f w2 = (y, w3)" by (cases "kl_Flock lib f w2")
    note fl = Flock [OF y]
    have free: "holder w2 \<noteq> Some f" using assms(2) op f 1 by (auto simp: sane_def)
    have "(r, w') = (case y of None \<Rightarrow> (Inr \<lparr>pk_path = Join2 dir ''bot.lock'', pk_file = f\<rparr>, kl_Record lib f w3)
        | Some (held, e) \<Rightarrow> (Inl (if held then ''another bot process already holds bot.lock'' else e), kl_Close lib f w3))"
      using assms(1) m o f y by (auto simp: acquireBotLock_def sbind_def Let_def split: option.splits)
    then show ?thesis
      using assms(2) op f 1 fl free by (cases y) (auto simp: sane_def Record CloseFile split: if_splits)
  qed
qed

lemma release_free:
  "holder (release lib (Some l) w) = (if holder w = Some (pk_file l) then None else holder w)"
  "sane w \<Longrightarrow> sane (release lib (Some l) w)"
  by (auto simp: release_def sane_def Unlock CloseFile)

lemma acquire_refused: "sane w \<Longrightarrow> holder w \<noteq> None \<Longrightarrow> \<exists>e. fst (acquireBotLock lib dir w) = Inl e"
proof -
  assume a: "sane w" "holder w \<noteq> None"
  obtain r w' where r: "acquireBotLock lib dir w = (r, w')" by (cases "acquireBotLock lib dir w")
  from acquire_cases [OF r a(1)] a(2) r show ?thesis by (cases r) auto
qed

end

section \<open>Several processes\<close>

text \<open>
  Where a process is: before \<open>Open\<close>, with the lock and before the session is open, with the
  session open, after a failed session with the lock still to be released, in \<open>Close\<close> between
  the release and the end of the session, and ended.
\<close>

datatype 'f stage = Idle | Holding "'f processLock" | Online "'f processLock" | Failing "'f processLock" | Leaving | Gone

fun lock_of :: "'f stage \<Rightarrow> 'f processLock option" where
  "lock_of (Holding l) = Some l"
| "lock_of (Online l) = Some l"
| "lock_of (Failing l) = Some l"
| "lock_of _ = None"

type_synonym ('f, 'w) fleet = "'f stage list \<times> 'w"

text \<open>
  One step of one process, or anything else that leaves the lock alone. A process may end at any
  moment, with or without a call; the kernel then closes its files.
\<close>

inductive fleet_step :: "('f, 'w) gateway \<Rightarrow> 'w env \<Rightarrow> ('w \<Rightarrow> 'c) \<Rightarrow> ('f, 'w) fleet \<Rightarrow> ('f, 'w) fleet \<Rightarrow> bool"
  for g :: "('f, 'w) gateway" and b :: "'w env" and locks :: "'w \<Rightarrow> 'c" where
  Spawn: "fleet_step g b locks (ss, w) (ss @ [Idle], w)"
| Acquired: "i < length ss \<Longrightarrow> ss ! i = Idle \<Longrightarrow> acquireBotLock (gw_lock g) ''data'' w = (Inr l, w') \<Longrightarrow>
    fleet_step g b locks (ss, w) (ss[i := Holding l], w')"
| Refused: "i < length ss \<Longrightarrow> ss ! i = Idle \<Longrightarrow> acquireBotLock (gw_lock g) ''data'' w = (Inl e, w') \<Longrightarrow>
    fleet_step g b locks (ss, w) (ss[i := Gone], w')"
| Primed: "i < length ss \<Longrightarrow> ss ! i = Holding l \<Longrightarrow> primeSaaSToken b bt (writeHeartbeat g ''data'' w) = (bt', w') \<Longrightarrow>
    fleet_step g b locks (ss, w) (ss, w')"
| Connected: "i < length ss \<Longrightarrow> ss ! i = Holding l \<Longrightarrow> gw_Open g w = (Inr u, w') \<Longrightarrow>
    fleet_step g b locks (ss, w) (ss[i := Online l], w')"
| NotConnected: "i < length ss \<Longrightarrow> ss ! i = Holding l \<Longrightarrow> gw_Open g w = (Inl e, w') \<Longrightarrow>
    fleet_step g b locks (ss, w) (ss[i := Failing l], w')"
| BackedOut: "i < length ss \<Longrightarrow> ss ! i = Failing l \<Longrightarrow>
    fleet_step g b locks (ss, w) (ss[i := Gone], release (gw_lock g) (Some l) w)"
| Commands: "i < length ss \<Longrightarrow> ss ! i = Online l \<Longrightarrow> gw_Overwrite g slashCommands w = (r, w') \<Longrightarrow>
    fleet_step g b locks (ss, w) (ss, w')"
| Shut: "i < length ss \<Longrightarrow> ss ! i = Online l \<Longrightarrow>
    fleet_step g b locks (ss, w) (ss[i := Leaving], release (gw_lock g) (Some l) w)"
| Disconnected: "i < length ss \<Longrightarrow> ss ! i = Leaving \<Longrightarrow> gw_Close g w = (r, w') \<Longrightarrow>
    fleet_step g b locks (ss, w) (ss[i := Gone], w')"
| Died: "i < length ss \<Longrightarrow>
    fleet_step g b locks (ss, w) (ss[i := Gone], case lock_of (ss ! i) of None \<Rightarrow> w | Some l \<Rightarrow> kl_Close (gw_lock g) (pk_file l) w)"
| Other: "locks w' = locks w \<Longrightarrow> fleet_step g b locks (ss, w) (ss, w')"

text \<open>\<open>Open\<close> and \<open>CloseBot\<close> are such steps: nothing else touches the lock.\<close>

lemma Open_steps:
  assumes "Open g b p w = ((e, p'), w')"
  shows "\<exists>s. (fleet_step g b locks)\<^sup>*\<^sup>* ([Idle], w) ([s], w') \<and> (e = None \<longrightarrow> (\<exists>l. s = Online l \<and> pr_writerLock p' = Some l))"
proof -
  obtain q w1 where q: "acquireBotLock (gw_lock g) ''data'' w = (q, w1)" by (cases "acquireBotLock (gw_lock g) ''data'' w")
  show ?thesis
  proof (cases q)
    case (Inl err)
    with assms q have "e = Some err" "w' = w1" by (simp_all add: Open_def)
    moreover have "fleet_step g b locks ([Idle], w) ([Gone], w1)" using Refused [of 0 "[Idle]" g w err w1] q Inl by simp
    ultimately show ?thesis by blast
  next
    case (Inr l)
    have 1: "fleet_step g b locks ([Idle], w) ([Holding l], w1)" using Acquired [of 0 "[Idle]" g w l w1] q Inr by simp
    obtain bt w2 where pr: "primeSaaSToken b (pr_bot p) (writeHeartbeat g ''data'' w1) = (bt, w2)"
      by (cases "primeSaaSToken b (pr_bot p) (writeHeartbeat g ''data'' w1)")
    have 2: "fleet_step g b locks ([Holding l], w1) ([Holding l], w2)" using Primed [of 0 "[Holding l]" l b _ g w1 bt w2] pr by simp
    obtain x w3 where x: "gw_Open g w2 = (x, w3)" by (cases "gw_Open g w2")
    show ?thesis
    proof (cases x)
      case Failed: (Inl err)
      have 3: "fleet_step g b locks ([Holding l], w2) ([Failing l], w3)" using NotConnected [of 0 "[Holding l]" l g w2 err w3] x Failed by simp
      have 4: "fleet_step g b locks ([Failing l], w3) ([Gone], release (gw_lock g) (Some l) w3)"
        using BackedOut [of 0 "[Failing l]" l g b locks w3] by simp
      from assms q Inr pr x Failed have "e = Some err" "w' = release (gw_lock g) (Some l) w3" by (simp_all add: Open_def Let_def)
      moreover from 1 2 3 4 have "(fleet_step g b locks)\<^sup>*\<^sup>* ([Idle], w) ([Gone], release (gw_lock g) (Some l) w3)"
        by (meson converse_rtranclp_into_rtranclp rtranclp.rtrancl_refl)
      ultimately show ?thesis by blast
    next
      case Conn: (Inr u)
      have 3: "fleet_step g b locks ([Holding l], w2) ([Online l], w3)" using Connected [of 0 "[Holding l]" l g w2 u w3] x Conn by simp
      obtain y w4 where y: "gw_Overwrite g slashCommands w3 = (y, w4)" by (cases "gw_Overwrite g slashCommands w3")
      have 4: "fleet_step g b locks ([Online l], w3) ([Online l], w4)" using Commands [of 0 "[Online l]" l g w3 y w4] y by simp
      from assms q Inr pr x Conn y have "w' = w4" "pr_writerLock p' = Some l"
        by (auto simp: Open_def Let_def split: sum.splits)
      moreover from 1 2 3 4 have "(fleet_step g b locks)\<^sup>*\<^sup>* ([Idle], w) ([Online l], w4)"
        by (meson converse_rtranclp_into_rtranclp rtranclp.rtrancl_refl)
      ultimately show ?thesis by blast
    qed
  qed
qed

lemma Close_steps:
  assumes "CloseBot g p w = ((e, p'), w')" and "pr_writerLock p = Some l"
  shows "(fleet_step g b locks)\<^sup>*\<^sup>* ([Online l], w) ([Gone], w')"
proof -
  obtain r where r: "gw_Close g (release (gw_lock g) (Some l) w) = (r, w')"
    using assms by (auto simp: CloseBot_def Let_def split: prod.splits sum.splits)
  have "fleet_step g b locks ([Online l], w) ([Leaving], release (gw_lock g) (Some l) w)"
    using Shut [of 0 "[Online l]" l g b locks w] by simp
  moreover have "fleet_step g b locks ([Leaving], release (gw_lock g) (Some l) w) ([Gone], w')"
    using Disconnected [of 0 "[Leaving]" g _ r w'] r by simp
  ultimately show ?thesis by (meson converse_rtranclp_into_rtranclp rtranclp.rtrancl_refl)
qed

section \<open>One lock, one bot\<close>

definition fleet_ok :: "('w \<Rightarrow> 'f option) \<Rightarrow> ('f, 'w) fleet \<Rightarrow> bool" where
  "fleet_ok holder st \<longleftrightarrow> (case st of (ss, w) \<Rightarrow>
     (\<forall>i < length ss. \<forall>l. lock_of (ss ! i) = Some l \<longrightarrow> holder w = Some (pk_file l)) \<and>
     (\<forall>i < length ss. \<forall>j < length ss. lock_of (ss ! i) \<noteq> None \<longrightarrow> lock_of (ss ! j) \<noteq> None \<longrightarrow> i = j))"

lemma fleet_okD: "fleet_ok holder (ss, w) \<Longrightarrow> i < length ss \<Longrightarrow> lock_of (ss ! i) = Some l \<Longrightarrow> holder w = Some (pk_file l)"
  by (simp add: fleet_ok_def)

lemma fleet_ok_unique: "fleet_ok holder (ss, w) \<Longrightarrow> i < length ss \<Longrightarrow> j < length ss \<Longrightarrow> lock_of (ss ! i) \<noteq> None \<Longrightarrow>
    lock_of (ss ! j) \<noteq> None \<Longrightarrow> i = j"
  by (simp add: fleet_ok_def)

lemma fleet_upd:
  assumes "fleet_ok holder (ss, w)" and "i < length ss" and "holder w' = holder w" and "lock_of s = None \<or> lock_of s = lock_of (ss ! i)"
  shows "fleet_ok holder (ss[i := s], w')"
proof -
  have l: "lock_of (ss[i := s] ! j) = None \<or> lock_of (ss[i := s] ! j) = lock_of (ss ! j)" if "j < length ss" for j
    using assms(2,4) that by (cases "j = i") auto
  show ?thesis unfolding fleet_ok_def prod.case length_list_update assms(3)
    using l fleet_okD [OF assms(1)] fleet_ok_unique [OF assms(1)] by (metis option.distinct(1))
qed

lemma fleet_drop:
  assumes "fleet_ok holder (ss, w)" and "i < length ss" and "lock_of (ss ! i) = Some l" and "lock_of s = None"
  shows "fleet_ok holder (ss[i := s], w')"
proof -
  have "lock_of (ss[i := s] ! j) = None" if "j < length ss" for j
  proof (cases "j = i")
    case True
    then show ?thesis using assms(2,4) by simp
  next
    case False
    with fleet_ok_unique [OF assms(1) that assms(2)] assms(3) have "lock_of (ss ! j) = None"
      by (cases "lock_of (ss ! j)") auto
    with False show ?thesis by simp
  qed
  then show ?thesis by (simp add: fleet_ok_def)
qed

lemma fleet_take:
  assumes "fleet_ok holder (ss, w)" and "holder w = None" and "lock_of s = Some l" and "holder w' = Some (pk_file l)"
  shows "fleet_ok holder (ss[i := s], w')"
proof -
  have none: "lock_of (ss ! j) = None" if "j < length ss" for j
    using fleet_okD [OF assms(1) that] assms(2) by (cases "lock_of (ss ! j)") auto
  have "j = i" if "lock_of (ss[i := s] ! j) \<noteq> None" "j < length ss" for j
    using none [OF that(2)] that(1) by (cases "j = i") auto
  moreover have "lock_of (ss[i := s] ! i) = Some l" if "i < length ss" using that assms(3) by simp
  ultimately show ?thesis using assms(4) unfolding fleet_ok_def prod.case length_list_update by (metis option.distinct(1) option.inject)
qed

lemma fleet_same: "fleet_ok holder (ss, w) \<Longrightarrow> holder w' = holder w \<Longrightarrow> fleet_ok holder (ss, w')"
  by (simp add: fleet_ok_def)

lemma fleet_spawn: "fleet_ok holder (ss, w) \<Longrightarrow> fleet_ok holder (ss @ [Idle], w)"
proof -
  assume a: "fleet_ok holder (ss, w)"
  have l: "j < length ss \<and> lock_of (ss ! j) = Some l" if "j < length (ss @ [Idle])" "lock_of ((ss @ [Idle]) ! j) = Some l" for j l
    using that by (auto simp: nth_append split: if_splits)
  show ?thesis unfolding fleet_ok_def prod.case
    using l fleet_okD [OF a] fleet_ok_unique [OF a] by (metis option.distinct(1) option.exhaust)
qed

text \<open>What the session, the files and the revenue service do not touch.\<close>

definition lockless :: "('w \<Rightarrow> 'c) \<Rightarrow> ('f, 'w) gateway \<Rightarrow> 'w env \<Rightarrow> bool" where
  "lockless locks g b \<longleftrightarrow> (\<forall>p x. still locks (gw_WriteFile g p x)) \<and> still locks (gw_Open g) \<and> (\<forall>cs. still locks (gw_Overwrite g cs)) \<and>
     still locks (gw_Close g) \<and> quiet_saas locks (bx_Saas b)"

lemma still_bind:
  assumes "still locks m" and "\<And>x. still locks (f x)"
  shows "still locks (sbind m f)"
proof (rule stillI)
  fix w r w'
  assume a: "sbind m f w = (r, w')"
  obtain q w1 where q: "m w = (q, w1)" by (cases "m w")
  show "locks w' = locks w"
    using a q stillD [OF assms(1) q] stillD [OF assms(2)] by (cases q) (auto simp: sbind_def)
qed

lemma still_unit: "still locks (sret x)" "still locks (sfail e)"
  by (simp_all add: still_def)

lemma still_persist:
  assumes "quiet_saas locks io"
  shows "still locks (persist io t)"
proof -
  have k: "still locks (io_MkdirAll io d)" "still locks (io_WriteFile io p s)" "still locks (io_Rename io p q)" for d p s q
    using assms by (simp_all add: quiet_saas_def)
  show ?thesis unfolding persist_def Let_def by (simp add: k still_unit still_bind split: if_split)
qed

lemma prime_locks:
  assumes "quiet_saas locks (bx_Saas b)" and "primeSaaSToken b bt w = (bt', w')"
  shows "locks w' = locks w"
proof -
  have r: "locks w1 = locks w" if "rotateLocked (bx_Saas b) t w = (q, w1)" for t q w1
  proof -
    obtain x v where x: "io_Refresh (bx_Saas b) (sk_AuthURL t) (sk_Refresh t) w = (x, v)"
      by (cases "io_Refresh (bx_Saas b) (sk_AuthURL t) (sk_Refresh t) w")
    have "still locks (io_Refresh (bx_Saas b) (sk_AuthURL t) (sk_Refresh t))" using assms(1) by (simp add: quiet_saas_def)
    from stillD [OF this x] have "locks v = locks w" .
    with that x show ?thesis
      by (auto simp: rotateLocked_def Let_def split: if_splits prod.splits sum.splits option.splits dest!: stillD [OF still_persist [OF assms(1)]])
  qed
  then show ?thesis using assms(2)
    by (auto simp: primeSaaSToken_def Access_def split: option.splits if_splits prod.splits)
qed

context flock_laws
begin

lemma heartbeat_locks:
  assumes "gw_lock g = lib" and "lockless (\<lambda>w. (holder w, handles w)) g b"
  shows "holder (writeHeartbeat g dir w) = holder w \<and> handles (writeHeartbeat g dir w) = handles w"
proof -
  have "still (\<lambda>w. (holder w, handles w)) (gw_WriteFile g p x)" for p x using assms(2) by (simp add: lockless_def)
  then show ?thesis using Mkdir assms(1) by (simp add: writeHeartbeat_def Let_def still_def)
qed

lemma fleet_step_ok:
  assumes "fleet_step g b (\<lambda>w. (holder w, handles w)) (ss, w) (ss', w')" and "gw_lock g = lib"
    and "lockless (\<lambda>w. (holder w, handles w)) g b" and "fleet_ok holder (ss, w)" and "sane w"
  shows "fleet_ok holder (ss', w') \<and> sane w'"
proof -
  let ?locks = "\<lambda>w. (holder w, handles w)"
  have same: "holder v' = holder v \<and> (sane v \<longrightarrow> sane v')" if "?locks v' = ?locks v" for v v' using that by (auto simp: sane_def)
  have gw: "still ?locks (gw_Open g)" "still ?locks (gw_Overwrite g cs)" "still ?locks (gw_Close g)" "quiet_saas ?locks (bx_Saas b)" for cs
    using assms(3) by (simp_all add: lockless_def)
  show ?thesis using assms(1)
  proof (cases rule: fleet_step.cases)
    case Spawn
    then show ?thesis using fleet_spawn [OF assms(4)] assms(5) by simp
  next
    case (Acquired i l)
    from acquire_cases [OF Acquired(4) [unfolded assms(2)] assms(5)] fleet_take [OF assms(4)] Acquired show ?thesis by simp
  next
    case (Refused i e)
    from acquire_cases [OF Refused(4) [unfolded assms(2)] assms(5)] fleet_upd [OF assms(4) Refused(2)] Refused show ?thesis by simp
  next
    case (Primed i l bt bt')
    have "?locks w' = ?locks (writeHeartbeat g ''data'' w)" by (rule prime_locks [OF gw(4) Primed(4)])
    then have "?locks w' = ?locks w" using heartbeat_locks [OF assms(2,3)] by simp
    with Primed fleet_same [OF assms(4)] assms(5) same [of w' w] show ?thesis by simp
  next
    case (Connected i l u)
    with stillD [OF gw(1)] same fleet_upd [OF assms(4) Connected(2)] assms(5) show ?thesis by (metis lock_of.simps(1,2))
  next
    case (NotConnected i l e)
    with stillD [OF gw(1)] same fleet_upd [OF assms(4) NotConnected(2)] assms(5) show ?thesis by (metis lock_of.simps(1,3))
  next
    case (BackedOut i l)
    with fleet_drop [OF assms(4) BackedOut(3)] release_free(2) [OF assms(5)] assms(2) show ?thesis by simp
  next
    case (Commands i l r)
    with stillD [OF gw(2) Commands(4)] same [of w' w] fleet_same [OF assms(4)] assms(5) show ?thesis by simp
  next
    case (Shut i l)
    with fleet_drop [OF assms(4) Shut(3)] release_free(2) [OF assms(5)] assms(2) show ?thesis by simp
  next
    case (Disconnected i r)
    with stillD [OF gw(3)] same fleet_upd [OF assms(4) Disconnected(2)] assms(5) show ?thesis by (metis lock_of.simps(6))
  next
    case (Died i)
    show ?thesis
    proof (cases "lock_of (ss ! i)")
      case None
      with Died fleet_upd [OF assms(4) Died(3), of w Gone] assms(5) show ?thesis by simp
    next
      case (Some l)
      have "sane (kl_Close lib (pk_file l) w)" using assms(5) by (auto simp: sane_def CloseFile)
      with Died Some fleet_drop [OF assms(4) Died(3) Some] assms(2) show ?thesis by simp
    qed
  next
    case Other
    with same [of w' w] fleet_same [OF assms(4)] assms(5) show ?thesis by simp
  qed
qed

lemma fleet_run_ok:
  assumes "(fleet_step g b (\<lambda>w. (holder w, handles w)))\<^sup>*\<^sup>* st st'" and "gw_lock g = lib"
    and "lockless (\<lambda>w. (holder w, handles w)) g b" and "fleet_ok holder st" and "sane (snd st)"
  shows "fleet_ok holder st' \<and> sane (snd st')"
  using assms(1,4,5)
proof (induction rule: rtranclp_induct)
  case base
  then show ?case by simp
next
  case (step st1 st2)
  obtain ss1 w1 ss2 w2 where st: "st1 = (ss1, w1)" "st2 = (ss2, w2)" by (cases st1, cases st2)
  with step fleet_step_ok [of g b ss1 w1 ss2 w2, OF _ assms(2,3)] show ?case by simp
qed

end

section \<open>A kernel\<close>

text \<open>Open files are numbered; the number of sessions is counted to see two of them at once.\<close>

record kernel =
  kn_Holder :: "nat option"
  kn_Handles :: "nat list"
  kn_Sessions :: nat

definition kernel_locks :: "(nat, kernel) lock_lib" where
  "kernel_locks = \<lparr>kl_MkdirAll = (\<lambda>d. sret ()),
     kl_Open = (\<lambda>p w. (Inr (fresh_id (kn_Handles w)), w\<lparr>kn_Handles := fresh_id (kn_Handles w) # kn_Handles w\<rparr>)),
     kl_Flock = (\<lambda>f w. if kn_Holder w = None \<or> kn_Holder w = Some f then (None, w\<lparr>kn_Holder := Some f\<rparr>) else (Some (True, ''locked''), w)),
     kl_Unlock = (\<lambda>f w. w\<lparr>kn_Holder := if kn_Holder w = Some f then None else kn_Holder w\<rparr>),
     kl_Close = (\<lambda>f w. w\<lparr>kn_Holder := if kn_Holder w = Some f then None else kn_Holder w, kn_Handles := removeAll f (kn_Handles w)\<rparr>),
     kl_Record = (\<lambda>f w. w)\<rparr>"

interpretation kernel: flock_laws kernel_locks kn_Holder "\<lambda>w. set (kn_Handles w)"
  by unfold_locales (auto simp: kernel_locks_def still_def dest: fresh_id_new split: if_splits)

definition kernel_gateway :: "(nat, kernel) gateway" where
  "kernel_gateway = \<lparr>gw_lock = kernel_locks, gw_WriteFile = (\<lambda>p x. sret ()), gw_Getpid = 7, gw_New = (\<lambda>t. None),
     gw_Open = (\<lambda>w. (Inr (), w\<lparr>kn_Sessions := Suc (kn_Sessions w)\<rparr>)), gw_Overwrite = (\<lambda>cs. sret ()),
     gw_Close = (\<lambda>w. (Inr (), w\<lparr>kn_Sessions := kn_Sessions w - 1\<rparr>)), gw_Status = (\<lambda>w. (0 < kn_Sessions w, 0))\<rparr>"

definition refusal :: rest_error where
  "refusal = \<lparr>re_Text = ''refused'', re_Status = None, re_Code = None\<rparr>"

definition idle_discord :: "'w discord" where
  "idle_discord = \<lparr>dc_Session = \<lparr>se_GuildRoles = sret [], se_GuildMembers = (\<lambda>_ _. sret []), se_GuildMember = (\<lambda>_. sfail ''x''),
       se_RoleAdd = (\<lambda>_ _. sret ()), se_RoleRemove = (\<lambda>_ _. sret ()), se_StateRole = (\<lambda>_ _. None), se_AgeDays = (\<lambda>_ _. None)\<rparr>,
     dc_Builder = \<lparr>bu_Roles = sret [], bu_RoleCreate = (\<lambda>_. sfail refusal), bu_Channels = sret [], bu_ChannelCreate = (\<lambda>_ _ _ _. sfail refusal),
       bu_Rules = sret [], bu_RuleCreate = (\<lambda>_. sfail refusal), bu_Guild = sret ()\<rparr>,
     dc_Now = (\<lambda>_. 0), dc_Guild = sret ''1'', dc_GuildCount = sret 2, dc_Permissions = (\<lambda>_ _. sret False), dc_Tag = us_Username,
     dc_Modal = (\<lambda>_ w. w), dc_Ephemeral = (\<lambda>_ w. w), dc_Defer = sret (), dc_Edit = (\<lambda>_ _ _ w. w), dc_Followup = (\<lambda>_. sret None),
     dc_Send = (\<lambda>c _. sret (c, [])), dc_EditMessage = (\<lambda>_ _ _. sret ()), dc_ThreadStart = (\<lambda>_. sret []), dc_ChannelDelete = (\<lambda>_ w. w),
     dc_ChannelRename = (\<lambda>_ _ w. w), dc_ThreadMemberAdd = (\<lambda>_ _ w. w), dc_Panel = (\<lambda>_. None), dc_SavePanel = (\<lambda>_. sret ())\<rparr>"

definition idle_saas :: "'w saas_io" where
  "idle_saas = \<lparr>io_Now = (\<lambda>_. 0), io_Refresh = (\<lambda>_ _. sfail ''x''), io_Fetch = (\<lambda>_ _. sfail ''x''), io_MkdirAll = (\<lambda>_. sret ()),
     io_WriteFile = (\<lambda>_ _. sret ()), io_Rename = (\<lambda>_ _. sret ()), io_ReadFile = (\<lambda>_ _. None), io_ExpClaim = (\<lambda>_. None)\<rparr>"

definition idle_env :: "'w env" where
  "idle_env = \<lparr>bx_GuildID = ''5'', bx_Repo = (\<lambda>t. gorm_repo \<lparr>st_First = (\<lambda>P. sfail NoRecord), st_Create = (\<lambda>t. sret ()), st_Save = (\<lambda>t. sret ()),
       st_Find = (\<lambda>P key. sret []), st_FirstCounter = sfail NoRecord, st_CreateCounter = (\<lambda>c. sret ()), st_SaveCounter = (\<lambda>c. sret ()),
       st_FindOut = (\<lambda>P key. sret []), st_CountOut = (\<lambda>P. sret 0), st_CreateOut = (\<lambda>x. sret ()), st_Begin = sret (), st_Commit = sret (), st_Rollback = sret ()\<rparr> t),
     bx_Members = (\<lambda>t. member_repo_of \<lparr>ms_First = (\<lambda>i. sfail NoRecord), ms_Create = sret, ms_Save = sret, ms_Delete = (\<lambda>i. sret ()), ms_Find = (\<lambda>key. sret [])\<rparr> t),
     bx_Saas = idle_saas, bx_Finance = (\<lambda>_. None), bx_RevenueURL = [], bx_Range = hd, bx_Discord = idle_discord\<rparr>"

lemma kernel_lockless: "lockless (\<lambda>w. (kn_Holder w, set (kn_Handles w))) kernel_gateway idle_env"
  by (simp add: lockless_def kernel_gateway_def idle_env_def idle_saas_def quiet_saas_def still_def sret_def sfail_def)

abbreviation kernel_step :: "(nat, kernel) fleet \<Rightarrow> (nat, kernel) fleet \<Rightarrow> bool" where
  "kernel_step \<equiv> fleet_step kernel_gateway idle_env (\<lambda>w. (kn_Holder w, set (kn_Handles w)))"

definition quiet_kernel :: kernel where
  "quiet_kernel = \<lparr>kn_Holder = None, kn_Handles = [], kn_Sessions = 0\<rparr>"

definition lease :: "nat \<Rightarrow> nat processLock" where
  "lease f = \<lparr>pk_path = Join2 ''data'' ''bot.lock'', pk_file = f\<rparr>"

lemma kernel_acquire:
  "acquireBotLock (gw_lock kernel_gateway) ''data'' \<lparr>kn_Holder = None, kn_Handles = hs, kn_Sessions = n\<rparr> =
     (Inr (lease (fresh_id hs)), \<lparr>kn_Holder = Some (fresh_id hs), kn_Handles = fresh_id hs # hs, kn_Sessions = n\<rparr>)"
  by (simp add: acquireBotLock_def kernel_gateway_def kernel_locks_def sbind_def sret_def lease_def)

lemma kernel_connect: "gw_Open kernel_gateway w = (Inr (), w\<lparr>kn_Sessions := Suc (kn_Sessions w)\<rparr>)"
  by (simp add: kernel_gateway_def)

text \<open>One process comes online, alone.\<close>

lemma one_online: "kernel_step\<^sup>*\<^sup>* ([], quiet_kernel)
    ([Online (lease (fresh_id []))], \<lparr>kn_Holder = Some (fresh_id []), kn_Handles = [fresh_id []], kn_Sessions = 1\<rparr>)"
proof -
  let ?w = "\<lparr>kn_Holder = Some (fresh_id []), kn_Handles = [fresh_id []], kn_Sessions = 0\<rparr>"
  have 1: "kernel_step ([], quiet_kernel) ([Idle], quiet_kernel)" using Spawn [where ss = "[]"] by simp
  have 2: "kernel_step ([Idle], quiet_kernel) ([Holding (lease (fresh_id []))], ?w)"
    using Acquired [where ss = "[Idle]" and i = 0, OF _ _ kernel_acquire] by (simp add: quiet_kernel_def)
  have 3: "kernel_step ([Holding (lease (fresh_id []))], ?w) ([Online (lease (fresh_id []))], ?w\<lparr>kn_Sessions := 1\<rparr>)"
    using Connected [where ss = "[Holding (lease (fresh_id []))]" and i = 0 and l = "lease (fresh_id [])", OF _ _ kernel_connect [of ?w]] by simp
  have "kernel_step\<^sup>*\<^sup>* ([], quiet_kernel) ([Online (lease (fresh_id []))], ?w\<lparr>kn_Sessions := 1\<rparr>)"
    using 1 2 3 by (meson converse_rtranclp_into_rtranclp rtranclp.rtrancl_refl)
  then show ?thesis by simp
qed

text \<open>
  \<open>CloseBot\<close> gives up the lock before it ends the session: a second process can connect while
  the first is still connected, so for a moment Discord serves two bots.
\<close>

lemma close_overlap:
  "\<exists>l w. kernel_step\<^sup>*\<^sup>* ([], quiet_kernel) ([Leaving, Online l], w) \<and> kn_Sessions w = 2"
proof -
  let ?l = "lease (fresh_id [])"
  let ?w1 = "\<lparr>kn_Holder = Some (fresh_id []), kn_Handles = [fresh_id []], kn_Sessions = 1\<rparr>"
  let ?w2 = "\<lparr>kn_Holder = None, kn_Handles = [], kn_Sessions = 1\<rparr>"
  have free: "release (gw_lock kernel_gateway) (Some ?l) ?w1 = ?w2"
    by (simp add: kernel_gateway_def kernel_locks_def release_def lease_def)
  have 1: "kernel_step ([Online ?l], ?w1) ([Leaving], ?w2)"
    using Shut [where ss = "[Online ?l]" and i = 0 and l = ?l and g = kernel_gateway and w = ?w1] by (simp add: free [simplified])
  have 2: "kernel_step ([Leaving], ?w2) ([Leaving, Idle], ?w2)" using Spawn [where ss = "[Leaving]"] by simp
  have 3: "kernel_step ([Leaving, Idle], ?w2) ([Leaving, Holding ?l], ?w1)"
    using Acquired [where ss = "[Leaving, Idle]" and i = 1, OF _ _ kernel_acquire] by simp
  have 4: "kernel_step ([Leaving, Holding ?l], ?w1) ([Leaving, Online ?l], ?w1\<lparr>kn_Sessions := 2\<rparr>)"
    using Connected [where ss = "[Leaving, Holding ?l]" and i = 1 and l = ?l, OF _ _ kernel_connect [of ?w1]] by (simp add: numeral_2_eq_2)
  have "kernel_step\<^sup>*\<^sup>* ([], quiet_kernel) ([Leaving, Online ?l], ?w1\<lparr>kn_Sessions := 2\<rparr>)"
    using one_online 1 2 3 4 by (meson rtranclp.rtrancl_into_rtrancl)
  then show ?thesis by (intro exI conjI) auto
qed

section \<open>The theorem\<close>



end
