(* ===== verification/Startup.thy ===== *)
theory Startup
  imports Server BotProcess
begin

text \<open>
  The program from start to stop (main.go): configuration, connections and services, the bot when
  it is configured, and the way down after a signal. \<open>Fatalf\<close> ends the process without the deferred
  calls. The HTTP server itself is net/http; its shutdown is a parameter.
\<close>

datatype fatal = LoadFailed config_error | BootFailed string | BotFailed string | LoginFailed string

type_synonym ('c, 'g, 'r, 'f, 'b, 'w) running = "('b, 'w) HandlerSetup \<times> 'r option \<times> ('c, 'g) HandlerDatabase \<times> 'f process option"

definition start_main :: "('c, 'g, 'w) sql_lib \<Rightarrow> ('r, 'w) redis_lib \<Rightarrow> 'w process_libs \<Rightarrow> ('g \<Rightarrow> 'w gorm_api) \<Rightarrow> ('f, 'w) gateway \<Rightarrow>
    parsers \<Rightarrow> (string \<Rightarrow> (string \<times> string) option) \<Rightarrow> environment \<Rightarrow> 'w env \<Rightarrow> 'w \<Rightarrow>
    (fatal, ('c, 'g, 'r, 'f, 'b, 'w) running) result \<times> 'w" where
  "start_main slib rlib pl api g ps parse ev b w =
     (case Load ps ev of
        Inl e \<Rightarrow> (Inl (LoadFailed e), w)
      | Inr cfg \<Rightarrow>
          (case MakeHandler slib rlib pl api cfg w of
             (Inl e, w1) \<Rightarrow> (Inl (BootFailed e), w1)
           | (Inr (hs, rc, gdb), w1) \<Rightarrow>
               if dg_BotToken (cf_Discord cfg) \<noteq> [] \<and> dg_GuildID (cf_Discord cfg) \<noteq> [] then
                 let b1 = b\<lparr>bx_GuildID := dg_GuildID (cf_Discord cfg), bx_Repo := hs_Tickets hs, bx_Members := hs_Members hs,
                       bx_RevenueURL := ev ''SAAS_REVENUE_URL''\<rparr> in
                 (case NewBot g parse ev (bx_Saas b1) (dg_BotToken (cf_Discord cfg)) w1 of
                    Inl e \<Rightarrow> (Inl (BotFailed e), w1)
                  | Inr p \<Rightarrow>
                      let hs1 = hs\<lparr>hs_Health := SetGateway (hs_Health hs) \<lparr>gp_GatewayStatus = GatewayStatus g\<rparr>\<rparr> in
                      (case Open g b1 p w1 of
                         ((Some e, p1), w2) \<Rightarrow> (Inl (LoginFailed e), w2)
                       | ((None, p1), w2) \<Rightarrow> (Inr (hs1, rc, gdb, Some p1), w2)))
               else (Inr (hs, rc, gdb, None), w1)))"

text \<open>After the signal: the server drains, then the deferred calls run, the last one first.\<close>

definition stop_main :: "('c, 'g, 'w) sql_lib \<Rightarrow> ('r, 'w) redis_lib \<Rightarrow> ('f, 'w) gateway \<Rightarrow> ('w \<Rightarrow> string option \<times> 'w) \<Rightarrow>
    ('c, 'g, 'r, 'f, 'b, 'w) running \<Rightarrow> 'w \<Rightarrow> string option \<times> 'w" where
  "stop_main slib rlib g Shutdown s w =
     (case s of (hs, rc, gdb, p) \<Rightarrow>
        (case Shutdown w of
           (Some e, w1) \<Rightarrow> (Some e, w1)
         | (None, w1) \<Rightarrow> (None, cleanup slib rlib rc gdb (case p of None \<Rightarrow> w1 | Some p1 \<Rightarrow> snd (CloseBot g p1 w1)))))"

section \<open>Connections over the life of the program\<close>

definition quiet_process :: "('w \<Rightarrow> 'c) \<Rightarrow> ('f, 'w) gateway \<Rightarrow> 'w env \<Rightarrow> bool" where
  "quiet_process core g b \<longleftrightarrow> (\<forall>d. still core (kl_MkdirAll (gw_lock g) d)) \<and> (\<forall>p. still core (kl_Open (gw_lock g) p)) \<and>
     (\<forall>f. still core (kl_Flock (gw_lock g) f)) \<and> (\<forall>f. still_w core (kl_Unlock (gw_lock g) f)) \<and> (\<forall>f. still_w core (kl_Close (gw_lock g) f)) \<and>
     (\<forall>f. still_w core (kl_Record (gw_lock g) f)) \<and> lockless core g b"

lemma release_core: "quiet_process core g b \<Longrightarrow> core (release (gw_lock g) l w) = core w"
  by (cases l) (auto simp: quiet_process_def release_def still_w_def)

lemma acquire_core:
  assumes "quiet_process core g b" and "acquireBotLock (gw_lock g) dir w = (r, w')"
  shows "core w' = core w"
proof -
  have k: "core (snd (kl_MkdirAll (gw_lock g) d v)) = core v" "core (snd (kl_Open (gw_lock g) p v)) = core v"
    "core (snd (kl_Flock (gw_lock g) f v)) = core v" "core (kl_Close (gw_lock g) f v) = core v" "core (kl_Record (gw_lock g) f v) = core v"
    for d p f v using assms(1) by (simp_all add: quiet_process_def still_def still_w_def)
  obtain q w1 where m: "kl_MkdirAll (gw_lock g) dir w = (q, w1)" by (cases "kl_MkdirAll (gw_lock g) dir w")
  obtain x w2 where o: "kl_Open (gw_lock g) (Join2 dir ''bot.lock'') w1 = (x, w2)" by (cases "kl_Open (gw_lock g) (Join2 dir ''bot.lock'') w1")
  have 1: "core w1 = core w" "core w2 = core w1" using k(1) [of dir w] k(2) [of "Join2 dir ''bot.lock''" w1] m o by simp_all
  show ?thesis
  proof (cases "\<exists>f. q = Inr () \<and> x = Inr f")
    case False
    with assms(2) m o 1 show ?thesis by (auto simp: acquireBotLock_def sbind_def Let_def split: sum.splits)
  next
    case True
    then obtain f where f: "q = Inr ()" "x = Inr f" by auto
    obtain y w3 where y: "kl_Flock (gw_lock g) f w2 = (y, w3)" by (cases "kl_Flock (gw_lock g) f w2")
    have "core w3 = core w2" using k(3) [of f w2] y by simp
    with assms(2) m o f y 1 k(4,5) show ?thesis by (auto simp: acquireBotLock_def sbind_def Let_def split: option.splits)
  qed
qed

lemma Open_core:
  assumes "quiet_process core g b" and "Open g b p w = (r, w')"
  shows "core w' = core w"
proof -
  have l: "lockless core g b" using assms(1) by (simp add: quiet_process_def)
  have s: "still core (gw_Open g)" "still core (gw_Overwrite g cs)" for cs using l by (simp_all add: lockless_def)
  have hb: "core (writeHeartbeat g d v) = core v" for d v
    using assms(1) l by (simp add: writeHeartbeat_def quiet_process_def lockless_def still_def Let_def)
  have pr: "core v' = core v" if "primeSaaSToken b bt v = (bt', v')" for bt v bt' v'
    by (rule prime_locks [OF _ that]) (use l in \<open>simp add: lockless_def\<close>)
  show ?thesis using assms(2)
    by (auto simp: Open_def Let_def hb release_core [OF assms(1)] split: prod.splits sum.splits
        dest!: acquire_core [OF assms(1)] stillD [OF s(1)] stillD [OF s(2)] pr)
qed

lemma CloseBot_core: "quiet_process core g b \<Longrightarrow> core (snd (CloseBot g p w)) = core w"
proof -
  assume q: "quiet_process core g b"
  then have "still core (gw_Close g)" by (simp add: quiet_process_def lockless_def)
  then have "core (snd (gw_Close g v)) = core v" for v by (simp add: still_def)
  then show ?thesis using release_core [OF q]
    by (auto simp: CloseBot_def Let_def split: prod.splits sum.splits) (metis snd_conv)+
qed

text \<open>
  A start that gets up and a clean stop leave no connection behind, whatever happens in between,
  and the readiness check asks the gateway exactly when the bot is configured.
\<close>

lemma main_releases:
  fixes hs :: "('x, 'w) HandlerSetup"
  assumes "connections slib rlib opened clients conn" and "quiet_process (\<lambda>w. (opened w, clients w)) g b"
    and "start_main slib rlib pl api g ps parse ev b w0 = (Inr s, w1)" and "s = (hs, rc, gdb, p)"
    and "opened w2 = opened w1" and "clients w2 = clients w1" and "still (\<lambda>w. (opened w, clients w)) Shutdown"
    and "stop_main slib rlib g Shutdown s w2 = (None, w3)"
  shows "opened w3 = opened w0 \<and> clients w3 = clients w0 \<and> (hs_gateway (hs_Health hs) \<noteq> None) = (p \<noteq> None)"
proof -
  let ?core = "\<lambda>w. (opened w, clients w)"
  obtain cfg where cfg: "Load ps ev = Inr cfg" using assms(3) by (auto simp: start_main_def split: sum.splits)
  obtain hs0 :: "('x, 'w) HandlerSetup" and v where r: "MakeHandler slib rlib pl api cfg w0 = (Inr (hs0, rc, gdb), v)"
    using assms(3,4) cfg by (auto simp: start_main_def Let_def split: sum.splits prod.splits if_splits option.splits)
  have q: "quiet_process ?core g (b\<lparr>bx_GuildID := i, bx_Repo := re, bx_Members := me, bx_RevenueURL := u\<rparr>)" for i re me u
    using assms(2) by (simp add: quiet_process_def lockless_def)
  have c1: "?core w1 = ?core v" and gate: "(hs_gateway (hs_Health hs) \<noteq> None) = (p \<noteq> None)"
    using assms(3,4) cfg r
    by (auto simp: start_main_def MakeHandler_def failing_close_def wire_def SetGateway_def Let_def sbind_def
        split: sum.splits prod.splits if_splits option.splits dest!: Open_core [OF q])
  obtain x v2 where sh: "Shutdown w2 = (x, v2)" by (cases "Shutdown w2")
  have c2: "?core v2 = ?core w2" by (rule stillD [OF assms(7) sh])
  define v3 where "v3 = (case p of None \<Rightarrow> v2 | Some p1 \<Rightarrow> snd (CloseBot g p1 v2))"
  have c3: "?core v3 = ?core v2" using CloseBot_core [OF assms(2), of _ v2] by (simp add: v3_def split: option.split)
  have w3: "w3 = cleanup slib rlib rc gdb v3" using assms(8,4) sh by (auto simp: stop_main_def v3_def split: option.splits)
  note mk = connections.MakeHandler_conns [OF assms(1) r, unfolded sum.case prod.case]
  note cl = connections.cleanup_closes [OF assms(1)]
  from c1 c2 c3 assms(5,6) have "opened v3 = opened v" "clients v3 = clients v" by auto
  with mk cl [of rc gdb v3] cl [of rc gdb v] gate show ?thesis unfolding w3 by (cases rc) auto
qed

end
