(* ===== verification/BotGate.thy ===== *)
theory BotGate
  imports BotDesk
begin

text \<open>
  What reaches the ticket service through the bot, and with which confirmations. A handler's outcome
  is described by the requests it may have served and by the confirmations it may have added.
\<close>

section \<open>The confirmation store\<close>

lemma set_mput: "set (mput m k v) \<subseteq> insert (k, v) (set m)"
  by (induction m k v rule: mput.induct) auto

lemma put_confirm_set: "p \<in> set (put_confirm victim now key c cs) \<Longrightarrow> p = (key, c) \<or> p \<in> set cs"
  using set_mput by (fastforce simp: put_confirm_def Let_def mdel_def split: if_splits)

lemma take_confirm_set: "take_confirm now key m cs = (r, cs') \<Longrightarrow> set cs' \<subseteq> set cs"
  by (auto simp: take_confirm_def mdel_def split: option.splits if_splits)

lemma take_confirm_Some:
  assumes "take_confirm now key m cs = (Some c, cs')"
  shows "(key, c) \<in> set cs \<and> pn_MessageID c = m \<and> now \<le> pn_Expires c \<and> map_of cs' key = None"
  using assms by (auto simp: take_confirm_def split: option.splits if_splits dest: map_of_SomeD)

text \<open>The store never holds more than a thousand confirmations.\<close>

lemma put_confirm_bound:
  assumes "length cs \<le> 1000" and "\<And>ks. ks \<noteq> [] \<Longrightarrow> victim ks \<in> set ks"
  shows "length (put_confirm victim now key c cs) \<le> 1000"
proof -
  define live where "live = filter (\<lambda>(k, v). \<not> pn_Expires v < now) cs"
  have l: "length live \<le> 1000" using assms(1) length_filter_le unfolding live_def by (meson order_trans)
  show ?thesis
  proof (cases "1000 \<le> length live")
    case True
    then have "map fst live \<noteq> []" by auto
    with assms(2) have "victim (map fst live) \<in> fst ` set live" by (metis set_map)
    then obtain p where p: "p \<in> set live" "fst p = victim (map fst live)" by (metis imageE)
    have "length (mdel live (victim (map fst live))) < length live"
      unfolding mdel_def by (rule length_filter_less [OF p(1)]) (simp add: p(2))
    with l True show ?thesis using length_mput [of "mdel live (victim (map fst live))" key c]
      by (simp add: put_confirm_def live_def [symmetric])
  next
    case False
    then show ?thesis using length_mput [of live key c] by (simp add: put_confirm_def live_def [symmetric])
  qed
qed

section \<open>Outcomes\<close>

text \<open>A request of the actor for one operation on a ticket.\<close>

definition op_by :: "Actor \<Rightarrow> request \<Rightarrow> bool" where
  "op_by a rq \<longleftrightarrow> (\<exists>a' i f. rq = RqOp a' i f \<and> ac_ID a' = ac_ID a \<and> ac_IsBot a' = ac_IsBot a) \<and> request_utf8 rq"

context quiet_bot
begin

definition served :: "(request \<Rightarrow> 'w \<Rightarrow> bool) \<Rightarrow> 'w \<Rightarrow> 'w \<Rightarrow> bool" where
  "served P w w' \<longleftrightarrow> (\<exists>rq v v' r. P rq v \<and> core v = core w \<and> serve (tickets_at b v) (clock b v) rq v = (r, v') \<and> core w' = core v')"

definition outcome :: "(request \<Rightarrow> 'w \<Rightarrow> bool) \<Rightarrow> (pendingConfirm \<Rightarrow> bool) \<Rightarrow> Bot \<Rightarrow> 'w \<Rightarrow> Bot \<Rightarrow> 'w \<Rightarrow> bool" where
  "outcome P Q bt w bt' w' \<longleftrightarrow> (core w' = core w \<or> served P w w') \<and>
     (\<forall>(k, c) \<in> set (bt_confirms bt'). (k, c) \<in> set (bt_confirms bt) \<or> k = confirmKey (pn_ActorID c) (pn_TicketID c) \<and> Q c)"

lemma outcome_idle: "core w' = core w \<Longrightarrow> bt_confirms bt' = bt_confirms bt \<Longrightarrow> outcome P Q bt w bt' w'"
  by (auto simp: outcome_def)

lemma outcome_served: "served P w w' \<Longrightarrow> set (bt_confirms bt') \<subseteq> set (bt_confirms bt) \<Longrightarrow> outcome P Q bt w bt' w'"
  by (auto simp: outcome_def)

lemma outcome_mono:
  assumes "outcome P Q bt w bt' w'" and "\<And>rq v. P rq v \<Longrightarrow> P' rq v" and "\<And>c. Q c \<Longrightarrow> Q' c"
  shows "outcome P' Q' bt w bt' w'"
  using assms unfolding outcome_def served_def by fast

lemma outcome_shift:
  assumes "outcome P Q bt1 w1 bt' w'" and "core w1 = core w" and "bt_confirms bt1 = bt_confirms bt"
  shows "outcome P Q bt w bt' w'"
  using assms by (simp add: outcome_def served_def)

lemma served_op:
  assumes "operate (tickets_at b v) (clock b v) a i f v = (r, v')" and "P (RqOp a i f) v" and "core v = core w" and "core w' = core v'"
  shows "served P w w'"
proof -
  obtain q where "serve (tickets_at b v) (clock b v) (RqOp a i f) v = (q, v')"
    using assms(1) by (cases r) (auto simp: sbind_def)
  with assms show ?thesis unfolding served_def by blast
qed

lemma served_end: "served P w w1 \<Longrightarrow> core w' = core w1 \<Longrightarrow> served P w w'"
  by (simp add: served_def)

text \<open>One more confirmation.\<close>

lemma outcome_put:
  assumes "core w' = core w" and "Q c" and "key = confirmKey (pn_ActorID c) (pn_TicketID c)"
  shows "outcome P Q bt w (putConfirm b bt key c v) w'"
  unfolding outcome_def
proof (intro conjI disjI1 ballI)
  fix p
  assume "p \<in> set (bt_confirms (putConfirm b bt key c v))"
  then have "p \<in> set (put_confirm (bx_Range b) (clock b v) key c (bt_confirms bt))" by (simp add: putConfirm_def)
  then have "p = (key, c) \<or> p \<in> set (bt_confirms bt)" by (rule put_confirm_set)
  then show "case p of (k, c) \<Rightarrow> (k, c) \<in> set (bt_confirms bt) \<or> k = confirmKey (pn_ActorID c) (pn_TicketID c) \<and> Q c"
    using assms(2,3) by (cases p) auto
qed (rule assms(1))

section \<open>Commands\<close>

lemma ticket_command_outcome:
  assumes "ticket_command b bt name opt a admin rec w = Some (bt', w')" and "name \<in> set thread_commands"
    and "\<And>k. valid_utf8 (opt k)" and "valid_utf8 (ac_ID a)"
  shows "outcome (\<lambda>rq v. op_by a rq) (\<lambda>c. name = ''withdraw-paid'' \<and> pn_Kind c = ''paid'' \<and> pn_ActorID c = ac_ID a \<and>
    pn_TicketID c = r_ID rec \<and> pn_Reference c = opt ''reference'') bt w bt' w'"
proof -
  have "name = ''ticket-status'' \<or> name = ''ticket-handoff'' \<or> name = ''ticket-resolution'' \<or> name = ''seller-approve'' \<or> name = ''withdraw-paid''"
    using assms(2) by (simp add: thread_commands_def)
  then show ?thesis
  proof (elim disjE)
    assume status: "name = ''ticket-status''"
    with assms(1) show ?thesis by (intro outcome_idle) (auto simp: ticket_command_def split: if_splits)
  next
    assume handoff: "name = ''ticket-handoff''"
    obtain a1 bt1 w1 where a: "withAdmins b bt a w = (a1, bt1, w1)" by (metis surj_pair)
    note wa = withAdmins_core [OF a]
    obtain r w2 where h: "HandoffTicket (tickets_at b w1) a1 (r_ID rec) (opt ''admin'') (opt ''reason'') (clock b w1) w1 = (r, w2)" by (metis surj_pair)
    have e: "bt' = bt1" "w' = replyRecord b r w2" using assms(1) handoff a h by (auto simp: ticket_command_def)
    have "served (\<lambda>rq v. op_by a rq) w w'"
      by (rule served_op [where f = "OpHandoff (opt ''admin'') (opt ''reason'')" and v = w1 and a = a1 and i = "r_ID rec"]) (use h wa e assms(3,4) in \<open>simp_all add: op_by_def\<close>)
    then show ?thesis using wa e by (intro outcome_served) auto
  next
    assume resolution: "name = ''ticket-resolution''"
    obtain r w2 where h: "ResolveTicket (tickets_at b w) a (r_ID rec) (opt ''note'') (clock b w) w = (r, w2)" by (metis surj_pair)
    have e: "bt' = bt" "w' = replyRecord b r w2" using assms(1) resolution h by (auto simp: ticket_command_def)
    have "served (\<lambda>rq v. op_by a rq) w w'"
      by (rule served_op [where f = "OpResolve (opt ''note'')" and v = w]) (use h e assms(3,4) in \<open>simp_all add: op_by_def\<close>)
    then show ?thesis using e by (intro outcome_served) auto
  next
    assume seller: "name = ''seller-approve''"
    obtain om w1 where m: "se_GuildMember (session_of b) (r_OpenerID rec) w = (om, w1)" by (metis surj_pair)
    define rs where "rs = roleNames (session_of b) (case om of Inl _ \<Rightarrow> None | Inr m \<Rightarrow> Some m) w1"
    obtain r w2 where h: "ApproveSellerTicket (tickets_at b w1) a (r_ID rec) (opt ''reason'') rs (clock b w1) w1 = (r, w2)" by (metis surj_pair)
    have st: "core (snd (setTier (bx_Members b t) (session_of b) i x n w)) = core w" for t i x n w using setTier_still by (simp add: still_def)
    have e: "bt' = bt" "core w' = core w2"
      using assms(1) seller m h by (auto simp: ticket_command_def Let_def rs_def [symmetric] split: sum.splits prod.splits
        dest!: stillD [OF setTier_still] refreshMemberPanel_core)
    have "served (\<lambda>rq v. op_by a rq) w w'"
      by (rule served_op [where f = "OpSeller (opt ''reason'') rs" and v = w1]) (use h e kept(3) [OF m] assms(3,4) in \<open>simp_all add: op_by_def\<close>)
    then show ?thesis using e by (intro outcome_served) auto
  next
    assume paid: "name = ''withdraw-paid''"
    obtain r w1 where f: "dc_Followup (bx_Discord b) (paidConfirm rec (opt ''reference'')) w = (r, w1)" by (metis surj_pair)
    note c = kept(17) [OF f]
    show ?thesis
    proof (cases "\<exists>i. r = Inr (Some i)")
      case True
      then obtain i where "r = Inr (Some i)" by blast
      with assms(1) paid f have "bt' = putConfirm b bt (confirmKey (ac_ID a) (r_ID rec))
               \<lparr>pn_Kind = ''paid'', pn_TicketID = r_ID rec, pn_ActorID = ac_ID a, pn_MessageID = i,
                pn_Reference = opt ''reference'', pn_Expires = clock b w1 + confirmTTL\<rparr> w1" "w' = w1"
        by (auto simp: ticket_command_def)
      then show ?thesis using c paid by (simp add: outcome_put)
    next
      case False
      with assms(1) paid f c show ?thesis by (intro outcome_idle) (auto simp: ticket_command_def split: sum.splits option.splits)
    qed
  qed
qed

lemma Queue_still: "still core (Queue (bx_Repo b t) a n)"
  unfolding Queue_def by (intro still_if still_sfail still_sbind reads_still still_sret)

lemma Mutasi_still: "still core (Mutasi (bx_Repo b t) a)"
  unfolding Mutasi_def by (rule reads_still)

lemma GetByThread_still: "still core (GetByThread (bx_Repo b t) i)"
  unfolding GetByThread_def by (rule reads_still)

lemma post_core [simp]: "core (post b ch m w) = core w"
  by (simp add: post_def)

lemma guildsync_core: "guildsync b bt w = (r, bt', w') \<Longrightarrow> core w' = core w \<and> bt_confirms bt' = bt_confirms bt"
  by (auto simp: guildsync_def split: prod.splits dest!: syncLaunchGuild_core)

lemma automodsync_core: "automodsync b bt w = (r, w') \<Longrightarrow> core w' = core w"
  by (auto simp: automodsync_def split: prod.splits dest!: stillD [OF syncAutoMod_still])

lemma rolesync_core: "rolesync b w = (r, w') \<Longrightarrow> core w' = core w"
  by (auto simp: rolesync_def split: prod.splits dest!: stillD [OF syncLaunchRoles_still])

lemma handleCommand_outcome:
  assumes "handleCommand b bt ix name opts a admin w = Some (bt', w')"
    and "\<And>k. valid_utf8 (command_option_value opts k)" and "valid_utf8 (ac_ID a)"
  shows "outcome (\<lambda>rq v. op_by a rq) (\<lambda>c. name = ''withdraw-paid'' \<and> pn_Kind c = ''paid'' \<and> pn_ActorID c = ac_ID a \<and>
    pn_Reference c = command_option_value opts ''reference'') bt w bt' w'"
proof (cases "name \<in> set thread_commands")
  case False
  have guard: ?thesis if "name \<in> set adminOnlyNames \<and> \<not> admin"
    using assms(1) that by (intro outcome_idle) (auto simp: handleCommand_def)
  note run = assms(1) [unfolded handleCommand_def Let_def]
  have open1: ?thesis if g: "\<not> (name \<in> set adminOnlyNames \<and> \<not> admin)"
  proof -
    note run = run [unfolded if_not_P [OF g]]
    have c0: ?thesis if "name = ''guildsync''"
      using run that by (intro outcome_idle) (auto split: if_splits prod.splits sum.splits option.splits dest!: guildsync_core)
    have c1: ?thesis if "name = ''automodsync''"
      using run that by (intro outcome_idle) (auto split: if_splits prod.splits sum.splits option.splits dest!: automodsync_core)
    have c2: ?thesis if "name = ''rolesync''"
      using run that by (intro outcome_idle) (auto split: if_splits prod.splits sum.splits option.splits dest!: rolesync_core)
    have c3: ?thesis if "name = ''panel''"
      using run that by (intro outcome_idle) (auto split: if_splits prod.splits sum.splits option.splits)
    have c4: ?thesis if "name = ''rolepanel''"
      using run that by (intro outcome_idle) (auto split: if_splits prod.splits sum.splits option.splits)
    have c5: ?thesis if "name = ''verifypanel''"
      using run that by (intro outcome_idle) (auto split: if_splits prod.splits sum.splits option.splits)
    have c6: ?thesis if "name = ''safety''"
      using run that by (intro outcome_idle) (auto split: if_splits prod.splits sum.splits option.splits)
    have c7: ?thesis if "name = ''whoami''"
      using run that by (intro outcome_idle) (auto split: if_splits prod.splits sum.splits option.splits)
    have c8: ?thesis if "name = ''tickets''"
      using run that by (intro outcome_idle) (auto split: if_splits prod.splits sum.splits option.splits dest!: stillD [OF Queue_still])
    have c9: ?thesis if "name = ''mutasi''"
      using run that by (intro outcome_idle) (auto split: if_splits prod.splits sum.splits option.splits dest!: stillD [OF Mutasi_still])
    have c10: ?thesis if "name = ''memberpanel''"
      using run that by (intro outcome_idle) (auto split: if_splits prod.splits sum.splits option.splits dest!: publishMemberPanel_core)
    have c11: ?thesis if "name = ''areapanel''"
      using run that by (intro outcome_idle) (auto split: if_splits prod.splits sum.splits option.splits)
    have c12: ?thesis if "name = ''membersync''"
      using run that by (intro outcome_idle) (auto split: if_splits prod.splits sum.splits option.splits dest!: reconcileTiers_core refreshMemberPanel_core)
    have c13: ?thesis if "name = ''server''"
      using run that by (intro outcome_idle) (auto split: if_splits prod.splits sum.splits option.splits dest!: serverSnapshot_core)
    have c14: ?thesis if "name = ''revenue''"
      using run that by (intro outcome_idle) (auto split: if_splits prod.splits sum.splits option.splits dest!: revenueSnapshot_core)
    have c15: ?thesis if "name = ''lookup''"
      using run that by (intro outcome_idle) (auto split: if_splits prod.splits sum.splits option.splits dest!: lookup_core)
    have c16: ?thesis if "name = ''testwelcome''"
      using run that by (intro outcome_idle) (auto split: if_splits prod.splits sum.splits option.splits)
    have rest: ?thesis if "name \<noteq> ''guildsync''" "name \<noteq> ''automodsync''" "name \<noteq> ''rolesync''" "name \<noteq> ''panel''" "name \<noteq> ''rolepanel''" "name \<noteq> ''verifypanel''" "name \<noteq> ''safety''" "name \<noteq> ''whoami''" "name \<noteq> ''tickets''" "name \<noteq> ''mutasi''" "name \<noteq> ''memberpanel''" "name \<noteq> ''areapanel''" "name \<noteq> ''membersync''" "name \<noteq> ''server''" "name \<noteq> ''revenue''" "name \<noteq> ''lookup''" "name \<noteq> ''testwelcome''"
      using run that False by (intro outcome_idle) auto
    show ?thesis
      by (rule case_split, erule c0, rule case_split, erule c1, rule case_split, erule c2, rule case_split, erule c3, rule case_split, erule c4, rule case_split, erule c5, rule case_split, erule c6, rule case_split, erule c7, rule case_split, erule c8, rule case_split, erule c9, rule case_split, erule c10, rule case_split, erule c11, rule case_split, erule c12, rule case_split, erule c13, rule case_split, erule c14, rule case_split, erule c15, rule case_split, erule c16, rule rest)
  qed
  show ?thesis by (rule case_split [OF guard open1])
next
  case True
  then have other: "name \<noteq> ''guildsync''" "name \<noteq> ''automodsync''" "name \<noteq> ''rolesync''" "name \<noteq> ''panel''" "name \<noteq> ''rolepanel''"
    "name \<noteq> ''verifypanel''" "name \<noteq> ''safety''" "name \<noteq> ''whoami''" "name \<noteq> ''tickets''" "name \<noteq> ''mutasi''" "name \<noteq> ''memberpanel''"
    "name \<noteq> ''areapanel''" "name \<noteq> ''membersync''" "name \<noteq> ''server''" "name \<noteq> ''revenue''" "name \<noteq> ''lookup''" "name \<noteq> ''testwelcome''"
    by (auto simp: thread_commands_def)
  obtain r w1 where g: "GetByThread (tickets_at b w) (ix_ChannelID ix) w = (r, w1)" by (metis surj_pair)
  note c = stillD [OF GetByThread_still g]
  show ?thesis
  proof (cases "\<exists>rec. r = Inr rec \<and> ticket_command b bt name (command_option_value opts) a admin rec w1 = Some (bt', w')")
    case True
    then obtain rec where "ticket_command b bt name (command_option_value opts) a admin rec w1 = Some (bt', w')" by blast
    from outcome_shift [OF ticket_command_outcome [OF this \<open>name \<in> set thread_commands\<close> assms(2,3)] c refl] show ?thesis
      by (rule outcome_mono) auto
  next
    case False
    with assms(1) g c True other have "bt' = bt \<and> core w' = core w"
      by (auto simp: handleCommand_def Let_def split: if_splits sum.splits)
    then show ?thesis by (intro outcome_idle) auto
  qed
qed

section \<open>Buttons and menus\<close>

text \<open>The payment that a click on a pending prompt asks for.\<close>

definition paid_by :: "Actor \<Rightarrow> (string, pendingConfirm) gomap \<Rightarrow> string \<Rightarrow> string \<Rightarrow> request \<Rightarrow> 'w \<Rightarrow> bool" where
  "paid_by a confirms i messageID rq v \<longleftrightarrow> (\<exists>p. rq = RqPay a i (pn_Reference p) \<and> (confirmKey (ac_ID a) i, p) \<in> set confirms \<and>
     pn_MessageID p = messageID \<and> clock b v \<le> pn_Expires p) \<and> request_utf8 rq"

lemma move_served:
  assumes "(case TransitionTicket (tickets_at b w) a i dst (clock b w) w of (r, w1) \<Rightarrow> Some (bt1, replyRecord b r w1)) = Some (bt', w')"
    and "\<And>rq v. op_by a rq \<Longrightarrow> P rq v" and "valid_utf8 (ac_ID a)"
  shows "served P w w' \<and> bt' = bt1"
proof -
  obtain r w1 where m: "TransitionTicket (tickets_at b w) a i dst (clock b w) w = (r, w1)" by (metis surj_pair)
  have "served P w w'"
    by (rule served_op [where f = "OpMove dst" and v = w and v' = w1 and a = a and i = i]) (use m assms in \<open>auto simp: op_by_def\<close>)
  with m assms(1) show ?thesis by simp
qed

lemma takeConfirm_Some:
  assumes "takeConfirm b bt key m w = (Some p, bt1)"
  shows "(key, p) \<in> set (bt_confirms bt) \<and> pn_MessageID p = m \<and> clock b w \<le> pn_Expires p \<and>
    map_of (bt_confirms bt1) key = None \<and> set (bt_confirms bt1) \<subseteq> set (bt_confirms bt)"
  using assms take_confirm_Some take_confirm_set by (auto simp: takeConfirm_def split: prod.splits) blast+

lemma takeConfirm_set: "takeConfirm b bt key m w = (r, bt1) \<Longrightarrow> set (bt_confirms bt1) \<subseteq> set (bt_confirms bt)"
  using take_confirm_set by (auto simp: takeConfirm_def split: prod.splits) blast

lemma ticket_control_outcome:
  assumes "ticket_control b bt action vals m a rec w = Some (bt', w')" and "valid_utf8 (ac_ID a)"
  shows "outcome (\<lambda>rq v. op_by a rq \<or> action = ''confirmpaid'' \<and> paid_by a (bt_confirms bt) (r_ID rec) m rq v \<and>
      map_of (bt_confirms bt') (confirmKey (ac_ID a) (r_ID rec)) = None)
    (\<lambda>c. pn_Kind c = ''close'' \<and> pn_ActorID c = ac_ID a \<and> pn_Reference c = []) bt w bt' w'" (is "outcome ?P ?Q _ _ _ _")
proof -
  note run = assms(1) [unfolded ticket_control_def Let_def]
  let ?confirming = "action = ''confirmclose'' \<or> action = ''cancelclose'' \<or> action = ''confirmpaid'' \<or> action = ''cancelpaid''"
  have confirm: ?thesis if "?confirming"
  proof -
    obtain c bt1 where t: "takeConfirm b bt (confirmKey (ac_ID a) (r_ID rec)) m w = (c, bt1)" by (metis surj_pair)
    note sub = takeConfirm_set [OF t]
    note run = run [unfolded if_P [OF that] t]
    show ?thesis
    proof (cases c)
      case None
      with run have "bt' = bt1" "w' = edit b ''This confirmation is no longer current. Use the latest prompt.'' w" by simp_all
      with sub show ?thesis by (auto simp: outcome_def)
    next
      case (Some p)
      note tk = takeConfirm_Some [OF t [unfolded Some]]
      show ?thesis
      proof (cases "action = ''cancelclose'' \<or> action = ''cancelpaid''")
        case True
        with run Some have "bt' = bt1" "w' = edit b ''Cancelled. The ticket is unchanged.'' w" by auto
        with sub show ?thesis by (auto simp: outcome_def)
      next
        case False
        show ?thesis
        proof (cases "action = ''confirmclose''")
          case True
          with run Some have "(case TransitionTicket (tickets_at b w) a (r_ID rec) ''closed'' (clock b w) w of (r, w1) \<Rightarrow> Some (bt1, replyRecord b r w1)) = Some (bt', w')"
            by simp
          from move_served [OF this, of ?P] assms(2) sub show ?thesis by (intro outcome_served) auto
        next
          case no: False
          with False that have act: "action = ''confirmpaid''" by blast
          obtain r w1 where p: "RecordPayment (tickets_at b w) a (r_ID rec) (pn_Reference p) (clock b w) w = (r, w1)" by (metis surj_pair)
          have e: "bt' = bt1" "core w' = core w1" using run Some False no p by (auto split: sum.splits option.splits)
          have "?P (RqPay a (r_ID rec) (pn_Reference p)) w" using tk act assms(2) e(1) by (auto simp: paid_by_def)
          then have "served ?P w w'" unfolding served_def using p e(2)
            by (intro exI [of _ "RqPay a (r_ID rec) (pn_Reference p)"] exI [of _ w] exI [of _ w1] exI [of _ r]) simp
          with sub e show ?thesis by (intro outcome_served) auto
        qed
      qed
    qed
  qed
  have other: ?thesis if g: "\<not> ?confirming"
  proof -
    note run = run [unfolded if_not_P [OF g]]
    have c1: ?thesis if "action = ''claim''"
    proof -
      obtain r w1 where h: "ClaimTicket (tickets_at b w) a (r_ID rec) (clock b w) w = (r, w1)" by (metis surj_pair)
      have "served ?P w w1" by (rule served_op [where f = OpClaim and v = w and v' = w1 and a = a and i = "r_ID rec"]) (use h assms(2) in \<open>auto simp: op_by_def\<close>)
      from served_end [OF this] run that h show ?thesis by (intro outcome_served) auto
    qed
    have c2: ?thesis if "action = ''status''" using run that by (intro outcome_idle) (auto split: if_splits)
    have c3: ?thesis if "action = ''setstatus''"
    proof (cases "\<exists>dst. vals = [dst]")
      case False
      with run that show ?thesis by (intro outcome_idle) (auto split: list.splits)
    next
      case True
      then obtain dst where v: "vals = [dst]" by blast
      show ?thesis
      proof (cases "dst \<noteq> ''closed'' \<and> IsWithdrawal (r_Type rec) (r_Workflow rec) \<and> dst = ''approved''")
        case False
        with run that v have "(case TransitionTicket (tickets_at b w) a (r_ID rec) dst (clock b w) w of (r, w1) \<Rightarrow> Some (bt, replyRecord b r w1)) = Some (bt', w')"
          by (auto split: if_splits)
        from move_served [OF this, of ?P] assms(2) show ?thesis by (intro outcome_served) auto
      next
        case True
        obtain r w1 where h: "ApproveWithdrawalTicket (tickets_at b w) a (r_ID rec) (clock b w) w = (r, w1)" by (metis surj_pair)
        have "served ?P w w1" by (rule served_op [where f = OpApprove and v = w and v' = w1 and a = a and i = "r_ID rec"]) (use h assms(2) in \<open>auto simp: op_by_def\<close>)
        from served_end [OF this] run that v True h show ?thesis by (intro outcome_served) auto
      qed
    qed
    have c4: ?thesis if "action = ''close''"
    proof -
      obtain r w1 where f: "dc_Followup (bx_Discord b) (closeConfirm rec) w = (r, w1)" by (metis surj_pair)
      note c = kept(17) [OF f]
      show ?thesis
      proof (cases "\<exists>i. r = Inr (Some i)")
        case True
        then obtain i where "r = Inr (Some i)" by blast
        with run that f have "bt' = putConfirm b bt (confirmKey (ac_ID a) (r_ID rec))
               \<lparr>pn_Kind = ''close'', pn_TicketID = r_ID rec, pn_ActorID = ac_ID a, pn_MessageID = i,
                pn_Reference = [], pn_Expires = clock b w1 + confirmTTL\<rparr> w1" "w' = w1" by auto
        then show ?thesis using c by (simp add: outcome_put)
      next
        case False
        with run that f c show ?thesis by (intro outcome_idle) (auto split: sum.splits option.splits)
      qed
    qed
    have rest: ?thesis if "action \<noteq> ''claim''" "action \<noteq> ''status''" "action \<noteq> ''setstatus''" "action \<noteq> ''close''"
      using run that by (intro outcome_idle) auto
    show ?thesis
      by (rule case_split, erule c1, rule case_split, erule c2, rule case_split, erule c3, rule case_split, erule c4, rule rest)
  qed
  show ?thesis by (rule case_split [OF confirm other])
qed

end

section \<open>Interactions\<close>

definition member_of :: "interaction \<Rightarrow> User option" where
  "member_of ix = (case ix_Member ix of None \<Rightarrow> None | Some m \<Rightarrow> dm_User m)"

text \<open>The strings of an interaction come from a JSON decoder, so they are valid UTF-8.\<close>

definition interaction_utf8 :: "interaction \<Rightarrow> bool" where
  "interaction_utf8 ix \<longleftrightarrow> (case member_of ix of None \<Rightarrow> True | Some u \<Rightarrow> valid_utf8 (us_ID u)) \<and>
     (case ix_Data ix of
        ICommand name opts \<Rightarrow> list_all (\<lambda>(k, v). case v of OvString s \<Rightarrow> valid_utf8 s | OvUser s \<Rightarrow> valid_utf8 s | OvOther \<Rightarrow> True) opts
      | IModal cid rows \<Rightarrow> list_all (\<lambda>(k, v). valid_utf8 k \<and> valid_utf8 v) (concat rows)
      | _ \<Rightarrow> True)"

text \<open>
  The requests that an interaction of user \<open>u\<close> may send, at time \<open>now\<close>, with the confirmations pending
  before and after it.
\<close>

definition bot_request :: "User \<Rightarrow> interaction \<Rightarrow> (string, pendingConfirm) gomap \<Rightarrow> (string, pendingConfirm) gomap \<Rightarrow> request \<Rightarrow> instant \<Rightarrow> bool" where
  "bot_request u ix confirms confirms' rq now \<longleftrightarrow> request_utf8 rq \<and> ac_ID (actor_of rq) = us_ID u \<and> \<not> ac_IsBot (actor_of rq) \<and>
     (case rq of
        RqCreate a input \<Rightarrow> \<exists>cid rows. ix_Data ix = IModal cid rows
      | RqOp a i f \<Rightarrow> (\<exists>name opts. ix_Data ix = ICommand name opts) \<or> (\<exists>cid vals m. ix_Data ix = IComponent cid vals m)
      | RqPay a i reference \<Rightarrow> (\<exists>vals p. ix_Data ix = IComponent (''ticket:confirmpaid:'' @ i) vals (pn_MessageID p) \<and>
          (confirmKey (us_ID u) i, p) \<in> set confirms \<and> pn_Reference p = reference \<and> now \<le> pn_Expires p \<and>
          map_of confirms' (confirmKey (us_ID u) i) = None))"

text \<open>The confirmations that an interaction may add.\<close>

definition prompted :: "User \<Rightarrow> interaction \<Rightarrow> pendingConfirm \<Rightarrow> bool" where
  "prompted u ix c \<longleftrightarrow> pn_ActorID c = us_ID u \<and>
     (pn_Reference c = [] \<or> (\<exists>opts. ix_Data ix = ICommand ''withdraw-paid'' opts \<and> pn_Reference c = command_option_value opts ''reference''))"

lemma option_value_utf8:
  assumes "list_all (\<lambda>(k, v). case v of OvString s \<Rightarrow> valid_utf8 s | OvUser s \<Rightarrow> valid_utf8 s | OvOther \<Rightarrow> True) opts"
  shows "valid_utf8 (command_option_value opts k)"
proof (cases "find (\<lambda>(k', v). k' = k \<and> v \<noteq> OvOther) opts")
  case None
  then show ?thesis by (simp add: command_option_value_def valid_utf8_def)
next
  case (Some p)
  then have "p \<in> set opts" using find_SomeD by fast
  with assms Some show ?thesis
    by (cases p; cases "snd p") (auto simp: command_option_value_def list_all_iff valid_utf8_def)
qed

lemma modal_data_utf8:
  assumes "list_all (\<lambda>(k, v). valid_utf8 k \<and> valid_utf8 v) (concat rows)"
  shows "list_all (\<lambda>p. valid_utf8 (fst p) \<and> valid_utf8 (snd p)) (modal_data rows)"
proof -
  have "list_all (\<lambda>p. valid_utf8 (fst p) \<and> valid_utf8 (snd p)) (foldl (\<lambda>d (k, v). mput d k v) d ps)"
    if "list_all (\<lambda>p. valid_utf8 (fst p) \<and> valid_utf8 (snd p)) d" "list_all (\<lambda>(k, v). valid_utf8 k \<and> valid_utf8 v) ps" for d ps
    using that
  proof (induction ps arbitrary: d)
    case (Cons p ps)
    obtain k v where p: "p = (k, v)" by (cases p)
    have "list_all (\<lambda>p. valid_utf8 (fst p) \<and> valid_utf8 (snd p)) (mput d k v)"
      using Cons.prems p set_mput [of d k v] by (fastforce simp: list_all_iff)
    with Cons p show ?case by simp
  qed simp
  with assms show ?thesis by (simp add: modal_data_def)
qed

lemma split_at: "d \<in> set s \<Longrightarrow> s = takeWhile (\<lambda>c. c \<noteq> d) s @ d # tl (dropWhile (\<lambda>c. c \<noteq> d) s)"
  by (induction s) auto

lemma SplitN_three: "SplitN d 3 s = [p, q, r] \<Longrightarrow> s = p @ d # q @ d # r"
  using split_at [of d s] split_at [of d "tl (dropWhile (\<lambda>c. c \<noteq> d) s)"] by (auto simp: numeral_3_eq_3 split: if_splits)

text \<open>A ticket found by its id has that id.\<close>

locale ticket_bot = quiet_bot +
  assumes finds: "\<And>t i w rec w'. rp_FindByPublicID (bx_Repo b t) i w = (Inr rec, w') \<Longrightarrow> r_ID rec = i"

context ticket_bot
begin

lemma handleComponent_outcome:
  assumes "handleComponent b bt ix cid vals m u held a admin w = Some (bt', w')" and "valid_utf8 (ac_ID a)"
  shows "outcome (\<lambda>rq v. op_by a rq \<or> (\<exists>i. cid = ''ticket:confirmpaid:'' @ i \<and> paid_by a (bt_confirms bt) i m rq v \<and>
      map_of (bt_confirms bt') (confirmKey (ac_ID a) i) = None))
    (\<lambda>c. pn_ActorID c = ac_ID a \<and> pn_Reference c = []) bt w bt' w'" (is "outcome ?P ?Q _ _ _ _")
proof (cases "\<exists>action i rec w1. \<not> HasPrefix cid ''rolepick:'' \<and> cid \<noteq> VerifyButtonID \<and> SplitN CHR '':'' 3 cid = [''ticket'', action, i] \<and>
    Get (tickets_at b w) i w = (Inr rec, w1) \<and> ticket_control b bt action vals m a rec w1 = Some (bt', w')")
  case True
  then obtain action i rec w1 where s: "SplitN CHR '':'' 3 cid = [''ticket'', action, i]"
    and g: "Get (tickets_at b w) i w = (Inr rec, w1)" and t: "ticket_control b bt action vals m a rec w1 = Some (bt', w')" by blast
  have c: "core w1 = core w" "r_ID rec = i" using g kept(32) finds by (auto simp: Get_def)
  have cid: "cid = ''ticket'' @ '':'' @ action @ '':'' @ i" using SplitN_three [OF s] by simp
  from outcome_shift [OF ticket_control_outcome [OF t assms(2)] c(1) refl] show ?thesis
    by (rule outcome_mono) (auto simp: cid c(2))
next
  case False
  note run = assms(1) [unfolded handleComponent_def]
  show ?thesis
  proof (cases "HasPrefix cid ''rolepick:'' \<or> cid = VerifyButtonID")
    case True
    with run have "core w' = core w \<and> bt' = bt"
      by (auto split: if_splits option.splits prod.splits dest!: toggle_role_core verify_button_core)
    then show ?thesis by (intro outcome_idle) auto
  next
    case no: False
    show ?thesis
    proof (cases "\<exists>p action i. SplitN CHR '':'' 3 cid = [p, action, i] \<and> p = ''ticket''")
      case True
      then obtain action i where s: "SplitN CHR '':'' 3 cid = [''ticket'', action, i]" by blast
      obtain r w1 where g: "Get (tickets_at b w) i w = (r, w1)" by (metis surj_pair)
      have c: "core w1 = core w" using g kept(32) by (auto simp: Get_def)
      have "\<not> (\<exists>rec. r = Inr rec \<and> ticket_control b bt action vals m a rec w1 = Some (bt', w'))" using False no s g by blast
      with run no s g have "bt' = bt \<and> core w' = core w1" by (auto split: if_splits sum.splits)
      with c show ?thesis by (intro outcome_idle) auto
    next
      case False
      with run no have "bt' = bt \<and> core w' = core w" by (auto split: if_splits list.splits)
      then show ?thesis by (intro outcome_idle) auto
    qed
  qed
qed

lemma add_members_core [simp]: "core (add_members b thread ids w) = core w"
  unfolding add_members_def by (induction ids arbitrary: w) auto

lemma handleModal_outcome:
  assumes "handleModal b bt ix cid rows a w = Some (bt', w')" and "valid_utf8 (ac_ID a)"
    and "list_all (\<lambda>(k, v). valid_utf8 k \<and> valid_utf8 v) (concat rows)"
  shows "outcome (\<lambda>rq v. request_utf8 rq \<and> (\<exists>a' input. rq = RqCreate a' input \<and> ac_ID a' = ac_ID a \<and> ac_IsBot a' = ac_IsBot a)) (\<lambda>_. False) bt w bt' w'"
    (is "outcome ?P _ _ _ _ _")
proof (cases "TypeByKey (TrimPrefix cid ''ticket:modal:'')")
  case None
  with assms(1) show ?thesis by (intro outcome_idle) (auto simp: handleModal_def)
next
  case (Some spec)
  define parent where "parent = (if chan_id bt ''open-a-ticket'' = [] then ix_ChannelID ix else chan_id bt ''open-a-ticket'')"
  obtain r w1 where th: "dc_ThreadStart (bx_Discord b) parent w = (r, w1)" by (metis surj_pair)
  note c1 = kept(20) [OF th]
  note run = assms(1) [unfolded handleModal_def Some option.case Let_def, folded parent_def, unfolded th prod.case]
  show ?thesis
  proof (cases r)
    case (Inl e)
    with run c1 show ?thesis by (intro outcome_idle) auto
  next
    case (Inr thread)
    obtain a1 bt1 w2 where wa: "withAdmins b bt a w1 = (a1, bt1, w2)" by (metis surj_pair)
    note ca = withAdmins_core [OF wa]
    define input where "input = \<lparr>ci_Type = ty_Key spec, ci_Data = modal_data rows, ci_ThreadID = thread\<rparr>"
    obtain mk where mk: "Create (tickets_at b w2) a1 input (clock b w2) = Some mk"
      using run Inr wa by (auto simp: input_def split: option.splits)
    obtain q w3 where q: "mk w2 = (q, w3)" by (metis surj_pair)
    have e: "bt' = bt1" "core w' = core w3"
      using run Inr wa mk q by (auto simp: input_def Let_def split: sum.splits)
    have sv: "\<exists>x. serve (tickets_at b w2) (clock b w2) (RqCreate a1 input) w2 = (x, w3)"
      using mk q by (cases q) (auto simp: sbind_def)
    have utf: "?P (RqCreate a1 input) w2"
      using ca assms(2) modal_data_utf8 [OF assms(3)] by (auto simp: input_def)
    have "served ?P w w'" unfolding served_def using sv utf ca c1 e(2)
      by (metis (no_types, lifting))
    then show ?thesis using ca e by (intro outcome_served) auto
  qed
qed

lemma dispatch_outcome:
  assumes "dispatch b bt ix u held w = Some (bt', w')" and "interaction_utf8 ix" and "member_of ix = Some u"
  shows "outcome (\<lambda>rq v. bot_request u ix (bt_confirms bt) (bt_confirms bt') rq (clock b v)) (prompted u ix) bt w bt' w'"
proof -
  obtain a bt1 w1 where act: "actor b bt u held w = (a, bt1, w1)" by (metis surj_pair)
  have ca: "core w1 = core w" "bt_confirms bt1 = bt_confirms bt" "ac_ID a = us_ID u" "\<not> ac_IsBot a"
    using actor_core [OF act] by simp_all
  have utf: "valid_utf8 (ac_ID a)" using assms(2,3) ca by (simp add: interaction_utf8_def)
  note run = assms(1) [unfolded dispatch_def act prod.case Let_def]
  have op: "bot_request u ix cs cs' rq n" if "op_by a rq" "(\<exists>name opts. ix_Data ix = ICommand name opts) \<or> (\<exists>cid vals m. ix_Data ix = IComponent cid vals m)"
    for rq cs cs' n using that ca by (auto simp: bot_request_def op_by_def)
  show ?thesis
  proof (cases "ix_Data ix")
    case (ICommand name opts)
    have v: "valid_utf8 (command_option_value opts k)" for k
      using assms(2) ICommand by (intro option_value_utf8) (simp add: interaction_utf8_def)
    have "handleCommand b bt1 ix name opts a (IsTicketAdmin (ac_ID a) (ac_OwnerID a) False (ac_IsAdmin a)) w1 = Some (bt', w')"
      using run ICommand by simp
    from outcome_shift [OF handleCommand_outcome [OF this v utf] ca(1,2)] show ?thesis
      by (rule outcome_mono) (auto simp: prompted_def ICommand ca(3) intro: op)
  next
    case (IComponent cid vals m)
    have "handleComponent b bt1 ix cid vals m u held a (IsTicketAdmin (ac_ID a) (ac_OwnerID a) False (ac_IsAdmin a)) w1 = Some (bt', w')"
      using run IComponent by simp
    note h = outcome_shift [OF handleComponent_outcome [OF this utf] ca(1,2)]
    have pay: "bot_request u ix (bt_confirms bt) (bt_confirms bt') rq (clock b v)"
      if "cid = ''ticket:confirmpaid:'' @ i" "paid_by a (bt_confirms bt1) i m rq v" "map_of (bt_confirms bt') (confirmKey (ac_ID a) i) = None" for i rq v
      using that ca IComponent by (auto simp: bot_request_def paid_by_def)
    have opc: "bot_request u ix cs cs' rq n" if "op_by a rq" for rq cs cs' n
      using op [OF that] IComponent by blast
    from h show ?thesis
      by (rule outcome_mono) (auto simp: prompted_def ca(3) intro: opc pay)
  next
    case (IModal cid rows)
    have "handleModal b bt1 ix cid rows a w1 = Some (bt', w')" using run IModal by simp
    moreover have "list_all (\<lambda>(k, v). valid_utf8 k \<and> valid_utf8 v) (concat rows)" using assms(2) IModal by (simp add: interaction_utf8_def)
    ultimately have "outcome (\<lambda>rq v. request_utf8 rq \<and> (\<exists>a' input. rq = RqCreate a' input \<and> ac_ID a' = ac_ID a \<and> ac_IsBot a' = ac_IsBot a))
        (\<lambda>_. False) bt1 w1 bt' w'" using utf by (intro handleModal_outcome)
    from outcome_shift [OF this ca(1,2)] show ?thesis
      by (rule outcome_mono) (auto simp: bot_request_def IModal ca(3,4))
  next
    case IOther
    with run ca show ?thesis by (intro outcome_idle) auto
  qed
qed

lemma onInteraction_outcome:
  assumes "onInteraction b bt ix w = Some (bt', w')" and "interaction_utf8 ix"
  shows "core w' = core w \<and> bt_confirms bt' = bt_confirms bt \<or>
    ix_GuildID ix = bx_GuildID b \<and> (\<exists>u. member_of ix = Some u \<and>
      outcome (\<lambda>rq v. bot_request u ix (bt_confirms bt) (bt_confirms bt') rq (clock b v)) (prompted u ix) bt w bt' w')"
proof (cases "\<exists>u. ix_GuildID ix = bx_GuildID b \<and> quick (ix_Data ix) = None \<and> member_of ix = Some u")
  case True
  then obtain u where g: "ix_GuildID ix = bx_GuildID b" "quick (ix_Data ix) = None" "member_of ix = Some u" by blast
  then obtain mb where mb: "ix_Member ix = Some mb" "dm_User mb = Some u" by (auto simp: member_of_def split: option.splits)
  obtain r w1 where d: "dc_Defer (bx_Discord b) w = (r, w1)" by (metis surj_pair)
  note c = kept(16) [OF d]
  show ?thesis
  proof (cases r)
    case (Inl e)
    with assms(1) g d c show ?thesis by (auto simp: onInteraction_def)
  next
    case (Inr x)
    with assms(1) g d mb have "dispatch b bt ix u (dm_Roles mb) w1 = Some (bt', w')" by (simp add: onInteraction_def)
    from outcome_shift [OF dispatch_outcome [OF this assms(2) g(3)] c refl] g show ?thesis by blast
  qed
next
  case False
  have r: "core (respond_form b key w) = core w" for key w by (simp add: respond_form_def split: option.split)
  from False assms(1) have "core w' = core w \<and> bt' = bt"
    by (auto simp: onInteraction_def member_of_def r split: if_splits option.splits prod.splits sum.splits dest!: kept(16))
  then show ?thesis by simp
qed

end

end
