(* ===== verification/BotWorld.thy ===== *)
theory BotWorld
  imports BotGate
begin

text \<open>
  The whole program: the ticket tables, the member table, and Discord with the files and the
  revenue service as a third component \<open>'d\<close> about which nothing is assumed. The bot and the HTTP
  API work on the same tables.
\<close>

record 'd world =
  wd_Pg :: pg
  wd_Tab :: guild_tab
  wd_Rest :: 'd

section \<open>Operations on one component\<close>

definition on_pg :: "(pg \<Rightarrow> 'a \<times> pg) \<Rightarrow> 'd world \<Rightarrow> 'a \<times> 'd world" where
  "on_pg m w = (case m (wd_Pg w) of (r, p) \<Rightarrow> (r, w\<lparr>wd_Pg := p\<rparr>))"

definition on_tab :: "(guild_tab \<Rightarrow> 'a \<times> guild_tab) \<Rightarrow> 'd world \<Rightarrow> 'a \<times> 'd world" where
  "on_tab m w = (case m (wd_Tab w) of (r, p) \<Rightarrow> (r, w\<lparr>wd_Tab := p\<rparr>))"

definition on_rest :: "('d \<Rightarrow> 'a \<times> 'd) \<Rightarrow> 'd world \<Rightarrow> 'a \<times> 'd world" where
  "on_rest m w = (case m (wd_Rest w) of (r, p) \<Rightarrow> (r, w\<lparr>wd_Rest := p\<rparr>))"

definition rest_w :: "('d \<Rightarrow> 'd) \<Rightarrow> 'd world \<Rightarrow> 'd world" where
  "rest_w f w = w\<lparr>wd_Rest := f (wd_Rest w)\<rparr>"

definition lift_repo :: "pg repo \<Rightarrow> 'd world repo" where
  "lift_repo rp = \<lparr>rp_NextSeq = on_pg (rp_NextSeq rp), rp_Save = (\<lambda>r. on_pg (rp_Save rp r)),
     rp_FindByPublicID = (\<lambda>i. on_pg (rp_FindByPublicID rp i)), rp_FindByThreadID = (\<lambda>i. on_pg (rp_FindByThreadID rp i)),
     rp_ListOpen = on_pg (rp_ListOpen rp), rp_ListByOpener = (\<lambda>i. on_pg (rp_ListByOpener rp i)),
     rp_ListOutgoingBySeller = (\<lambda>i. on_pg (rp_ListOutgoingBySeller rp i)), rp_OutgoingExists = (\<lambda>x. on_pg (rp_OutgoingExists rp x)),
     rp_SavePayment = (\<lambda>r x. on_pg (rp_SavePayment rp r x)), rp_Snapshot = on_pg (rp_Snapshot rp)\<rparr>"

definition lift_mrepo :: "guild_tab mrepo \<Rightarrow> 'd world mrepo" where
  "lift_mrepo mp = \<lparr>mr_Upsert = (\<lambda>m. on_tab (mr_Upsert mp m)), mr_Delete = (\<lambda>i. on_tab (mr_Delete mp i)),
     mr_Find = (\<lambda>i. on_tab (mr_Find mp i)), mr_List = on_tab (mr_List mp), mr_Snapshot = on_tab (mr_Snapshot mp)\<rparr>"

definition lift_session :: "'d session \<Rightarrow> 'd world session" where
  "lift_session se = \<lparr>se_GuildRoles = on_rest (se_GuildRoles se), se_GuildMembers = (\<lambda>i n. on_rest (se_GuildMembers se i n)),
     se_GuildMember = (\<lambda>i. on_rest (se_GuildMember se i)), se_RoleAdd = (\<lambda>i r. on_rest (se_RoleAdd se i r)),
     se_RoleRemove = (\<lambda>i r. on_rest (se_RoleRemove se i r)), se_StateRole = (\<lambda>i w. se_StateRole se i (wd_Rest w)),
     se_AgeDays = (\<lambda>i w. se_AgeDays se i (wd_Rest w))\<rparr>"

definition lift_builder :: "'d builder \<Rightarrow> 'd world builder" where
  "lift_builder bd = \<lparr>bu_Roles = on_rest (bu_Roles bd), bu_RoleCreate = (\<lambda>s. on_rest (bu_RoleCreate bd s)),
     bu_Channels = on_rest (bu_Channels bd), bu_ChannelCreate = (\<lambda>n k t p. on_rest (bu_ChannelCreate bd n k t p)),
     bu_Rules = on_rest (bu_Rules bd), bu_RuleCreate = (\<lambda>r. on_rest (bu_RuleCreate bd r)), bu_Guild = on_rest (bu_Guild bd)\<rparr>"

definition lift_discord :: "'d discord \<Rightarrow> 'd world discord" where
  "lift_discord dc = \<lparr>dc_Session = lift_session (dc_Session dc), dc_Builder = lift_builder (dc_Builder dc),
     dc_Now = (\<lambda>w. dc_Now dc (wd_Rest w)), dc_Guild = on_rest (dc_Guild dc), dc_GuildCount = on_rest (dc_GuildCount dc),
     dc_Permissions = (\<lambda>u c. on_rest (dc_Permissions dc u c)), dc_Tag = dc_Tag dc, dc_Modal = (\<lambda>m. rest_w (dc_Modal dc m)),
     dc_Ephemeral = (\<lambda>m. rest_w (dc_Ephemeral dc m)), dc_Defer = on_rest (dc_Defer dc),
     dc_Edit = (\<lambda>s es cs. rest_w (dc_Edit dc s es cs)), dc_Followup = (\<lambda>m. on_rest (dc_Followup dc m)),
     dc_Send = (\<lambda>c m. on_rest (dc_Send dc c m)), dc_EditMessage = (\<lambda>c i m. on_rest (dc_EditMessage dc c i m)),
     dc_ThreadStart = (\<lambda>c. on_rest (dc_ThreadStart dc c)), dc_ChannelDelete = (\<lambda>c. rest_w (dc_ChannelDelete dc c)),
     dc_ChannelRename = (\<lambda>c n. rest_w (dc_ChannelRename dc c n)), dc_ThreadMemberAdd = (\<lambda>c i. rest_w (dc_ThreadMemberAdd dc c i)),
     dc_Panel = (\<lambda>w. dc_Panel dc (wd_Rest w)), dc_SavePanel = (\<lambda>p. on_rest (dc_SavePanel dc p))\<rparr>"

definition lift_saas :: "'d saas_io \<Rightarrow> 'd world saas_io" where
  "lift_saas io = \<lparr>io_Now = (\<lambda>w. io_Now io (wd_Rest w)), io_Refresh = (\<lambda>u t. on_rest (io_Refresh io u t)),
     io_Fetch = (\<lambda>u t. on_rest (io_Fetch io u t)), io_MkdirAll = (\<lambda>d. on_rest (io_MkdirAll io d)),
     io_WriteFile = (\<lambda>p s. on_rest (io_WriteFile io p s)), io_Rename = (\<lambda>s d. on_rest (io_Rename io s d)),
     io_ReadFile = (\<lambda>p w. io_ReadFile io p (wd_Rest w)), io_ExpClaim = io_ExpClaim io\<rparr>"

text \<open>What \<open>New\<close> wires together: the services over their repositories, and the rest.\<close>

record 'd setting =
  sg_GuildID :: string
  sg_Saas :: "'d saas_io"
  sg_Finance :: "string \<Rightarrow> saasFinance option"
  sg_RevenueURL :: string
  sg_Range :: "string list \<Rightarrow> string"
  sg_Discord :: "'d discord"

definition world_env :: "'d setting \<Rightarrow> 'd world env" where
  "world_env sg = \<lparr>bx_GuildID = sg_GuildID sg, bx_Repo = (\<lambda>now. lift_repo (gorm_repo pg_store now)),
     bx_Members = (\<lambda>now. lift_mrepo (member_repo_of tab_store now)), bx_Saas = lift_saas (sg_Saas sg),
     bx_Finance = sg_Finance sg, bx_RevenueURL = sg_RevenueURL sg, bx_Range = sg_Range sg, bx_Discord = lift_discord (sg_Discord sg)\<rparr>"

section \<open>The service on the lifted repository\<close>

lemma on_pg_sbind: "sbind (on_pg m) (\<lambda>x. on_pg (f x)) = on_pg (sbind m f)"
  by (rule ext) (auto simp: sbind_def on_pg_def split: prod.splits sum.splits)

lemma on_pg_const [simp]: "on_pg (sret x) = sret x" "on_pg (sfail e) = sfail e" "on_pg (slift m) = slift m"
  by (simp_all add: on_pg_def fun_eq_iff)

lemma bind_lift: "m' = on_pg m \<Longrightarrow> (\<And>x. f' x = on_pg (f x)) \<Longrightarrow> sbind m' f' = on_pg (sbind m f)"
  by (metis (no_types, lifting) ext on_pg_sbind)

lemma lift_repo_simps [simp]:
  "rp_NextSeq (lift_repo rp) = on_pg (rp_NextSeq rp)" "rp_Save (lift_repo rp) r = on_pg (rp_Save rp r)"
  "rp_FindByPublicID (lift_repo rp) i = on_pg (rp_FindByPublicID rp i)" "rp_FindByThreadID (lift_repo rp) i = on_pg (rp_FindByThreadID rp i)"
  "rp_ListOpen (lift_repo rp) = on_pg (rp_ListOpen rp)" "rp_ListByOpener (lift_repo rp) i = on_pg (rp_ListByOpener rp i)"
  "rp_ListOutgoingBySeller (lift_repo rp) i = on_pg (rp_ListOutgoingBySeller rp i)" "rp_OutgoingExists (lift_repo rp) x = on_pg (rp_OutgoingExists rp x)"
  "rp_SavePayment (lift_repo rp) r y = on_pg (rp_SavePayment rp r y)" "rp_Snapshot (lift_repo rp) = on_pg (rp_Snapshot rp)"
  by (simp_all add: lift_repo_def)

lemma lift_if: "(if c then on_pg m else on_pg n) = on_pg (if c then m else n)"
  by simp

lemma on_ticket_lift: "on_ticket (lift_repo rp) a i f = on_pg (on_ticket rp a i f)"
  unfolding on_ticket_def by (simp add: on_pg_sbind [symmetric])

lemma Create_lift: "Create (lift_repo rp) a input now = map_option on_pg (Create rp a input now)"
proof -
  have "sbind (slift form) (\<lambda>(spec, workflow, data, wd).
     sbind (rp_ListByOpener (lift_repo rp) (ac_ID a)) (\<lambda>existing.
     sbind (slift (ActiveLimit existing (ac_ID a) (ty_Key spec))) (\<lambda>_.
     let admins = length (filter (\<lambda>i. i \<noteq> [] \<and> i \<noteq> ac_ID a) (ac_AvailableAdmins a)) in
     if admins = 0 then sfail ErrNoAdmin
     else sbind (rp_NextSeq (lift_repo rp)) (\<lambda>seqn.
       let rec = ticket_for a input now spec workflow data wd seqn in
       sbind (rp_Save (lift_repo rp) rec) (\<lambda>_. sret rec))))) =
    on_pg (sbind (slift form) (\<lambda>(spec, workflow, data, wd).
     sbind (rp_ListByOpener rp (ac_ID a)) (\<lambda>existing.
     sbind (slift (ActiveLimit existing (ac_ID a) (ty_Key spec))) (\<lambda>_.
     let admins = length (filter (\<lambda>i. i \<noteq> [] \<and> i \<noteq> ac_ID a) (ac_AvailableAdmins a)) in
     if admins = 0 then sfail ErrNoAdmin
     else sbind (rp_NextSeq rp) (\<lambda>seqn.
       let rec = ticket_for a input now spec workflow data wd seqn in
       sbind (rp_Save rp rec) (\<lambda>_. sret rec))))))" for form
    by (intro bind_lift) (auto simp: Let_def split_beta intro!: bind_lift)
  then show ?thesis unfolding Create_def option.map_comp comp_def by (intro option.map_cong refl)
qed

lemma RecordPayment_lift: "RecordPayment (lift_repo rp) a i ref now = on_pg (RecordPayment rp a i ref now)"
  unfolding RecordPayment_def Let_def
  by (intro bind_lift; (auto simp: split: option.split intro!: bind_lift)?)

lemma serve_lift: "serve (lift_repo rp) now rq = on_pg (serve rp now rq)"
proof (cases rq)
  case (RqCreate a input)
  show ?thesis
    by (rule ext) (auto simp: RqCreate Create_lift on_pg_sbind [symmetric] split: option.split)
next
  case (RqOp a i f)
  have "operate (lift_repo rp) now a i f = on_pg (operate rp now a i f)" by (simp add: operate_body on_ticket_lift)
  then show ?thesis unfolding RqOp serve.simps by (intro bind_lift) auto
next
  case (RqPay a i ref)
  then show ?thesis by (simp add: RecordPayment_lift)
qed

section \<open>The bot leaves the tables alone\<close>

abbreviation tables_at :: "'d world \<Rightarrow> tables" where
  "tables_at w \<equiv> pg_Tabs (wd_Pg w)"

lemma still_on_pg: "still pg_Tabs m \<Longrightarrow> still tables_at (on_pg m)"
  by (auto simp: still_def on_pg_def split: prod.splits) (metis snd_conv)

lemma still_rest [simp]: "still tables_at (on_rest m)" "still tables_at (on_tab n)" "still_w tables_at (rest_w f)"
  by (auto simp: still_def still_w_def on_rest_def on_tab_def rest_w_def split: prod.splits)

lemma pg_reads: "quiet_reads pg_Tabs (gorm_repo pg_store now)"
proof -
  have find: "still pg_Tabs (find_by pg_store P)" for P
    using pg.find_by_law by (intro stillI) blast
  have list: "still pg_Tabs (sbind (db (st_Find pg_store P key)) (\<lambda>rows. sret (map fromModel rows)))" for P and key :: "Ticket \<Rightarrow> int"
    using pg.list_law by (intro stillI) blast
  have outs: "still pg_Tabs (db (st_FindOut pg_store P key))" for P key
    using pg.FindOut by (intro stillI) (auto simp: db_result)
  have rows: "still pg_Tabs (db (st_Find pg_store P key))" for P key
    using pg.Find by (intro stillI) (auto simp: db_result)
  have snap: "still pg_Tabs (TakeSnapshot pg_store)"
  proof (rule stillI)
    fix w r w'
    assume "TakeSnapshot pg_store w = (r, w')"
    then show "pg_Tabs w' = pg_Tabs w" unfolding TakeSnapshot_def
      by (auto simp: sbind_def split: prod.splits sum.splits dest!: stillD [OF rows] stillD [OF outs])
  qed
  show ?thesis
    by (simp add: quiet_reads_def gorm_repo_def FindByPublicID_def FindByThreadID_def ListOpen_def ListOutgoingBySeller_def
      find list outs snap)
qed

lemma world_env_simps [simp]:
  "bx_GuildID (world_env sg) = sg_GuildID sg" "bx_Repo (world_env sg) t = lift_repo (gorm_repo pg_store t)"
  "dc_Now (bx_Discord (world_env sg)) w = dc_Now (sg_Discord sg) (wd_Rest w)"
  by (simp_all add: world_env_def lift_discord_def)

interpretation bot: ticket_bot "world_env sg" tables_at for sg
proof unfold_locales
  show "quiet_session tables_at (session_of (world_env sg))"
    by (simp add: quiet_session_def world_env_def lift_discord_def lift_session_def)
  show "quiet_builder tables_at (builder_of (world_env sg))"
    by (simp add: quiet_builder_def world_env_def lift_discord_def lift_builder_def)
  show "quiet_discord tables_at (bx_Discord (world_env sg))"
    by (simp add: quiet_discord_def world_env_def lift_discord_def)
  show "quiet_members tables_at (bx_Members (world_env sg) t)" for t
    by (simp add: quiet_members_def world_env_def lift_mrepo_def)
  show "quiet_saas tables_at (bx_Saas (world_env sg))"
    by (simp add: quiet_saas_def world_env_def lift_saas_def)
  show "quiet_reads tables_at (bx_Repo (world_env sg) t)" for t
    using pg_reads [of t] by (simp add: quiet_reads_def still_on_pg)
  show "r_ID rec = i" if "rp_FindByPublicID (bx_Repo (world_env sg) t) i w = (Inr rec, w')" for t i w rec w'
    using that by (auto simp: on_pg_def gorm_repo_def FindByPublicID_def find_by_def fromModel_def
      split: prod.splits sum.splits db_error.splits dest!: pg.First)
qed

end
