(* ===== verification/BotRun.thy ===== *)
theory BotRun
  imports BotWorld "HOL-Library.Code_Target_Numeral"
begin

text \<open>
  Runs of the whole program: interactions, joins, leaves, the reminder and the other events of the
  bot, requests of the HTTP API, and anything that Discord, the files or the revenue service may do
  on their own. Each event is handled from start to end before the next one.
\<close>

section \<open>The events that do not reach the tickets\<close>

context quiet_bot
begin

lemma onReady_core: "onReady b bt w = (bt', w') \<Longrightarrow> core w' = core w \<and> bt_confirms bt' = bt_confirms bt"
  by (auto simp: onReady_def split: prod.splits dest!: stillD [OF refreshChannels_still])

lemma noteJoin_core: "noteJoin b bt w = (bt', w') \<Longrightarrow> core w' = core w \<and> bt_confirms bt' = bt_confirms bt"
  by (auto simp: noteJoin_def Let_def split: if_splits)

lemma onJoin_core: "onJoin b bt g u w = (bt', w') \<Longrightarrow> core w' = core w \<and> bt_confirms bt' = bt_confirms bt"
proof -
  have st: "core (snd (setTier (bx_Members b t) (session_of b) i x n w)) = core w" for t i x n w using setTier_still by (simp add: still_def)
  show "onJoin b bt g u w = (bt', w') \<Longrightarrow> core w' = core w \<and> bt_confirms bt' = bt_confirms bt"
    by (auto simp: onJoin_def Let_def st split: option.splits if_splits prod.splits dest!: noteJoin_core)
qed

lemma onLeave_core [simp]: "core (onLeave b bt g u w) = core w"
  by (simp add: onLeave_def Let_def split: option.split)

lemma ListOpenTickets_still: "still core (ListOpenTickets (bx_Repo b t))"
  unfolding ListOpenTickets_def by (rule reads_still)

lemma tickReminder_core: "tickReminder b bt w = (bt', w') \<Longrightarrow> core w' = core w \<and> bt_confirms bt' = bt_confirms bt"
  by (auto simp: tickReminder_def Let_def split: prod.splits sum.splits if_splits dest!: stillD [OF ListOpenTickets_still])

lemma primeSaaSToken_core: "primeSaaSToken b bt w = (bt', w') \<Longrightarrow> core w' = core w \<and> bt_confirms bt' = bt_confirms bt"
  by (auto simp: primeSaaSToken_def split: option.splits if_splits prod.splits dest!: Access_core)

end

section \<open>Runs\<close>

text \<open>\<open>EvRequest\<close> is a request of the HTTP API, \<open>EvOutside\<close> a change of everything but the tables.\<close>

datatype 'd event =
    EvInteraction interaction
  | EvJoin string "User option"
  | EvLeave string "User option"
  | EvReady
  | EvReminder
  | EvPrime
  | EvRequest request
  | EvOutside guild_tab 'd

type_synonym 'd process = "Bot \<times> 'd world"

fun bot_event :: "'d setting \<Rightarrow> 'd event \<Rightarrow> 'd process \<Rightarrow> 'd process option" where
  "bot_event sg (EvInteraction ix) (bt, w) = onInteraction (world_env sg) bt ix w"
| "bot_event sg (EvJoin g u) (bt, w) = Some (onJoin (world_env sg) bt g u w)"
| "bot_event sg (EvLeave g u) (bt, w) = Some (bt, onLeave (world_env sg) bt g u w)"
| "bot_event sg EvReady (bt, w) = Some (onReady (world_env sg) bt w)"
| "bot_event sg EvReminder (bt, w) = Some (tickReminder (world_env sg) bt w)"
| "bot_event sg EvPrime (bt, w) = Some (primeSaaSToken (world_env sg) bt w)"
| "bot_event sg (EvRequest rq) (bt, w) = Some (bt, snd (on_pg (handle (dc_Now (sg_Discord sg) (wd_Rest w)) rq) w))"
| "bot_event sg (EvOutside tab d) (bt, w) = Some (bt, w\<lparr>wd_Tab := tab, wd_Rest := d\<rparr>)"

fun bot_run :: "'d setting \<Rightarrow> 'd event list \<Rightarrow> 'd process \<Rightarrow> 'd process option" where
  "bot_run sg [] s = Some s"
| "bot_run sg (e # es) s = (case bot_event sg e s of None \<Rightarrow> None | Some s' \<Rightarrow> bot_run sg es s')"

text \<open>The strings of an event are valid UTF-8, and an id of a user is a snowflake, without a colon.\<close>

definition interaction_ok :: "interaction \<Rightarrow> bool" where
  "interaction_ok ix \<longleftrightarrow> interaction_utf8 ix \<and> (case member_of ix of None \<Rightarrow> True | Some u \<Rightarrow> CHR '':'' \<notin> set (us_ID u))"

fun event_ok :: "'d event \<Rightarrow> bool" where
  "event_ok (EvInteraction ix) \<longleftrightarrow> interaction_ok ix"
| "event_ok (EvRequest rq) \<longleftrightarrow> request_utf8 rq"
| "event_ok _ \<longleftrightarrow> True"

definition clock_of_ok :: "'d setting \<Rightarrow> bool" where
  "clock_of_ok sg \<longleftrightarrow> (\<forall>v. clock_ok (dc_Now (sg_Discord sg) v))"

section \<open>An instance\<close>

text \<open>
  A guild whose owner, member 1, runs a ticket of member 9: a withdrawal is opened, approved, and the
  owner gives the command to record the payment. The outside answers every call.
\<close>

definition demo_io :: "unit saas_io" where
  "demo_io = \<lparr>io_Now = (\<lambda>_. 0), io_Refresh = (\<lambda>_ _. sfail ''x''), io_Fetch = (\<lambda>_ _. sfail ''x''), io_MkdirAll = (\<lambda>_. sret ()),
     io_WriteFile = (\<lambda>_ _. sret ()), io_Rename = (\<lambda>_ _. sret ()), io_ReadFile = (\<lambda>_ _. None), io_ExpClaim = (\<lambda>_. None)\<rparr>"

definition demo_session :: "unit session" where
  "demo_session = \<lparr>se_GuildRoles = sret [], se_GuildMembers = (\<lambda>_ _. sret []), se_GuildMember = (\<lambda>_. sfail ''x''), se_RoleAdd = (\<lambda>_ _. sret ()),
     se_RoleRemove = (\<lambda>_ _. sret ()), se_StateRole = (\<lambda>_ _. None), se_AgeDays = (\<lambda>_ _. None)\<rparr>"

definition demo_builder :: "unit builder" where
  "demo_builder = \<lparr>bu_Roles = sret [], bu_RoleCreate = (\<lambda>_ w. (Inl \<lparr>re_Text = ''refused'', re_Status = None, re_Code = None\<rparr>, w)), bu_Channels = sret [], bu_ChannelCreate = (\<lambda>_ _ _ _ w. (Inl \<lparr>re_Text = ''refused'', re_Status = None, re_Code = None\<rparr>, w)),
     bu_Rules = sret [], bu_RuleCreate = (\<lambda>_ w. (Inl \<lparr>re_Text = ''refused'', re_Status = None, re_Code = None\<rparr>, w)), bu_Guild = sret ()\<rparr>"

definition demo_discord :: "unit discord" where
  "demo_discord = \<lparr>dc_Session = demo_session, dc_Builder = demo_builder, dc_Now = (\<lambda>_. 1700000000000000000), dc_Guild = sret ''1'',
     dc_GuildCount = sret 2, dc_Permissions = (\<lambda>_ _. sret False), dc_Tag = us_Username, dc_Modal = (\<lambda>_ w. w), dc_Ephemeral = (\<lambda>_ w. w),
     dc_Defer = sret (), dc_Edit = (\<lambda>_ _ _ w. w), dc_Followup = (\<lambda>_. sret (Some ''77'')), dc_Send = (\<lambda>c _. sret (c, ''78'')),
     dc_EditMessage = (\<lambda>_ _ _. sret ()), dc_ThreadStart = (\<lambda>_. sret ''55''), dc_ChannelDelete = (\<lambda>_ w. w), dc_ChannelRename = (\<lambda>_ _ w. w),
     dc_ThreadMemberAdd = (\<lambda>_ _ w. w), dc_Panel = (\<lambda>_. None), dc_SavePanel = (\<lambda>_. sret ())\<rparr>"

definition demo_setting :: "unit setting" where
  "demo_setting = \<lparr>sg_GuildID = ''5'', sg_Saas = demo_io, sg_Finance = (\<lambda>_. None), sg_RevenueURL = [], sg_Range = hd, sg_Discord = demo_discord\<rparr>"

definition demo_bot :: Bot where
  "demo_bot = \<lparr>bt_channelIDs = [], bt_recentJoins = [], bt_confirms = [], bt_reminderAt = 0, bt_saas = None, bt_guildCache = None, bt_guildCacheAt = 0,
     bt_adminIDsList = None, bt_adminIDsAt = 0, bt_pending = []\<rparr>"

definition demo_owner :: Actor where
  "demo_owner = \<lparr>ac_ID = ''1'', ac_Username = ''ani'', ac_Tag = ''ani'', ac_Roles = Some [], ac_IsAdmin = True, ac_IsBot = False, ac_OwnerID = ''1'', ac_AvailableAdmins = [''1'']\<rparr>"

definition demo_seller :: Actor where
  "demo_seller = \<lparr>ac_ID = ''9'', ac_Username = ''budi'', ac_Tag = ''budi'', ac_Roles = Some [''Seller''], ac_IsAdmin = False, ac_IsBot = False, ac_OwnerID = ''1'', ac_AvailableAdmins = [''1'']\<rparr>"

definition demo_user :: User where "demo_user = \<lparr>us_ID = ''1'', us_Username = ''ani'', us_Bot = False\<rparr>"

definition demo_ix :: "interaction_data \<Rightarrow> interaction" where
  "demo_ix d = \<lparr>ix_GuildID = ''5'', ix_ChannelID = ''55'', ix_Member = Some \<lparr>dm_User = Some demo_user, dm_Roles = []\<rparr>, ix_Data = d\<rparr>"

definition demo_world :: "unit world" where "demo_world = \<lparr>wd_Pg = empty_pg [], wd_Tab = \<lparr>gt_Rows = [], gt_Faults = [], gt_Clock = 0\<rparr>, wd_Rest = ()\<rparr>"

definition demo_events :: "unit event list" where
  "demo_events = [EvRequest (RqCreate demo_seller \<lparr>ci_Type = ''withdraw'', ci_Data = [(''region'', ''ID''), (''transactionId'', ''AB-12''), (''amount'', ''25''),
     (''currency'', ''USD''), (''method'', ''admin-transfer'')], ci_ThreadID = ''55''\<rparr>),
     EvRequest (RqOp demo_owner ''WD-ID-budi-00001'' OpApprove),
     EvInteraction (demo_ix (ICommand ''withdraw-paid'' [(''reference'', OvString ''PAY-1'')]))]"

definition demo_click :: interaction where
  "demo_click = demo_ix (IComponent ''ticket:confirmpaid:WD-ID-budi-00001'' [] ''77'')"

lemma demo_clock: "clock_of_ok demo_setting"
  using sample_clock by (simp add: clock_of_ok_def demo_setting_def demo_discord_def)

lemma demo_desk: "desk_ok (tables_at demo_world)" "desk_inv (pg_desk (wd_Pg demo_world))"
  using empty_desk empty_inv by (simp_all add: demo_world_def)

section \<open>One interaction\<close>

lemma served_refines:
  assumes "bot.served sg P w w'" and "desk_ok (tables_at w)" and "desk_inv (pg_desk (wd_Pg w))"
    and "clock_of_ok sg" and "\<And>rq v. P rq v \<Longrightarrow> request_utf8 rq"
  shows "desk_ok (tables_at w') \<and> desk_inv (pg_desk (wd_Pg w')) \<and>
    (\<exists>rq v. P rq v \<and> desk_step rq (pg_desk (wd_Pg w)) (pg_desk (wd_Pg w')))"
proof -
  obtain rq v v' r where s: "P rq v" "tables_at v = tables_at w" "tables_at w' = tables_at v'"
    and sv: "serve (tickets_at (world_env sg) v) (clock (world_env sg) v) rq v = (r, v')"
    using assms(1) unfolding bot.served_def by blast
  let ?now = "dc_Now (sg_Discord sg) (wd_Rest v)"
  obtain p where h: "handle ?now rq (wd_Pg v) = (r, p)" "v' = v\<lparr>wd_Pg := p\<rparr>"
    using sv by (auto simp: serve_lift on_pg_def handle_def split: prod.splits)
  have d: "pg_desk (wd_Pg v) = pg_desk (wd_Pg w)" "pg_desk (wd_Pg w') = pg_desk p"
    using s h(2) by (simp_all add: pg_desk_def)
  have c: "clock_ok ?now" using assms(4) by (simp add: clock_of_ok_def)
  from handle_refines [OF _ _ h(1) c assms(5) [OF s(1)]] assms(2,3) s d
  have k: "desk_ok (pg_Tabs p)" "desk_step rq (pg_desk (wd_Pg w)) (pg_desk p)" by auto
  from desk_step_inv [OF k(2) assms(3)] k s h(2) d show ?thesis by auto
qed

lemma bot_refines:
  assumes "desk_ok (tables_at w)" and "desk_inv (pg_desk (wd_Pg w))" and "onInteraction (world_env sg) bt ix w = Some (bt', w')"
    and "interaction_utf8 ix" and "clock_of_ok sg"
  shows "desk_ok (tables_at w') \<and> desk_inv (pg_desk (wd_Pg w')) \<and>
    (pg_desk (wd_Pg w') = pg_desk (wd_Pg w) \<or>
     ix_GuildID ix = sg_GuildID sg \<and> (\<exists>u rq now. member_of ix = Some u \<and> bot_request u ix (bt_confirms bt) (bt_confirms bt') rq now \<and>
       desk_step rq (pg_desk (wd_Pg w)) (pg_desk (wd_Pg w'))))"
proof -
  have same: ?thesis if "tables_at w' = tables_at w"
  proof -
    have "pg_desk (wd_Pg w') = pg_desk (wd_Pg w)" using that by (simp add: pg_desk_def)
    with assms(1,2) that show ?thesis by simp
  qed
  from bot.onInteraction_outcome [OF assms(3,4)] show ?thesis
  proof (elim disjE conjE exE)
    fix u
    assume u: "ix_GuildID ix = bx_GuildID (world_env sg)" "member_of ix = Some u"
      and o1: "bot.outcome sg (\<lambda>rq v. bot_request u ix (bt_confirms bt) (bt_confirms bt') rq (clock (world_env sg) v)) (prompted u ix) bt w bt' w'"
    show ?thesis
    proof (cases "tables_at w' = tables_at w")
      case False
      with o1 have sv: "bot.served sg (\<lambda>rq v. bot_request u ix (bt_confirms bt) (bt_confirms bt') rq (clock (world_env sg) v)) w w'"
        by (simp add: bot.outcome_def)
      have "desk_ok (tables_at w') \<and> desk_inv (pg_desk (wd_Pg w')) \<and> (\<exists>rq v.
          bot_request u ix (bt_confirms bt) (bt_confirms bt') rq (clock (world_env sg) v) \<and> desk_step rq (pg_desk (wd_Pg w)) (pg_desk (wd_Pg w')))"
        by (rule served_refines [OF sv assms(1,2,5)]) (simp add: bot_request_def)
      with u show ?thesis by auto
    qed (rule same)
  qed (rule same)
qed

text \<open>
  C3: The bot works within the desk. Whatever Discord, the member table, the files and the revenue
  service do, an interaction that the bot handles to its end keeps the tables in order, and either
  leaves tickets and ledger alone or makes one step that the desk allows: for an interaction in the
  configured guild by a known member, on behalf of that member and never as a bot, where only a
  modal opens a ticket, only commands and buttons work on one, and only the confirmation button
  records a payment, with the reference of an unexpired prompt on the same message under this
  member's key, which is used up.
\<close>

theorem bot_refines_desk:
  assumes "desk_ok (tables_at w)" and "desk_inv (pg_desk (wd_Pg w))" and "onInteraction (world_env sg) bt ix w = Some (bt', w')"
    and "interaction_utf8 ix" and "clock_of_ok sg"
  shows "desk_ok (tables_at w') \<and> desk_inv (pg_desk (wd_Pg w')) \<and>
    (pg_desk (wd_Pg w') = pg_desk (wd_Pg w) \<or>
     ix_GuildID ix = sg_GuildID sg \<and> (\<exists>u rq now. member_of ix = Some u \<and> bot_request u ix (bt_confirms bt) (bt_confirms bt') rq now \<and>
       desk_step rq (pg_desk (wd_Pg w)) (pg_desk (wd_Pg w'))))"
  using bot_refines [OF assms] .

theorem bot_refines_desk_witness:
  "\<exists>bt' w'. onInteraction (world_env demo_setting) demo_bot (demo_ix (ICommand ''whoami'' [])) demo_world = Some (bt', w') \<and>
     desk_ok (tables_at w') \<and> desk_inv (pg_desk (wd_Pg w'))"
proof -
  have "onInteraction (world_env demo_setting) demo_bot (demo_ix (ICommand ''whoami'' [])) demo_world \<noteq> None" by code_simp
  then obtain bt' w' where h: "onInteraction (world_env demo_setting) demo_bot (demo_ix (ICommand ''whoami'' [])) demo_world = Some (bt', w')"
    by auto
  have "interaction_utf8 (demo_ix (ICommand ''whoami'' []))" by code_simp
  from bot_refines_desk [OF demo_desk h this demo_clock] h show ?thesis by blast
qed

section \<open>Whole runs\<close>

text \<open>Every pending confirmation was asked for by an interaction of the run, and has its key.\<close>

definition asked :: "'d event set \<Rightarrow> (string, pendingConfirm) gomap \<Rightarrow> bool" where
  "asked past confirms \<longleftrightarrow> (\<forall>(k, c) \<in> set confirms. k = confirmKey (pn_ActorID c) (pn_TicketID c) \<and>
     (\<exists>ix u. EvInteraction ix \<in> past \<and> member_of ix = Some u \<and> interaction_ok ix \<and> prompted u ix c))"

definition process_inv :: "'d event set \<Rightarrow> 'd process \<Rightarrow> bool" where
  "process_inv past s \<longleftrightarrow> desk_ok (tables_at (snd s)) \<and> desk_inv (pg_desk (wd_Pg (snd s))) \<and> asked past (bt_confirms (fst s))"

lemma asked_mono: "asked past cs \<Longrightarrow> past \<subseteq> past' \<Longrightarrow> asked past' cs"
  by (fastforce simp: asked_def)

lemma event_quiet:
  assumes "process_inv past (bt, w)" and "tables_at w' = tables_at w \<and> bt_confirms bt' = bt_confirms bt"
  shows "process_inv (insert e past) (bt', w')"
  using assms asked_mono [of past "bt_confirms bt" "insert e past"] by (auto simp: process_inv_def pg_desk_def)

lemma interaction_asks:
  assumes "asked past (bt_confirms bt)" and "onInteraction (world_env sg) bt ix w = Some (bt', w')" and "interaction_ok ix"
  shows "asked (insert (EvInteraction ix) past) (bt_confirms bt')"
proof -
  have ix: "interaction_utf8 ix" using assms(3) by (simp add: interaction_ok_def)
  have old: "asked (insert (EvInteraction ix) past) (bt_confirms bt)" using asked_mono [OF assms(1)] by blast
  from bot.onInteraction_outcome [OF assms(2) ix] show ?thesis
  proof (elim disjE conjE exE)
    fix u
    assume u: "member_of ix = Some u"
      and o1: "bot.outcome sg (\<lambda>rq v. bot_request u ix (bt_confirms bt) (bt_confirms bt') rq (clock (world_env sg) v)) (prompted u ix) bt w bt' w'"
    show ?thesis unfolding asked_def
    proof (intro ballI, clarsimp)
      fix k c
      assume "(k, c) \<in> set (bt_confirms bt')"
      with o1 have "(k, c) \<in> set (bt_confirms bt) \<or> k = confirmKey (pn_ActorID c) (pn_TicketID c) \<and> prompted u ix c"
        by (auto simp: bot.outcome_def)
      then show "k = confirmKey (pn_ActorID c) (pn_TicketID c) \<and>
          (\<exists>ix'. (ix' = ix \<or> EvInteraction ix' \<in> past) \<and> (\<exists>u. member_of ix' = Some u \<and> interaction_ok ix' \<and> prompted u ix' c))"
        using old assms(3) u by (fastforce simp: asked_def)
    qed
  qed (simp add: old)
qed

lemma bot_event_inv:
  assumes "process_inv past s" and "bot_event sg e s = Some s'" and "event_ok e" and "clock_of_ok sg"
  shows "process_inv (insert e past) s'"
proof -
  obtain bt w bt' w' where s: "s = (bt, w)" "s' = (bt', w')" by (meson surj_pair)
  note inv = assms(1) [unfolded s(1)]
  note quiet = event_quiet [OF inv]
  show ?thesis
  proof (cases e)
    case (EvInteraction ix)
    have run: "onInteraction (world_env sg) bt ix w = Some (bt', w')" using assms(2) s EvInteraction by simp
    have ok: "interaction_ok ix" using assms(3) EvInteraction by simp
    then have ix: "interaction_utf8 ix" by (simp add: interaction_ok_def)
    have "desk_ok (tables_at w)" "desk_inv (pg_desk (wd_Pg w))" "asked past (bt_confirms bt)" using inv by (simp_all add: process_inv_def)
    with bot_refines [OF this(1,2) run ix assms(4)] interaction_asks [OF this(3) run ok]
    show ?thesis by (simp add: process_inv_def s EvInteraction)
  next
    case (EvJoin g u)
    with assms(2) s show ?thesis by (auto intro!: quiet dest!: bot.onJoin_core)
  next
    case (EvLeave g u)
    with assms(2) s show ?thesis by (auto intro!: quiet)
  next
    case EvReady
    with assms(2) s show ?thesis by (auto intro!: quiet dest!: bot.onReady_core)
  next
    case EvReminder
    with assms(2) s show ?thesis by (auto intro!: quiet dest!: bot.tickReminder_core)
  next
    case EvPrime
    with assms(2) s show ?thesis by (auto intro!: quiet dest!: bot.primeSaaSToken_core)
  next
    case (EvRequest rq)
    let ?now = "dc_Now (sg_Discord sg) (wd_Rest w)"
    obtain r p where h: "handle ?now rq (wd_Pg w) = (r, p)" by (metis surj_pair)
    have e: "bt' = bt" "w' = w\<lparr>wd_Pg := p\<rparr>" using assms(2) s EvRequest h by (auto simp: on_pg_def)
    have c: "clock_ok ?now" "request_utf8 rq" using assms(3,4) EvRequest by (simp_all add: clock_of_ok_def)
    have "desk_ok (pg_Tabs (wd_Pg w))" "desk_inv (pg_desk (wd_Pg w))" using inv by (simp_all add: process_inv_def)
    with handle_refines [OF this h c] desk_step_inv inv asked_mono [of past "bt_confirms bt" "insert e past"]
    show ?thesis by (auto simp: process_inv_def s e)
  next
    case (EvOutside tab d)
    with assms(2) s show ?thesis by (auto intro!: quiet)
  qed
qed

lemma bot_run_inv:
  assumes "process_inv past s" and "bot_run sg es s = Some s'" and "list_all event_ok es" and "clock_of_ok sg"
  shows "process_inv (past \<union> set es) s'"
  using assms
proof (induction es arbitrary: past s)
  case (Cons e es)
  then obtain s1 where s1: "bot_event sg e s = Some s1" "bot_run sg es s1 = Some s'" by (auto split: option.splits)
  have "process_inv (insert e past \<union> set es) s'"
    using Cons.IH [OF bot_event_inv [OF Cons.prems(1) s1(1)] s1(2)] Cons.prems(3,4) by simp
  then show ?case by simp
qed simp

lemma confirmKey_eq:
  assumes "CHR '':'' \<notin> set a" and "CHR '':'' \<notin> set b" and "confirmKey a i = confirmKey b j"
  shows "a = b"
proof -
  have "takeWhile (\<lambda>c. c \<noteq> CHR '':'') (confirmKey x y) = x" if "CHR '':'' \<notin> set x" for x y
    using that unfolding confirmKey_def by (induction x) auto
  with assms show ?thesis by metis
qed

text \<open>What a step that books a payment says about its request and the new row.\<close>

lemma desk_step_books:
  assumes "desk_step rq d d'" and "dk_Ledger d' \<noteq> dk_Ledger d"
  shows "\<exists>a i reference row. rq = RqPay a i reference \<and> dk_Ledger d' = dk_Ledger d @ [row] \<and>
    ValidatePaymentReference reference = Inr (om_Reference row) \<and> om_TicketID row = i \<and> om_By row = ac_ID a"
  using assms
proof (cases rule: desk_step.cases)
  case (paid old i a t reference others new wd out row)
  have r: "om_Reference row = op_Reference out" "om_TicketID row = i" "om_By row = ac_ID a"
    using same_out_reference [OF paid(12)] paid(4) by (simp_all add: ledger_row_def)
  have "ValidatePaymentReference reference = Inr (op_Reference out)"
    using paid(7,9,10) by (auto simp: RecordWithdrawalPayment_Inr outgoing_of_def)
  with r paid(1,2) show ?thesis by auto
qed simp_all

lemma no_reference: "ValidatePaymentReference [] \<noteq> Inr x"
proof -
  have "TrimSpace [] = []" by code_simp
  then show ?thesis by (simp add: ValidatePaymentReference_def)
qed

text \<open>
  C4: A payment takes two steps of the same person. In every run from a bot with no pending
  confirmations and tables in order, with any outside world: when an interaction changes the ledger
  of outgoing payments, it adds exactly one row, it is a click on the confirmation button of the
  ticket in the row, by the member named in the row as having paid, and that member had before
  that, in the run, given the \<open>withdraw-paid\<close> command with exactly the reference that is booked.
\<close>

theorem payment_two_steps:
  assumes "bot_run sg es (bt0, w0) = Some (bt, w)" and "bt_confirms bt0 = []"
    and "desk_ok (tables_at w0)" and "desk_inv (pg_desk (wd_Pg w0))" and "list_all event_ok es" and "clock_of_ok sg"
    and "onInteraction (world_env sg) bt ix w = Some (bt', w')" and "interaction_ok ix"
    and "tb_Outs (tables_at w') \<noteq> tb_Outs (tables_at w)"
  shows "\<exists>u row vals m. tb_Outs (tables_at w') = tb_Outs (tables_at w) @ [row] \<and> member_of ix = Some u \<and> om_By row = us_ID u \<and>
    ix_Data ix = IComponent (''ticket:confirmpaid:'' @ om_TicketID row) vals m \<and>
    (\<exists>ix0 u0 opts. EvInteraction ix0 \<in> set es \<and> member_of ix0 = Some u0 \<and> us_ID u0 = us_ID u \<and>
      ix_Data ix0 = ICommand ''withdraw-paid'' opts \<and>
      ValidatePaymentReference (command_option_value opts ''reference'') = Inr (om_Reference row))"
proof -
  have "process_inv {} (bt0, w0)" using assms(2-4) by (simp add: process_inv_def asked_def)
  from bot_run_inv [OF this assms(1,5,6)] have inv: "process_inv (set es) (bt, w)" by simp
  have ix: "interaction_utf8 ix" using assms(8) by (simp add: interaction_ok_def)
  have "pg_desk (wd_Pg w') \<noteq> pg_desk (wd_Pg w)" using assms(9) by (auto simp: pg_desk_def)
  then obtain u rq now where u: "member_of ix = Some u"
    and rq: "bot_request u ix (bt_confirms bt) (bt_confirms bt') rq now"
    and d: "desk_step rq (pg_desk (wd_Pg w)) (pg_desk (wd_Pg w'))"
    using bot_refines [OF _ _ assms(7) ix assms(6)] inv by (auto simp: process_inv_def)
  obtain a i reference row where b: "rq = RqPay a i reference" "tb_Outs (tables_at w') = tb_Outs (tables_at w) @ [row]"
    "ValidatePaymentReference reference = Inr (om_Reference row)" "om_TicketID row = i" "om_By row = ac_ID a"
    using desk_step_books [OF d] assms(9) by (auto simp: pg_desk_def)
  obtain vals p where p: "ix_Data ix = IComponent (''ticket:confirmpaid:'' @ i) vals (pn_MessageID p)" "ac_ID a = us_ID u"
    "(confirmKey (us_ID u) i, p) \<in> set (bt_confirms bt)" "pn_Reference p = reference"
    using rq b(1) by (auto simp: bot_request_def)
  obtain ix0 u0 where q: "confirmKey (us_ID u) i = confirmKey (pn_ActorID p) (pn_TicketID p)" "EvInteraction ix0 \<in> set es"
    "member_of ix0 = Some u0" "interaction_ok ix0" "prompted u0 ix0 p"
    using inv p(3) by (auto simp: process_inv_def asked_def)
  have "us_ID u = us_ID u0"
    using confirmKey_eq [of "us_ID u" "pn_ActorID p"] q u assms(8) by (auto simp: prompted_def interaction_ok_def)
  moreover obtain opts where "ix_Data ix0 = ICommand ''withdraw-paid'' opts" "reference = command_option_value opts ''reference''"
    using q(5) p(4) b(3) no_reference by (auto simp: prompted_def)
  ultimately show ?thesis using b p q(2,3) u by auto
qed

text \<open>The owner's click after the run of the instance books the payment.\<close>

lemma demo_payment:
  "case bot_run demo_setting demo_events (demo_bot, demo_world) of None \<Rightarrow> False
   | Some (bt, w) \<Rightarrow> (case onInteraction (world_env demo_setting) bt demo_click w of None \<Rightarrow> False
      | Some (bt', w') \<Rightarrow> map om_Reference (tb_Outs (tables_at w)) = [] \<and> map om_Reference (tb_Outs (tables_at w')) = [''PAY-1''])"
  by code_simp

theorem payment_two_steps_witness:
  "\<exists>bt w bt' w' ix0 opts. bot_run demo_setting demo_events (demo_bot, demo_world) = Some (bt, w) \<and>
     onInteraction (world_env demo_setting) bt demo_click w = Some (bt', w') \<and> map om_Reference (tb_Outs (tables_at w')) = [''PAY-1''] \<and>
     EvInteraction ix0 \<in> set demo_events \<and> ix_Data ix0 = ICommand ''withdraw-paid'' opts \<and>
     ValidatePaymentReference (command_option_value opts ''reference'') = Inr ''PAY-1''"
proof -
  obtain bt w bt' w' where h: "bot_run demo_setting demo_events (demo_bot, demo_world) = Some (bt, w)"
    "onInteraction (world_env demo_setting) bt demo_click w = Some (bt', w')"
    "map om_Reference (tb_Outs (tables_at w)) = []" "map om_Reference (tb_Outs (tables_at w')) = [''PAY-1'']"
    using demo_payment by (auto split: option.splits)
  have "list_all event_ok demo_events" "interaction_ok demo_click" "bt_confirms demo_bot = []" by code_simp+
  moreover have "tb_Outs (tables_at w') \<noteq> tb_Outs (tables_at w)" using h(3,4) by auto
  ultimately obtain row ix0 opts where "tb_Outs (tables_at w') = tb_Outs (tables_at w) @ [row]"
    "EvInteraction ix0 \<in> set demo_events" "ix_Data ix0 = ICommand ''withdraw-paid'' opts"
    "ValidatePaymentReference (command_option_value opts ''reference'') = Inr (om_Reference row)"
    using payment_two_steps [OF h(1) _ demo_desk _ demo_clock h(2)] by blast
  with h show ?thesis by auto
qed

end
