(* ===== verification/AuthRun.thy ===== *)
theory AuthRun
  imports Auth AccountPages
begin

text \<open>
  Sign-in calls that run at the same time. A call is cut into stages, one for each statement
  it sends (\<open>advance\<close>); the stages of one call in a row are the functions of the service
  (lemmas \<open>login_stages\<close>, \<open>refresh_stages\<close>, \<open>logout_stages\<close>). The step relation \<open>auth_step\<close>
  interleaves any number of calls. The locale \<open>token_laws\<close> is what the statements on refresh
  tokens do; a statement that reports an error may have been carried out all the same. It is
  interpreted on a table with the unique index of the migration.
\<close>

section \<open>Stages\<close>

datatype call =
    LoginAt LoginRequest
  | RefreshAt RefreshTokenRequest
  | ClaimAt string uuid
  | IssueAt uuid
  | SaveAt uuid TokenPair
  | LogoutAt LogoutRequest
  | Answered "(db_error, LoginResponse option) result"

fun advance :: "'w auth_service \<Rightarrow> call \<Rightarrow> 'w \<Rightarrow> call \<times> 'w" where
  "advance s (LoginAt request) w =
     (case FindUserByEmail (sv_repository s) (lq_Email request) w of
        (Inl e, w') \<Rightarrow> (Answered (Inl e), w')
      | (Inr data, w') \<Rightarrow> (if \<not> CheckPassword (sv_bcrypt s) (us_PasswordHash data) (lq_Password request)
          then Answered (Inl ErrInvalidCredential) else IssueAt (us_ID data), w'))"
| "advance s (RefreshAt request) w =
     (case ParseRefreshToken (sv_parse s) (fq_RefreshToken request) of
        None \<Rightarrow> (Answered (Inl invalid_token), w)
      | Some claims \<Rightarrow>
          (case FindRefreshToken (sv_repository s) (hashToken s (fq_RefreshToken request)) w of
             (Inl e, w') \<Rightarrow> (Answered (Inl e), w')
           | (Inr _, w') \<Rightarrow> (ClaimAt (hashToken s (fq_RefreshToken request)) (cl_UserID claims), w')))"
| "advance s (ClaimAt tokenHash userID) w =
     (case RevokeRefreshToken (sv_repository s) tokenHash w of
        (Inl e, w') \<Rightarrow> (Answered (Inl e), w')
      | (Inr revoked, w') \<Rightarrow> (if \<not> revoked then Answered (Inl ErrInvalidCredential) else IssueAt userID, w'))"
| "advance s (IssueAt userID) w =
     (case GeneratePair (sv_token s) userID w of
        (Inl e, w') \<Rightarrow> (Answered (Inl e), w') | (Inr tokens, w') \<Rightarrow> (SaveAt userID tokens, w'))"
| "advance s (SaveAt userID tokens) w =
     (case save_pair s userID tokens w of
        (Inl e, w') \<Rightarrow> (Answered (Inl e), w') | (Inr data, w') \<Rightarrow> (Answered (Inr (Some data)), w'))"
| "advance s (LogoutAt request) w =
     (case Logout s request w of
        (Inl e, w') \<Rightarrow> (Answered (Inl e), w') | (Inr _, w') \<Rightarrow> (Answered (Inr None), w'))"
| "advance s (Answered r) w = (Answered r, w)"

fun advances :: "nat \<Rightarrow> 'w auth_service \<Rightarrow> call \<Rightarrow> 'w \<Rightarrow> call \<times> 'w" where
  "advances 0 s c w = (c, w)"
| "advances (Suc n) s c w = (case advance s c w of (c', w') \<Rightarrow> advances n s c' w')"

lemma answered_stays [simp]: "advances n s (Answered r) w = (Answered r, w)"
  by (induction n) simp_all

lemma issue_stages: "advances 2 s (IssueAt u) w =
    (case issue s u w of (r, w') \<Rightarrow> (Answered (map_sum (\<lambda>e. e) Some r), w'))"
  by (simp add: numeral_2_eq_2 issue_def sbind_def split: prod.split sum.split)

lemma login_stages: "advances 3 s (LoginAt request) w =
    (case Login s request w of (r, w') \<Rightarrow> (Answered (map_sum (\<lambda>e. e) Some r), w'))"
proof -
  have three: "(3::nat) = Suc 2" by simp
  show ?thesis unfolding three advances.simps(2) by (simp add: Login_def sbind_def issue_stages split: prod.split sum.split)
qed

lemma refresh_stages: "advances 4 s (RefreshAt request) w =
    (case Refresh s request w of (r, w') \<Rightarrow> (Answered (map_sum (\<lambda>e. e) Some r), w'))"
proof -
  have four: "(4::nat) = Suc (Suc 2)" by simp
  show ?thesis unfolding four advances.simps(2)
    by (simp add: Refresh_def sbind_def Let_def issue_stages split: option.split prod.split sum.split)
qed

lemma logout_stages: "advances 1 s (LogoutAt request) w =
    (case Logout s request w of (r, w') \<Rightarrow> (Answered (map_sum (\<lambda>e. e) (\<lambda>_. None) r), w'))"
  by (simp split: prod.split sum.split)

section \<open>Interleaving\<close>

text \<open>A running call: the request it began with and the stage it has reached.\<close>

type_synonym 'w auth_state = "(call \<times> call) list \<times> 'w"

fun request :: "call \<Rightarrow> bool" where
  "request (LoginAt _) = True"
| "request (RefreshAt _) = True"
| "request (LogoutAt _) = True"
| "request _ = False"

inductive auth_step :: "'w auth_service \<Rightarrow> ('w \<Rightarrow> RefreshToken list) \<Rightarrow> 'w auth_state \<Rightarrow> 'w auth_state \<Rightarrow> bool"
  for s tokens where
  arrive: "request c \<Longrightarrow> auth_step s tokens (cs, w) (cs @ [(c, c)], w)"
| act: "i < length cs \<Longrightarrow> cs ! i = (c0, c) \<Longrightarrow> advance s c w = (c', w') \<Longrightarrow> auth_step s tokens (cs, w) (cs[i := (c0, c')], w')"
| other: "tokens w' = tokens w \<Longrightarrow> auth_step s tokens (cs, w) (cs, w')"

text \<open>The stages after the claim: the call is about to issue a pair, or has issued one.\<close>

fun past :: "call \<Rightarrow> bool" where
  "past (IssueAt _) = True"
| "past (SaveAt _ _) = True"
| "past (Answered (Inr _)) = True"
| "past _ = False"

text \<open>Call number \<open>i\<close> refreshes with a token of this hash and has got past the claim.\<close>

definition rotated :: "'w auth_service \<Rightarrow> (call \<times> call) list \<Rightarrow> string \<Rightarrow> nat \<Rightarrow> bool" where
  "rotated s cs h i \<longleftrightarrow> i < length cs \<and> past (snd (cs ! i)) \<and>
     (\<exists>req. fst (cs ! i) = RefreshAt req \<and> hashToken s (fq_RefreshToken req) = h)"

section \<open>The laws of the statements\<close>

definition revokes :: "(RefreshToken \<Rightarrow> bool) \<Rightarrow> RefreshToken list \<Rightarrow> RefreshToken list \<Rightarrow> bool" where
  "revokes P ts ts' \<longleftrightarrow> list_all2 (\<lambda>a b. rt_TokenHash b = rt_TokenHash a \<and> rt_UserID b = rt_UserID a \<and> rt_ExpiresAt b = rt_ExpiresAt a \<and>
     (if P a \<and> rt_RevokedAt a = None then rt_RevokedAt b \<noteq> None else rt_RevokedAt b = rt_RevokedAt a)) ts ts'"

definition live :: "string \<Rightarrow> RefreshToken \<Rightarrow> bool" where
  "live h r \<longleftrightarrow> rt_TokenHash r = h \<and> rt_RevokedAt r = None"

definition spent :: "RefreshToken list \<Rightarrow> string \<Rightarrow> bool" where
  "spent ts h \<longleftrightarrow> (\<exists>r \<in> set ts. rt_TokenHash r = h \<and> rt_RevokedAt r \<noteq> None)"

definition hashes :: "RefreshToken list \<Rightarrow> string list" where
  "hashes ts = map rt_TokenHash ts"

definition appends :: "RefreshToken \<Rightarrow> RefreshToken list \<Rightarrow> RefreshToken list \<Rightarrow> bool" where
  "appends t ts ts' \<longleftrightarrow> (\<exists>row. ts' = ts @ [row] \<and> rt_TokenHash row = rt_TokenHash t \<and> rt_UserID row = rt_UserID t \<and>
     rt_ExpiresAt row = rt_ExpiresAt t \<and> rt_RevokedAt row = rt_RevokedAt t) \<and> rt_TokenHash t \<notin> set (hashes ts)"

locale token_laws =
  fixes s :: "'w auth_service" and accounts :: "'w \<Rightarrow> User list" and tokens :: "'w \<Rightarrow> RefreshToken list"
  assumes FirstUser: "\<And>e w r w'. as_FirstUser (sv_repository s) e w = (r, w') \<Longrightarrow> tokens w' = tokens w \<and>
      (case r of Inr u \<Rightarrow> u \<in> set (accounts w) \<and> us_Email u = e \<and> us_DeletedAt u = None | Inl _ \<Rightarrow> True)"
    and FirstToken: "\<And>h w r w'. as_FirstToken (sv_repository s) h w = (r, w') \<Longrightarrow> tokens w' = tokens w \<and>
      (case r of Inr t \<Rightarrow> t \<in> set (tokens w) \<and> live h t | Inl _ \<Rightarrow> True)"
    and CreateToken: "\<And>t w r w'. as_CreateToken (sv_repository s) t w = (r, w') \<Longrightarrow>
      appends t (tokens w) (tokens w') \<or> (tokens w' = tokens w \<and> \<not> ok r)"
    and RevokeToken: "\<And>h w r w'. as_RevokeToken (sv_repository s) h w = (r, w') \<Longrightarrow>
      revokes (\<lambda>t. rt_TokenHash t = h) (tokens w) (tokens w') \<and> (\<forall>n. r = Inr n \<longrightarrow> n = int (length (filter (live h) (tokens w)))) \<or>
      (tokens w' = tokens w \<and> \<not> ok r)"
    and RevokeUser: "\<And>u w r w'. as_RevokeUser (sv_repository s) u w = (r, w') \<Longrightarrow>
      revokes (\<lambda>t. rt_UserID t = u) (tokens w) (tokens w') \<or> (tokens w' = tokens w \<and> \<not> ok r)"
    and NewID: "\<And>w i w'. jw_NewID (sv_token s) w = (i, w') \<Longrightarrow> tokens w' = tokens w"

lemma revokes_hashes: "revokes P ts ts' \<Longrightarrow> hashes ts' = hashes ts"
  unfolding revokes_def hashes_def by (induction rule: list_all2_induct) auto

lemma revokes_spent: "revokes P ts ts' \<Longrightarrow> spent ts h \<Longrightarrow> spent ts' h"
  unfolding revokes_def spent_def by (induction rule: list_all2_induct) (auto split: if_splits)

lemma revokes_live: "revokes (\<lambda>t. rt_TokenHash t = h) ts ts' \<Longrightarrow> t \<in> set ts \<Longrightarrow> live h t \<Longrightarrow> spent ts' h"
  unfolding revokes_def spent_def live_def by (induction rule: list_all2_induct) auto

lemma appends_spent: "appends t ts ts' \<Longrightarrow> spent ts h \<Longrightarrow> spent ts' h"
  by (auto simp: appends_def spent_def)

lemma appends_distinct: "appends t ts ts' \<Longrightarrow> distinct (hashes ts) \<Longrightarrow> distinct (hashes ts')"
  by (auto simp: appends_def hashes_def)

lemma live_not_spent: "distinct (hashes ts) \<Longrightarrow> t \<in> set ts \<Longrightarrow> live h t \<Longrightarrow> \<not> spent ts h"
  by (auto simp: hashes_def spent_def live_def distinct_map dest: inj_onD)

text \<open>What every step may do to the table.\<close>

definition tokens_grow :: "RefreshToken list \<Rightarrow> RefreshToken list \<Rightarrow> bool" where
  "tokens_grow ts ts' \<longleftrightarrow> (distinct (hashes ts) \<longrightarrow> distinct (hashes ts')) \<and> (\<forall>h. spent ts h \<longrightarrow> spent ts' h)"

lemma tokens_grow_refl [simp]: "tokens_grow ts ts"
  by (simp add: tokens_grow_def)

lemma tokens_grow_revokes: "revokes P ts ts' \<Longrightarrow> tokens_grow ts ts'"
  using revokes_hashes [of P ts ts'] revokes_spent [of P ts ts'] by (simp add: tokens_grow_def)

lemma tokens_grow_appends: "appends t ts ts' \<Longrightarrow> tokens_grow ts ts'"
  using appends_distinct [of t ts ts'] appends_spent [of t ts ts'] by (simp add: tokens_grow_def)

context token_laws
begin

lemma GeneratePair_tokens: "GeneratePair (sv_token s) u w = (r, w') \<Longrightarrow> tokens w' = tokens w"
  by (auto simp: GeneratePair_def sign_def sbind_def Let_def dest!: NewID split: prod.splits sum.splits)

lemma save_pair_tokens:
  assumes "save_pair s u p w = (r, w')"
  shows "appends (token_row s u p w) (tokens w) (tokens w') \<or> (tokens w' = tokens w \<and> \<not> ok r)"
  using assms by (auto simp: save_pair_def sbind_def SaveRefreshToken_def ok_def dest!: CreateToken split: prod.splits sum.splits)

lemma RevokeRefreshToken_tokens:
  assumes "RevokeRefreshToken (sv_repository s) h w = (r, w')"
  shows "tokens_grow (tokens w) (tokens w') \<and>
    (r = Inr True \<longrightarrow> distinct (hashes (tokens w)) \<longrightarrow> \<not> spent (tokens w) h \<and> spent (tokens w') h)"
proof -
  obtain q where q: "as_RevokeToken (sv_repository s) h w = (q, w')" "r = (case q of Inl e \<Rightarrow> Inl e | Inr n \<Rightarrow> Inr (n = 1))"
    using assms by (auto simp: RevokeRefreshToken_def sbind_def split: prod.splits sum.splits)
  from RevokeToken [OF q(1)] show ?thesis
  proof (elim disjE conjE)
    assume a: "revokes (\<lambda>t. rt_TokenHash t = h) (tokens w) (tokens w')" "\<forall>n. q = Inr n \<longrightarrow> n = int (length (filter (live h) (tokens w)))"
    have "\<not> spent (tokens w) h \<and> spent (tokens w') h" if d: "r = Inr True" "distinct (hashes (tokens w))"
    proof -
      have "length (filter (live h) (tokens w)) = 1" using d(1) q(2) a(2) by (auto split: sum.splits)
      then obtain t where "filter (live h) (tokens w) = [t]" by (auto simp: length_Suc_conv)
      then have t: "t \<in> set (tokens w)" "live h t" by (auto simp: filter_eq_Cons_iff)
      show ?thesis using live_not_spent [OF d(2) t] revokes_live [OF a(1) t] by simp
    qed
    with tokens_grow_revokes [OF a(1)] show ?thesis by simp
  qed (use q(2) in \<open>auto simp: ok_def split: sum.splits\<close>)
qed

lemma Logout_tokens: "Logout s req w = (r, w') \<Longrightarrow> tokens_grow (tokens w) (tokens w')"
  by (auto simp: Logout_def RevokeRefreshTokensByUserID_def sbind_def split: option.splits if_splits prod.splits sum.splits
      dest!: RevokeUser RevokeRefreshToken_tokens intro: tokens_grow_revokes)

lemma advance_tokens:
  assumes "advance s c w = (c', w')"
  shows "tokens_grow (tokens w) (tokens w')"
proof (cases c)
  case (LoginAt req)
  with assms show ?thesis by (auto simp: FindUserByEmail_def dest!: FirstUser split: prod.splits sum.splits db_error.splits)
next
  case (RefreshAt req)
  with assms show ?thesis by (auto simp: FindRefreshToken_def dest!: FirstToken split: option.splits prod.splits sum.splits)
next
  case (ClaimAt h u)
  with assms show ?thesis by (auto dest!: RevokeRefreshToken_tokens split: prod.splits sum.splits)
next
  case (IssueAt u)
  with assms show ?thesis by (auto dest!: GeneratePair_tokens split: prod.splits sum.splits)
next
  case (SaveAt u p)
  with assms show ?thesis by (auto dest!: save_pair_tokens intro: tokens_grow_appends split: prod.splits sum.splits)
next
  case (LogoutAt req)
  with assms show ?thesis by (auto dest!: Logout_tokens split: prod.splits sum.splits)
next
  case (Answered r)
  with assms show ?thesis by simp
qed

end

section \<open>The invariant of a run\<close>

text \<open>Which stages a call can be in that began with a given request.\<close>

fun stage_ok :: "'w auth_service \<Rightarrow> call \<Rightarrow> call \<Rightarrow> bool" where
  "stage_ok s (RefreshAt req) c = (case c of
     RefreshAt r \<Rightarrow> r = req | ClaimAt h u \<Rightarrow> h = hashToken s (fq_RefreshToken req)
   | LoginAt _ \<Rightarrow> False | LogoutAt _ \<Rightarrow> False | _ \<Rightarrow> True)"
| "stage_ok s c0 c = True"

lemma stage_ok_advance: "stage_ok s c0 c \<Longrightarrow> advance s c w = (c', w') \<Longrightarrow> stage_ok s c0 c'"
  by (cases c0; cases c) (auto split: prod.splits sum.splits option.splits)

lemma stage_ok_start: "request c \<Longrightarrow> stage_ok s c c"
  by (cases c) auto

text \<open>A refresh gets past the claim only by claiming.\<close>

lemma past_advance:
  assumes "advance s c w = (c', w')" and "past c'" and "\<not> past c" and "stage_ok s (RefreshAt req) c"
  shows "\<exists>u. c = ClaimAt (hashToken s (fq_RefreshToken req)) u \<and>
    RevokeRefreshToken (sv_repository s) (hashToken s (fq_RefreshToken req)) w = (Inr True, w')"
  using assms by (cases c) (auto split: prod.splits sum.splits option.splits if_splits)

definition auth_inv :: "'w auth_service \<Rightarrow> ('w \<Rightarrow> RefreshToken list) \<Rightarrow> 'w auth_state \<Rightarrow> bool" where
  "auth_inv s tokens st \<longleftrightarrow> (case st of (cs, w) \<Rightarrow>
     distinct (hashes (tokens w)) \<and> list_all (\<lambda>(c0, c). stage_ok s c0 c) cs \<and>
     (\<forall>h i. rotated s cs h i \<longrightarrow> spent (tokens w) h) \<and>
     (\<forall>h i j. rotated s cs h i \<longrightarrow> rotated s cs h j \<longrightarrow> i = j))"

lemma rotated_append: "request c \<Longrightarrow> rotated s (cs @ [(c, c)]) h i \<longleftrightarrow> rotated s cs h i"
  by (cases c) (auto simp: rotated_def nth_append less_Suc_eq)

lemma rotated_update: "i < length cs \<Longrightarrow> rotated s (cs[i := (fst (cs ! i), c')]) h k \<longleftrightarrow>
    (if k = i then past c' \<and> (\<exists>req. fst (cs ! i) = RefreshAt req \<and> hashToken s (fq_RefreshToken req) = h)
     else rotated s cs h k)"
  by (auto simp: rotated_def)

context token_laws
begin

text \<open>A step that makes a call get past the claim finds the token unspent and leaves it spent.\<close>

lemma claim_once:
  assumes "i < length cs" and "cs ! i = (c0, c)" and "advance s c w = (c', w')" and "stage_ok s c0 c"
    and "distinct (hashes (tokens w))" and "rotated s (cs[i := (c0, c')]) h i" and "\<not> rotated s cs h i"
  shows "\<not> spent (tokens w) h \<and> spent (tokens w') h"
proof -
  obtain req where req: "c0 = RefreshAt req" "hashToken s (fq_RefreshToken req) = h" "past c'"
    using assms(1,6) by (auto simp: rotated_def)
  have "\<not> past c" using assms(1,2,7) req(1,2) by (auto simp: rotated_def)
  from past_advance [OF assms(3) req(3) this] assms(4) req(1,2)
  have "RevokeRefreshToken (sv_repository s) h w = (Inr True, w')" by auto
  from RevokeRefreshToken_tokens [OF this] assms(5) show ?thesis by simp
qed

lemma auth_inv_step:
  assumes "auth_step s tokens st st'" and "auth_inv s tokens st"
  shows "auth_inv s tokens st'"
proof -
  obtain cs w where st: "st = (cs, w)" by (cases st)
  note inv = assms(2) [unfolded st auth_inv_def prod.case]
  from assms(1) show ?thesis unfolding st
  proof (cases rule: auth_step.cases)
    case (arrive c)
    then have "rotated s (cs @ [(c, c)]) = rotated s cs" by (intro ext) (rule rotated_append)
    with inv arrive show ?thesis by (auto simp: auth_inv_def stage_ok_start)
  next
    case (act i c0 c c' w')
    let ?cs = "cs[i := (c0, c')]"
    have g: "tokens_grow (tokens w) (tokens w')" by (rule advance_tokens [OF act(4)])
    have so: "stage_ok s c0 c" using inv act(2,3) by (auto simp: list_all_length dest!: spec [of _ i])
    have d: "distinct (hashes (tokens w))" using inv by simp
    have f: "fst (cs ! i) = c0" using act(3) by simp
    have other: "k \<noteq> i \<Longrightarrow> rotated s ?cs h k \<longleftrightarrow> rotated s cs h k" for h k
      using rotated_update [OF act(2), of s c' h k] by (simp add: f)
    have new: "rotated s cs h i \<or> (\<not> spent (tokens w) h \<and> spent (tokens w') h)" if "rotated s ?cs h i" for h
      using claim_once [OF act(2,3,4) so d that] by blast
    have sp: "spent (tokens w') h" if "rotated s ?cs h k" for h k
    proof (cases "k = i")
      case True
      with that new [of h] inv g show ?thesis by (auto simp: tokens_grow_def)
    next
      case False
      with that other [of k h] inv g show ?thesis by (auto simp: tokens_grow_def)
    qed
    have uniq: "j = k" if "rotated s ?cs h j" "rotated s ?cs h k" for h j k
    proof (rule ccontr)
      assume "j \<noteq> k"
      then obtain a b where ab: "{a, b} = {j, k}" "a \<noteq> b" "b \<noteq> i" by (cases "j = i") auto
      then have rb: "rotated s cs h b" using that other [of b h] by (auto simp: doubleton_eq_iff)
      have "rotated s cs h a"
      proof (cases "a = i")
        case True
        have "rotated s ?cs h i" using that ab True by (auto simp: doubleton_eq_iff)
        from new [OF this] rb inv True show ?thesis by blast
      next
        case False
        then show ?thesis using that ab other [of a h] by (auto simp: doubleton_eq_iff)
      qed
      with rb inv ab(2) show False by blast
    qed
    have "list_all (\<lambda>(c0, c). stage_ok s c0 c) ?cs"
      using inv stage_ok_advance [OF so act(4)]
      by (auto simp: list_all_iff dest!: set_update_subset_insert [THEN subsetD])
    then show ?thesis unfolding act(1) auth_inv_def prod.case
      using d g sp uniq by (auto simp: tokens_grow_def)
  next
    case (other w')
    with inv show ?thesis by (auto simp: auth_inv_def)
  qed
qed

lemma auth_inv_run: "(auth_step s tokens)\<^sup>*\<^sup>* st st' \<Longrightarrow> auth_inv s tokens st \<Longrightarrow> auth_inv s tokens st'"
  by (induction rule: rtranclp_induct) (auto intro: auth_inv_step)

text \<open>A token that is spent is never rotated again.\<close>

lemma spent_step:
  assumes "auth_step s tokens (cs, w) (cs', w')" and "auth_inv s tokens (cs, w)" and "spent (tokens w) h"
  shows "spent (tokens w') h \<and> (rotated s cs' h k \<longrightarrow> rotated s cs h k)"
  using assms(1)
proof (cases rule: auth_step.cases)
  case (arrive c)
  with assms(3) show ?thesis by (auto simp: rotated_append)
next
  case (act i c0 c c2)
  have so: "stage_ok s c0 c" "distinct (hashes (tokens w))"
    using assms(2) act(2,3) by (auto simp: auth_inv_def list_all_length dest!: spec [of _ i])
  have "rotated s cs' h k \<longrightarrow> rotated s cs h k"
  proof (cases "k = i")
    case True
    with claim_once [OF act(2,3,4) so, of h] assms(3) act(1) show ?thesis by auto
  next
    case False
    with rotated_update [OF act(2), of s c2 h k] act(1,3) show ?thesis by simp
  qed
  with advance_tokens [OF act(4)] assms(3) act(1) show ?thesis by (simp add: tokens_grow_def)
next
  case other
  with assms(3) show ?thesis by simp
qed

lemma spent_run:
  assumes "(auth_step s tokens)\<^sup>*\<^sup>* st st'" and "auth_inv s tokens st" and "spent (tokens (snd st)) h"
  shows "spent (tokens (snd st')) h \<and> (rotated s (fst st') h k \<longrightarrow> rotated s (fst st) h k)"
  using assms(1)
proof (induction rule: rtranclp_induct)
  case (step st1 st2)
  have "auth_inv s tokens st1" by (rule auth_inv_run [OF step(1) assms(2)])
  with step spent_step [of "fst st1" "snd st1" "fst st2" "snd st2" h k] show ?case by simp
qed (simp add: assms(3))

end

context token_laws
begin

lemma Login_rows:
  assumes "Login s req w = (r, w')"
  defines "proven \<equiv> \<lambda>u. u \<in> set (accounts w) \<and> us_Email u = lq_Email req \<and> us_DeletedAt u = None \<and>
      bc_Compare (sv_bcrypt s) (us_PasswordHash u) (lq_Password req)"
  shows "case r of
      Inr resp \<Rightarrow> \<exists>u row. proven u \<and> tokens w' = tokens w @ [row] \<and> rt_UserID row = us_ID u \<and> live (hashToken s (lr_RefreshToken resp)) row
    | Inl e \<Rightarrow> tokens w' = tokens w \<or> (\<exists>u row. proven u \<and> tokens w' = tokens w @ [row] \<and> rt_UserID row = us_ID u)"
proof -
  obtain q w1 where q: "as_FirstUser (sv_repository s) (lq_Email req) w = (q, w1)"
    by (cases "as_FirstUser (sv_repository s) (lq_Email req) w")
  note fu = FirstUser [OF q]
  show ?thesis
  proof (cases q)
    case (Inl e)
    with assms(1) q fu show ?thesis
      by (auto simp: Login_def FindUserByEmail_def sbind_def split: db_error.splits)
  next
    case (Inr u)
    show ?thesis
    proof (cases "bc_Compare (sv_bcrypt s) (us_PasswordHash u) (lq_Password req)")
      case False
      with assms(1) q fu Inr show ?thesis
        by (auto simp: Login_def FindUserByEmail_def sbind_def CheckPassword_def)
    next
      case True
      with fu Inr have pu: "proven u" "tokens w1 = tokens w" by (simp_all add: proven_def)
      have i: "issue s (us_ID u) w1 = (r, w')"
        using assms(1) q Inr True by (simp add: Login_def FindUserByEmail_def sbind_def CheckPassword_def)
      obtain g w2 where g: "GeneratePair (sv_token s) (us_ID u) w1 = (g, w2)"
        by (cases "GeneratePair (sv_token s) (us_ID u) w1")
      have t2: "tokens w2 = tokens w" using GeneratePair_tokens [OF g] pu(2) by simp
      show ?thesis
      proof (cases g)
        case (Inl e)
        with i g t2 show ?thesis by (auto simp: issue_def sbind_def)
      next
        case (Inr p)
        then have sp: "save_pair s (us_ID u) p w2 = (r, w')" using i g by (simp add: issue_def sbind_def)
        have resp: "lr_RefreshToken resp = tp_RefreshToken p" if "r = Inr resp" for resp
          using sp that by (auto simp: save_pair_def sbind_def NewLoginResponse_def split: prod.splits sum.splits)
        from save_pair_tokens [OF sp] show ?thesis
        proof
          assume "appends (token_row s (us_ID u) p w2) (tokens w2) (tokens w')"
          then obtain row where row: "tokens w' = tokens w @ [row]" "rt_UserID row = us_ID u"
            "live (hashToken s (tp_RefreshToken p)) row"
            unfolding t2 by (auto simp: appends_def token_row_def live_def)
          then show ?thesis using pu(1) resp by (cases r) auto
        next
          assume "tokens w' = tokens w2 \<and> \<not> ok r"
          with t2 show ?thesis by (cases r) auto
        qed
      qed
    qed
  qed
qed

end

text \<open>
  C15: Refresh tokens rotate once. Let any number of logins, refreshes and logouts run at the
  same time, their statements interleaved in any order with each other and with whatever else
  happens, and let any statement fail, also after it was carried out. Of all the refreshes that
  present the same refresh token, at most one ever gets past the claim, so at most one new pair
  is issued for a token; and once a token is spent or revoked (by a rotation or a logout) no
  further refresh with it gets past the claim.
\<close>

theorem refresh_rotates_once:
  assumes "token_laws s accounts tokens" and "distinct (hashes (tokens w0))"
    and "(auth_step s tokens)\<^sup>*\<^sup>* ([], w0) (cs, w)" and "(auth_step s tokens)\<^sup>*\<^sup>* (cs, w) (cs', w')"
  shows "(rotated s cs' h i \<longrightarrow> rotated s cs' h j \<longrightarrow> i = j) \<and> (rotated s cs' h i \<longrightarrow> spent (tokens w') h) \<and>
    (spent (tokens w) h \<longrightarrow> rotated s cs' h i \<longrightarrow> rotated s cs h i)"
proof -
  have "auth_inv s tokens ([], w0)" using assms(2) by (simp add: auth_inv_def rotated_def)
  from token_laws.auth_inv_run [OF assms(1,3) this] have inv: "auth_inv s tokens (cs, w)" .
  have inv': "auth_inv s tokens (cs', w')" by (rule token_laws.auth_inv_run [OF assms(1,4) inv])
  have "rotated s cs' h i \<longrightarrow> rotated s cs' h j \<longrightarrow> i = j" "rotated s cs' h i \<longrightarrow> spent (tokens w') h"
    using inv' unfolding auth_inv_def prod.case by blast+
  moreover have "spent (tokens w) h \<longrightarrow> rotated s cs' h i \<longrightarrow> rotated s cs h i"
    using token_laws.spent_run [OF assms(1,4) inv, of h i] by simp
  ultimately show ?thesis by blast
qed

text \<open>
  C34: Only the right password signs in. A login is answered with tokens only when the body
  decodes and passes the validator, an account with that email is not deleted and its stored
  hash belongs to the password; then exactly one token row is added, for that account, live,
  with the hash of the refresh token in the answer. In every other case the answer has no data,
  and whatever the reason is (unknown email, wrong password, a failed statement), it is the same
  answer 401; a row is added then only if the password was right.
\<close>

theorem login_sound:
  assumes "token_laws s accounts tokens" and "LoginHandler s va js c w = (c', w')" and "cx_Response c = None"
  defines "proven \<equiv> \<lambda>req u. u \<in> set (accounts w) \<and> us_Email u = lq_Email req \<and> us_DeletedAt u = None \<and>
      bc_Compare (sv_bcrypt s) (us_PasswordHash u) (lq_Password req)"
  shows "(\<exists>req u resp row. js = Some req \<and> va_Login va req = None \<and> proven req u \<and>
        c' = SetSuccessResponse c 200 MessageLoginSuccess (Some (DLogin resp)) \<and> tokens w' = tokens w @ [row] \<and>
        rt_UserID row = us_ID u \<and> live (hashToken s (lr_RefreshToken resp)) row) \<or>
      ((c' = SetErrorResponse c 401 MessageInvalidCredential None \<or>
        (\<exists>d. c' = SetErrorResponse c 400 MessageInvalidBody None \<or> c' = SetErrorResponse c 400 MessageValidationFailed (Some d))) \<and>
       (tokens w' = tokens w \<or> (\<exists>req u row. js = Some req \<and> proven req u \<and> tokens w' = tokens w @ [row] \<and> rt_UserID row = us_ID u)))"
proof (cases js)
  case None
  with assms(2) show ?thesis by (simp add: LoginHandler_def)
next
  case (Some req)
  show ?thesis
  proof (cases "va_Login va req")
    case None
    obtain r w1 where r: "Login s req w = (r, w1)" by (cases "Login s req w")
    note rows = token_laws.Login_rows [OF assms(1) r]
    show ?thesis
    proof (cases r)
      case (Inl e)
      with assms(2) Some None r rows show ?thesis by (auto simp: LoginHandler_def proven_def)
    next
      case (Inr resp)
      with assms(2) Some None r rows show ?thesis by (auto simp: LoginHandler_def proven_def)
    qed
  qed (use assms(2) Some in \<open>auto simp: LoginHandler_def\<close>)
qed

section \<open>Tables\<close>

text \<open>A plan says for each statement whether it is refused, or carried out with the answer lost.\<close>

datatype fault = Refused | AnswerLost

record auth_tab =
  xt_Acct :: acct
  xt_Tokens :: "RefreshToken list"
  xt_Faults :: "fault option list"
  xt_Clock :: instant
  xt_Count :: nat

definition xstmt :: "(auth_tab, 'a) stmt \<Rightarrow> (auth_tab, 'a) stmt" where
  "xstmt f w = (case xt_Faults w of
     [] \<Rightarrow> f w
   | fault # fs \<Rightarrow> (let v = w\<lparr>xt_Faults := fs\<rparr> in case fault of
       None \<Rightarrow> f v
     | Some Refused \<Rightarrow> (Inl (Fail ''connection lost''), v)
     | Some AnswerLost \<Rightarrow> (Inl (Fail ''connection lost''), snd (f v))))"

definition on_acct :: "(acct, 'a) stmt \<Rightarrow> (auth_tab, 'a) stmt" where
  "on_acct m w = (case m (xt_Acct w) of (r, a) \<Rightarrow> (r, w\<lparr>xt_Acct := a\<rparr>))"

definition tok_create :: "RefreshToken \<Rightarrow> (auth_tab, unit) stmt" where
  "tok_create t = xstmt (\<lambda>w.
     if rt_TokenHash t \<in> set (hashes (xt_Tokens w)) then (Inl (Fail ''duplicate key''), w)
     else (Inr (), w\<lparr>xt_Tokens := xt_Tokens w @ [t\<lparr>rt_ID := ''rt-'' @ dec (length (xt_Tokens w)), rt_CreatedAt := xt_Clock w, rt_UpdatedAt := xt_Clock w\<rparr>]\<rparr>))"

definition tok_first :: "string \<Rightarrow> (auth_tab, RefreshToken) stmt" where
  "tok_first h = xstmt (\<lambda>w. (case find (\<lambda>t. live h t \<and> xt_Clock w < rt_ExpiresAt t) (xt_Tokens w) of None \<Rightarrow> Inl NoRecord | Some t \<Rightarrow> Inr t, w))"

definition revoke_at :: "instant \<Rightarrow> (RefreshToken \<Rightarrow> bool) \<Rightarrow> RefreshToken list \<Rightarrow> RefreshToken list" where
  "revoke_at now P ts = map (\<lambda>t. if P t \<and> rt_RevokedAt t = None then t\<lparr>rt_RevokedAt := Some now, rt_UpdatedAt := now\<rparr> else t) ts"

definition tok_revoke :: "string \<Rightarrow> (auth_tab, int) stmt" where
  "tok_revoke h = xstmt (\<lambda>w. (Inr (int (length (filter (live h) (xt_Tokens w)))),
     w\<lparr>xt_Tokens := revoke_at (xt_Clock w) (\<lambda>t. rt_TokenHash t = h) (xt_Tokens w)\<rparr>))"

definition tok_revoke_user :: "uuid \<Rightarrow> (auth_tab, unit) stmt" where
  "tok_revoke_user u = xstmt (\<lambda>w. (Inr (), w\<lparr>xt_Tokens := revoke_at (xt_Clock w) (\<lambda>t. rt_UserID t = u) (xt_Tokens w)\<rparr>))"

definition tab_service :: "auth_tab auth_service" where
  "tab_service = \<lparr>
     sv_repository = \<lparr>as_FirstUser = (\<lambda>email. on_acct (tab_first [EmailIs email, NotDeleted])), as_CreateToken = tok_create,
       as_FirstToken = tok_first, as_RevokeToken = tok_revoke, as_RevokeUser = tok_revoke_user\<rparr>,
     sv_users = \<lparr>db_FirstUser = (\<lambda>cl. on_acct (db_FirstUser acct_store cl)), db_FindUsers = (\<lambda>cl n. on_acct (db_FindUsers acct_store cl n)),
       db_CreateUser = (\<lambda>u. on_acct (db_CreateUser acct_store u)), db_FindAudit = (\<lambda>cl n. on_acct (db_FindAudit acct_store cl n)),
       db_CreateAudit = (\<lambda>l. on_acct (db_CreateAudit acct_store l))\<rparr>,
     sv_bcrypt = \<lparr>bc_Generate = (\<lambda>p w. (Inr (''hash:'' @ p), w)), bc_Compare = (\<lambda>h p. h = ''hash:'' @ p)\<rparr>,
     sv_token = \<lparr>jw_accessTTL = 15 * Minute, jw_refreshTTL = 24 * Hour, jw_Now = xt_Clock,
       jw_NewID = (\<lambda>w. (dec (xt_Count w), w\<lparr>xt_Count := Suc (xt_Count w)\<rparr>)),
       jw_Signed = (\<lambda>c. Inr (sc_Subject c @ ''.'' @ sc_UserID c @ ''.'' @ sc_ID c))\<rparr>,
     sv_parse = \<lparr>ts_verify = (\<lambda>t. case Split CHR ''.'' t of [sub, u, i] \<Rightarrow> Some \<lparr>cl_UserID = u, cl_Subject = sub\<rparr> | _ \<Rightarrow> None), ts_hmac = (\<lambda>t. True)\<rparr>,
     sv_sha256 = (\<lambda>t. t)\<rparr>"

lemma xstmt_cases:
  assumes "xstmt f w = (r, w')"
  obtains (refused) fs where "\<not> ok r" "w' = w\<lparr>xt_Faults := fs\<rparr>"
    | (lost) fs q where "\<not> ok r" "f (w\<lparr>xt_Faults := fs\<rparr>) = (q, w')"
    | (run) fs where "f (w\<lparr>xt_Faults := fs\<rparr>) = (r, w')"
proof (cases "xt_Faults w")
  case Nil
  then have "f w = (r, w')" using assms by (simp add: xstmt_def)
  moreover have "w\<lparr>xt_Faults := xt_Faults w\<rparr> = w" by simp
  ultimately show thesis using run [of "xt_Faults w"] by (simp only:)
next
  case (Cons fault fs)
  show thesis
  proof (cases fault)
    case None
    with assms Cons show thesis by (auto simp: xstmt_def intro: run)
  next
    case (Some x)
    let ?v = "w\<lparr>xt_Faults := fs\<rparr>"
    have "r = Inl (Fail ''connection lost'')" "x = Refused \<and> w' = ?v \<or> w' = snd (f ?v)"
      using assms Cons Some by (cases x; simp add: xstmt_def Let_def)+
    then show thesis using refused [of fs] lost [of fs "fst (f ?v)"] by (auto simp: prod_eq_iff)
  qed
qed

lemma revoke_at_law: "revokes P ts (revoke_at now P ts)"
  by (auto simp: revokes_def revoke_at_def list_all2_conv_all_nth)

lemma tab_first_law:
  assumes "tab_first [EmailIs e, NotDeleted] a = (r, a')"
  shows "case r of Inr u \<Rightarrow> u \<in> set (at_Users a) \<and> us_Email u = e \<and> us_DeletedAt u = None | Inl _ \<Rightarrow> True"
  using assms unfolding tab_first_def
  by (elim astmt_cases) (auto dest: find_SomeD split: option.splits)

interpretation tab: token_laws tab_service "\<lambda>w. at_Users (xt_Acct w)" xt_Tokens
proof (unfold_locales, goal_cases)
  case (1 e w r w')
  then obtain a' where "tab_first [EmailIs e, NotDeleted] (xt_Acct w) = (r, a')" "w' = w\<lparr>xt_Acct := a'\<rparr>"
    by (auto simp: tab_service_def on_acct_def split: prod.splits)
  then show ?case using tab_first_law [of e "xt_Acct w" r a'] by simp
next
  case (2 h w r w')
  then have "tok_first h w = (r, w')" by (simp add: tab_service_def)
  then show ?case unfolding tok_first_def
    by (elim xstmt_cases) (auto simp: ok_def dest: find_SomeD split: option.splits sum.splits)
next
  case (3 t w r w')
  then have "tok_create t w = (r, w')" by (simp add: tab_service_def)
  then show ?case unfolding tok_create_def
    by (elim xstmt_cases) (auto simp: appends_def ok_def split: if_splits)
next
  case (4 h w r w')
  then have "tok_revoke h w = (r, w')" by (simp add: tab_service_def)
  then show ?case unfolding tok_revoke_def
    by (elim xstmt_cases) (auto simp: revoke_at_law ok_def)
next
  case (5 u w r w')
  then have "tok_revoke_user u w = (r, w')" by (simp add: tab_service_def)
  then show ?case unfolding tok_revoke_user_def
    by (elim xstmt_cases) (auto simp: revoke_at_law ok_def)
next
  case (6 w i w')
  then show ?case by (auto simp: tab_service_def)
qed

section \<open>A race\<close>

datatype move = Arrive call | Act nat

fun play :: "'w auth_service \<Rightarrow> move list \<Rightarrow> 'w auth_state \<Rightarrow> 'w auth_state" where
  "play s [] st = st"
| "play s (Arrive c # ms) (cs, w) = play s ms (if request c then (cs @ [(c, c)], w) else (cs, w))"
| "play s (Act i # ms) (cs, w) = play s ms
     (if i < length cs then (case advance s (snd (cs ! i)) w of (c', w') \<Rightarrow> (cs[i := (fst (cs ! i), c')], w')) else (cs, w))"

lemma play_steps: "(auth_step s tokens)\<^sup>*\<^sup>* st (play s ms st)"
proof (induction s ms st rule: play.induct)
  case (2 s c ms cs w)
  have "(auth_step s tokens)\<^sup>*\<^sup>* (cs, w) (if request c then (cs @ [(c, c)], w) else (cs, w))"
    by (auto intro: auth_step.arrive)
  with 2 show ?case by (auto intro: rtranclp_trans)
next
  case (3 s i ms cs w)
  have "(auth_step s tokens)\<^sup>*\<^sup>* (cs, w)
     (if i < length cs then (case advance s (snd (cs ! i)) w of (c', w') \<Rightarrow> (cs[i := (fst (cs ! i), c')], w')) else (cs, w))"
    by (auto split: prod.split intro!: r_into_rtranclp auth_step.act)
  with 3 show ?case by (auto intro: rtranclp_trans)
qed simp

text \<open>Two refreshes with one token: both find it live, then both try to claim it.\<close>

definition demo_token :: string where "demo_token = ''refresh.u1.0''"

definition demo_auth :: auth_tab where
  "demo_auth = \<lparr>xt_Acct = demo_acct, xt_Tokens = [\<lparr>rt_ID = ''rt-0'', rt_UserID = ''u1'', rt_TokenHash = hashToken tab_service demo_token,
     rt_ExpiresAt = 100 * Second, rt_RevokedAt = None, rt_CreatedAt = 0, rt_UpdatedAt = 0\<rparr>], xt_Faults = [], xt_Clock = Second, xt_Count = 1\<rparr>"

definition race :: "move list" where
  "race = (let c = RefreshAt \<lparr>fq_RefreshToken = demo_token\<rparr> in [Arrive c, Arrive c, Act 0, Act 1, Act 1, Act 0, Act 1, Act 1])"

lemma race_result: "map snd (fst (play tab_service race ([], demo_auth))) =
    [Answered (Inl ErrInvalidCredential), Answered (Inr (Some \<lparr>lr_AccessToken = ''access.u1.1'', lr_RefreshToken = ''refresh.u1.2'', lr_ExpiresAt = 901\<rparr>))]"
  "map fst (fst (play tab_service race ([], demo_auth))) = replicate 2 (RefreshAt \<lparr>fq_RefreshToken = demo_token\<rparr>)"
  by code_simp+

theorem refresh_rotates_once_witness:
  "\<exists>cs w. (auth_step tab_service xt_Tokens)\<^sup>*\<^sup>* ([], demo_auth) (cs, w) \<and> rotated tab_service cs (hashToken tab_service demo_token) 1 \<and>
     \<not> rotated tab_service cs (hashToken tab_service demo_token) 0 \<and> spent (xt_Tokens w) (hashToken tab_service demo_token)"
proof -
  let ?h = "hashToken tab_service demo_token"
  obtain cs w where p: "play tab_service race ([], demo_auth) = (cs, w)" by (cases "play tab_service race ([], demo_auth)")
  have run: "(auth_step tab_service xt_Tokens)\<^sup>*\<^sup>* ([], demo_auth) (cs, w)"
    using play_steps [of tab_service xt_Tokens "([], demo_auth)" race] p by simp
  have d: "distinct (hashes (xt_Tokens demo_auth))" by (simp add: demo_auth_def hashes_def)
  note once = refresh_rotates_once [OF tab.token_laws_axioms d run rtranclp.rtrancl_refl, of ?h 1 0]
  have r: "map snd cs = [Answered (Inl ErrInvalidCredential), Answered (Inr (Some \<lparr>lr_AccessToken = ''access.u1.1'', lr_RefreshToken = ''refresh.u1.2'', lr_ExpiresAt = 901\<rparr>))]"
    "map fst cs = replicate 2 (RefreshAt \<lparr>fq_RefreshToken = demo_token\<rparr>)"
    using race_result p by simp_all
  have "length cs = 2" using arg_cong [OF r(1), of length] by simp
  moreover have "snd (cs ! 1) = Answered (Inr (Some \<lparr>lr_AccessToken = ''access.u1.1'', lr_RefreshToken = ''refresh.u1.2'', lr_ExpiresAt = 901\<rparr>))"
    "fst (cs ! 1) = RefreshAt \<lparr>fq_RefreshToken = demo_token\<rparr>"
    using \<open>length cs = 2\<close> arg_cong [OF r(1), of "\<lambda>xs. xs ! 1"] arg_cong [OF r(2), of "\<lambda>xs. xs ! 1"] by simp_all
  ultimately have "rotated tab_service cs ?h 1" by (simp add: rotated_def)
  with once run have "\<not> rotated tab_service cs ?h 0" "spent (xt_Tokens w) ?h" by simp_all
  with \<open>rotated tab_service cs ?h 1\<close> run show ?thesis by blast
qed

definition demo_login :: auth_tab where
  "demo_login = demo_auth\<lparr>xt_Acct := demo_acct\<lparr>at_Users := [(demo_user 1 0 False)\<lparr>us_PasswordHash := ''hash:secret''\<rparr>]\<rparr>\<rparr>"

definition demo_post :: "auth_data ctx" where
  "demo_post = \<lparr>cx_Method = ''POST'', cx_Path = ''/api/v1/auth/login'', cx_Route = ''/api/v1/auth/login'', cx_RawQuery = [],
     cx_Query = [], cx_Param = [], cx_Header = [], cx_ClientIP = ''10.0.0.1'', cx_UserAgent = [],
     cx_BodyLimit = None, cx_RequestID = None, cx_UserID = None, cx_Allowlist = None, cx_OutHeader = [],
     cx_Response = None, cx_Panicked = False\<rparr>"

definition demo_valid :: validators where
  "demo_valid = \<lparr>va_Register = (\<lambda>_. None), va_Login = (\<lambda>_. None), va_Refresh = (\<lambda>_. None), va_Logout = (\<lambda>_. None)\<rparr>"

lemma demo_login_status: "status_of (fst (LoginHandler tab_service demo_valid
    (Some \<lparr>lq_Email = ''u1@example.com'', lq_Password = ''secret''\<rparr>) demo_post demo_login)) = 200"
  by code_simp

theorem login_sound_witness:
  "\<exists>row. xt_Tokens (snd (LoginHandler tab_service demo_valid (Some \<lparr>lq_Email = ''u1@example.com'', lq_Password = ''secret''\<rparr>)
     demo_post demo_login)) = xt_Tokens demo_login @ [row] \<and> rt_RevokedAt row = None"
proof -
  let ?js = "Some \<lparr>lq_Email = ''u1@example.com'', lq_Password = ''secret''\<rparr>"
  obtain c' w' where h: "LoginHandler tab_service demo_valid ?js demo_post demo_login = (c', w')"
    by (cases "LoginHandler tab_service demo_valid ?js demo_post demo_login")
  have n: "cx_Response demo_post = None" by (simp add: demo_post_def)
  have st: "status_of c' = 200" using demo_login_status h by simp
  have e: "status_of (SetErrorResponse demo_post k m d) = k" for k m d
    by (simp add: status_of_def SetErrorResponse_def JSON_def n)
  from login_sound [OF tab.token_laws_axioms h n] st show ?thesis
    by (elim disjE exE conjE) (auto simp: h live_def e)
qed

end
