(* ===== verification/HttpClient.thy ===== *)
theory HttpClient
  imports Http GoTime
begin

text \<open>
  The guarded HTTP client of infrastructure/client/http: which URLs it accepts, its retries and
  its circuit breaker. \<open>url.Parse\<close>, \<open>net.ParseIP\<close>, the transport, and waiting are parameters; what the
  methods of \<open>net.IP\<close> say of an address is written out. No other package of the program uses this
  client.
\<close>

section \<open>Addresses\<close>

text \<open>An address is its 16 bytes; an IPv4 address is in the last four, after ten 0 and two 255.\<close>

type_synonym ip = "nat list"

definition To4 :: "ip \<Rightarrow> ip option" where
  "To4 a = (if length a = 16 \<and> take 12 a = replicate 10 0 @ [255, 255] then Some (drop 12 a) else None)"

definition IsLoopback :: "ip \<Rightarrow> bool" where
  "IsLoopback a = (case To4 a of Some v \<Rightarrow> v ! 0 = 127 | None \<Rightarrow> a = replicate 15 0 @ [1])"

definition IsPrivate :: "ip \<Rightarrow> bool" where
  "IsPrivate a = (case To4 a of
     Some v \<Rightarrow> v ! 0 = 10 \<or> v ! 0 = 172 \<and> v ! 1 div 16 = 1 \<or> v ! 0 = 192 \<and> v ! 1 = 168
   | None \<Rightarrow> length a = 16 \<and> a ! 0 div 2 = 126)"

definition IsLinkLocalUnicast :: "ip \<Rightarrow> bool" where
  "IsLinkLocalUnicast a = (case To4 a of
     Some v \<Rightarrow> v ! 0 = 169 \<and> v ! 1 = 254
   | None \<Rightarrow> length a = 16 \<and> a ! 0 = 254 \<and> a ! 1 div 64 = 2)"

definition IsLinkLocalMulticast :: "ip \<Rightarrow> bool" where
  "IsLinkLocalMulticast a = (case To4 a of
     Some v \<Rightarrow> v ! 0 = 224 \<and> v ! 1 = 0 \<and> v ! 2 = 0
   | None \<Rightarrow> length a = 16 \<and> a ! 0 = 255 \<and> a ! 1 mod 16 = 2)"

definition IsUnspecified :: "ip \<Rightarrow> bool" where
  "IsUnspecified a = (case To4 a of Some v \<Rightarrow> v = [0, 0, 0, 0] | None \<Rightarrow> a = replicate 16 0)"

definition isPrivateIP :: "ip \<Rightarrow> bool" where
  "isPrivateIP a \<longleftrightarrow> IsLoopback a \<or> IsPrivate a \<or> IsLinkLocalUnicast a \<or> IsLinkLocalMulticast a \<or> IsUnspecified a"

section \<open>The client\<close>

record HTTPClient =
  ht_maxRetries :: int
  ht_circuitOpen :: bool
  ht_failureCount :: int
  ht_allowedHosts :: "string list"

record 'q client_lib =
  cb_Parse :: "string \<Rightarrow> (string \<times> string) option"
  cb_ParseIP :: "string \<Rightarrow> ip option"
  cb_NewRequest :: "string \<Rightarrow> string \<Rightarrow> (string, 'q) result"

definition WithAllowedHosts :: "string list \<Rightarrow> HTTPClient \<Rightarrow> HTTPClient" where
  "WithAllowedHosts hosts h =
     h\<lparr>ht_allowedHosts := fold (\<lambda>host hs. let normalized = ToLower (TrimSpace host) in
        if normalized \<noteq> [] then List.insert normalized hs else hs) hosts (ht_allowedHosts h)\<rparr>"

definition NewClient :: "(HTTPClient \<Rightarrow> HTTPClient) list \<Rightarrow> HTTPClient" where
  "NewClient options = fold (\<lambda>option1 h. option1 h) options
     \<lparr>ht_maxRetries = 2, ht_circuitOpen = False, ht_failureCount = 0, ht_allowedHosts = []\<rparr>"

text \<open>The error, if any.\<close>

definition validateURL :: "'q client_lib \<Rightarrow> HTTPClient \<Rightarrow> string \<Rightarrow> string option" where
  "validateURL lib h rawURL =
     (case cb_Parse lib rawURL of
        None \<Rightarrow> Some ''parse''
      | Some (scheme, hostname) \<Rightarrow>
          if scheme \<noteq> ''http'' \<and> scheme \<noteq> ''https'' then Some ''unsupported URL scheme''
          else let host = ToLower hostname in
            if host = [] then Some ''URL host is required''
            else if 0 < length (ht_allowedHosts h) \<and> host \<notin> set (ht_allowedHosts h) then Some ''URL host is not allowed''
            else case cb_ParseIP lib host of
              Some a \<Rightarrow> if isPrivateIP a then Some ''private IP URL host is not allowed'' else None
            | None \<Rightarrow> None)"

definition NewRequest :: "'q client_lib \<Rightarrow> HTTPClient \<Rightarrow> string \<Rightarrow> string \<Rightarrow> (string, 'q) result" where
  "NewRequest lib h verb rawURL =
     (case validateURL lib h rawURL of Some e \<Rightarrow> Inl e | None \<Rightarrow> cb_NewRequest lib verb rawURL)"

section \<open>Retries\<close>

text \<open>
  \<open>tr_Do\<close> sends the request and gives status and response or an error; \<open>tr_Wait\<close> waits and gives
  the error of the context if that ended first.
\<close>

record ('p, 'w) transport =
  tr_Do :: "('w, string, int \<times> 'p) sop"
  tr_CloseBody :: "'p \<Rightarrow> 'w \<Rightarrow> 'w"
  tr_Wait :: "duration \<Rightarrow> 'w \<Rightarrow> string option \<times> 'w"

datatype 'p outcome = Answered 'p | Cancelled string | Exhausted "string option"

definition retried :: "string \<Rightarrow> bool" where
  "retried verb \<longleftrightarrow> verb = ''GET'' \<or> verb = ''HEAD'' \<or> verb = ''OPTIONS''"

fun attempts :: "('p, 'w) transport \<Rightarrow> string \<Rightarrow> nat \<Rightarrow> nat \<Rightarrow> string option \<Rightarrow> 'w \<Rightarrow> 'p outcome \<times> 'w" where
  "attempts tr verb attempt 0 lastErr w = (Exhausted lastErr, w)"
| "attempts tr verb attempt (Suc n) lastErr w =
     (let again = (\<lambda>lastErr w1. if \<not> retried verb then (Exhausted lastErr, w1)
            else case tr_Wait tr (int (attempt + 1) * (100 * Millisecond)) w1 of
              (Some e, w2) \<Rightarrow> (Cancelled e, w2)
            | (None, w2) \<Rightarrow> attempts tr verb (attempt + 1) n lastErr w2)
      in case tr_Do tr w of
        (Inr (status, resp), w1) \<Rightarrow> if status < 500 then (Answered resp, w1) else again None (tr_CloseBody tr resp w1)
      | (Inl e, w1) \<Rightarrow> again (Some e) w1)"

text \<open>A request is \<open>None\<close> without a URL, else its method and the text of its URL.\<close>

definition Do :: "'q client_lib \<Rightarrow> ('p, 'w) transport \<Rightarrow> HTTPClient \<Rightarrow> (string \<times> string) option \<Rightarrow> 'w \<Rightarrow>
    ((string, 'p) result \<times> HTTPClient) \<times> 'w" where
  "Do lib tr h req w =
     (if ht_circuitOpen h then ((Inl ''circuit breaker open'', h), w)
      else case req of
        None \<Rightarrow> ((Inl ''request URL is required'', h), w)
      | Some (verb, url) \<Rightarrow>
          (case validateURL lib h url of
             Some e \<Rightarrow> ((Inl e, h), w)
           | None \<Rightarrow>
               (case attempts tr verb 0 (nat (ht_maxRetries h + 1)) None w of
                  (Answered resp, w1) \<Rightarrow> ((Inr resp, h\<lparr>ht_failureCount := 0\<rparr>), w1)
                | (Cancelled e, w1) \<Rightarrow> ((Inl e, h), w1)
                | (Exhausted lastErr, w1) \<Rightarrow>
                    let h1 = h\<lparr>ht_failureCount := ht_failureCount h + 1\<rparr>;
                        h2 = (if 5 \<le> ht_failureCount h1 then h1\<lparr>ht_circuitOpen := True\<rparr> else h1)
                    in ((Inl (case lastErr of None \<Rightarrow> ''request failed'' | Some e \<Rightarrow> e), h2), w1))))"

text \<open>What the goroutine does thirty seconds after the breaker opened.\<close>

definition half_open :: "HTTPClient \<Rightarrow> HTTPClient" where
  "half_open h = h\<lparr>ht_failureCount := 0, ht_circuitOpen := False\<rparr>"

section \<open>What is sent\<close>

lemma attempts_sent:
  assumes "attempts tr verb a n lastErr w = (r, w')"
    and "\<And>w r w'. tr_Do tr w = (r, w') \<Longrightarrow> sent w' = Suc (sent w)"
    and "\<And>p w. sent (tr_CloseBody tr p w) = sent w" and "\<And>d w. sent (snd (tr_Wait tr d w)) = sent w"
  shows "sent w \<le> sent w' \<and> sent w' \<le> sent w + (if retried verb then n else min 1 n)"
  using assms(1)
proof (induction n arbitrary: a lastErr w r w')
  case 0
  then show ?case by simp
next
  case (Suc n)
  obtain q w1 where q: "tr_Do tr w = (q, w1)" by (cases "tr_Do tr w")
  have s1: "sent w1 = Suc (sent w)" by (rule assms(2) [OF q])
  define again where "again = (\<lambda>lastErr w1. if \<not> retried verb then (Exhausted lastErr, w1)
            else case tr_Wait tr (int (a + 1) * (100 * Millisecond)) w1 of
              (Some e, w2) \<Rightarrow> (Cancelled e, w2)
            | (None, w2) \<Rightarrow> attempts tr verb (a + 1) n lastErr w2)"
  have rec: "sent v \<le> sent v' \<and> sent v' \<le> sent v + (if retried verb then n else 0)" if "again l v = (x, v')" for l v x v'
  proof -
    obtain c v2 where c: "tr_Wait tr (int (a + 1) * (100 * Millisecond)) v = (c, v2)" by (cases "tr_Wait tr (int (a + 1) * (100 * Millisecond)) v")
    have "sent v2 = sent v" using assms(4) [of "int (a + 1) * (100 * Millisecond)" v] unfolding c by simp
    with that c Suc.IH [of "a + 1" l v2] show ?thesis by (auto simp: again_def split: if_splits option.splits)
  qed
  have run: "(r, w') = (case q of Inr (status, resp) \<Rightarrow> if status < 500 then (Answered resp, w1) else again None (tr_CloseBody tr resp w1)
      | Inl e \<Rightarrow> again (Some e) w1)"
    using Suc.prems unfolding attempts.simps Let_def again_def [symmetric] q by simp
  show ?case
  proof (cases q)
    case (Inl e)
    with run rec [of "Some e" w1 r w'] s1 show ?thesis by (auto split: if_splits)
  next
    case (Inr p)
    then obtain status resp where p: "q = Inr (status, resp)" by (cases p) auto
    show ?thesis
    proof (cases "status < 500")
      case True
      with run p s1 show ?thesis by auto
    next
      case False
      with run p rec [of None "tr_CloseBody tr resp w1" r w'] s1 assms(3) show ?thesis by (auto split: if_splits)
    qed
  qed
qed

text \<open>
  A call sends nothing while the breaker is open or when the URL is refused: its host is then
  missing, not in the list of allowed hosts, or the text of a private address. It sends at most
  three times, and a request that is not GET, HEAD or OPTIONS only once.
\<close>

lemma Do_guarded:
  assumes "Do lib tr h req w = ((r, h'), w')" and "ht_maxRetries h = 2"
    and "\<And>w r w'. tr_Do tr w = (r, w') \<Longrightarrow> sent w' = Suc (sent w)"
    and "\<And>p w. sent (tr_CloseBody tr p w) = sent w" and "\<And>d w. sent (snd (tr_Wait tr d w)) = sent w"
  shows "sent w' \<le> sent w + 3 \<and>
    (sent w' \<noteq> sent w \<longrightarrow> (\<exists>verb url. req = Some (verb, url) \<and> \<not> ht_circuitOpen h \<and> validateURL lib h url = None \<and>
       (\<not> retried verb \<longrightarrow> sent w' = Suc (sent w))))"
proof (cases "ht_circuitOpen h \<or> req = None")
  case True
  with assms(1) have "w' = w" by (auto simp: Do_def split: if_splits)
  then show ?thesis by simp
next
  case False
  then obtain verb url where req: "req = Some (verb, url)" by auto
  show ?thesis
  proof (cases "validateURL lib h url")
    case None
    obtain x w1 where x: "attempts tr verb 0 (nat (ht_maxRetries h + 1)) None w = (x, w1)"
      by (cases "attempts tr verb 0 (nat (ht_maxRetries h + 1)) None w")
    have "w' = w1" using assms(1) False req None x by (auto simp: Do_def Let_def split: outcome.splits)
    moreover have "sent w \<le> sent w1 \<and> sent w1 \<le> sent w + (if retried verb then 3 else 1)"
      using attempts_sent [OF x assms(3-5)] assms(2) by (auto split: if_splits)
    ultimately show ?thesis using False req None by (auto split: if_splits)
  qed (use assms(1) False req in \<open>auto simp: Do_def\<close>)
qed

lemma validateURL_None:
  assumes "validateURL lib h url = None"
  shows "\<exists>scheme host. cb_Parse lib url = Some (scheme, host) \<and> scheme \<in> {''http'', ''https''} \<and> ToLower host \<noteq> [] \<and>
    (ht_allowedHosts h \<noteq> [] \<longrightarrow> ToLower host \<in> set (ht_allowedHosts h)) \<and>
    (\<forall>a. cb_ParseIP lib (ToLower host) = Some a \<longrightarrow> \<not> isPrivateIP a)"
  using assms by (auto simp: validateURL_def Let_def split: option.splits prod.splits if_splits)

text \<open>The breaker is open exactly from the fifth failure in a row until it is reset.\<close>

definition breaker_ok :: "HTTPClient \<Rightarrow> bool" where
  "breaker_ok h \<longleftrightarrow> 0 \<le> ht_failureCount h \<and> ht_failureCount h \<le> 5 \<and> ht_circuitOpen h = (ht_failureCount h = 5)"

lemma breaker_keeps:
  "breaker_ok h \<Longrightarrow> Do lib tr h req w = ((r, h'), w') \<Longrightarrow> breaker_ok h'"
  "breaker_ok (half_open h)"
  by (auto simp: breaker_ok_def Do_def half_open_def Let_def split: if_splits option.splits prod.splits outcome.splits)

lemma five_failures:
  assumes "breaker_ok h" and "ht_failureCount h = 4" and "Do lib tr h (Some (verb, url)) w = ((Inl e, h'), w')"
    and "validateURL lib h url = None" and "\<And>d w. fst (tr_Wait tr d w) = None" and "ht_maxRetries h = 2"
  shows "Do lib tr h' req v = ((Inl ''circuit breaker open'', h'), v)"
proof -
  have no: "fst (attempts tr verb a n l w) \<noteq> Cancelled x" for a n l w x
    using assms(5) by (induction n arbitrary: a l w) (auto simp: Let_def split: prod.splits sum.splits option.splits if_splits, (metis fst_conv option.distinct(1))+)
  obtain q w1 where q: "attempts tr verb 0 (nat (ht_maxRetries h + 1)) None w = (q, w1)"
    by (cases "attempts tr verb 0 (nat (ht_maxRetries h + 1)) None w")
  have "q \<noteq> Cancelled x" for x using no [of 0 "nat (ht_maxRetries h + 1)" None w x] q by simp
  then have "ht_circuitOpen h'"
    using assms(1-4) q by (auto simp: Do_def breaker_ok_def Let_def split: outcome.splits if_splits)
  then show ?thesis by (simp add: Do_def)
qed

end
