(* ===== verification/Outbox.thy ===== *)
theory Outbox
  imports Http GoTime TicketRepo
begin

text \<open>
  Packages that the program carries but does not call: the outbox worker (infrastructure/worker),
  the transaction helper (infrastructure/transaction), the cache (infrastructure/cache) and the
  ownership checks (infrastructure/authz). Statements, Redis and the handlers of the worker are
  parameters.
\<close>

section \<open>Transactions\<close>

record 'w tx_lib =
  tx_Begin :: "('w, unit) stmt"
  tx_Commit :: "('w, unit) stmt"
  tx_Rollback :: "('w, unit) stmt"

definition WithTransaction :: "'w tx_lib \<Rightarrow> ('w, db_error, 'a) sop \<Rightarrow> ('w, db_error, 'a) sop" where
  "WithTransaction tx fn =
     sbind (tx_Begin tx) (\<lambda>_ w.
       (case fn w of
          (Inl e, w1) \<Rightarrow> (Inl e, snd (tx_Rollback tx w1))
        | (Inr x, w1) \<Rightarrow> (case tx_Commit tx w1 of (Inl e, w2) \<Rightarrow> (Inl e, w2) | (Inr _, w2) \<Rightarrow> (Inr x, w2))))"

section \<open>The outbox\<close>

record OutboxEvent =
  ob_ID :: uuid
  ob_Topic :: string
  ob_Payload :: string
  ob_Attempts :: int
  ob_AvailableAt :: instant
  ob_ProcessedAt :: "instant option"
  ob_CreatedAt :: instant
  ob_UpdatedAt :: instant

text \<open>\<open>os_FindPending\<close> locks the rows it gives until the end of the transaction and skips locked ones.\<close>

record 'w outbox_store =
  os_tx :: "'w tx_lib"
  os_Create :: "OutboxEvent \<Rightarrow> ('w, unit) stmt"
  os_FindPending :: "int \<Rightarrow> ('w, OutboxEvent list) stmt"
  os_Processed :: "uuid \<Rightarrow> ('w, unit) stmt"
  os_Failed :: "uuid \<Rightarrow> instant \<Rightarrow> ('w, unit) stmt"

definition Enqueue :: "'w outbox_store \<Rightarrow> OutboxEvent \<Rightarrow> ('w, db_error, unit) sop" where
  "Enqueue st ev = os_Create st ev"

definition FetchPending :: "'w outbox_store \<Rightarrow> int \<Rightarrow> ('w, db_error, OutboxEvent list) sop" where
  "FetchPending st limit = WithTransaction (os_tx st) (os_FindPending st limit)"

definition MarkProcessed :: "'w outbox_store \<Rightarrow> uuid \<Rightarrow> ('w, db_error, unit) sop" where
  "MarkProcessed st i = os_Processed st i"

definition MarkFailed :: "'w outbox_store \<Rightarrow> ('w \<Rightarrow> instant) \<Rightarrow> uuid \<Rightarrow> duration \<Rightarrow> ('w, db_error, unit) sop" where
  "MarkFailed st now i delay w = os_Failed st i (now w + delay) w"

text \<open>A handler gives its error if there is one, and whether that is \<open>context.Canceled\<close>.\<close>

type_synonym 'w outbox_handler = "OutboxEvent \<Rightarrow> 'w \<Rightarrow> (bool \<times> string) option \<times> 'w"

record 'w OutboxWorker =
  ow_repository :: "'w outbox_store"
  ow_handlers :: "string \<Rightarrow> 'w outbox_handler option"
  ow_interval :: duration
  ow_batchSize :: int

definition NewOutboxWorker :: "'w outbox_store \<Rightarrow> (string \<Rightarrow> 'w outbox_handler option) \<Rightarrow> 'w OutboxWorker" where
  "NewOutboxWorker st hs = \<lparr>ow_repository = st, ow_handlers = hs, ow_interval = Second, ow_batchSize = 10\<rparr>"

fun process_events :: "'w OutboxWorker \<Rightarrow> ('w \<Rightarrow> instant) \<Rightarrow> OutboxEvent list \<Rightarrow> 'w \<Rightarrow> string option \<times> 'w" where
  "process_events ow now [] w = (None, w)"
| "process_events ow now (ev # evs) w =
     (case ow_handlers ow (ob_Topic ev) of
        None \<Rightarrow> process_events ow now evs (snd (MarkFailed (ow_repository ow) now (ob_ID ev) Hour w))
      | Some handler1 \<Rightarrow>
          (case handler1 ev w of
             (Some (cancelled, e), w1) \<Rightarrow>
               if cancelled then (Some e, w1)
               else process_events ow now evs
                 (snd (MarkFailed (ow_repository ow) now (ob_ID ev) (wrap64 ((ob_Attempts ev + 1) * Minute)) w1))
           | (None, w1) \<Rightarrow> process_events ow now evs (snd (MarkProcessed (ow_repository ow) (ob_ID ev) w1))))"

text \<open>The error, if any: of the database or of the context.\<close>

definition ProcessOnce :: "'w OutboxWorker \<Rightarrow> ('w \<Rightarrow> instant) \<Rightarrow> 'w \<Rightarrow> (db_error + string) option \<times> 'w" where
  "ProcessOnce ow now w =
     (case FetchPending (ow_repository ow) (ow_batchSize ow) w of
        (Inl e, w1) \<Rightarrow> (Some (Inl e), w1)
      | (Inr events, w1) \<Rightarrow> (case process_events ow now events w1 of (e, w2) \<Rightarrow> (map_option Inr e, w2)))"

text \<open>The loop of the worker: at each tick, with what happened in between, one round.\<close>

fun StartWorker :: "'w OutboxWorker \<Rightarrow> ('w \<Rightarrow> instant) \<Rightarrow> ('w \<Rightarrow> 'w) list \<Rightarrow> 'w \<Rightarrow> 'w" where
  "StartWorker ow now [] w = w"
| "StartWorker ow now (gap # gaps) w = StartWorker ow now gaps (snd (ProcessOnce ow now (gap w)))"

section \<open>Nothing is dropped\<close>

text \<open>
  An event counts as done only after its handler reported success: whatever statements fail, a
  round of the worker leaves every other event pending, so each event is handled at least once.
  The laws: handlers and failing updates do not mark a row, \<open>os_Processed\<close> marks at most the row
  with the id.
\<close>

lemma process_events_done:
  assumes "\<And>ev h v. ow_handlers ow (ob_Topic ev) = Some h \<Longrightarrow> done_ids (snd (h ev v)) = done_ids v"
    and "\<And>i t v. done_ids (snd (os_Failed (ow_repository ow) i t v)) = done_ids v"
    and "\<And>i v. done_ids v \<subseteq> done_ids (snd (os_Processed (ow_repository ow) i v)) \<and>
      done_ids (snd (os_Processed (ow_repository ow) i v)) \<subseteq> insert i (done_ids v)"
    and "process_events ow now evs w = (e, w')"
  shows "done_ids w \<subseteq> done_ids w' \<and>
    (\<forall>i \<in> done_ids w'. i \<in> done_ids w \<or> (\<exists>ev \<in> set evs. \<exists>h v v'. ob_ID ev = i \<and> ow_handlers ow (ob_Topic ev) = Some h \<and> h ev v = (None, v')))"
  using assms(4)
proof (induction evs arbitrary: w)
  case Nil
  then show ?case by simp
next
  case (Cons ev evs)
  have failed: "done_ids (snd (MarkFailed (ow_repository ow) now i d v)) = done_ids v" for i d v
    using assms(2) by (simp add: MarkFailed_def)
  show ?case
  proof (cases "ow_handlers ow (ob_Topic ev)")
    case None
    with Cons.prems Cons.IH [of "snd (MarkFailed (ow_repository ow) now (ob_ID ev) Hour w)"] failed show ?thesis by auto
  next
    case (Some h)
    obtain q w1 where q: "h ev w = (q, w1)" by (cases "h ev w")
    have same: "done_ids w1 = done_ids w" using assms(1) [OF Some, of w] q by simp
    show ?thesis
    proof (cases q)
      case None
      with Cons.prems Some q
      have run: "process_events ow now evs (snd (MarkProcessed (ow_repository ow) (ob_ID ev) w1)) = (e, w')" by simp
      have grow: "done_ids w \<subseteq> done_ids (snd (MarkProcessed (ow_repository ow) (ob_ID ev) w1))"
        "done_ids (snd (MarkProcessed (ow_repository ow) (ob_ID ev) w1)) \<subseteq> insert (ob_ID ev) (done_ids w)"
        using assms(3) [of w1 "ob_ID ev"] same by (auto simp: MarkProcessed_def)
      from Cons.IH [OF run] grow Some q None show ?thesis by fastforce
    next
      case err: (Some p)
      obtain c x where p: "p = (c, x)" by (cases p)
      show ?thesis
      proof (cases c)
        case True
        with Cons.prems Some q err p same show ?thesis by auto
      next
        case False
        with Cons.prems Some q err p
        have "process_events ow now evs (snd (MarkFailed (ow_repository ow) now (ob_ID ev) (wrap64 ((ob_Attempts ev + 1) * Minute)) w1)) = (e, w')"
          by simp
        from Cons.IH [OF this] failed same show ?thesis by auto
      qed
    qed
  qed
qed

section \<open>The cache\<close>

datatype cache_error = ErrCacheMiss | CacheFailed string

definition NoopGet :: "string \<Rightarrow> ('w, cache_error, string) sop" where
  "NoopGet key = sfail ErrCacheMiss"

definition NoopSet :: "string \<Rightarrow> string \<Rightarrow> duration \<Rightarrow> ('w, cache_error, unit) sop" where
  "NoopSet key v ttl = sret ()"

definition NoopDelete :: "string list \<Rightarrow> ('w, cache_error, unit) sop" where
  "NoopDelete ks = sret ()"

text \<open>\<open>rk_Get\<close> gives \<open>None\<close> for a key that is not there.\<close>

record 'w redis_kv =
  rk_Get :: "string \<Rightarrow> ('w, string, string option) sop"
  rk_Set :: "string \<Rightarrow> string \<Rightarrow> duration \<Rightarrow> ('w, string, unit) sop"
  rk_Del :: "string list \<Rightarrow> ('w, string, unit) sop"

definition cache_result :: "(string, 'a) result \<times> 'w \<Rightarrow> (cache_error, 'a) result \<times> 'w" where
  "cache_result p = (case p of (Inl e, w) \<Rightarrow> (Inl (CacheFailed e), w) | (Inr x, w) \<Rightarrow> (Inr x, w))"

definition CacheGet :: "'w redis_kv \<Rightarrow> string \<Rightarrow> ('w, cache_error, string) sop" where
  "CacheGet rk key w =
     (case rk_Get rk key w of
        (Inl e, w1) \<Rightarrow> (Inl (CacheFailed e), w1) | (Inr None, w1) \<Rightarrow> (Inl ErrCacheMiss, w1) | (Inr (Some v), w1) \<Rightarrow> (Inr v, w1))"

definition CacheSet :: "'w redis_kv \<Rightarrow> string \<Rightarrow> string \<Rightarrow> duration \<Rightarrow> ('w, cache_error, unit) sop" where
  "CacheSet rk key v ttl w = cache_result (rk_Set rk key v ttl w)"

definition CacheDelete :: "'w redis_kv \<Rightarrow> string list \<Rightarrow> ('w, cache_error, unit) sop" where
  "CacheDelete rk ks w = (if length ks = 0 then (Inr (), w) else cache_result (rk_Del rk ks w))"

section \<open>Ownership\<close>

definition ErrForbidden :: string where "ErrForbidden = ''forbidden''"

definition RequireOwnership :: "uuid \<Rightarrow> uuid \<Rightarrow> string option" where
  "RequireOwnership actorID ownerID =
     (if actorID = NilUUID \<or> ownerID = NilUUID \<or> actorID \<noteq> ownerID then Some ErrForbidden else None)"

definition RequireRole :: "string \<Rightarrow> string list \<Rightarrow> string option" where
  "RequireRole role allowed = (if list_ex (\<lambda>item. role = item) allowed then None else Some ErrForbidden)"

end
