(* ===== verification/Spec2Isabelle.thy ===== *)
theory Spec2Isabelle
  imports Startup BotRun AuthRun HttpClient Outbox
begin

text \<open>
  A verification library for the marketplace bot of this repository: a Go program that serves
  an HTTP API and a Discord bot over one PostgreSQL database. Everything here is a translation
  of the source into functions and step relations of HOL, together with what is proved of it.

  \<^bold>\<open>The program and how its parts interact.\<close> \<open>main.go\<close> reads the configuration, opens the
  connections, wires the services (\<open>boot/boot.go\<close>), serves the router (\<open>router/router.go\<close>) and, when
  it is configured, connects the bot (\<open>modules/discordbot\<close>). Both the HTTP handlers and the bot
  call the same two services: the ticket service (\<open>modules/ticket/service.go\<close>), which applies the
  rules of the ticket package to records that the repository loads and stores, and the
  membership service (\<open>modules/membership/service.go\<close>), which keeps the tier of every guild
  member. The API also has accounts, sign-in, an audit trail, uploads and health checks. State
  that outlives a request is in the database, in Discord, in three files (the credential of the
  revenue service, the panel, the process lock), and in the caches and pending confirmations of
  the bot process.

  \<^bold>\<open>Conventions.\<close> A Go pair (value, error) is a \<open>result\<close>; a method on a receiver is a
  function from the state to a result and the new state (\<open>sop\<close>); a Go panic is \<open>None\<close>. A string
  is a list of bytes. \<open>int\<close> is 64 bits wide, and where a sum or product can leave that range the
  wrap-around is written out (\<open>wrap64\<close>). A Go map is an association list (\<open>gomap\<close>), and a
  function that ranges over one takes the order of the visit as an argument where it could
  matter. Code that is not in the repository is a parameter: a record of operations over an
  unknown world \<open>'w\<close>, any of which may fail. What the program relies on of such an operation is
  a locale, interpreted on a concrete instance that also serves the witnesses.

  \<^bold>\<open>Go itself.\<close> \<open>GoText\<close> (strings, runes, numbers as text), \<open>GoRegex\<close> and \<open>GoUnicode\<close> (the
  regular expressions of the program with an executable matcher), \<open>GoTime\<close> (instants, calendar,
  the layouts the program uses), \<open>GoBase64\<close>. \<open>Prelude\<close> has the shared notions, the collections of
  simplification rules and the lemmas on lists, maps and results.

  \<^bold>\<open>Ticket rules\<close> (\<open>modules/ticket\<close>). \<open>Catalog\<close> (\<open>catalog.go\<close>), \<open>Errors\<close> (\<open>errors.go\<close>), \<open>Safety\<close>
  (\<open>safety.go\<close>), \<open>Workflow\<close> (\<open>workflow.go\<close>), \<open>TicketId\<close> (\<open>id.go\<close>), \<open>TicketRecord\<close> (\<open>record.go\<close>) and
  \<open>Withdrawal\<close> (\<open>withdrawal.go\<close>) have the definitions in the order of the files. Their lemmas give
  the exact result of every operation on every branch, the shape of the status graphs, the
  round trips of ids and amounts, and what the detection of card numbers really computes.
  \<open>Lifecycle\<close> makes the operations a step relation on records and proves by rule induction what
  holds of every record that can come about.

  \<^bold>\<open>Ticket storage and service.\<close> \<open>TicketModel\<close> translates between rows and records
  (\<open>modules/primitive/ticket.go\<close>, \<open>repository.go\<close>); \<open>Store\<close> has the statements sent to PostgreSQL as
  the locale \<open>store_laws\<close> and an instance with the indexes and checks of the migrations;
  \<open>TicketRepo\<close> is \<open>repository.go\<close> over it and states the contract \<open>ticket_repo\<close>, which every lawful
  store gives; \<open>TicketService\<close> is \<open>service.go\<close> over that contract. \<open>Desk\<close> has the abstract
  specification of the ticket desk (a set of records, a ledger, a counter and the steps it may
  take), the simulation that every request is one such step, and the invariant of the desk.
  \<open>TicketHttp\<close> is \<open>handler.go\<close> with every route and its status codes.

  \<^bold>\<open>Members.\<close> \<open>Membership\<close> (\<open>roles.go\<close>, \<open>verify.go\<close>) has the roles and decisions; \<open>MemberService\<close>
  (\<open>service.go\<close>, \<open>handler.go\<close>) the stored members with the contract \<open>member_repo\<close>; \<open>BotMembers\<close>
  (\<open>discordbot/members.go\<close>) the paging of the guild and the reconciliation of stored tiers with
  the roles in Discord; \<open>GuildSync\<close> (\<open>rolesync.go\<close>, \<open>guildsync.go\<close>, \<open>automod.go\<close>) the commands that
  build the server, over the locale \<open>builder_laws\<close>.

  \<^bold>\<open>The bot\<close> (\<open>modules/discordbot\<close>). \<open>BotText\<close> and \<open>BotUi\<close> (\<open>ops.go\<close>, \<open>ui.go\<close>, \<open>commands.go\<close>) have its texts,
  panels and forms; \<open>BotForms\<close> relates the forms to the checks of the service; \<open>Saas\<close>
  (\<open>saas_token.go\<close>) the rotating credential; \<open>BotOps\<close> (\<open>bot.go\<close>, \<open>ops.go\<close>) the state of the process and
  its small operations; \<open>Bot\<close> (\<open>interactions.go\<close>) every command, button, menu and form.
  \<open>BotDesk\<close>, \<open>BotGate\<close> and \<open>BotWorld\<close> show that an interaction reaches the tickets by at most one
  request that the desk allows, and which confirmation a payment needs; the locales \<open>quiet_bot\<close>
  and \<open>ticket_bot\<close> state what separates the tables from the rest of the world, and are
  interpreted on the world that has both. \<open>BotRun\<close> is the step relation of whole runs: events of
  the bot, requests of the API, and anything the outside does. \<open>BotProcess\<close> is the life of the
  process (\<open>New\<close>, \<open>Open\<close>, \<open>Close\<close>) and a step relation on any number of processes that share the
  lock of \<open>lock.go\<close>.

  \<^bold>\<open>The HTTP side.\<close> \<open>Http\<close> has the responses, the middlewares and the token checks
  (\<open>infrastructure/httplib\<close>, \<open>middleware\<close>, \<open>jwt\<close>); \<open>Paging\<close> the cursors (\<open>pagination.go\<close>); \<open>Accounts\<close>
  and \<open>AccountPages\<close> the directory and the audit trail (\<open>modules/user\<close>, \<open>modules/audit-log\<close>) with the
  locale \<open>keyset\<close>, in which a client's walk through the pages is proved complete; \<open>Auth\<close> and
  \<open>AuthRun\<close> sign-in (\<open>modules/auth\<close>), the latter with calls interleaved statement by statement;
  \<open>Storage\<close> the files and uploads (\<open>infrastructure/storage\<close>, \<open>modules/upload\<close>); \<open>RateLimits\<close> the limiters
  and health checks (\<open>infrastructure/limiter\<close>, \<open>modules/health\<close>).

  \<^bold>\<open>The program.\<close> \<open>Config\<close> (\<open>infrastructure/config\<close>), \<open>Boot\<close> (\<open>infrastructure/database\<close>, \<open>redis\<close>,
  \<open>boot\<close>, \<open>discordbot/lock.go\<close>), \<open>Server\<close> (\<open>router\<close>: every route with its middlewares over the wired
  services) and \<open>Startup\<close> (\<open>main.go\<close>). \<open>HttpClient\<close> and \<open>Outbox\<close> hold packages that the program
  carries but does not call: the guarded HTTP client, the outbox worker, the transaction helper,
  the cache and the ownership checks.
\<close>

text \<open>
  \<^bold>\<open>Loops and bounds.\<close> Recursion is structural wherever the loop runs over data. \<open>itoa_loop\<close>,
  \<open>saas_loop\<close> (at most one retry), \<open>picker_rows\<close> and \<open>segs\<close> have measures. The loop over the pages
  of the guild ends only if Discord makes progress, so \<open>guild_pages\<close> is a partial function, and
  \<open>guild_members_complete\<close> proves that it returns, under the documented behaviour of the call.
  The walk of a client through the pages of a list has a bound on the number of requests: one
  more than there are rows, which is enough because a page that leads on has at least one row.
  The attempts of the HTTP client recurse on the tries that are left.

  \<^bold>\<open>Order of events.\<close> The desk, the bot and the API are runs of events each handled from start
  to end, and between two events the outside may change its own state at will. A mutex of the
  code makes this the true order for the credential, the confirmations and the limiter. Where
  requests overlap in a way that matters they are interleaved: sign-in statement by statement
  (\<open>AuthRun\<close>), bot processes call by call (\<open>BotProcess\<close>). For tickets the service takes no lock
  between reading and writing, so what is proved of the limit of open tickets holds for
  requests one after the other.

  \<^bold>\<open>Not modelled.\<close> The welcome image (\<open>discordbot/welcome.go\<close>), which only draws; logging
  (\<open>infrastructure/log\<close>, the middleware \<open>AccessLog\<close>) and metrics (\<open>infrastructure/observability\<close>),
  which only write; the validator (\<open>infrastructure/validator\<close>), a wrapper whose answers are
  parameters; \<open>DrainAndClose\<close>, which reads a body to its end. The libraries are parameters: gin
  (matching of paths, decoding of JSON, CORS, compression, trusted proxies), gorm and the
  drivers, Redis, discordgo with its goroutines, bcrypt, SHA-256, the JWT library, the file
  system, the network and the clock. Secrets are equal when their texts are; nothing is said of
  the strength of a hash or a signature. Floating point rates are rationals.
\<close>

end
